(* ===== verification/Prelude.thy ===== *)
theory Prelude
  imports Complex_Main "HOL-Library.AList"
begin

text \<open>
  The shared vocabulary of the development.

  \<^item> Go strings are byte strings (\<^typ>\<open>string\<close>); the helpers of package \<open>strings\<close> that the
    engine calls are here (\<open>TrimSpace\<close>, \<open>HasPrefix\<close>, \<open>TrimPrefix\<close>, \<open>HasSuffix\<close>,
    \<open>LastIndex\<close>). White space is ASCII white space.
  \<^item> A UUID is its canonical text, so \<open>uuid.String()\<close> is the identity. \<open>uuid.New()\<close> is code
    outside the repository: every operation that draws a UUID takes it as an argument.
  \<^item> A Go \<open>map[string]interface{}\<close> of process variables is an association list with
    distinct keys; reading is \<^const>\<open>map_of\<close>, writing is \<^const>\<open>AList.update\<close>.
  \<^item> A Go pair \<open>(value, error)\<close> is a sum, \<open>Inl\<close> the error. A database transaction that
    returns an error rolls back, so a transaction is a function into \<open>error + db\<close>.
\<close>

named_theorems go_strings \<open>definitions of the Go string helpers\<close>
named_theorems store_defs \<open>definitions of the single-statement table operations\<close>
named_theorems frame_simps \<open>what an operation leaves unchanged\<close>

subsection \<open>Strings\<close>

definition is_space :: "char \<Rightarrow> bool" where
  "is_space c \<longleftrightarrow> c = CHR '' '' \<or> (9 \<le> (of_char c :: nat) \<and> (of_char c :: nat) \<le> 13)"

definition trim_left :: "string \<Rightarrow> string" where
  "trim_left s = dropWhile is_space s"

definition trim_space :: "string \<Rightarrow> string" where
  "trim_space s = rev (trim_left (rev (trim_left s)))"

fun has_prefix :: "string \<Rightarrow> string \<Rightarrow> bool" where
  "has_prefix s [] = True"
| "has_prefix [] (p # ps) = False"
| "has_prefix (c # cs) (p # ps) = (c = p \<and> has_prefix cs ps)"

definition has_suffix :: "string \<Rightarrow> string \<Rightarrow> bool" where
  "has_suffix s p = has_prefix (rev s) (rev p)"

definition trim_prefix :: "string \<Rightarrow> string \<Rightarrow> string" where
  "trim_prefix s p = (if has_prefix s p then drop (length p) s else s)"

text \<open>The text after the last occurrence of a character: \<open>s[strings.LastIndex(s, c)+1:]\<close>
  (all of \<open>s\<close> when there is none, since \<open>LastIndex\<close> is then -1).\<close>

definition after_last :: "char \<Rightarrow> string \<Rightarrow> string" where
  "after_last c s = rev (takeWhile (\<lambda>x. x \<noteq> c) (rev s))"

text \<open>The fields of a string split at a character, as SQL's \<open>split_part\<close> and Go's
  \<open>strings.Split\<close> cut it.\<close>

fun split_on :: "char \<Rightarrow> string \<Rightarrow> string list" where
  "split_on c [] = [[]]"
| "split_on c (x # xs) =
     (if x = c then [] # split_on c xs
      else case split_on c xs of [] \<Rightarrow> [[x]] | f # fs \<Rightarrow> (x # f) # fs)"

text \<open>SQL \<open>split_part(s, c, n)\<close>, \<open>n\<close> from 1; the empty string past the last field.\<close>

definition split_part :: "string \<Rightarrow> char \<Rightarrow> nat \<Rightarrow> string" where
  "split_part s c n = (let fs = split_on c s in if 1 \<le> n \<and> n \<le> length fs then fs ! (n - 1) else [])"

text \<open>\<open>%d\<close> of a natural number.\<close>

definition digit :: "nat \<Rightarrow> char" where
  "digit n = char_of (48 + n)"

fun nat_dec :: "nat \<Rightarrow> string" where
  "nat_dec n = (if n < 10 then [digit n] else nat_dec (n div 10) @ [digit (n mod 10)])"

declare nat_dec.simps [simp del]

subsection \<open>Values, identifiers and results\<close>

type_synonym uuid = string

definition uuid_Nil :: uuid where
  "uuid_Nil = ''00000000-0000-0000-0000-000000000000''"

text \<open>Process variables are JSON documents; a JSON number is the exact value of its float64.\<close>

datatype json =
    JNull
  | JBool bool
  | JNum rat
  | JStr string
  | JList "json list"
  | JObj "(string \<times> json) list"

type_synonym vars = "(string \<times> json) list"

text \<open>\<open>m[k] = v\<close> for every entry of \<open>new\<close>, the loop of every merge in the engine.\<close>

definition merge_vars :: "vars \<Rightarrow> vars \<Rightarrow> vars" where
  "merge_vars old new = fold (\<lambda>(k, v) m. AList.update k v m) new old"

fun result_bind :: "'e + 'a \<Rightarrow> ('a \<Rightarrow> 'e + 'b) \<Rightarrow> 'e + 'b" where
  "result_bind (Inl e) f = Inl e"
| "result_bind (Inr a) f = f a"

text \<open>A Go loop that stops at the first error.\<close>

fun fold_result :: "('x \<Rightarrow> 's \<Rightarrow> 'e + 's) \<Rightarrow> 'x list \<Rightarrow> 's \<Rightarrow> 'e + 's" where
  "fold_result f [] s = Inr s"
| "fold_result f (x # xs) s = result_bind (f x s) (fold_result f xs)"

subsection \<open>Lemmas on strings\<close>

declare is_space_def [go_strings] trim_left_def [go_strings] trim_space_def [go_strings]
  has_suffix_def [go_strings] trim_prefix_def [go_strings]

lemma has_prefix_iff: "has_prefix s p \<longleftrightarrow> (\<exists>t. s = p @ t)"
  by (induction s p rule: has_prefix.induct) auto

lemma has_prefix_append [simp]: "has_prefix (p @ t) p"
  by (auto simp: has_prefix_iff)

lemma trim_prefix_append [simp]: "trim_prefix (p @ t) p = t"
  by (simp add: trim_prefix_def)

lemma split_on_no_sep: "c \<notin> set s \<Longrightarrow> split_on c s = [s]"
  by (induction s) auto

lemma split_on_append_sep:
  "c \<notin> set s \<Longrightarrow> split_on c (s @ c # t) = s # split_on c t"
  by (induction s) auto

lemma after_last_no_sep: "c \<notin> set s \<Longrightarrow> after_last c s = s"
  unfolding after_last_def by (subst takeWhile_eq_all_conv [THEN iffD2]) auto

lemma after_last_append_sep:
  assumes "c \<notin> set t"
  shows "after_last c (s @ c # t) = t"
proof -
  have "takeWhile (\<lambda>x. x \<noteq> c) (rev t @ c # rev s) = rev t"
    using assms by (subst takeWhile_append2) auto
  then show ?thesis by (simp add: after_last_def)
qed

subsection \<open>Lemmas on variables\<close>

lemma merge_vars_Nil [simp]: "merge_vars old [] = old"
  by (simp add: merge_vars_def)

lemma merge_vars_Cons [simp]:
  "merge_vars old ((k, v) # new) = merge_vars (AList.update k v old) new"
  by (simp add: merge_vars_def)

lemma map_of_merge_vars:
  "map_of (merge_vars old new) = map_of old ++ map_of (rev new)"
proof (induction new arbitrary: old)
  case Nil
  then show ?case by simp
next
  case (Cons p new)
  obtain k v where p: "p = (k, v)" by (cases p)
  have "map_of (merge_vars old (p # new)) = (map_of old)(k \<mapsto> v) ++ map_of (rev new)"
    using Cons.IH [of "AList.update k v old"] p by (simp add: update_conv' fun_upd_def)
  also have "\<dots> = map_of old ++ map_of (rev (p # new))"
    using p by (auto simp: map_add_def fun_eq_iff split: option.splits)
  finally show ?case .
qed

lemma map_of_rev_distinct: "distinct (map fst xs) \<Longrightarrow> map_of (rev xs) = map_of xs"
  by (metis map_of_inject_set rev_map distinct_rev set_rev)

text \<open>A Go map has distinct keys, so the order of the loop does not matter.\<close>

lemma map_of_merge_vars_distinct:
  "distinct (map fst new) \<Longrightarrow> map_of (merge_vars old new) = map_of old ++ map_of new"
  by (simp add: map_of_merge_vars map_of_rev_distinct)

lemma distinct_merge_vars [simp]:
  "distinct (map fst old) \<Longrightarrow> distinct (map fst (merge_vars old new))"
  by (induction new arbitrary: old) (auto simp: distinct_update split: prod.splits)

lemma merge_vars_eq_Nil_iff [simp]: "merge_vars old new = [] \<longleftrightarrow> old = [] \<and> new = []"
proof (induction new arbitrary: old)
  case Nil
  then show ?case by simp
next
  case (Cons p new)
  have "AList.update (fst p) (snd p) old \<noteq> []" by (cases old) auto
  with Cons show ?case by (cases p) auto
qed

lemma filter_update_other:
  "(\<And>v. \<not> Q (k, v)) \<Longrightarrow> filter Q (AList.update k v xs) = filter Q xs"
  by (induction xs) auto

text \<open>A table of variable maps, each with distinct names.\<close>

definition maps_wf :: "('k \<times> vars) list \<Rightarrow> bool" where
  "maps_wf xs \<longleftrightarrow> list_all (\<lambda>x. distinct (map fst (snd x))) xs"

lemma maps_wf_Nil [simp]: "maps_wf []"
  by (simp add: maps_wf_def)

lemma maps_wf_Cons [simp]: "maps_wf (x # xs) \<longleftrightarrow> distinct (map fst (snd x)) \<and> maps_wf xs"
  by (simp add: maps_wf_def)

lemma maps_wf_update: "maps_wf xs \<Longrightarrow> distinct (map fst m) \<Longrightarrow> maps_wf (AList.update k m xs)"
  by (induction xs) auto

lemma maps_wf_lookup: "maps_wf xs \<Longrightarrow> map_of xs k = Some m \<Longrightarrow> distinct (map fst m)"
  by (induction xs) (auto split: if_splits)

lemma find_False [simp]: "find (\<lambda>x. False) xs = None"
  by (simp add: find_None_iff)

lemma find_unique_iff:
  "distinct (map f xs) \<Longrightarrow> find (\<lambda>x. f x = k) xs = Some y \<longleftrightarrow> y \<in> set xs \<and> f y = k"
  by (induction xs) auto

lemma find_None_iff_key: "find (\<lambda>x. f x = k) xs = None \<longleftrightarrow> k \<notin> f ` set xs"
  by (induction xs) auto

subsection \<open>Lemmas on results\<close>

lemma result_bind_Inr_iff:
  "result_bind r f = Inr b \<longleftrightarrow> (\<exists>a. r = Inr a \<and> f a = Inr b)"
  by (cases r) auto

lemma result_bind_Inl_iff:
  "result_bind r f = Inl e \<longleftrightarrow> r = Inl e \<or> (\<exists>a. r = Inr a \<and> f a = Inl e)"
  by (cases r) auto

lemma fold_result_append:
  "fold_result f (xs @ ys) s = result_bind (fold_result f xs s) (fold_result f ys)"
proof (induction xs arbitrary: s)
  case Nil
  then show ?case by simp
next
  case (Cons x xs)
  then show ?case by (cases "f x s") auto
qed

text \<open>An invariant that every step keeps is kept by the loop.\<close>

lemma fold_result_invariant:
  assumes "\<And>x s t. x \<in> set xs \<Longrightarrow> I s \<Longrightarrow> f x s = Inr t \<Longrightarrow> I t"
    and "I s" and "fold_result f xs s = Inr t"
  shows "I t"
  using assms
proof (induction xs arbitrary: s)
  case Nil
  then show ?case by simp
next
  case (Cons x xs)
  from Cons.prems(3) obtain u where "f x s = Inr u" and "fold_result f xs u = Inr t"
    by (auto simp: result_bind_Inr_iff)
  with Cons.prems(1,2) show ?case
    by (intro Cons.IH [of u]) auto
qed

end
