(* ===== verification/Graph.thy ===== *)
theory Graph
  imports Prelude
begin

text \<open>
  The process graph (\<open>internal/engine/node.go\<close>, \<open>internal/engine/errors.go\<close>): node types,
  flows, nodes, and the search for what catches a BPMN error or an escalation.

  \<open>ProcessGraph.Nodes\<close> is a Go map, whose iteration order is unspecified. It is an
  association list here: a lookup is \<^const>\<open>map_of\<close>, a \<open>range\<close> loop goes through the list in
  its order. Every theorem holds for every order of the list.

  The two catcher searches walk outwards through \<open>ParentScope\<close> with no bound of their own, so
  they take fuel, one unit per scope visited. \<open>scopes_ok\<close> says what the builder guarantees
  (every scope is a node and the scopes nest); under it the number of nodes is enough fuel.
\<close>

datatype NodeType =
    StartEventType | StartTimerEventType | SignalStartEventType | EndEventType | TaskType
  | UserTaskType | ScriptTaskType | BusinessRuleTaskType | ServiceTaskType
  | ExclusiveGatewayType | ParallelGatewayType | InclusiveGatewayType | ErrorBoundaryEventType
  | IntermediateCatchEventType | IntermediateTimerEventType | BoundaryTimerEventType
  | IntermediateMessageCatchEventType | MessageStartEventType | MessageBoundaryEventType
  | IntermediateSignalCatchEventType | IntermediateSignalThrowEventType | SignalBoundaryEventType
  | EventBasedGatewayType | CallActivityType | SubProcessType | EventSubProcessType
  | ManualTaskType | IntermediateThrowEventType | LinkCatchEventType
  | TerminateEndEventType | ErrorEndEventType | SignalEndEventType
  | IntermediateEscalationThrowEventType | EscalationEndEventType | EscalationBoundaryEventType
  | IntermediateConditionalCatchEventType | ConditionalBoundaryEventType
  | CompensationBoundaryEventType | IntermediateCompensationThrowEventType
  | CompensationEndEventType | CompensationHandlerEndType

record Flow =
  flow_ID :: string
  SourceRef :: string
  TargetRef :: string
  flow_Condition :: string
  IsBoundary :: bool

record IOMapping =
  Source :: string
  Target :: string

record MultiInstanceConfig =
  IsSequential :: bool
  LoopCardinality :: string
  CompletionCondition :: string
  InputCollection :: string
  InputElement :: string
  OutputCollection :: string
  OutputElement :: string
  InputDataItem :: string
  OutputDataItem :: string
  ElementVariable :: string

datatype TriggerKind =
    NoTrigger | TriggerTimer | TriggerMessage | TriggerSignal | TriggerError
  | TriggerEscalation | TriggerConditional

record Node =
  ID :: string
  Name :: string
  Type :: NodeType
  AssigneeExpr :: "string option"
  CandidateGroupExpr :: "string option"
  Incoming :: "string list"
  Outgoing :: "Flow list"
  DefaultFlow :: string
  JobType :: "string option"
  MultiInstance :: "MultiInstanceConfig option"
  TimerDefinition :: string
  AttachedToRef :: string
  CancelActivity :: bool
  ErrorCode :: string
  MessageRef :: string
  MessageCorrelationKey :: string
  SignalRef :: string
  CalledElement :: string
  PropagateAllChildVariables :: bool
  NoParentVariables :: bool
  Script :: "string option"
  ScriptFormat :: "string option"
  FormKey :: string
  TaskHeaders :: "(string \<times> string) list"
  InputMappings :: "IOMapping list"
  OutputMappings :: "IOMapping list"
  PriorityExpr :: "string option"
  DecisionKey :: string
  ResultVariable :: string
  ParentScope :: string
  StartNodeID :: string
  LinkName :: string
  TriggerType :: TriggerKind
  EscalationCode :: string
  Condition :: string
  CompensationHandler :: string
  CompensateActivity :: string

text \<open>The zero value of the Go struct with its identifier and type set, as the graph builder
  writes \<open>&Node{ID: id, Type: t}\<close>.\<close>

definition new_node :: "string \<Rightarrow> NodeType \<Rightarrow> Node" where
  "new_node i t = \<lparr>ID = i, Name = '''', Type = t, AssigneeExpr = None, CandidateGroupExpr = None,
     Incoming = [], Outgoing = [], DefaultFlow = '''', JobType = None, MultiInstance = None,
     TimerDefinition = '''', AttachedToRef = '''', CancelActivity = False, ErrorCode = '''',
     MessageRef = '''', MessageCorrelationKey = '''', SignalRef = '''', CalledElement = '''',
     PropagateAllChildVariables = False, NoParentVariables = False, Script = None,
     ScriptFormat = None, FormKey = '''', TaskHeaders = [], InputMappings = [],
     OutputMappings = [], PriorityExpr = None, DecisionKey = '''', ResultVariable = '''',
     ParentScope = '''', StartNodeID = '''', LinkName = '''', TriggerType = NoTrigger,
     EscalationCode = '''', Condition = '''', CompensationHandler = '''',
     CompensateActivity = ''''\<rparr>"

type_synonym graph = "(string \<times> Node) list"

definition IsEndEvent :: "Node \<Rightarrow> bool" where
  "IsEndEvent n \<longleftrightarrow> Type n \<in> {EndEventType, TerminateEndEventType, ErrorEndEventType,
     SignalEndEventType, EscalationEndEventType, CompensationEndEventType}"

definition IsProcessStart :: "Node \<Rightarrow> bool" where
  "IsProcessStart n \<longleftrightarrow> Type n = StartEventType \<and> ParentScope n = ''''"

definition ImplicitEndPrefix :: string where
  "ImplicitEndPrefix = ''__end__:''"

definition ImplicitEnd :: "string \<Rightarrow> string" where
  "ImplicitEnd activityID = ImplicitEndPrefix @ activityID"

definition mi_Collection :: "MultiInstanceConfig \<Rightarrow> string" where
  "mi_Collection m = (if InputCollection m \<noteq> '''' then InputCollection m else InputDataItem m)"

definition mi_Element :: "MultiInstanceConfig \<Rightarrow> string" where
  "mi_Element m = (if InputElement m \<noteq> '''' then InputElement m else ElementVariable m)"

definition mi_Output :: "MultiInstanceConfig \<Rightarrow> string" where
  "mi_Output m = (if OutputCollection m \<noteq> '''' then OutputCollection m else OutputDataItem m)"

subsection \<open>Catching errors and escalations\<close>

text \<open>The loop all catcher searches share: among the nodes that pass \<open>ok\<close>, the first with
  exactly this code; else the last with no code (\<open>catchAll\<close> is overwritten); else none.\<close>

fun find_code :: "(Node \<Rightarrow> bool) \<Rightarrow> (Node \<Rightarrow> string) \<Rightarrow> string \<Rightarrow> Node option \<Rightarrow> Node list
    \<Rightarrow> Node option" where
  "find_code ok code c catchAll [] = catchAll"
| "find_code ok code c catchAll (n # ns) =
     (if \<not> ok n then find_code ok code c catchAll ns
      else if code n = c then Some n
      else if code n = '''' then find_code ok code c (Some n) ns
      else find_code ok code c catchAll ns)"

definition errorBoundary :: "graph \<Rightarrow> string \<Rightarrow> string \<Rightarrow> Node option" where
  "errorBoundary g attachedTo errorCode =
     find_code (\<lambda>n. Type n = ErrorBoundaryEventType \<and> AttachedToRef n = attachedTo)
       ErrorCode errorCode None (map snd g)"

definition errorEventSubProcess :: "graph \<Rightarrow> string \<Rightarrow> string \<Rightarrow> string \<Rightarrow> Node option" where
  "errorEventSubProcess g scope errorCode exclude =
     find_code (\<lambda>n. Type n = EventSubProcessType \<and> TriggerType n = TriggerError
         \<and> ParentScope n = scope \<and> ID n \<noteq> exclude)
       ErrorCode errorCode None (map snd g)"

text \<open>The outward walk, written once for both searches: \<open>es\<close> finds an event sub-process in a
  scope (not \<open>from\<close> itself), \<open>bd\<close> a boundary event on a sub-process. \<open>None\<close> is running out of
  fuel, \<open>Some (None, _)\<close> is \<open>nil\<close>.\<close>

fun walk_scopes :: "(string \<Rightarrow> string \<Rightarrow> Node option) \<Rightarrow> (string \<Rightarrow> Node option) \<Rightarrow> graph
    \<Rightarrow> nat \<Rightarrow> string \<Rightarrow> string \<Rightarrow> (Node option \<times> string) option" where
  "walk_scopes es bd g 0 from scope = None"
| "walk_scopes es bd g (Suc fuel) from scope =
     (case es scope from of
        Some n \<Rightarrow> Some (Some n, scope)
      | None \<Rightarrow>
        if scope = '''' then Some (None, '''')
        else case bd scope of
          Some b \<Rightarrow> Some (Some b, scope)
        | None \<Rightarrow>
          (case map_of g scope of
             None \<Rightarrow> Some (None, '''')
           | Some owner \<Rightarrow> walk_scopes es bd g fuel scope (ParentScope owner)))"

text \<open>\<open>scope := ""; if n, ok := g.Nodes[elementID]; ok { scope = n.ParentScope }\<close>\<close>

definition scope_of_element :: "graph \<Rightarrow> string \<Rightarrow> string" where
  "scope_of_element g e = (case map_of g e of None \<Rightarrow> '''' | Some n \<Rightarrow> ParentScope n)"

definition FindErrorCatcher :: "graph \<Rightarrow> nat \<Rightarrow> string \<Rightarrow> string
    \<Rightarrow> (Node option \<times> string) option" where
  "FindErrorCatcher g fuel elementID errorCode =
     (case errorBoundary g elementID errorCode of
        Some b \<Rightarrow> Some (Some b, '''')
      | None \<Rightarrow>
        walk_scopes (\<lambda>scope from. errorEventSubProcess g scope errorCode from)
          (\<lambda>scope. errorBoundary g scope errorCode) g fuel elementID (scope_of_element g elementID))"

definition escalationBoundary :: "graph \<Rightarrow> string \<Rightarrow> string \<Rightarrow> Node option" where
  "escalationBoundary g attachedTo code =
     find_code (\<lambda>n. Type n = EscalationBoundaryEventType \<and> AttachedToRef n = attachedTo)
       EscalationCode code None (map snd g)"

definition escalationEventSubProcess :: "graph \<Rightarrow> string \<Rightarrow> string \<Rightarrow> string \<Rightarrow> Node option" where
  "escalationEventSubProcess g scope code exclude =
     find_code (\<lambda>n. Type n = EventSubProcessType \<and> TriggerType n = TriggerEscalation
         \<and> ParentScope n = scope \<and> ID n \<noteq> exclude)
       EscalationCode code None (map snd g)"

definition FindEscalationCatcher :: "graph \<Rightarrow> nat \<Rightarrow> string \<Rightarrow> string
    \<Rightarrow> (Node option \<times> string) option" where
  "FindEscalationCatcher g fuel elementID code =
     (case escalationBoundary g elementID code of
        Some b \<Rightarrow> Some (Some b, '''')
      | None \<Rightarrow>
        walk_scopes (\<lambda>scope from. escalationEventSubProcess g scope code from)
          (\<lambda>scope. escalationBoundary g scope code) g fuel elementID (scope_of_element g elementID))"

definition is_trigger_type :: "NodeType \<Rightarrow> bool" where
  "is_trigger_type t \<longleftrightarrow> t \<in> {EventSubProcessType, BoundaryTimerEventType,
     MessageBoundaryEventType, SignalBoundaryEventType, ConditionalBoundaryEventType}"

definition TriggerNodes :: "graph \<Rightarrow> string list" where
  "TriggerNodes g = map fst (filter (\<lambda>(i, n). is_trigger_type (Type n)) g)"

text \<open>What the builder guarantees of scopes: a node's \<open>ParentScope\<close> is the process or a node,
  and a rank, the nesting depth, grows from each scope to the nodes in it. The rank is bounded
  by the number of nodes.\<close>

definition scopes_ok :: "graph \<Rightarrow> (string \<Rightarrow> nat) \<Rightarrow> bool" where
  "scopes_ok g depth \<longleftrightarrow>
     (\<forall>(i, n) \<in> set g. ParentScope n \<noteq> '''' \<longrightarrow>
        depth (ParentScope n) < depth i) \<and> (\<forall>(i, n) \<in> set g. depth i < length g)"

subsection \<open>Lemmas\<close>

lemma find_code_SomeD:
  "find_code ok code c ca ns = Some n \<Longrightarrow>
     ca = Some n \<or> (n \<in> set ns \<and> ok n \<and> (code n = c \<or> code n = ''''))"
  by (induction ok code c ca ns rule: find_code.induct) (auto split: if_splits)

text \<open>The contract of one level: an exact match wins over a catch-all, a catch-all over
  nothing.\<close>

lemma find_code_exact:
  assumes "m \<in> set ns" "ok m" "code m = c"
  shows "\<exists>n \<in> set ns. find_code ok code c ca ns = Some n \<and> ok n \<and> code n = c"
  using assms by (induction ok code c ca ns rule: find_code.induct) auto

lemma find_code_catch_all_kept:
  "ca \<noteq> None \<Longrightarrow> find_code ok code c ca ns \<noteq> None"
  by (induction ok code c ca ns rule: find_code.induct) auto

lemma find_code_None_iff:
  "find_code ok code c None ns = None \<longleftrightarrow> (\<forall>n \<in> set ns. ok n \<longrightarrow> code n \<noteq> c \<and> code n \<noteq> '''')"
proof (induction ns)
  case Nil
  then show ?case by simp
next
  case (Cons n ns)
  then show ?case
    using find_code_catch_all_kept [of "Some n" ok code c ns] by auto
qed

lemma find_code_SomeD':
  "find_code ok code c None ns = Some n \<Longrightarrow> n \<in> set ns \<and> ok n \<and> (code n = c \<or> code n = '''')"
  using find_code_SomeD [of ok code c None ns n] by simp

lemma find_code_prefers_exact:
  assumes "find_code ok code c None ns = Some n" and "m \<in> set ns" "ok m" "code m = c"
  shows "code n = c"
  using find_code_exact [of m ns ok code c None] assms by auto

text \<open>A relation-level reading of the walk: the scopes it visits, innermost first.\<close>

inductive encloses :: "graph \<Rightarrow> string \<Rightarrow> string \<Rightarrow> bool" for g s where
  encloses_refl: "encloses g s s"
| encloses_step: "encloses g s t \<Longrightarrow> t \<noteq> '''' \<Longrightarrow> map_of g t = Some n \<Longrightarrow>
    encloses g s (ParentScope n)"

lemma encloses_front:
  assumes "encloses g (ParentScope n) t" and "s \<noteq> ''''" and "map_of g s = Some n"
  shows "encloses g s t"
  using assms
  by (induction rule: encloses.induct) (auto intro: encloses.intros)

lemma encloses_cases_front:
  assumes "encloses g s t"
  shows "t = s \<or> (\<exists>n. s \<noteq> '''' \<and> map_of g s = Some n \<and> encloses g (ParentScope n) t)"
  using assms
  by (induction rule: encloses.induct) (auto intro: encloses.intros)

lemma walk_scopes_SomeD:
  assumes "walk_scopes es bd g fuel from scope = Some (Some n, s)"
  shows "encloses g scope s \<and> ((\<exists>f. es s f = Some n) \<or> (s \<noteq> '''' \<and> bd s = Some n))"
  using assms
proof (induction es bd g fuel "from" scope rule: walk_scopes.induct)
  case (1 es bd g "from" scope)
  then show ?case by simp
next
  case (2 es bd g fuel "from" scope)
  show ?case
  proof (cases "es scope from")
    case None
    with 2 show ?thesis
      by (auto split: if_splits option.splits intro: encloses_refl encloses_front)
  next
    case (Some m)
    with 2 show ?thesis by (auto intro: encloses_refl)
  qed
qed

lemma walk_scopes_NoneD:
  assumes "walk_scopes es bd g fuel from scope = Some (None, s)"
    and "encloses g scope t" and "t \<noteq> ''''"
  shows "bd t = None"
  using assms
proof (induction es bd g fuel "from" scope rule: walk_scopes.induct)
  case (1 es bd g "from" scope)
  then show ?case by simp
next
  case (2 es bd g fuel "from" scope)
  then have es: "es scope from = None" by (auto split: option.splits)
  from "2.prems"(2) consider "t = scope"
    | n where "scope \<noteq> ''''" "map_of g scope = Some n" "encloses g (ParentScope n) t"
    using encloses_cases_front by blast
  then show ?case
  proof cases
    case 1
    with 2 es show ?thesis by (auto split: if_splits option.splits)
  next
    case 2
    with "2.prems" "2.IH" es show ?thesis by (auto split: if_splits option.splits)
  qed
qed

text \<open>Enough fuel: the depth of the scope the walk starts from, plus one.\<close>

lemma walk_scopes_enough:
  assumes "scopes_ok g depth" and "scope \<noteq> '''' \<Longrightarrow> depth scope < fuel" and "0 < fuel"
  shows "walk_scopes es bd g (Suc fuel) from scope \<noteq> None"
  using assms(2,3)
proof (induction fuel arbitrary: "from" scope)
  case 0
  then show ?case by simp
next
  case (Suc fuel)
  show ?case
  proof (cases "scope = ''''")
    case True
    then show ?thesis by (auto split: option.splits)
  next
    case False
    then have d: "depth scope \<le> fuel" using Suc.prems by simp
    have "walk_scopes es bd g (Suc fuel) scope (ParentScope n) \<noteq> None"
      if "map_of g scope = Some n" for n
    proof -
      from that have "(scope, n) \<in> set g" by (rule map_of_SomeD)
      with assms(1) have lt: "ParentScope n \<noteq> '''' \<Longrightarrow> depth (ParentScope n) < depth scope"
        unfolding scopes_ok_def by fastforce
      show ?thesis
      proof (cases "fuel = 0")
        case True
        with lt d have "ParentScope n = ''''" by fastforce
        with True show ?thesis by (auto split: option.splits)
      next
        case False
        with lt d show ?thesis by (intro Suc.IH) auto
      qed
    qed
    with False show ?thesis by (auto split: option.splits)
  qed
qed

subsection \<open>The contract of a catcher search\<close>

text \<open>Both searches promise the same: at one level, \<open>es\<close> and \<open>bd\<close> return a node that
  matches the code (exactly or as a catch-all) and return nothing only when no node matches.
  The walk over the scopes is verified once, from these laws.\<close>

definition matches :: "(Node \<Rightarrow> string) \<Rightarrow> string \<Rightarrow> Node \<Rightarrow> bool" where
  "matches code c n \<longleftrightarrow> code n = c \<or> code n = ''''"

locale catcher_search =
  fixes g :: graph
    and code :: "Node \<Rightarrow> string"
    and c :: string
    and is_es :: "Node \<Rightarrow> bool"
    and is_bd :: "Node \<Rightarrow> bool"
    and es :: "string \<Rightarrow> string \<Rightarrow> Node option"
    and bd :: "string \<Rightarrow> Node option"
  assumes es_sound: "es s f = Some n \<Longrightarrow>
      n \<in> snd ` set g \<and> is_es n \<and> ParentScope n = s \<and> ID n \<noteq> f \<and> matches code c n"
    and es_complete: "es s f = None \<Longrightarrow> n \<in> snd ` set g \<Longrightarrow> is_es n \<Longrightarrow> ParentScope n = s \<Longrightarrow>
      matches code c n \<Longrightarrow> ID n = f"
    and bd_sound: "bd a = Some n \<Longrightarrow>
      n \<in> snd ` set g \<and> is_bd n \<and> AttachedToRef n = a \<and> matches code c n"
    and bd_complete: "bd a = None \<Longrightarrow> n \<in> snd ` set g \<Longrightarrow> is_bd n \<Longrightarrow> AttachedToRef n = a \<Longrightarrow>
      \<not> matches code c n"
begin

text \<open>The whole search: the element's own boundary event, then the walk.\<close>

definition search :: "nat \<Rightarrow> string \<Rightarrow> (Node option \<times> string) option" where
  "search fuel e = (case bd e of Some b \<Rightarrow> Some (Some b, '''')
     | None \<Rightarrow> walk_scopes es bd g fuel e (scope_of_element g e))"

lemma search_total:
  assumes "scopes_ok g depth"
  shows "search (Suc (Suc (length g))) e \<noteq> None"
proof -
  have "depth (scope_of_element g e) < Suc (length g)" if "scope_of_element g e \<noteq> ''''"
  proof -
    from that obtain n where n: "map_of g e = Some n" "scope_of_element g e = ParentScope n"
      by (auto simp: scope_of_element_def split: option.splits)
    then have "(e, n) \<in> set g" by (simp add: map_of_SomeD)
    with assms n(2) that show ?thesis unfolding scopes_ok_def by fastforce
  qed
  then have "walk_scopes es bd g (Suc (Suc (length g))) e (scope_of_element g e) \<noteq> None"
    by (rule walk_scopes_enough [OF assms]) simp_all
  then show ?thesis by (auto simp: search_def split: option.splits)
qed

lemma search_sound:
  assumes "search fuel e = Some (Some n, s)"
  shows "n \<in> snd ` set g \<and> matches code c n \<and>
    (is_bd n \<and> AttachedToRef n = e \<and> s = '''' \<or>
     encloses g (scope_of_element g e) s \<and>
       (is_es n \<and> ParentScope n = s \<or> is_bd n \<and> s \<noteq> '''' \<and> AttachedToRef n = s))"
proof (cases "bd e")
  case (Some b)
  with assms show ?thesis using bd_sound by (auto simp: search_def)
next
  case None
  with assms have "walk_scopes es bd g fuel e (scope_of_element g e) = Some (Some n, s)"
    by (simp add: search_def)
  from walk_scopes_SomeD [OF this] show ?thesis
    using es_sound bd_sound by blast
qed

text \<open>An event sub-process the walk passes over is the one the error comes out of.\<close>

lemma walk_complete_es:
  assumes "walk_scopes es bd g fuel from scope = Some (None, s)" and "encloses g scope t"
    and "n \<in> snd ` set g" "is_es n" "ParentScope n = t" "matches code c n"
  shows "ID n = from \<or> encloses g scope (ID n)"
  using assms(1,2)
proof (induction fuel arbitrary: "from" scope)
  case 0
  then show ?case by simp
next
  case (Suc fuel)
  then have e: "es scope from = None" by (auto split: option.splits)
  show ?case
  proof (cases "t = scope")
    case True
    with e assms(3-6) show ?thesis using es_complete by blast
  next
    case False
    with Suc.prems(2) obtain m where m: "scope \<noteq> ''''" "map_of g scope = Some m"
        "encloses g (ParentScope m) t"
      using encloses_cases_front by blast
    with Suc.prems(1) e have "walk_scopes es bd g fuel scope (ParentScope m) = Some (None, s)"
      by (auto split: option.splits)
    from Suc.IH [OF this m(3)] show ?thesis using m encloses_refl encloses_front by blast
  qed
qed

lemma search_complete:
  assumes "search fuel e = Some (None, s)" and "n \<in> snd ` set g" and "matches code c n"
  shows "\<not> (is_bd n \<and> AttachedToRef n = e)"
    and "\<lbrakk>encloses g (scope_of_element g e) t; t \<noteq> ''''; is_bd n\<rbrakk> \<Longrightarrow> AttachedToRef n \<noteq> t"
    and "\<lbrakk>encloses g (scope_of_element g e) (ParentScope n); is_es n\<rbrakk> \<Longrightarrow>
      ID n = e \<or> encloses g (scope_of_element g e) (ID n)"
proof -
  from assms(1) have bd: "bd e = None"
    and w: "walk_scopes es bd g fuel e (scope_of_element g e) = Some (None, s)"
    by (auto simp: search_def split: option.splits)
  show "\<not> (is_bd n \<and> AttachedToRef n = e)" using bd_complete [OF bd] assms(2,3) by blast
  show "AttachedToRef n \<noteq> t"
    if "encloses g (scope_of_element g e) t" "t \<noteq> ''''" "is_bd n"
    using walk_scopes_NoneD [OF w that(1,2)] bd_complete assms(2,3) that(3) by blast
  show "ID n = e \<or> encloses g (scope_of_element g e) (ID n)"
    if "encloses g (scope_of_element g e) (ParentScope n)" "is_es n"
    using walk_complete_es [OF w that(1) assms(2) that(2)] assms(3) by blast
qed

end

subsection \<open>Both searches meet the contract\<close>

lemma find_code_level_sound:
  "find_code ok code c None (map snd g) = Some n \<Longrightarrow> n \<in> snd ` set g \<and> ok n \<and> matches code c n"
  by (auto simp: matches_def dest: find_code_SomeD')

lemma find_code_level_complete:
  "find_code ok code c None (map snd g) = None \<Longrightarrow> n \<in> snd ` set g \<Longrightarrow> ok n \<Longrightarrow> \<not> matches code c n"
  by (auto simp: matches_def find_code_None_iff)

definition is_error_es :: "Node \<Rightarrow> bool" where
  "is_error_es n \<longleftrightarrow> Type n = EventSubProcessType \<and> TriggerType n = TriggerError"

definition is_error_bd :: "Node \<Rightarrow> bool" where
  "is_error_bd n \<longleftrightarrow> Type n = ErrorBoundaryEventType"

definition is_escalation_es :: "Node \<Rightarrow> bool" where
  "is_escalation_es n \<longleftrightarrow> Type n = EventSubProcessType \<and> TriggerType n = TriggerEscalation"

definition is_escalation_bd :: "Node \<Rightarrow> bool" where
  "is_escalation_bd n \<longleftrightarrow> Type n = EscalationBoundaryEventType"

lemmas catcher_defs = is_error_es_def is_error_bd_def is_escalation_es_def is_escalation_bd_def
  errorBoundary_def errorEventSubProcess_def escalationBoundary_def escalationEventSubProcess_def

interpretation err: catcher_search g ErrorCode c is_error_es is_error_bd
    "\<lambda>scope from. errorEventSubProcess g scope c from" "\<lambda>a. errorBoundary g a c" for g c
  by unfold_locales
    (auto simp: catcher_defs dest!: find_code_level_sound dest: find_code_level_complete)

interpretation esc: catcher_search g EscalationCode c is_escalation_es is_escalation_bd
    "\<lambda>scope from. escalationEventSubProcess g scope c from" "\<lambda>a. escalationBoundary g a c" for g c
  by unfold_locales
    (auto simp: catcher_defs dest!: find_code_level_sound dest: find_code_level_complete)

lemma FindErrorCatcher_search: "FindErrorCatcher g fuel e c = err.search g c fuel e"
  by (simp add: FindErrorCatcher_def err.search_def)

lemma FindEscalationCatcher_search: "FindEscalationCatcher g fuel e c = esc.search g c fuel e"
  by (simp add: FindEscalationCatcher_def esc.search_def)

text \<open>C30: On a graph whose scopes nest, the search for an error catcher returns, and what it
  returns is right: a node of the graph that catches the code (this code, or every code), either
  a boundary event on the throwing element itself or, in a scope around it, an error event
  sub-process or a boundary event on that scope; the scope reported is the one it was found
  in.\<close>

theorem FindErrorCatcher_total_sound:
  assumes "scopes_ok g depth"
  shows "\<exists>r s. FindErrorCatcher g (Suc (Suc (length g))) e c = Some (r, s) \<and>
    (case r of None \<Rightarrow> True
     | Some n \<Rightarrow> n \<in> snd ` set g \<and> (ErrorCode n = c \<or> ErrorCode n = '''') \<and>
        (is_error_bd n \<and> AttachedToRef n = e \<and> s = '''' \<or>
         encloses g (scope_of_element g e) s \<and>
          (is_error_es n \<and> ParentScope n = s \<or>
           is_error_bd n \<and> s \<noteq> '''' \<and> AttachedToRef n = s)))"
proof -
  from err.search_total [OF assms] obtain r s
    where r: "err.search g c (Suc (Suc (length g))) e = Some (r, s)" by fastforce
  then show ?thesis
    using err.search_sound [of g c _ e _ s]
    unfolding FindErrorCatcher_search matches_def by (cases r) fastforce+
qed

text \<open>When the search for an error catcher returns nothing, nothing could have caught the
  error: no boundary event with this code or with none sits on the throwing element or on a
  scope around it, and an error event sub-process of such a scope that matches the code is one
  the error comes out of (an event sub-process never catches its own errors).\<close>

theorem FindErrorCatcher_complete:
  assumes "FindErrorCatcher g fuel e c = Some (None, s)" and "n \<in> snd ` set g"
    and "ErrorCode n = c \<or> ErrorCode n = ''''"
  shows "(Type n = ErrorBoundaryEventType \<longrightarrow> AttachedToRef n \<noteq> e) \<and>
    (Type n = ErrorBoundaryEventType \<longrightarrow> AttachedToRef n = '''' \<or>
       \<not> encloses g (scope_of_element g e) (AttachedToRef n)) \<and>
    (Type n = EventSubProcessType \<longrightarrow> TriggerType n = TriggerError \<longrightarrow>
       encloses g (scope_of_element g e) (ParentScope n) \<longrightarrow>
       ID n = e \<or> encloses g (scope_of_element g e) (ID n))"
proof -
  from assms have s: "err.search g c fuel e = Some (None, s)" and m: "matches ErrorCode c n"
    by (simp_all add: FindErrorCatcher_search matches_def)
  note complete = err.search_complete [OF s assms(2) m]
  have "Type n = ErrorBoundaryEventType \<longrightarrow> AttachedToRef n \<noteq> e"
    using complete(1) by (simp add: is_error_bd_def)
  moreover have "Type n = ErrorBoundaryEventType \<longrightarrow> AttachedToRef n = '''' \<or>
      \<not> encloses g (scope_of_element g e) (AttachedToRef n)"
    using complete(2) by (auto simp: is_error_bd_def)
  moreover have "Type n = EventSubProcessType \<longrightarrow> TriggerType n = TriggerError \<longrightarrow>
      encloses g (scope_of_element g e) (ParentScope n) \<longrightarrow>
      ID n = e \<or> encloses g (scope_of_element g e) (ID n)"
    using complete(3) by (auto simp: is_error_es_def)
  ultimately show ?thesis by blast
qed

text \<open>A boundary event for exactly this error code on the throwing element always wins,
  whatever the iteration order of the node map, over catch-all boundary events on the element
  and over everything in the scopes around it.\<close>

theorem FindErrorCatcher_exact_boundary_wins:
  assumes "m \<in> snd ` set g" and "Type m = ErrorBoundaryEventType" and "AttachedToRef m = e"
    and "ErrorCode m = c"
  shows "\<exists>n. FindErrorCatcher g fuel e c = Some (Some n, '''') \<and>
    Type n = ErrorBoundaryEventType \<and> AttachedToRef n = e \<and> ErrorCode n = c"
proof -
  from assms have "m \<in> set (map snd g)" by simp
  from find_code_exact [OF this, of "\<lambda>n. Type n = ErrorBoundaryEventType \<and> AttachedToRef n = e"
      ErrorCode c None] assms
  obtain n where "errorBoundary g e c = Some n" "Type n = ErrorBoundaryEventType"
      "AttachedToRef n = e" "ErrorCode n = c"
    by (auto simp: errorBoundary_def)
  then show ?thesis by (simp add: FindErrorCatcher_def)
qed

text \<open>On a graph whose scopes nest, the search for an escalation catcher returns, and what
  it returns is right (the same contract as for errors); when it returns nothing no boundary
  event for this code or for every code sits on the element or on a scope around it.\<close>

theorem FindEscalationCatcher_total_correct:
  assumes "scopes_ok g depth"
  shows "\<exists>r s. FindEscalationCatcher g (Suc (Suc (length g))) e c = Some (r, s) \<and>
    (case r of
       None \<Rightarrow> \<forall>n t. n \<in> snd ` set g \<and> Type n = EscalationBoundaryEventType \<and>
           (t = e \<or> t \<noteq> '''' \<and> encloses g (scope_of_element g e) t) \<and>
           (EscalationCode n = c \<or> EscalationCode n = '''') \<longrightarrow> AttachedToRef n \<noteq> t
     | Some n \<Rightarrow> n \<in> snd ` set g \<and> (EscalationCode n = c \<or> EscalationCode n = '''') \<and>
        (is_escalation_bd n \<and> AttachedToRef n = e \<and> s = '''' \<or>
         encloses g (scope_of_element g e) s \<and>
          (is_escalation_es n \<and> ParentScope n = s \<or>
           is_escalation_bd n \<and> s \<noteq> '''' \<and> AttachedToRef n = s)))"
proof -
  from esc.search_total [OF assms] obtain r s
    where r: "esc.search g c (Suc (Suc (length g))) e = Some (r, s)" by fastforce
  show ?thesis
  proof (cases r)
    case None
    with r have "esc.search g c (Suc (Suc (length g))) e = Some (None, s)" by simp
    from esc.search_complete(1,2) [OF this] have
      "\<forall>n t. n \<in> snd ` set g \<and> Type n = EscalationBoundaryEventType \<and>
           (t = e \<or> t \<noteq> '''' \<and> encloses g (scope_of_element g e) t) \<and>
           (EscalationCode n = c \<or> EscalationCode n = '''') \<longrightarrow> AttachedToRef n \<noteq> t"
      unfolding matches_def is_escalation_bd_def by blast
    with r None show ?thesis unfolding FindEscalationCatcher_search by auto
  next
    case (Some n)
    with r esc.search_sound [of g c _ e n s] show ?thesis
      unfolding FindEscalationCatcher_search matches_def by fastforce
  qed
qed

subsection \<open>A concrete graph\<close>

text \<open>A task in a sub-process that has a catch-all error boundary event and an escalation
  boundary event, inside a process with an error event sub-process.\<close>

definition example_graph :: graph where
  "example_graph =
     [(''task'', (new_node ''task'' UserTaskType)\<lparr>ParentScope := ''sub''\<rparr>),
      (''sub'', new_node ''sub'' SubProcessType),
      (''catch'', (new_node ''catch'' ErrorBoundaryEventType)\<lparr>AttachedToRef := ''sub''\<rparr>),
      (''own'', (new_node ''own'' ErrorBoundaryEventType)\<lparr>AttachedToRef := ''task'', ErrorCode := ''E1''\<rparr>),
      (''esc'', (new_node ''esc'' EscalationBoundaryEventType)\<lparr>AttachedToRef := ''sub''\<rparr>),
      (''evsub'', (new_node ''evsub'' EventSubProcessType)\<lparr>TriggerType := TriggerError, ErrorCode := ''E2''\<rparr>)]"

definition example_depth :: "string \<Rightarrow> nat" where
  "example_depth i = (if i = ''task'' then 1 else 0)"

lemma example_scopes_ok: "scopes_ok example_graph example_depth"
  by (simp add: scopes_ok_def example_graph_def example_depth_def new_node_def)

theorem FindErrorCatcher_total_sound_witness:
  "\<exists>r s. FindErrorCatcher example_graph 8 ''task'' ''E9'' = Some (r, s) \<and>
    (case r of None \<Rightarrow> False | Some n \<Rightarrow> ID n = ''catch'' \<and> s = ''sub'')"
proof -
  have l: "Suc (Suc (length example_graph)) = 8" by (simp add: example_graph_def)
  have "FindErrorCatcher example_graph 8 ''task'' ''E9'' =
      Some (Some ((new_node ''catch'' ErrorBoundaryEventType)\<lparr>AttachedToRef := ''sub''\<rparr>), ''sub'')"
    by code_simp
  with FindErrorCatcher_total_sound [OF example_scopes_ok, of "''task''" "''E9''"] l
  show ?thesis by (auto simp: new_node_def)
qed

theorem FindErrorCatcher_complete_witness:
  "FindErrorCatcher (tl example_graph) 8 ''evsub'' ''E2'' = Some (None, '''') \<and>
   ID (snd (last example_graph)) = ''evsub''"
proof -
  have r: "FindErrorCatcher (tl example_graph) 8 ''evsub'' ''E2'' = Some (None, '''')" by code_simp
  have n: "snd (last example_graph) \<in> snd ` set (tl example_graph)"
    and c: "ErrorCode (snd (last example_graph)) = ''E2''"
    and t: "Type (snd (last example_graph)) = EventSubProcessType"
      "TriggerType (snd (last example_graph)) = TriggerError"
    and p: "ParentScope (snd (last example_graph)) = ''''"
      "scope_of_element (tl example_graph) ''evsub'' = ''''"
    by (simp_all add: example_graph_def new_node_def scope_of_element_def)
  have "ID (snd (last example_graph)) = ''evsub'' \<or> encloses (tl example_graph) '''' (ID (snd (last example_graph)))"
    using FindErrorCatcher_complete [OF r n disjI1 [OF c]] t p by (auto intro: encloses_refl)
  then have "ID (snd (last example_graph)) = ''evsub''" by (simp add: example_graph_def new_node_def)
  with r show ?thesis by simp
qed

theorem FindErrorCatcher_exact_boundary_wins_witness:
  "\<exists>n. FindErrorCatcher example_graph 1 ''task'' ''E1'' = Some (Some n, '''') \<and>
    Type n = ErrorBoundaryEventType \<and> AttachedToRef n = ''task'' \<and> ErrorCode n = ''E1''"
  by (rule FindErrorCatcher_exact_boundary_wins
      [of "(new_node ''own'' ErrorBoundaryEventType)\<lparr>AttachedToRef := ''task'', ErrorCode := ''E1''\<rparr>"])
    (simp_all add: example_graph_def new_node_def)

theorem FindEscalationCatcher_total_correct_witness:
  "\<exists>r s. FindEscalationCatcher example_graph 8 ''task'' ''X'' = Some (r, s) \<and>
    (case r of None \<Rightarrow> False | Some n \<Rightarrow> ID n = ''esc'' \<and> s = ''sub'')"
proof -
  have l: "Suc (Suc (length example_graph)) = 8" by (simp add: example_graph_def)
  have "FindEscalationCatcher example_graph 8 ''task'' ''X'' =
      Some (Some ((new_node ''esc'' EscalationBoundaryEventType)\<lparr>AttachedToRef := ''sub''\<rparr>), ''sub'')"
    by code_simp
  with FindEscalationCatcher_total_correct [OF example_scopes_ok, of "''task''" "''X''"] l
  show ?thesis by (auto simp: new_node_def)
qed

end
