(* ===== verification/Flow_Resolution.thy ===== *)
theory Flow_Resolution
  imports Graph
begin

text \<open>
  Choosing the flow a token takes (\<open>internal/common/condition.go\<close>): normalising a condition to
  CEL, evaluating it under \<open>FEEL_MODE\<close> (\<open>internal/common/feel_mode.go\<close>), and
  \<open>ResolveNext\<close> and \<open>ResolveInclusiveBranches\<close>, which pick the next element of a node and the
  branches of an inclusive gateway.

  The CEL interpreter is a library outside the repository: it is the argument \<open>cel\<close>, a function
  from the normalised expression and the variables to an error or a value. The compilation cache
  in front of it only saves work; its key is modelled as the text that is hashed.
\<close>

subsection \<open>Rewriting a condition to CEL\<close>

text \<open>\<open>strings.ReplaceAll\<close> with a non-empty pattern: leftmost, non-overlapping.\<close>

function replace_all :: "string \<Rightarrow> string \<Rightarrow> string \<Rightarrow> string" where
  "replace_all [] old new = []"
| "replace_all (c # cs) old new =
     (if old \<noteq> [] \<and> has_prefix (c # cs) old then new @ replace_all (drop (length old) (c # cs)) old new
      else c # replace_all cs old new)"
  by pat_completeness auto
termination
  by (relation "measure (\<lambda>(s, old, new). length s)") (auto simp: neq_Nil_conv)

text \<open>The class \<open>\s\<close> of Go regular expressions, and replacing each run of it by one space.\<close>

definition is_re_space :: "char \<Rightarrow> bool" where
  "is_re_space c \<longleftrightarrow> c = CHR '' '' \<or> of_char c \<in> {9::nat, 10, 12, 13}"

fun collapse_spaces :: "bool \<Rightarrow> string \<Rightarrow> string" where
  "collapse_spaces inrun [] = []"
| "collapse_spaces inrun (c # cs) =
     (if is_re_space c then (if inrun then collapse_spaces True cs else CHR '' '' # collapse_spaces True cs)
      else c # collapse_spaces False cs)"

definition operator_substitutions :: "(string \<times> string) list" where
  "operator_substitutions =
    [('' and '', '' && ''), ('' AND '', '' && ''), ('' or '', '' || ''), ('' OR '', '' || ''),
     ('' = '', '' == ''), ('' != '', '' != ''), ('' <> '', '' != ''),
     ('' not '', '' !''), ('' NOT '', '' !''), (''not('', ''!(''), (''NOT('', ''!(''),
     ('' is null'', '' == null''), ('' IS NULL'', '' == null''),
     ('' is not null'', '' != null''), ('' IS NOT NULL'', '' != null'')]"

definition applyFEELOperatorSubstitutions :: "string \<Rightarrow> string" where
  "applyFEELOperatorSubstitutions expr =
     collapse_spaces False (fold (\<lambda>(old, new) e. replace_all e old new) operator_substitutions expr)"

definition quote_chars :: "char list" where
  "quote_chars = [CHR 0x22, CHR 0x27]"

text \<open>The scanner of \<open>convertFEELToCEL\<close>: \<open>q\<close> is the quote character we are inside of,
  \<open>unquoted\<close> the text gathered since the last quote.\<close>

fun convert_scan :: "char option \<Rightarrow> string \<Rightarrow> string \<Rightarrow> string" where
  "convert_scan q unquoted [] = applyFEELOperatorSubstitutions unquoted"
| "convert_scan (Some q) unquoted (c # cs) =
     (if c = q then CHR 0x22 # convert_scan None unquoted cs
      else c # convert_scan (Some q) unquoted cs)"
| "convert_scan None unquoted (c # cs) =
     (if c \<in> set quote_chars
      then applyFEELOperatorSubstitutions unquoted @ CHR 0x22 # convert_scan (Some c) [] cs
      else convert_scan None (unquoted @ [c]) cs)"

definition convertFEELToCEL :: "string \<Rightarrow> string" where
  "convertFEELToCEL expr = trim_space (convert_scan None [] expr)"

text \<open>\<open>expr[lo:hi]\<close> panics when \<open>lo > hi\<close> or \<open>hi\<close> is past the end: \<open>None\<close>.\<close>

definition slice :: "string \<Rightarrow> nat \<Rightarrow> nat \<Rightarrow> string option" where
  "slice s lo hi = (if lo \<le> hi \<and> hi \<le> length s then Some (take (hi - lo) (drop lo s)) else None)"

definition strip_juel :: "string \<Rightarrow> string option" where
  "strip_juel e = (if has_prefix e ''${'' \<and> has_suffix e ''}''
     then map_option trim_space (slice e 2 (length e - 1)) else Some e)"

definition strip_feel_prefix :: "string \<Rightarrow> string" where
  "strip_feel_prefix e = (if has_prefix e ''='' then trim_space (trim_prefix e ''='') else e)"

definition strip_quotes :: "string \<Rightarrow> string option" where
  "strip_quotes e =
     (if (has_prefix e [CHR 0x22] \<and> has_suffix e [CHR 0x22]) \<or>
         (has_prefix e [CHR 0x27] \<and> has_suffix e [CHR 0x27])
      then slice e 1 (length e - 1) else Some e)"

definition normalizeExpression :: "string \<Rightarrow> string option" where
  "normalizeExpression expr =
     Option.bind (strip_juel (trim_space expr))
       (\<lambda>e. map_option convertFEELToCEL (strip_quotes (strip_feel_prefix e)))"

text \<open>What is hashed for the compilation cache: the expression, then the variable names in the
  (unspecified) iteration order of the variable map, with nothing between them.\<close>

definition cacheKeyText :: "string \<Rightarrow> string list \<Rightarrow> string" where
  "cacheKeyText expr names = expr @ concat names"

text \<open>The compilation cache: a map from the key's hash to the program. \<open>hash\<close> is SHA-256,
  \<open>compile\<close> the CEL compiler (both outside the repository), \<open>victim\<close> the key the range loop of
  an eviction meets first, \<open>names\<close> the variable names in the order the map yields them.\<close>

definition setCachedProgram :: "('k \<times> 'p) list \<Rightarrow> 'k \<Rightarrow> 'k \<Rightarrow> 'p \<Rightarrow> ('k \<times> 'p) list" where
  "setCachedProgram cache victim key prog =
     AList.update key prog (if length cache > 1000 then AList.delete victim cache else cache)"

definition compileExpression :: "(string \<Rightarrow> 'k) \<Rightarrow> (string \<Rightarrow> string list \<Rightarrow> string + 'p) \<Rightarrow> 'k
    \<Rightarrow> ('k \<times> 'p) list \<Rightarrow> string \<Rightarrow> string list \<Rightarrow> ((string + 'p) \<times> ('k \<times> 'p) list) option" where
  "compileExpression hash compile victim cache expr names =
     map_option (\<lambda>normalized.
       let key = hash (cacheKeyText normalized names) in
       case map_of cache key of
         Some prog \<Rightarrow> (Inr prog, cache)
       | None \<Rightarrow> (case compile normalized names of
             Inl e \<Rightarrow> (Inl e, cache)
           | Inr prog \<Rightarrow> (Inr prog, setCachedProgram cache victim key prog)))
     (normalizeExpression expr)"

subsection \<open>Evaluating a condition\<close>

datatype FeelMode = FeelModeCEL | FeelModeShadow | FeelModeFEEL

text \<open>\<open>EvalPanic\<close> stands for an evaluation after which nothing else runs: it panics, or it never
  returns.\<close>

datatype eval_error = EvalFailed string | EvalPanic

type_synonym cel_engine = "string \<Rightarrow> vars \<Rightarrow> eval_error + json"
type_synonym feel_engine = "string \<Rightarrow> vars \<Rightarrow> eval_error + bool"

definition feelSource :: "string \<Rightarrow> string option" where
  "feelSource expr = (let t = trim_space expr in
     if has_prefix t ''='' then Some (trim_space (drop 1 t)) else None)"

text \<open>The CEL path: normalise, run, and require a boolean.\<close>

definition celCondition :: "cel_engine \<Rightarrow> string \<Rightarrow> vars \<Rightarrow> eval_error + bool" where
  "celCondition cel expr vs =
     (case normalizeExpression expr of
        None \<Rightarrow> Inl EvalPanic
      | Some e \<Rightarrow> result_bind (cel e vs)
          (\<lambda>v. case v of JBool b \<Rightarrow> Inr b | _ \<Rightarrow> Inl (EvalFailed ''not a boolean'')))"

definition is_panic :: "eval_error + 'a \<Rightarrow> bool" where
  "is_panic r = (case r of Inl EvalPanic \<Rightarrow> True | _ \<Rightarrow> False)"

text \<open>In shadow mode the CEL path runs first; where it fails and FEEL succeeds the FEEL result is
  used. A panic of either path is not an error value: nothing after it runs.\<close>

definition shadowChoose :: "eval_error + 'a \<Rightarrow> eval_error + 'a \<Rightarrow> eval_error + 'a" where
  "shadowChoose celR feelR =
     (if is_panic celR then celR
      else if is_panic feelR then feelR
      else case (celR, feelR) of (Inl _, Inr b) \<Rightarrow> Inr b | _ \<Rightarrow> celR)"

definition evaluateFEELCondition :: "FeelMode \<Rightarrow> feel_engine \<Rightarrow> string \<Rightarrow> vars
    \<Rightarrow> eval_error + bool \<Rightarrow> (eval_error + bool) option" where
  "evaluateFEELCondition mode feel expr vs celR =
     (case feelSource expr of
        None \<Rightarrow> None
      | Some src \<Rightarrow>
         (case mode of
            FeelModeFEEL \<Rightarrow> Some (feel src vs)
          | FeelModeShadow \<Rightarrow> Some (shadowChoose celR (feel src vs))
          | FeelModeCEL \<Rightarrow> None))"

definition EvaluateCondition :: "FeelMode \<Rightarrow> cel_engine \<Rightarrow> feel_engine \<Rightarrow> string \<Rightarrow> vars
    \<Rightarrow> eval_error + bool" where
  "EvaluateCondition mode cel feel expr vs =
     (if trim_space expr = [] then Inr True
      else let celR = celCondition cel expr vs in
        case evaluateFEELCondition mode feel expr vs celR of
          Some r \<Rightarrow> r | None \<Rightarrow> celR)"

text \<open>A value expression (\<open>EvaluateValue\<close>): only a text with the FEEL prefix or the \<open>${...}\<close>
  wrapper is evaluated, any other text is its own value.\<close>

definition EvaluateValue :: "FeelMode \<Rightarrow> cel_engine \<Rightarrow> (string \<Rightarrow> vars \<Rightarrow> eval_error + json) \<Rightarrow> string \<Rightarrow> vars
    \<Rightarrow> eval_error + json" where
  "EvaluateValue mode cel feel expr vs =
     (let t = trim_space expr in
      if t = [] then Inr JNull
      else if \<not> (has_prefix t ''='' \<or> has_prefix t ''${'' \<and> has_suffix t ''}'') then Inr (JStr t)
      else
        let celR = (case normalizeExpression t of None \<Rightarrow> Inl EvalPanic | Some e \<Rightarrow> cel e vs) in
        case feelSource t of
          None \<Rightarrow> celR
        | Some src \<Rightarrow> (case mode of
              FeelModeFEEL \<Rightarrow> feel src vs
            | FeelModeShadow \<Rightarrow> shadowChoose celR (feel src vs)
            | FeelModeCEL \<Rightarrow> celR))"

text \<open>The input and output mappings of an activity (\<open>EvaluateIOMappings\<close>): a source that cannot be
  evaluated is skipped, a later mapping to the same target wins.\<close>

fun EvaluateIOMappings :: "(string \<Rightarrow> vars \<Rightarrow> eval_error + json) \<Rightarrow> vars \<Rightarrow> IOMapping list \<Rightarrow> vars
    \<Rightarrow> eval_error + vars" where
  "EvaluateIOMappings val vs [] acc = Inr acc"
| "EvaluateIOMappings val vs (m # ms) acc =
     (case val (Source m) vs of
        Inl EvalPanic \<Rightarrow> Inl EvalPanic
      | Inl (EvalFailed _) \<Rightarrow> EvaluateIOMappings val vs ms acc
      | Inr v \<Rightarrow> EvaluateIOMappings val vs ms (AList.update (Target m) v acc))"

text \<open>A DMN input entry (\<open>EvaluateUnaryTests\<close>): a blank entry is the test that always holds.\<close>

definition EvaluateUnaryTests :: "FeelMode \<Rightarrow> (string \<Rightarrow> 'v \<Rightarrow> vars \<Rightarrow> eval_error + bool) \<Rightarrow> string \<Rightarrow> 'v \<Rightarrow> vars
    \<Rightarrow> eval_error + bool \<Rightarrow> eval_error + bool" where
  "EvaluateUnaryTests mode feel tests inp vs legacy =
     (let tests' = (if trim_space tests = [] then ''-'' else tests) in
      case mode of
        FeelModeFEEL \<Rightarrow> feel tests' inp vs
      | FeelModeShadow \<Rightarrow> shadowChoose legacy (feel tests' inp vs)
      | FeelModeCEL \<Rightarrow> legacy)"

subsection \<open>Choosing the next element\<close>

datatype flow_error =
    TaskMultipleFlows string nat
  | ConditionEvaluationFailed string eval_error
  | NoMatchingCondition string
  | NoInclusiveBranch string
  | MultipleFlows string NodeType nat

type_synonym evaluator = "string \<Rightarrow> vars \<Rightarrow> eval_error + bool"

text \<open>The loop of an exclusive gateway: the default flow is put aside, the first other flow
  whose condition is true (or empty) is taken.\<close>

fun exclusive_loop :: "evaluator \<Rightarrow> string \<Rightarrow> vars \<Rightarrow> string \<Rightarrow> Flow option \<Rightarrow> Flow list
    \<Rightarrow> flow_error + string" where
  "exclusive_loop ev gw vs dflt dfl [] =
     (case dfl of Some f \<Rightarrow> Inr (TargetRef f) | None \<Rightarrow> Inl (NoMatchingCondition gw))"
| "exclusive_loop ev gw vs dflt dfl (f # fs) =
     (if flow_ID f = dflt then exclusive_loop ev gw vs dflt (Some f) fs
      else let cond = trim_space (flow_Condition f) in
        if cond = [] then Inr (TargetRef f)
        else case ev cond vs of
            Inl e \<Rightarrow> Inl (ConditionEvaluationFailed (flow_ID f) e)
          | Inr b \<Rightarrow> if b then Inr (TargetRef f) else exclusive_loop ev gw vs dflt dfl fs)"

definition ResolveNext :: "evaluator \<Rightarrow> Node \<Rightarrow> vars \<Rightarrow> flow_error + string" where
  "ResolveNext ev node vs =
     (if Outgoing node = [] then Inr (ImplicitEnd (ID node))
      else if Type node = UserTaskType \<or> Type node = ServiceTaskType then
        (case filter (\<lambda>f. \<not> IsBoundary f) (Outgoing node) of
           [] \<Rightarrow> Inr (ImplicitEnd (ID node))
         | [f] \<Rightarrow> Inr (TargetRef f)
         | fs \<Rightarrow> Inl (TaskMultipleFlows (ID node) (length fs)))
      else if Type node = ExclusiveGatewayType then
        exclusive_loop ev (ID node) vs (DefaultFlow node) None (Outgoing node)
      else if Type node = ParallelGatewayType then Inr (TargetRef (hd (Outgoing node)))
      else if length (Outgoing node) > 1 then
        Inl (MultipleFlows (ID node) (Type node) (length (Outgoing node)))
      else Inr (TargetRef (hd (Outgoing node))))"

text \<open>The loop of \<open>ResolveInclusiveBranches\<close>: the active flows so far and the default flow.\<close>

fun inclusive_loop :: "evaluator \<Rightarrow> vars \<Rightarrow> string \<Rightarrow> Flow list \<Rightarrow> Flow option \<Rightarrow> Flow list
    \<Rightarrow> flow_error + (Flow list \<times> Flow option)" where
  "inclusive_loop ev vs dflt active dfl [] = Inr (active, dfl)"
| "inclusive_loop ev vs dflt active dfl (f # fs) =
     (if flow_ID f = dflt then inclusive_loop ev vs dflt active (Some f) fs
      else let cond = trim_space (flow_Condition f) in
        if cond = [] then inclusive_loop ev vs dflt (active @ [f]) dfl fs
        else case ev cond vs of
            Inl e \<Rightarrow> Inl (ConditionEvaluationFailed (flow_ID f) e)
          | Inr b \<Rightarrow> inclusive_loop ev vs dflt (if b then active @ [f] else active) dfl fs)"

definition ResolveInclusiveBranches :: "evaluator \<Rightarrow> Node \<Rightarrow> vars \<Rightarrow> flow_error + Flow list" where
  "ResolveInclusiveBranches ev node vs =
     result_bind (inclusive_loop ev vs (DefaultFlow node) [] None (Outgoing node))
       (\<lambda>(active, dfl).
          let active' = (case (active, dfl) of ([], Some d) \<Rightarrow> [d] | _ \<Rightarrow> active)
          in if active' = [] then Inl (NoInclusiveBranch (ID node)) else Inr active')"

text \<open>The Go errors behind these: a chain of wrapped errors, some tagged with the incident they
  raise. \<open>IncidentTypeOf\<close> walks the chain; the innermost tag wins.\<close>

datatype IncidentType =
    IncidentJobNoRetries | IncidentUnhandledErrorEvent | IncidentConditionError
  | IncidentExtractValueError | IncidentIOMappingError | IncidentCalledElementError
  | IncidentCalledDecisionError | IncidentDecisionEvaluationError | IncidentUnknown

datatype go_error = GoError string | Wrapped string go_error | IncidentError IncidentType go_error

fun incident_walk :: "IncidentType \<Rightarrow> go_error \<Rightarrow> IncidentType" where
  "incident_walk t (GoError m) = t"
| "incident_walk t (Wrapped m e) = incident_walk t e"
| "incident_walk t (IncidentError t' e) = incident_walk t' e"

definition IncidentTypeOf :: "go_error \<Rightarrow> IncidentType" where
  "IncidentTypeOf e = incident_walk IncidentUnknown e"

fun eval_go_error :: "eval_error \<Rightarrow> go_error" where
  "eval_go_error (EvalFailed m) = GoError m"
| "eval_go_error EvalPanic = GoError ''panic''"

fun flow_go_error :: "flow_error \<Rightarrow> go_error" where
  "flow_go_error (ConditionEvaluationFailed f e) =
     IncidentError IncidentExtractValueError (Wrapped f (eval_go_error e))"
| "flow_go_error (NoMatchingCondition g) = IncidentError IncidentConditionError (GoError g)"
| "flow_go_error (NoInclusiveBranch g) = IncidentError IncidentConditionError (GoError g)"
| "flow_go_error (TaskMultipleFlows t n) = GoError t"
| "flow_go_error (MultipleFlows n t k) = GoError n"

subsection \<open>The specification of a gateway's choice\<close>

text \<open>What a flow's condition says, apart from the loop: it holds, it does not, or it fails.
  The flow named as the default is never a candidate.\<close>

definition flow_verdict :: "evaluator \<Rightarrow> vars \<Rightarrow> Flow \<Rightarrow> eval_error + bool" where
  "flow_verdict ev vs f =
     (let cond = trim_space (flow_Condition f) in if cond = [] then Inr True else ev cond vs)"

definition candidates :: "Node \<Rightarrow> Flow list" where
  "candidates node = filter (\<lambda>f. flow_ID f \<noteq> DefaultFlow node) (Outgoing node)"

definition defaults :: "Node \<Rightarrow> Flow list" where
  "defaults node = filter (\<lambda>f. flow_ID f = DefaultFlow node) (Outgoing node)"


lemma exclusive_loop_spec:
  "exclusive_loop ev gw vs dflt dfl fs =
     (case dropWhile (\<lambda>f. flow_verdict ev vs f = Inr False) (filter (\<lambda>f. flow_ID f \<noteq> dflt) fs) of
        f # _ \<Rightarrow> (case flow_verdict ev vs f of
                   Inl e \<Rightarrow> Inl (ConditionEvaluationFailed (flow_ID f) e)
                 | Inr _ \<Rightarrow> Inr (TargetRef f))
      | [] \<Rightarrow> (case filter (\<lambda>f. flow_ID f = dflt) fs of
                 [] \<Rightarrow> (case dfl of Some f \<Rightarrow> Inr (TargetRef f) | None \<Rightarrow> Inl (NoMatchingCondition gw))
               | d # ds \<Rightarrow> Inr (TargetRef (last (d # ds)))))"
proof (induction fs arbitrary: dfl)
  case Nil
  then show ?case by simp
next
  case (Cons f fs)
  show ?case
  proof (cases "flow_ID f = dflt")
    case True
    then show ?thesis using Cons.IH [of "Some f"]
      by (cases "filter (\<lambda>g. flow_ID g = dflt) fs";
          cases "dropWhile (\<lambda>g. flow_verdict ev vs g = Inr False) (filter (\<lambda>g. flow_ID g \<noteq> dflt) fs)")
        (simp_all del: dropWhile_eq_Nil_conv)
  next
    case False
    show ?thesis
    proof (cases "trim_space (flow_Condition f) = []")
      case True
      then show ?thesis using False by (simp add: flow_verdict_def)
    next
      case ne: False
      have v: "flow_verdict ev vs f = ev (trim_space (flow_Condition f)) vs"
        using ne by (simp add: flow_verdict_def)
      show ?thesis
      proof (cases "ev (trim_space (flow_Condition f)) vs")
        case (Inl e)
        then show ?thesis using False ne v by simp
      next
        case (Inr b)
        then show ?thesis using False ne v Cons.IH [of dfl] by (cases b) (simp_all cong: list.case_cong)
      qed
    qed
  qed
qed

lemma inclusive_step:
  "flow_ID f \<noteq> dflt \<Longrightarrow> inclusive_loop ev vs dflt active dfl (f # fs) =
     (case flow_verdict ev vs f of
        Inl e \<Rightarrow> Inl (ConditionEvaluationFailed (flow_ID f) e)
      | Inr b \<Rightarrow> inclusive_loop ev vs dflt (if b then active @ [f] else active) dfl fs)"
  by (simp add: flow_verdict_def Let_def)

lemma inclusive_loop_Inr:
  assumes "\<forall>f \<in> set fs. flow_ID f \<noteq> dflt \<longrightarrow> (\<exists>b. flow_verdict ev vs f = Inr b)"
  shows "inclusive_loop ev vs dflt active dfl fs =
    Inr (active @ filter (\<lambda>f. flow_ID f \<noteq> dflt \<and> flow_verdict ev vs f = Inr True) fs,
         case filter (\<lambda>f. flow_ID f = dflt) fs of [] \<Rightarrow> dfl | d # ds \<Rightarrow> Some (last (d # ds)))"
  using assms
proof (induction fs arbitrary: active dfl)
  case Nil
  then show ?case by simp
next
  case (Cons f fs)
  have rest: "\<forall>f \<in> set fs. flow_ID f \<noteq> dflt \<longrightarrow> (\<exists>b. flow_verdict ev vs f = Inr b)"
    using Cons.prems by simp
  show ?case
  proof (cases "flow_ID f = dflt")
    case True
    then show ?thesis using Cons.IH [OF rest, of active "Some f"]
      by (cases "filter (\<lambda>g. flow_ID g = dflt) fs") simp_all
  next
    case False
    then obtain b where "flow_verdict ev vs f = Inr b" using Cons.prems by auto
    then show ?thesis using False Cons.IH [OF rest]
      by (simp add: inclusive_step del: inclusive_loop.simps)
  qed
qed

lemma inclusive_loop_Inl:
  assumes "inclusive_loop ev vs dflt active dfl fs = Inl err"
  shows "\<exists>f \<in> set fs. \<exists>e. flow_ID f \<noteq> dflt \<and> flow_verdict ev vs f = Inl e \<and>
    err = ConditionEvaluationFailed (flow_ID f) e"
  using assms
proof (induction fs arbitrary: active dfl)
  case Nil
  then show ?case by simp
next
  case (Cons f fs)
  show ?case
  proof (cases "flow_ID f = dflt")
    case True
    then show ?thesis using Cons by auto
  next
    case False
    show ?thesis
    proof (cases "flow_verdict ev vs f")
      case (Inl e)
      then show ?thesis using False Cons.prems
        by (auto simp: inclusive_step simp del: inclusive_loop.simps)
    next
      case (Inr b)
      then have "inclusive_loop ev vs dflt (if b then active @ [f] else active) dfl fs = Inl err"
        using False Cons.prems by (simp add: inclusive_step del: inclusive_loop.simps)
      from Cons.IH [OF this] show ?thesis by auto
    qed
  qed
qed

subsection \<open>Properties\<close>

lemma first_split_Cons:
  "(\<exists>pre f post. g # fs = pre @ f # post \<and> (\<forall>h \<in> set pre. A h) \<and> B f)
   \<longleftrightarrow> B g \<or> A g \<and> (\<exists>pre f post. fs = pre @ f # post \<and> (\<forall>h \<in> set pre. A h) \<and> B f)"
    (is "?L \<longleftrightarrow> ?R")
proof
  assume ?L
  then obtain pre f post where *: "g # fs = pre @ f # post" "\<forall>h \<in> set pre. A h" "B f" by blast
  then show ?R by (cases pre) auto
next
  assume ?R
  then show ?L
  proof (elim disjE conjE exE)
    assume "B g"
    then have "g # fs = [] @ g # fs \<and> (\<forall>h \<in> set []. A h) \<and> B g" by simp
    then show ?L by blast
  next
    fix pre f post
    assume "A g" "fs = pre @ f # post" "\<forall>h \<in> set pre. A h" "B f"
    then have "g # fs = (g # pre) @ f # post \<and> (\<forall>h \<in> set (g # pre). A h) \<and> B f" by simp
    then show ?L by blast
  qed
qed

text \<open>The loop that stops at the first flow whose verdict is not false.\<close>

lemma first_true_conv:
  "(case dropWhile (\<lambda>f. P f = Inr False) fs of f # _ \<Rightarrow> (case P f of Inl e \<Rightarrow> Inl (E f e) | Inr _ \<Rightarrow> Inr (T f))
      | [] \<Rightarrow> rest) = (Inr t :: 'e + 't)
   \<longleftrightarrow> (\<exists>pre f post. fs = pre @ f # post \<and> (\<forall>g \<in> set pre. P g = Inr False) \<and> P f = Inr True \<and> t = T f)
     \<or> (\<forall>g \<in> set fs. P g = Inr False) \<and> rest = Inr t"
proof (induction fs)
  case Nil
  then show ?case by simp
next
  case (Cons g fs)
  then show ?case
    unfolding first_split_Cons by (cases "P g = Inr False") (auto split: sum.splits)
qed

lemma first_true_Inl:
  "(case dropWhile (\<lambda>f. P f = Inr False) fs of f # _ \<Rightarrow> (case P f of Inl e \<Rightarrow> Inl (E f e) | Inr _ \<Rightarrow> Inr (T f))
      | [] \<Rightarrow> rest) = (Inl err :: 'e + 't)
   \<longleftrightarrow> (\<exists>pre f post. fs = pre @ f # post \<and> (\<forall>g \<in> set pre. P g = Inr False) \<and> (\<exists>e. P f = Inl e \<and> err = E f e))
     \<or> (\<forall>g \<in> set fs. P g = Inr False) \<and> rest = Inl err"
proof (induction fs)
  case Nil
  then show ?case by simp
next
  case (Cons g fs)
  then show ?case
    unfolding first_split_Cons by (cases "P g = Inr False") (auto split: sum.splits)
qed

lemma ResolveNext_exclusive_loop:
  assumes "Type node = ExclusiveGatewayType" and "Outgoing node \<noteq> []"
  shows "ResolveNext ev node vs =
     (case dropWhile (\<lambda>f. flow_verdict ev vs f = Inr False) (candidates node) of
        f # _ \<Rightarrow> (case flow_verdict ev vs f of
                   Inl e \<Rightarrow> Inl (ConditionEvaluationFailed (flow_ID f) e)
                 | Inr _ \<Rightarrow> Inr (TargetRef f))
      | [] \<Rightarrow> (case defaults node of
                 [] \<Rightarrow> Inl (NoMatchingCondition (ID node))
               | d # ds \<Rightarrow> Inr (TargetRef (last (d # ds)))))"
  using assms by (simp add: ResolveNext_def exclusive_loop_spec candidates_def defaults_def cong: list.case_cong)

text \<open>C31: An exclusive gateway takes the first flow, in document order, whose condition is true (no
  condition counts as true); the default flow is taken exactly when every other condition is false.\<close>

theorem ResolveNext_exclusive_takes:
  assumes "Type node = ExclusiveGatewayType" and "Outgoing node \<noteq> []"
  shows "ResolveNext ev node vs = Inr t \<longleftrightarrow>
      (\<exists>pre f post. candidates node = pre @ f # post \<and> (\<forall>g \<in> set pre. flow_verdict ev vs g = Inr False)
         \<and> flow_verdict ev vs f = Inr True \<and> t = TargetRef f)
    \<or> (\<forall>g \<in> set (candidates node). flow_verdict ev vs g = Inr False)
         \<and> defaults node \<noteq> [] \<and> t = TargetRef (last (defaults node))"
  unfolding ResolveNext_exclusive_loop [OF assms] first_true_conv
  by (cases "defaults node") auto

text \<open>An exclusive gateway fails only where a condition cannot be evaluated before one is true
  (an \<open>EXTRACT_VALUE_ERROR\<close> incident) or where no condition is true and there is no default flow
  (a \<open>CONDITION_ERROR\<close> incident).\<close>

theorem ResolveNext_exclusive_fails:
  assumes "Type node = ExclusiveGatewayType" and "Outgoing node \<noteq> []"
    and "ResolveNext ev node vs = Inl err"
  shows "(\<exists>pre f post e. candidates node = pre @ f # post
            \<and> (\<forall>g \<in> set pre. flow_verdict ev vs g = Inr False) \<and> flow_verdict ev vs f = Inl e
            \<and> err = ConditionEvaluationFailed (flow_ID f) e
            \<and> IncidentTypeOf (flow_go_error err) = IncidentExtractValueError)
    \<or> (\<forall>g \<in> set (candidates node). flow_verdict ev vs g = Inr False) \<and> defaults node = []
        \<and> err = NoMatchingCondition (ID node)
        \<and> IncidentTypeOf (flow_go_error err) = IncidentConditionError"
proof -
  have tag: "IncidentTypeOf (flow_go_error (ConditionEvaluationFailed i e)) = IncidentExtractValueError" for i e
    by (cases e) (simp_all add: IncidentTypeOf_def)
  from assms(3) show ?thesis
    unfolding ResolveNext_exclusive_loop [OF assms(1,2)] first_true_Inl
  proof (elim disjE)
    assume "\<exists>pre f post. candidates node = pre @ f # post
        \<and> (\<forall>g \<in> set pre. flow_verdict ev vs g = Inr False) \<and> (\<exists>e. flow_verdict ev vs f = Inl e
        \<and> err = ConditionEvaluationFailed (flow_ID f) e)"
    then show ?thesis using tag by blast
  next
    assume "(\<forall>g \<in> set (candidates node). flow_verdict ev vs g = Inr False)
      \<and> (case defaults node of [] \<Rightarrow> Inl (NoMatchingCondition (ID node))
         | d # ds \<Rightarrow> Inr (TargetRef (last (d # ds)))) = Inl err"
    then show ?thesis by (cases "defaults node") (auto simp: IncidentTypeOf_def)
  qed
qed

text \<open>An inclusive gateway activates every flow whose condition is true, in document order, and
  the default flow alone when none is; it succeeds exactly when every condition can be evaluated and
  one of them is true or there is a default, so it never activates an empty set of branches.\<close>

theorem ResolveInclusiveBranches_spec:
  "ResolveInclusiveBranches ev node vs = Inr bs \<longleftrightarrow>
     (\<forall>f \<in> set (candidates node). \<exists>b. flow_verdict ev vs f = Inr b) \<and> bs \<noteq> [] \<and>
     (let true = filter (\<lambda>f. flow_verdict ev vs f = Inr True) (candidates node)
      in bs = (if true = [] \<and> defaults node \<noteq> [] then [last (defaults node)] else true))"
proof (cases "\<forall>f \<in> set (candidates node). \<exists>b. flow_verdict ev vs f = Inr b")
  case True
  then have h: "\<forall>f \<in> set (Outgoing node). flow_ID f \<noteq> DefaultFlow node \<longrightarrow> (\<exists>b. flow_verdict ev vs f = Inr b)"
    by (simp add: candidates_def)
  have f: "filter (\<lambda>f. flow_ID f \<noteq> DefaultFlow node \<and> flow_verdict ev vs f = Inr True) (Outgoing node)
      = filter (\<lambda>f. flow_verdict ev vs f = Inr True) (candidates node)"
    by (simp add: candidates_def conj_commute)
  show ?thesis using True
    unfolding ResolveInclusiveBranches_def inclusive_loop_Inr [OF h] f defaults_def [symmetric]
    by (cases "filter (\<lambda>f. flow_verdict ev vs f = Inr True) (candidates node)"; cases "defaults node")
      (auto simp: Let_def)
next
  case False
  have "\<exists>err. inclusive_loop ev vs (DefaultFlow node) active dfl fs = Inl err"
    if "\<exists>f \<in> set fs. flow_ID f \<noteq> DefaultFlow node \<and> (\<nexists>b. flow_verdict ev vs f = Inr b)" for active dfl fs
    using that
  proof (induction fs arbitrary: active dfl)
    case (Cons f fs)
    show ?case
    proof (cases "flow_ID f = DefaultFlow node")
      case True
      then show ?thesis using Cons by auto
    next
      case ne: False
      then show ?thesis using Cons
        by (cases "flow_verdict ev vs f") (auto simp: inclusive_step simp del: inclusive_loop.simps)
    qed
  qed simp
  moreover have "\<exists>f \<in> set (Outgoing node). flow_ID f \<noteq> DefaultFlow node \<and> (\<nexists>b. flow_verdict ev vs f = Inr b)"
    using False by (auto simp: candidates_def)
  ultimately obtain err where "inclusive_loop ev vs (DefaultFlow node) [] None (Outgoing node) = Inl err"
    by blast
  then show ?thesis using False by (simp add: ResolveInclusiveBranches_def)
qed

lemma convert_scan_quoted:
  "q \<notin> set s \<Longrightarrow> convert_scan (Some q) u (s @ q # post) = s @ CHR 0x22 # convert_scan None u post"
  by (induction s) auto

lemma convert_scan_plain:
  "set pre \<inter> set quote_chars = {} \<Longrightarrow> q \<in> set quote_chars \<Longrightarrow>
   convert_scan None u (pre @ q # post) =
     applyFEELOperatorSubstitutions (u @ pre) @ CHR 0x22 # convert_scan (Some q) [] post"
  by (induction pre arbitrary: u) auto

text \<open>The rewriting to CEL leaves the text of a string literal as it is, whatever words and
  operators it holds; only its delimiters become double quotes.\<close>

theorem convertFEELToCEL_literal:
  assumes "set pre \<inter> set quote_chars = {}" and "q \<in> set quote_chars" and "q \<notin> set s"
  shows "convertFEELToCEL (pre @ q # s @ q # post) =
    trim_space (applyFEELOperatorSubstitutions pre @ CHR 0x22 # s @ CHR 0x22 # convert_scan None [] post)"
  using assms by (simp add: convertFEELToCEL_def convert_scan_plain convert_scan_quoted)

theorem convertFEELToCEL_literal_witness:
  "convertFEELToCEL (''x = '' @ CHR 0x27 # ''cash and carry'' @ CHR 0x27 # '' and y'') =
    trim_space (applyFEELOperatorSubstitutions ''x = '' @ CHR 0x22 # ''cash and carry'' @ CHR 0x22 #
      convert_scan None [] '' and y'')"
  by (rule convertFEELToCEL_literal) (simp_all add: quote_chars_def)

lemma strip_juel_total: "\<exists>e'. strip_juel e = Some e'"
proof (cases "has_prefix e ''${'' \<and> has_suffix e ''}''")
  case True
  then obtain t where e: "e = CHR ''$'' # CHR ''{'' # t" by (auto simp: has_prefix_iff)
  then have "t \<noteq> []" using True by (cases t) (simp_all add: has_suffix_def)
  then show ?thesis using True e by (cases t) (simp_all add: strip_juel_def slice_def)
next
  case False
  then show ?thesis by (auto simp: strip_juel_def)
qed

lemma strip_quotes_None: "strip_quotes e = None \<longleftrightarrow> e = [CHR 0x22] \<or> e = [CHR 0x27]"
proof (cases e)
  case Nil
  then show ?thesis by (simp add: strip_quotes_def)
next
  case (Cons c cs)
  then show ?thesis by (cases cs) (auto simp: strip_quotes_def slice_def has_suffix_def)
qed

text \<open>Normalising an expression panics exactly when what is left after the wrapper and the
  prefix is a single quote character: the code then slices \<open>expr[1:0]\<close>.\<close>

theorem normalizeExpression_panics_iff:
  "normalizeExpression expr = None \<longleftrightarrow>
     (\<exists>e. strip_juel (trim_space expr) = Some e \<and> strip_feel_prefix e \<in> {[CHR 0x22], [CHR 0x27]})"
  using strip_juel_total [of "trim_space expr"]
  by (auto simp: normalizeExpression_def strip_quotes_None)

text \<open>The mode of the interpreter only matters to expressions with the FEEL prefix; in shadow
  mode a condition CEL can evaluate keeps its CEL result where FEEL returns, one CEL rejects and FEEL accepts takes the
  FEEL result; in FEEL mode the CEL engine has no influence.\<close>

theorem EvaluateCondition_modes:
  "(feelSource expr = None \<longrightarrow> EvaluateCondition mode cel feel expr vs = EvaluateCondition FeelModeCEL cel feel expr vs)
   \<and> (trim_space expr \<noteq> [] \<longrightarrow> celCondition cel expr vs = Inr b \<longrightarrow>
        (\<forall>s. feelSource expr = Some s \<longrightarrow> \<not> is_panic (feel s vs)) \<longrightarrow>
        EvaluateCondition FeelModeShadow cel feel expr vs = Inr b)
   \<and> (feelSource expr = Some src \<longrightarrow> celCondition cel expr vs = Inl (EvalFailed m) \<longrightarrow> feel src vs = Inr b' \<longrightarrow>
        EvaluateCondition FeelModeShadow cel feel expr vs = Inr b')
   \<and> (feelSource expr = Some src \<longrightarrow>
        EvaluateCondition FeelModeFEEL cel feel expr vs = EvaluateCondition FeelModeFEEL cel' feel expr vs)"
  by (auto simp: EvaluateCondition_def evaluateFEELCondition_def shadowChoose_def is_panic_def feelSource_def
      Let_def split: FeelMode.splits option.splits)

text \<open>A value engine for the examples: the text \<open>true\<close> is true, \<open>false\<close> is false, nothing else
  can be evaluated.\<close>

definition example_ev :: evaluator where
  "example_ev e vs = (if e = ''true'' then Inr True else if e = ''false'' then Inr False
     else Inl (EvalFailed e))"

definition example_flow :: "string \<Rightarrow> string \<Rightarrow> Flow" where
  "example_flow i c = \<lparr>flow_ID = i, SourceRef = ''g'', TargetRef = i @ ''_target'', flow_Condition = c, IsBoundary = False\<rparr>"

definition example_gateway :: "NodeType \<Rightarrow> Node" where
  "example_gateway t = (new_node ''g'' t)\<lparr>Outgoing := [example_flow ''d'' '''', example_flow ''a'' ''false'',
     example_flow ''b'' ''true'', example_flow ''c'' ''true''], DefaultFlow := ''d''\<rparr>"

lemmas example_flow_defs = example_ev_def example_flow_def example_gateway_def new_node_def
  candidates_def defaults_def flow_verdict_def go_strings

theorem ResolveNext_exclusive_takes_witness:
  "ResolveNext example_ev (example_gateway ExclusiveGatewayType) [] = Inr ''b_target''"
proof -
  let ?n = "example_gateway ExclusiveGatewayType"
  have c: "candidates ?n = [example_flow ''a'' ''false''] @ example_flow ''b'' ''true'' # [example_flow ''c'' ''true'']"
    by (simp add: example_gateway_def candidates_def example_flow_def new_node_def)
  have v: "\<forall>g \<in> set [example_flow ''a'' ''false'']. flow_verdict example_ev [] g = Inr False"
    "flow_verdict example_ev [] (example_flow ''b'' ''true'') = Inr True"
    "''b_target'' = TargetRef (example_flow ''b'' ''true'')"
    by code_simp+
  have "Type ?n = ExclusiveGatewayType" "Outgoing ?n \<noteq> []" by (simp_all add: example_gateway_def new_node_def)
  from ResolveNext_exclusive_takes [OF this, of example_ev "[]" "''b_target''"] c v show ?thesis by blast
qed

theorem ResolveNext_exclusive_fails_witness:
  "IncidentTypeOf (flow_go_error (ConditionEvaluationFailed ''a'' (EvalFailed ''bad?''))) = IncidentExtractValueError
   \<and> \<not> (\<forall>g \<in> set (candidates ((example_gateway ExclusiveGatewayType)\<lparr>Outgoing := [example_flow ''a'' ''bad?'']\<rparr>)).
        flow_verdict example_ev [] g = Inr False)"
proof -
  let ?n = "(example_gateway ExclusiveGatewayType)\<lparr>Outgoing := [example_flow ''a'' ''bad?'']\<rparr>"
  let ?e = "ConditionEvaluationFailed ''a'' (EvalFailed ''bad?'')"
  have t: "Type ?n = ExclusiveGatewayType" "Outgoing ?n \<noteq> []" by (simp_all add: example_gateway_def new_node_def)
  have r: "ResolveNext example_ev ?n [] = Inl ?e" by code_simp
  have "flow_verdict example_ev [] (example_flow ''a'' ''bad?'') \<noteq> Inr False"
    "example_flow ''a'' ''bad?'' \<in> set (candidates ?n)" by code_simp+
  with ResolveNext_exclusive_fails [OF t r] show ?thesis by blast
qed

theorem ResolveInclusiveBranches_spec_witness:
  "ResolveInclusiveBranches example_ev (example_gateway InclusiveGatewayType) [] =
     Inr [example_flow ''b'' ''true'', example_flow ''c'' ''true'']"
  unfolding ResolveInclusiveBranches_spec
  by (auto simp: example_flow_defs Let_def)

text \<open>Evaluating the mappings of an activity never fails because of a source that cannot be
  evaluated; with distinct targets, a target holds its source's value exactly when that has one.\<close>

theorem EvaluateIOMappings_lookup:
  assumes "distinct (map Target ms)" and "\<forall>m \<in> set ms. val (Source m) vs \<noteq> Inl EvalPanic"
  shows "\<exists>out. EvaluateIOMappings val vs ms [] = Inr out \<and>
    (\<forall>m \<in> set ms. map_of out (Target m) = (case val (Source m) vs of Inl _ \<Rightarrow> None | Inr v \<Rightarrow> Some v)) \<and>
    (\<forall>k. k \<notin> Target ` set ms \<longrightarrow> map_of out k = None)"
proof -
  have "\<exists>out. EvaluateIOMappings val vs ms acc = Inr out \<and>
    (\<forall>m \<in> set ms. map_of out (Target m) = (case val (Source m) vs of Inl _ \<Rightarrow> map_of acc (Target m) | Inr v \<Rightarrow> Some v)) \<and>
    (\<forall>k. k \<notin> Target ` set ms \<longrightarrow> map_of out k = map_of acc k)" for acc
    using assms
  proof (induction ms arbitrary: acc)
    case Nil
    then show ?case by simp
  next
    case (Cons m ms)
    then have IH: "\<And>acc. \<exists>out. EvaluateIOMappings val vs ms acc = Inr out \<and>
      (\<forall>m \<in> set ms. map_of out (Target m) = (case val (Source m) vs of Inl _ \<Rightarrow> map_of acc (Target m) | Inr v \<Rightarrow> Some v)) \<and>
      (\<forall>k. k \<notin> Target ` set ms \<longrightarrow> map_of out k = map_of acc k)" by simp
    have fresh: "Target m \<notin> Target ` set ms" using Cons.prems(1) by simp
    show ?case
    proof (cases "val (Source m) vs")
      case (Inl e)
      then obtain x where e: "e = EvalFailed x" using Cons.prems(2) by (cases e) auto
      from IH [of acc] show ?thesis using Inl e fresh by auto
    next
      case (Inr v)
      from IH [of "AList.update (Target m) v acc"] obtain out where
        o: "EvaluateIOMappings val vs ms (AList.update (Target m) v acc) = Inr out"
        "\<forall>m' \<in> set ms. map_of out (Target m') =
           (case val (Source m') vs of Inl _ \<Rightarrow> map_of (AList.update (Target m) v acc) (Target m') | Inr v \<Rightarrow> Some v)"
        "\<forall>k. k \<notin> Target ` set ms \<longrightarrow> map_of out k = map_of (AList.update (Target m) v acc) k" by blast
      have "map_of (AList.update (Target m) v acc) (Target m') = map_of acc (Target m')" if "m' \<in> set ms" for m'
        using fresh that by (metis image_eqI update_conv' fun_upd_apply)
      then show ?thesis using o Inr fresh by (auto simp: update_conv' split: sum.splits)
    qed
  qed
  from this [of "[]"] show ?thesis by (simp cong: sum.case_cong)
qed

theorem EvaluateIOMappings_lookup_witness:
  "\<exists>out. EvaluateIOMappings (\<lambda>e vs. if e = ''x'' then Inl (EvalFailed e) else Inr (JStr e)) []
      [\<lparr>Source = ''x'', Target = ''p''\<rparr>, \<lparr>Source = ''y'', Target = ''q''\<rparr>] [] = Inr out \<and>
    map_of out ''p'' = None \<and> map_of out ''q'' = Some (JStr ''y'')"
  using EvaluateIOMappings_lookup [of "[\<lparr>Source = ''x'', Target = ''p''\<rparr>, \<lparr>Source = ''y'', Target = ''q''\<rparr>]"
      "\<lambda>e vs. if e = ''x'' then Inl (EvalFailed e) else Inr (JStr e)" "[]"]
  by fastforce

theorem EvaluateCondition_modes_witness:
  "EvaluateCondition FeelModeShadow (\<lambda>e vs. Inl (EvalFailed e)) (\<lambda>e vs. Inr True) ''= x'' [] = Inr True"
proof -
  have "feelSource ''= x'' = Some ''x''" by code_simp
  moreover have "celCondition (\<lambda>e vs. Inl (EvalFailed e)) ''= x'' [] = Inl (EvalFailed ''x'')" by code_simp
  ultimately show ?thesis
    using EvaluateCondition_modes [of "''= x''" FeelModeShadow "\<lambda>e vs. Inl (EvalFailed e)" "\<lambda>e vs. Inr True" "[]"]
    by blast
qed

text \<open>The cache key does not separate the expression from the variable names, so two different
  expressions can share a key, and the second is then answered with the first one's program: \<open>a\<close>
  under \<open>a, b, bc\<close> and \<open>ab\<close> under \<open>ab, c\<close>.\<close>

theorem compileExpression_cache_collision:
  assumes "compile ''a'' [''b'', ''a'', ''bc''] = Inr prog"
    and "compileExpression hash compile v [] ''= a'' [''b'', ''a'', ''bc''] = Some (r, cache)"
  shows "compileExpression hash compile v' cache ''= ab'' [''ab'', ''c''] = Some (Inr prog, cache)"
proof -
  have n: "normalizeExpression ''= a'' = Some ''a''" "normalizeExpression ''= ab'' = Some ''ab''" by code_simp+
  have "cacheKeyText ''a'' [''b'', ''a'', ''bc''] = cacheKeyText ''ab'' [''ab'', ''c'']" by (simp add: cacheKeyText_def)
  then show ?thesis using assms by (auto simp: compileExpression_def n setCachedProgram_def Let_def)
qed

theorem compileExpression_cache_collision_witness:
  "compileExpression id (\<lambda>e ns. Inr e) '''' [(''ababc'', ''a'')] ''= ab'' [''ab'', ''c''] =
     Some (Inr ''a'', [(''ababc'', ''a'')])"
  by (rule compileExpression_cache_collision [of _ _ _ "''''" "Inr ''a''"]) code_simp+

text \<open>The rewriting of \<open>is not null\<close> never applies: an earlier substitution has already turned
  the word \<open>not\<close> between spaces into the operator, so the null check reaches CEL as \<open>is !null\<close>.\<close>

theorem is_not_null_miscompiled:
  "normalizeExpression ''= x is not null'' = Some ''x is !null''"
  by code_simp

text \<open>A sub-process or call activity with one outgoing flow and one timer boundary event cannot be
  left: the boundary's own flow is counted among the outgoing flows and two flows are an error.\<close>

theorem ResolveNext_boundary_flow_blocks:
  assumes "Type node \<in> {SubProcessType, CallActivityType}" and "Outgoing node = [f, b]" and "IsBoundary b"
  shows "ResolveNext ev node vs = Inl (MultipleFlows (ID node) (Type node) 2)"
  using assms by (auto simp: ResolveNext_def)

theorem ResolveNext_boundary_flow_blocks_witness:
  "ResolveNext example_ev ((new_node ''s'' SubProcessType)\<lparr>Outgoing := [example_flow ''a'' '''',
     (example_flow ''t_boundary_flow'' '''')\<lparr>IsBoundary := True\<rparr>]\<rparr>) [] = Inl (MultipleFlows ''s'' SubProcessType 2)"
  using ResolveNext_boundary_flow_blocks [of "(new_node ''s'' SubProcessType)\<lparr>Outgoing := [example_flow ''a'' '''',
     (example_flow ''t_boundary_flow'' '''')\<lparr>IsBoundary := True\<rparr>]\<rparr>"]
  by (simp add: new_node_def)

end
