(* ===== verification/Store.thy ===== *)
theory Store
  imports Flow_Resolution
begin

text \<open>
  The engine's tables and the statements on them (\<open>internal/repository/engine_repository.go\<close>).

  A table is the list of its rows in insertion order; an \<open>UPDATE ... WHERE\<close> is
  \<open>update_where\<close>, a \<open>DELETE ... WHERE\<close> is \<open>delete_where\<close>, \<open>RETURNING id\<close> the identifiers of the
  rows that were hit. The status columns are the enums of \<open>database/01_schema.sql\<close>. An \<open>INSERT\<close>
  checks the table's unique constraints: a violation is \<open>Inl DuplicateKey\<close>, or no row
  where the statement says \<open>ON CONFLICT DO NOTHING\<close>. Times are integers (milliseconds); columns that
  only record when a row was written (\<open>created_at\<close>, \<open>updated_at\<close>) and foreign keys are left
  out, and so are lost connections: a statement of the model always runs.
\<close>

subsection \<open>Rows\<close>

datatype exec_status = ExecActive | ExecWaiting | ExecCompleted | ExecTerminated

record Execution =
  exec_id :: uuid
  exec_instance :: uuid
  exec_element :: string
  exec_status :: exec_status
  exec_parent :: "uuid option"
  exec_path :: "string option"
  exec_is_active :: bool

datatype gateway_status = GatewayWaiting | GatewayCompleted

record GatewayState =
  gw_id :: uuid
  gw_instance :: uuid
  gw_gateway :: string
  ExpectedIncoming :: nat
  ReceivedIncoming :: nat
  JoinedFlows :: "string list"
  gw_status :: gateway_status

record TimerJob =
  timer_id :: uuid
  timer_instance :: uuid
  timer_execution :: "uuid option"
  timer_event :: string
  DueAt :: int
  timer_payload :: string
  IsTriggered :: bool
  CycleCount :: int
  TotalCycles :: int
  RepeatInterval :: string

text \<open>\<open>sub_last\<close> is the last value of a conditional subscription, the \<open>message_payload\<close> of its row.\<close>

record EventSubscription =
  sub_id :: uuid
  sub_instance :: uuid
  sub_execution :: "uuid option"
  sub_type :: string
  sub_name :: string
  sub_correlation :: "string option"
  sub_target :: "string option"
  sub_consumed :: bool
  sub_last :: "bool option"

datatype job_status = JobPending | JobLocked | JobCompleted | JobFailed | JobCancelled

record Job =
  job_id :: uuid
  job_instance :: uuid
  job_execution :: uuid
  job_type :: string
  job_status :: job_status
  job_payload :: string
  Retries :: int
  LockedBy :: "string option"
  LockedUntil :: "int option"

datatype task_status = TaskCreated | TaskClaimed | TaskCompleted | TaskCancelled

record UserTask =
  task_id :: uuid
  task_instance :: uuid
  task_execution :: uuid
  TaskDefinitionKey :: string
  TaskName :: "string option"
  Assignee :: "string option"
  CandidateGroup :: "string option"
  Priority :: int
  task_status :: task_status

record Incident =
  inc_id :: uuid
  inc_instance :: uuid
  inc_execution :: "uuid option"
  inc_job :: "uuid option"
  inc_type :: IncidentType
  inc_activity :: string
  inc_code :: string
  inc_open :: bool

datatype instance_status = InstanceRunning | InstanceSuspended | InstanceCompleted | InstanceTerminated

record ProcessInstance =
  pi_id :: uuid
  pi_definition :: uuid
  pi_status :: instance_status
  pi_started :: int
  pi_ended :: "int option"
  pi_tenant :: "string option"
  pi_parent :: "(uuid \<times> uuid) option"

text \<open>The loops of multi-instance activities: a row for the body and one per inner instance
  (tables \<open>multi_instance_executions\<close> and \<open>multi_instance_children\<close>).\<close>

datatype loop_status = LoopActive | LoopCompleted | LoopTerminated

record MultiInstanceBody =
  mib_instance :: uuid
  mib_execution :: uuid
  mib_activity :: string
  mib_total :: nat
  mib_status :: loop_status

record MultiInstanceChild =
  mic_body :: uuid
  mic_child :: uuid
  mic_index :: nat
  mic_status :: loop_status

text \<open>The database. \<open>execution_variables\<close> are the branch snapshots of a fork, \<open>variables\<close> the instance
  scope (unique per instance), \<open>scope_variables\<close> the local scopes (keyed by instance and scope).\<close>

record db =
  executions :: "Execution list"
  gateway_states :: "GatewayState list"
  execution_variables :: "(uuid \<times> vars) list"
  variables :: "(uuid \<times> vars) list"
  scope_variables :: "((uuid \<times> uuid) \<times> vars) list"
  timer_jobs :: "TimerJob list"
  event_subscriptions :: "EventSubscription list"
  jobs :: "Job list"
  tasks :: "UserTask list"
  incidents :: "Incident list"
  process_instances :: "ProcessInstance list"
  multi_instance_executions :: "MultiInstanceBody list"
  multi_instance_children :: "MultiInstanceChild list"

definition empty_db :: db where
  "empty_db = \<lparr>executions = [], gateway_states = [], execution_variables = [], variables = [],
     scope_variables = [], timer_jobs = [], event_subscriptions = [], jobs = [], tasks = [],
     incidents = [], process_instances = [], multi_instance_executions = [], multi_instance_children = []\<rparr>"

datatype engine_error =
    DuplicateKey
  | ExecutionNotFound uuid
  | NodeNotFound string
  | InvalidOutgoingFlows
  | NotAServiceTask
  | NoOutgoingFlows
  | JoinWithoutParent
  | GatewayRefetchFailed
  | FlowFailed flow_error
  | NoScopeExecution string uuid
  | NilDereference

subsection \<open>Statements\<close>

definition update_where :: "('a \<Rightarrow> bool) \<Rightarrow> ('a \<Rightarrow> 'a) \<Rightarrow> 'a list \<Rightarrow> 'a list" where
  "update_where P f = map (\<lambda>x. if P x then f x else x)"

definition delete_where :: "('a \<Rightarrow> bool) \<Rightarrow> 'a list \<Rightarrow> 'a list" where
  "delete_where P = filter (\<lambda>x. \<not> P x)"

definition exec_key :: "uuid \<Rightarrow> uuid \<Rightarrow> Execution \<Rightarrow> bool" where
  "exec_key inst eid e \<longleftrightarrow> exec_instance e = inst \<and> exec_id e = eid"

subsection \<open>Executions\<close>

definition GetActiveExecution :: "uuid \<Rightarrow> db \<Rightarrow> Execution option" where
  "GetActiveExecution eid d = find (\<lambda>e. exec_id e = eid \<and> exec_is_active e) (executions d)"

definition GetExecutionByID :: "uuid \<Rightarrow> db \<Rightarrow> Execution option" where
  "GetExecutionByID eid d = find (\<lambda>e. exec_id e = eid) (executions d)"

definition GetChildExecutions :: "uuid \<Rightarrow> db \<Rightarrow> Execution list" where
  "GetChildExecutions p d = filter (\<lambda>e. exec_parent e = Some p \<and> exec_is_active e) (executions d)"

definition CreateExecutionTx :: "Execution \<Rightarrow> db \<Rightarrow> engine_error + db" where
  "CreateExecutionTx e d =
     (if \<exists>x \<in> set (executions d). exec_key (exec_instance e) (exec_id e) x then Inl DuplicateKey
      else Inr (d\<lparr>executions := executions d @ [e]\<rparr>))"

definition CreateExecutionTx2 :: "uuid \<Rightarrow> uuid \<Rightarrow> string \<Rightarrow> db \<Rightarrow> engine_error + db" where
  "CreateExecutionTx2 eid inst el =
     CreateExecutionTx \<lparr>exec_id = eid, exec_instance = inst, exec_element = el, exec_status = ExecActive,
       exec_parent = None, exec_path = None, exec_is_active = True\<rparr>"

definition update_executions :: "(Execution \<Rightarrow> bool) \<Rightarrow> (Execution \<Rightarrow> Execution) \<Rightarrow> db \<Rightarrow> db" where
  "update_executions P f d = d\<lparr>executions := update_where P f (executions d)\<rparr>"

definition finish_as :: "exec_status \<Rightarrow> Execution \<Rightarrow> Execution" where
  "finish_as s e = e\<lparr>exec_status := s, exec_is_active := False\<rparr>"

definition CompleteChildExecutionTx :: "uuid \<Rightarrow> uuid \<Rightarrow> db \<Rightarrow> db" where
  "CompleteChildExecutionTx inst eid = update_executions (exec_key inst eid) (finish_as ExecCompleted)"

definition CompleteExecutionTx :: "uuid \<Rightarrow> uuid \<Rightarrow> db \<Rightarrow> db" where
  "CompleteExecutionTx inst eid = update_executions (exec_key inst eid) (finish_as ExecCompleted)"

definition UpdateExecutionNodeTx :: "uuid \<Rightarrow> uuid \<Rightarrow> string \<Rightarrow> db \<Rightarrow> db" where
  "UpdateExecutionNodeTx inst eid el = update_executions (exec_key inst eid) (\<lambda>e. e\<lparr>exec_element := el\<rparr>)"

definition UpdateExecutionStatusTx :: "uuid \<Rightarrow> uuid \<Rightarrow> exec_status \<Rightarrow> db \<Rightarrow> db" where
  "UpdateExecutionStatusTx inst eid s = update_executions (exec_key inst eid) (\<lambda>e. e\<lparr>exec_status := s\<rparr>)"

definition UpdateExecutionStatusAndNodeTx :: "uuid \<Rightarrow> uuid \<Rightarrow> exec_status \<Rightarrow> string \<Rightarrow> db \<Rightarrow> db" where
  "UpdateExecutionStatusAndNodeTx inst eid s el =
     update_executions (exec_key inst eid) (\<lambda>e. e\<lparr>exec_status := s, exec_element := el\<rparr>)"

subsection \<open>Gateway states\<close>

text \<open>The first argument may be NULL in SQL, and then matches no row.\<close>

definition CountGatewayWaitingState :: "uuid option \<Rightarrow> string \<Rightarrow> db \<Rightarrow> nat" where
  "CountGatewayWaitingState inst node d =
     length (filter (\<lambda>g. Some (gw_instance g) = inst \<and> gw_gateway g = node \<and> gw_status g = GatewayWaiting)
       (gateway_states d))"

text \<open>Whether a row was created, and the database. The primary key is a fresh UUID; the conflict is on
  the pair of instance and gateway, whatever the status of the row that is there.\<close>

definition CreateGatewayStateTx :: "GatewayState \<Rightarrow> db \<Rightarrow> bool \<times> db" where
  "CreateGatewayStateTx g d =
     (if \<exists>x \<in> set (gateway_states d). gw_instance x = gw_instance g \<and> gw_gateway x = gw_gateway g
      then (False, d) else (True, d\<lparr>gateway_states := gateway_states d @ [g]\<rparr>))"

subsection \<open>Timers\<close>

definition insert_timer :: "TimerJob \<Rightarrow> db \<Rightarrow> engine_error + db" where
  "insert_timer t d =
     (if \<exists>x \<in> set (timer_jobs d). timer_id x = timer_id t then Inl DuplicateKey
      else Inr (d\<lparr>timer_jobs := timer_jobs d @ [t]\<rparr>))"

text \<open>Columns left out of the statement take their defaults: no cycle yet, one in all.\<close>

definition CreateTimerJob :: "TimerJob \<Rightarrow> db \<Rightarrow> engine_error + db" where
  "CreateTimerJob t = insert_timer (t\<lparr>IsTriggered := False, CycleCount := 0, TotalCycles := 1, RepeatInterval := ''''\<rparr>)"

definition CreateTimerJobTx :: "TimerJob \<Rightarrow> db \<Rightarrow> engine_error + db" where
  "CreateTimerJobTx t = insert_timer (t\<lparr>IsTriggered := False, CycleCount := 0, TotalCycles := 1, RepeatInterval := ''''\<rparr>)"

definition CreateTimerTx :: "TimerJob \<Rightarrow> db \<Rightarrow> engine_error + db" where
  "CreateTimerTx t = insert_timer t"

definition CreateTimerWithCycleTx :: "uuid \<Rightarrow> uuid \<Rightarrow> uuid option \<Rightarrow> int \<Rightarrow> string \<Rightarrow> string \<Rightarrow> int \<Rightarrow> int
    \<Rightarrow> string \<Rightarrow> db \<Rightarrow> engine_error + db" where
  "CreateTimerWithCycleTx tid inst eid due ev payload cyc tot rep =
     insert_timer \<lparr>timer_id = tid, timer_instance = inst, timer_execution = eid, timer_event = ev, DueAt = due,
       timer_payload = payload, IsTriggered = False, CycleCount = cyc, TotalCycles = tot, RepeatInterval = rep\<rparr>"

definition CreateTimerWithDurationSeconds :: "int \<Rightarrow> uuid \<Rightarrow> uuid \<Rightarrow> uuid option \<Rightarrow> int \<Rightarrow> string \<Rightarrow> string \<Rightarrow> int
    \<Rightarrow> int \<Rightarrow> string \<Rightarrow> db \<Rightarrow> engine_error + db" where
  "CreateTimerWithDurationSeconds now tid inst eid secs ev payload cyc tot rep =
     insert_timer \<lparr>timer_id = tid, timer_instance = inst, timer_execution = eid, timer_event = ev,
       DueAt = now + secs * 1000, timer_payload = payload, IsTriggered = False, CycleCount = cyc,
       TotalCycles = tot, RepeatInterval = rep\<rparr>"

definition due_timers :: "int \<Rightarrow> nat \<Rightarrow> db \<Rightarrow> TimerJob list" where
  "due_timers now limit d =
     take limit (sort_key DueAt (filter (\<lambda>t. \<not> IsTriggered t \<and> DueAt t \<le> now) (timer_jobs d)))"

definition GetDueTimers :: "int \<Rightarrow> db \<Rightarrow> TimerJob list" where
  "GetDueTimers now d = due_timers now 100 d"

definition GetDueTimersByInstance :: "uuid \<Rightarrow> int \<Rightarrow> db \<Rightarrow> TimerJob list" where
  "GetDueTimersByInstance inst now d = sort_key DueAt
     (filter (\<lambda>t. timer_instance t = inst \<and> \<not> IsTriggered t \<and> DueAt t \<le> now) (timer_jobs d))"

definition trigger :: "TimerJob \<Rightarrow> TimerJob" where
  "trigger t = t\<lparr>IsTriggered := True\<rparr>"

definition ClaimDueTimers :: "int \<Rightarrow> nat \<Rightarrow> db \<Rightarrow> TimerJob list \<times> db" where
  "ClaimDueTimers now limit d =
     (let claim = map timer_id (due_timers now limit d);
          hit = (\<lambda>t. timer_id t \<in> set claim)
      in (map trigger (filter hit (timer_jobs d)),
          d\<lparr>timer_jobs := update_where hit trigger (timer_jobs d)\<rparr>))"

text \<open>The claim on a sharded cluster (\<open>claimDueTimers\<close>): candidates are read first, then each is taken by
  an update that still requires it to be untriggered; \<open>interleave\<close> is what other
  schedulers do to the database before each update.\<close>

fun claim_loop :: "(db \<Rightarrow> db) list \<Rightarrow> TimerJob list \<Rightarrow> TimerJob list \<Rightarrow> db \<Rightarrow> TimerJob list \<times> db" where
  "claim_loop env got [] d = (got, d)"
| "claim_loop env got (c # cs) d =
     (let d' = (case env of [] \<Rightarrow> d | f # _ \<Rightarrow> f d);
          hit = (\<lambda>t. timer_instance t = timer_instance c \<and> timer_id t = timer_id c \<and> \<not> IsTriggered t)
      in claim_loop (tl env) (got @ map trigger (filter hit (timer_jobs d'))) cs
           (d'\<lparr>timer_jobs := update_where hit trigger (timer_jobs d')\<rparr>))"

definition claimDueTimers :: "int \<Rightarrow> nat \<Rightarrow> (db \<Rightarrow> db) list \<Rightarrow> db \<Rightarrow> TimerJob list \<times> db" where
  "claimDueTimers now limit env d = claim_loop env [] (due_timers now limit d) d"

definition MarkTimerFiredTx :: "uuid \<Rightarrow> db \<Rightarrow> db" where
  "MarkTimerFiredTx tid d = d\<lparr>timer_jobs := update_where (\<lambda>t. timer_id t = tid) trigger (timer_jobs d)\<rparr>"

definition MarkTimerTriggeredTx :: "uuid \<Rightarrow> db \<Rightarrow> db" where
  "MarkTimerTriggeredTx tid d = d\<lparr>timer_jobs := update_where (\<lambda>t. timer_id t = tid) trigger (timer_jobs d)\<rparr>"

definition DeleteTimerTx :: "uuid \<Rightarrow> db \<Rightarrow> db" where
  "DeleteTimerTx tid d = d\<lparr>timer_jobs := delete_where (\<lambda>t. timer_id t = tid) (timer_jobs d)\<rparr>"

definition DeleteTimersByExecutionTx :: "uuid \<Rightarrow> db \<Rightarrow> db" where
  "DeleteTimersByExecutionTx eid d =
     d\<lparr>timer_jobs := delete_where (\<lambda>t. timer_execution t = Some eid) (timer_jobs d)\<rparr>"

definition DeleteTimersByProcessInstanceTx :: "uuid \<Rightarrow> db \<Rightarrow> db" where
  "DeleteTimersByProcessInstanceTx inst d =
     d\<lparr>timer_jobs := delete_where (\<lambda>t. timer_instance t = inst \<and> \<not> IsTriggered t) (timer_jobs d)\<rparr>"

subsection \<open>Jobs and user tasks\<close>

definition job_open :: "Job \<Rightarrow> bool" where
  "job_open j \<longleftrightarrow> job_status j \<in> {JobPending, JobLocked}"

definition task_open :: "UserTask \<Rightarrow> bool" where
  "task_open t \<longleftrightarrow> task_status t \<in> {TaskCreated, TaskClaimed}"

definition cancel_jobs :: "(Job \<Rightarrow> bool) \<Rightarrow> db \<Rightarrow> uuid list \<times> db" where
  "cancel_jobs P d =
     (let hit = (\<lambda>j. P j \<and> job_open j)
      in (map job_id (filter hit (jobs d)),
          d\<lparr>jobs := update_where hit (\<lambda>j. j\<lparr>job_status := JobCancelled\<rparr>) (jobs d)\<rparr>))"

definition cancel_tasks :: "(UserTask \<Rightarrow> bool) \<Rightarrow> db \<Rightarrow> uuid list \<times> db" where
  "cancel_tasks P d =
     (let hit = (\<lambda>t. P t \<and> task_open t)
      in (map task_id (filter hit (tasks d)),
          d\<lparr>tasks := update_where hit (\<lambda>t. t\<lparr>task_status := TaskCancelled\<rparr>) (tasks d)\<rparr>))"

definition CancelPendingJobsByProcessInstanceTx :: "uuid \<Rightarrow> db \<Rightarrow> uuid list \<times> db" where
  "CancelPendingJobsByProcessInstanceTx inst = cancel_jobs (\<lambda>j. job_instance j = inst)"

definition CancelUserTaskByExecutionTx :: "uuid \<Rightarrow> db \<Rightarrow> db" where
  "CancelUserTaskByExecutionTx eid d = d\<lparr>tasks :=
     update_where (\<lambda>t. task_execution t = eid \<and> task_status t = TaskCreated)
       (\<lambda>t. t\<lparr>task_status := TaskCancelled\<rparr>) (tasks d)\<rparr>"

definition CompleteUserTaskByExecutionTx :: "uuid \<Rightarrow> db \<Rightarrow> db" where
  "CompleteUserTaskByExecutionTx eid d = d\<lparr>tasks :=
     update_where (\<lambda>t. task_execution t = eid \<and> task_status t = TaskCreated)
       (\<lambda>t. t\<lparr>task_status := TaskCompleted\<rparr>) (tasks d)\<rparr>"

definition CreateJobTx :: "uuid \<Rightarrow> uuid \<Rightarrow> uuid \<Rightarrow> string \<Rightarrow> string \<Rightarrow> db \<Rightarrow> engine_error + db" where
  "CreateJobTx jid inst eid ty payload d =
     (if \<exists>x \<in> set (jobs d). job_id x = jid then Inl DuplicateKey
      else Inr (d\<lparr>jobs := jobs d @ [\<lparr>job_id = jid, job_instance = inst, job_execution = eid, job_type = ty,
        job_status = JobPending, job_payload = payload, Retries = 3, LockedBy = None, LockedUntil = None\<rparr>]\<rparr>))"

definition CreateUserTaskTx :: "UserTask \<Rightarrow> db \<Rightarrow> engine_error + db" where
  "CreateUserTaskTx t d =
     (if \<exists>x \<in> set (tasks d). task_instance x = task_instance t \<and> task_id x = task_id t then Inl DuplicateKey
      else Inr (d\<lparr>tasks := tasks d @ [t\<lparr>Priority := (if Priority t = 0 then 50 else Priority t),
        task_status := TaskCreated\<rparr>]\<rparr>))"

definition CompleteJobTx :: "uuid \<Rightarrow> db \<Rightarrow> db" where
  "CompleteJobTx jid d =
     d\<lparr>jobs := update_where (\<lambda>j. job_id j = jid) (\<lambda>j. j\<lparr>job_status := JobCompleted\<rparr>) (jobs d)\<rparr>"

definition GetJobByID :: "uuid \<Rightarrow> db \<Rightarrow> Job option" where
  "GetJobByID jid d = find (\<lambda>j. job_id j = jid) (jobs d)"

definition GetAvailableJobsByTopic :: "string \<Rightarrow> nat \<Rightarrow> db \<Rightarrow> Job list" where
  "GetAvailableJobsByTopic topic limit d =
     take limit (filter (\<lambda>j. job_type j = topic \<and> job_status j = JobPending) (jobs d))"

definition LockJob :: "int \<Rightarrow> uuid \<Rightarrow> string \<Rightarrow> int \<Rightarrow> db \<Rightarrow> bool \<times> db" where
  "LockJob now jid worker dur d =
     (let hit = (\<lambda>j. job_id j = jid \<and> job_status j = JobPending)
      in (\<exists>j \<in> set (jobs d). hit j,
          d\<lparr>jobs := update_where hit (\<lambda>j. j\<lparr>job_status := JobLocked, LockedBy := Some worker,
            LockedUntil := Some (now + dur)\<rparr>) (jobs d)\<rparr>))"

subsection \<open>Instances and their variables\<close>

definition CreateProcessInstanceTx :: "uuid \<Rightarrow> uuid \<Rightarrow> int \<Rightarrow> string option \<Rightarrow> db \<Rightarrow> engine_error + db" where
  "CreateProcessInstanceTx inst def now tenant d =
     (if \<exists>p \<in> set (process_instances d). pi_id p = inst then Inl DuplicateKey
      else Inr (d\<lparr>process_instances := process_instances d @ [\<lparr>pi_id = inst, pi_definition = def,
        pi_status = InstanceRunning, pi_started = now, pi_ended = None, pi_tenant = tenant, pi_parent = None\<rparr>]\<rparr>))"

definition UpdateProcessInstanceStatusTx :: "uuid \<Rightarrow> instance_status \<Rightarrow> int option \<Rightarrow> db \<Rightarrow> db" where
  "UpdateProcessInstanceStatusTx inst s ended d = d\<lparr>process_instances :=
     update_where (\<lambda>p. pi_id p = inst)
       (\<lambda>p. case ended of Some t \<Rightarrow> p\<lparr>pi_status := s, pi_ended := Some t\<rparr> | None \<Rightarrow> p\<lparr>pi_status := s\<rparr>)
       (process_instances d)\<rparr>"

definition CompleteProcessInstanceTx :: "int \<Rightarrow> uuid \<Rightarrow> db \<Rightarrow> db" where
  "CompleteProcessInstanceTx now inst d =
     (let d1 = UpdateProcessInstanceStatusTx inst InstanceCompleted (Some now) d;
          d2 = d1\<lparr>event_subscriptions := update_where (\<lambda>s. sub_instance s = inst \<and> \<not> sub_consumed s)
                 (\<lambda>s. s\<lparr>sub_consumed := True\<rparr>) (event_subscriptions d1)\<rparr>;
          d3 = d2\<lparr>timer_jobs := delete_where (\<lambda>t. timer_instance t = inst \<and> \<not> IsTriggered t) (timer_jobs d2)\<rparr>
      in update_executions (\<lambda>e. exec_instance e = inst \<and> exec_is_active e) (finish_as ExecCompleted) d3)"

definition GetProcessVariables :: "uuid \<Rightarrow> db \<Rightarrow> vars" where
  "GetProcessVariables inst d = (case map_of (variables d) inst of Some vs \<Rightarrow> vs | None \<Rightarrow> [])"

definition UpdateProcessVariablesTx :: "uuid \<Rightarrow> vars \<Rightarrow> db \<Rightarrow> db" where
  "UpdateProcessVariablesTx inst vs d = d\<lparr>variables := AList.update inst vs (variables d)\<rparr>"

text \<open>The existing variables are read outside the transaction, from the database as last committed.\<close>

definition MergeProcessVariablesTx :: "db \<Rightarrow> uuid \<Rightarrow> vars \<Rightarrow> db \<Rightarrow> db" where
  "MergeProcessVariablesTx committed inst new =
     UpdateProcessVariablesTx inst (merge_vars (GetProcessVariables inst committed) new)"

definition CreateVariablesTx :: "uuid \<Rightarrow> vars \<Rightarrow> db \<Rightarrow> engine_error + db" where
  "CreateVariablesTx inst vs d =
     (if vs = [] then Inr d
      else if inst \<in> fst ` set (variables d) then Inl DuplicateKey
      else Inr (d\<lparr>variables := variables d @ [(inst, vs)]\<rparr>))"

definition SetProcessVariableTx :: "uuid \<Rightarrow> string \<Rightarrow> json \<Rightarrow> db \<Rightarrow> db" where
  "SetProcessVariableTx inst k v d =
     UpdateProcessVariablesTx inst (AList.update k v (GetProcessVariables inst d)) d"

text \<open>Creating an instance of a deployed process. The definition (its key, identifier, tenant
  and graph) comes from the deployment tables and the builder; \<open>ids\<close> are the two UUIDs drawn.\<close>

definition CreateProcessInstanceWithVariables :: "int \<Rightarrow> uuid \<times> uuid \<Rightarrow> uuid \<Rightarrow> string option \<Rightarrow> graph \<Rightarrow> vars \<Rightarrow> db
    \<Rightarrow> engine_error + (uuid \<times> uuid \<times> db)" where
  "CreateProcessInstanceWithVariables now ids def tenant g vs d =
     (case find (\<lambda>(i, n). IsProcessStart n) g of
        None \<Rightarrow> Inl (NodeNotFound ''start'')
      | Some (i, n) \<Rightarrow>
          if ID n = '''' then Inl (NodeNotFound ''start'')
          else result_bind (CreateProcessInstanceTx (fst ids) def now tenant d) (\<lambda>d1.
            result_bind (if vs \<noteq> [] then CreateVariablesTx (fst ids) vs d1 else Inr d1) (\<lambda>d2.
              result_bind (CreateExecutionTx2 (snd ids) (fst ids) (ID n) d2) (\<lambda>d3.
                Inr (fst ids, snd ids, d3)))))"

subsection \<open>Reading the graph\<close>

definition GetNodeByID :: "graph \<Rightarrow> string \<Rightarrow> engine_error + Node" where
  "GetNodeByID g i = (case map_of g i of None \<Rightarrow> Inl (NodeNotFound i) | Some n \<Rightarrow> Inr n)"

definition GetSingleOutgoingFlow :: "Node \<Rightarrow> engine_error + Flow" where
  "GetSingleOutgoingFlow n = (if length (Outgoing n) \<noteq> 1 then Inl InvalidOutgoingFlows else Inr (Outgoing n ! 0))"

definition GetServiceTaskNode :: "graph \<Rightarrow> string \<Rightarrow> engine_error + Node" where
  "GetServiceTaskNode g i = result_bind (GetNodeByID g i)
     (\<lambda>n. if Type n \<noteq> ServiceTaskType then Inl NotAServiceTask else Inr n)"

text \<open>The two caches in front of the definition table: instance to definition, definition to graph.
  \<open>load\<close> is the query; \<open>victims\<close> are the keys a range loop meets first when a cache is full.\<close>

record graph_cache =
  instanceToDefCache :: "(uuid \<times> uuid) list"
  graphCache :: "(uuid \<times> graph) list"

definition evict :: "nat \<Rightarrow> 'k \<Rightarrow> ('k \<times> 'v) list \<Rightarrow> ('k \<times> 'v) list" where
  "evict limit victim c = (if length c \<ge> limit then AList.delete victim c else c)"

definition GetProcessGraphByInstanceID :: "(uuid \<Rightarrow> (uuid \<times> graph) option) \<Rightarrow> uuid \<times> uuid \<Rightarrow> uuid \<Rightarrow> graph_cache
    \<Rightarrow> graph option \<times> graph_cache" where
  "GetProcessGraphByInstanceID load victims inst c =
     (case Option.bind (map_of (instanceToDefCache c) inst) (map_of (graphCache c)) of
        Some g \<Rightarrow> (Some g, c)
      | None \<Rightarrow> (case load inst of
            None \<Rightarrow> (None, c)
          | Some (def, g) \<Rightarrow>
              let i2d = AList.update inst def (evict 5000 (fst victims) (instanceToDefCache c)) in
              case map_of (graphCache c) def of
                Some g' \<Rightarrow> (Some g', c\<lparr>instanceToDefCache := i2d\<rparr>)
              | None \<Rightarrow> (Some g, \<lparr>instanceToDefCache = i2d,
                  graphCache = AList.update def g (evict 500 (snd victims) (graphCache c))\<rparr>)))"

definition GetProcessGraphByDefinitionID :: "(uuid \<Rightarrow> graph option) \<Rightarrow> uuid \<Rightarrow> uuid \<Rightarrow> graph_cache
    \<Rightarrow> graph option \<times> graph_cache" where
  "GetProcessGraphByDefinitionID load victim def c =
     (case map_of (graphCache c) def of
        Some g \<Rightarrow> (Some g, c)
      | None \<Rightarrow> (case load def of
            None \<Rightarrow> (None, c)
          | Some g \<Rightarrow> (Some g, c\<lparr>graphCache := AList.update def g (evict 500 victim (graphCache c))\<rparr>)))"

subsection \<open>Lemmas on statements\<close>

lemma in_update_where_iff:
  "y \<in> set (update_where P f xs) \<longleftrightarrow> (\<exists>x \<in> set xs. y = (if P x then f x else x))"
  by (auto simp: update_where_def)

lemma ball_update_where:
  "(\<forall>y \<in> set (update_where P f xs). Q y) \<longleftrightarrow> (\<forall>x \<in> set xs. (P x \<longrightarrow> Q (f x)) \<and> (\<not> P x \<longrightarrow> Q x))"
  by (auto simp: update_where_def)

lemma set_update_where:
  "set (update_where P f xs) = f ` {x \<in> set xs. P x} \<union> {x \<in> set xs. \<not> P x}"
  by (auto simp: update_where_def)

lemma update_where_hit: "x \<in> set xs \<Longrightarrow> P x \<Longrightarrow> f x \<in> set (update_where P f xs)"
  by (force simp: update_where_def)

lemma in_delete_where_iff [simp]: "x \<in> set (delete_where P xs) \<longleftrightarrow> x \<in> set xs \<and> \<not> P x"
  by (auto simp: delete_where_def)

lemma length_update_where [simp]: "length (update_where P f xs) = length xs"
  by (simp add: update_where_def)

lemma map_update_where_frame [frame_simps]:
  "(\<And>x. P x \<Longrightarrow> g (f x) = g x) \<Longrightarrow> map g (update_where P f xs) = map g xs"
  by (induction xs) (simp_all add: update_where_def)

lemma filter_update_where_frame [frame_simps]:
  "(\<And>x. P x \<Longrightarrow> \<not> Q x) \<Longrightarrow> (\<And>x. P x \<Longrightarrow> \<not> Q (f x)) \<Longrightarrow> filter Q (update_where P f xs) = filter Q xs"
  by (induction xs) (simp_all add: update_where_def)

lemma filter_delete_where_frame [frame_simps]:
  "(\<And>x. P x \<Longrightarrow> \<not> Q x) \<Longrightarrow> filter Q (delete_where P xs) = filter Q xs"
  by (induction xs) (auto simp: delete_where_def)

lemma update_where_none: "(\<forall>x \<in> set xs. \<not> P x) \<Longrightarrow> update_where P f xs = xs"
  by (induction xs) (simp_all add: update_where_def)

subsection \<open>Instances do not disturb each other\<close>

text \<open>What the tables say of one instance.\<close>

definition instance_view :: "uuid \<Rightarrow> db \<Rightarrow> db" where
  "instance_view i d = \<lparr>executions = filter (\<lambda>e. exec_instance e = i) (executions d),
     gateway_states = filter (\<lambda>g. gw_instance g = i) (gateway_states d),
     execution_variables = [],
     variables = filter (\<lambda>v. fst v = i) (variables d),
     scope_variables = filter (\<lambda>v. fst (fst v) = i) (scope_variables d),
     timer_jobs = filter (\<lambda>t. timer_instance t = i) (timer_jobs d),
     event_subscriptions = filter (\<lambda>s. sub_instance s = i) (event_subscriptions d),
     jobs = filter (\<lambda>j. job_instance j = i) (jobs d),
     tasks = filter (\<lambda>t. task_instance t = i) (tasks d),
     incidents = filter (\<lambda>n. inc_instance n = i) (incidents d),
     process_instances = filter (\<lambda>p. pi_id p = i) (process_instances d),
     multi_instance_executions = filter (\<lambda>b. mib_instance b = i) (multi_instance_executions d),
     multi_instance_children = []\<rparr>"

text \<open>An operation on one instance: the interface every per-instance statement promises.\<close>

locale instance_op =
  fixes run :: "uuid \<Rightarrow> db \<Rightarrow> db"
  assumes isolated: "j \<noteq> i \<Longrightarrow> instance_view j (run i d) = instance_view j d"
begin

lemma fold_isolated: "j \<notin> set is \<Longrightarrow> instance_view j (fold run is d) = instance_view j d"
  by (induction "is" arbitrary: d) (auto simp: isolated)

lemma isolated_before: "j \<noteq> i \<Longrightarrow> instance_view j (f (run i d)) = instance_view j (f d)"
  if "\<And>d d'. instance_view j d = instance_view j d' \<Longrightarrow> instance_view j (f d) = instance_view j (f d')"
  by (rule that) (rule isolated)

end

text \<open>Two operations run one after the other are one operation.\<close>

locale instance_op_pair = A: instance_op run1 + B: instance_op run2 for run1 run2
begin

lemma seq_isolated: "j \<noteq> i \<Longrightarrow> instance_view j (run2 i (run1 i d)) = instance_view j d"
  by (simp add: A.isolated B.isolated)

end

sublocale instance_op_pair \<subseteq> seq: instance_op "\<lambda>i d. run2 i (run1 i d)"
  by unfold_locales (rule seq_isolated)

lemma isolated_update_executions:
  assumes "\<And>e. P e \<Longrightarrow> exec_instance e = i" and "\<And>e. exec_instance (f e) = exec_instance e" and "j \<noteq> i"
  shows "instance_view j (update_executions P f d) = instance_view j d"
proof -
  have "filter (\<lambda>e. exec_instance e = j) (update_where P f (executions d)) =
      filter (\<lambda>e. exec_instance e = j) (executions d)"
    using assms by (intro filter_update_where_frame) auto
  then show ?thesis by (simp add: instance_view_def update_executions_def)
qed

interpretation complete_execution: instance_op "\<lambda>i. CompleteExecutionTx i eid" for eid
  by unfold_locales (auto simp: CompleteExecutionTx_def exec_key_def finish_as_def
      intro!: isolated_update_executions)

interpretation update_node: instance_op "\<lambda>i. UpdateExecutionNodeTx i eid el" for eid el
  by unfold_locales (auto simp: UpdateExecutionNodeTx_def exec_key_def intro!: isolated_update_executions)

interpretation update_status: instance_op "\<lambda>i. UpdateExecutionStatusTx i eid s" for eid s
  by unfold_locales (auto simp: UpdateExecutionStatusTx_def exec_key_def intro!: isolated_update_executions)

interpretation update_status_node: instance_op "\<lambda>i. UpdateExecutionStatusAndNodeTx i eid s el" for eid s el
  by unfold_locales (auto simp: UpdateExecutionStatusAndNodeTx_def exec_key_def intro!: isolated_update_executions)

interpretation drop_timers: instance_op DeleteTimersByProcessInstanceTx
  by unfold_locales (auto simp: DeleteTimersByProcessInstanceTx_def instance_view_def
      intro!: filter_delete_where_frame)

lemma isolated_cancel_jobs:
  assumes "\<And>x. P x \<Longrightarrow> job_instance x = i" and "j \<noteq> i"
  shows "instance_view j (snd (cancel_jobs P d)) = instance_view j d"
  using assms by (auto simp: cancel_jobs_def instance_view_def Let_def intro!: filter_update_where_frame)

lemma isolated_cancel_tasks:
  assumes "\<And>x. P x \<Longrightarrow> task_instance x = i" and "j \<noteq> i"
  shows "instance_view j (snd (cancel_tasks P d)) = instance_view j d"
  using assms by (auto simp: cancel_tasks_def instance_view_def Let_def intro!: filter_update_where_frame)

interpretation cancel_instance_jobs: instance_op "\<lambda>i d. snd (CancelPendingJobsByProcessInstanceTx i d)"
  by unfold_locales (auto simp: CancelPendingJobsByProcessInstanceTx_def intro!: isolated_cancel_jobs)

text \<open>Cancelling an instance's jobs and dropping its timers, as a termination does.\<close>

interpretation cancel_and_drop: instance_op_pair
  "\<lambda>i d. snd (CancelPendingJobsByProcessInstanceTx i d)" DeleteTimersByProcessInstanceTx
  ..

interpretation complete_instance: instance_op "CompleteProcessInstanceTx now" for now
  by unfold_locales (auto simp: CompleteProcessInstanceTx_def UpdateProcessInstanceStatusTx_def
      update_executions_def instance_view_def finish_as_def Let_def
      intro!: filter_update_where_frame filter_delete_where_frame split: option.splits)

interpretation update_variables: instance_op "\<lambda>i. UpdateProcessVariablesTx i vs" for vs
  by unfold_locales (auto simp: instance_view_def UpdateProcessVariablesTx_def intro!: filter_update_other)

subsection \<open>Properties\<close>

text \<open>Completing an instance leaves nothing of it that could still run: no active execution, no open
  subscription, no pending timer; and whatever the other instances have is untouched.\<close>

theorem CompleteProcessInstanceTx_quiesces:
  "(\<forall>e \<in> set (executions (CompleteProcessInstanceTx now i d)). exec_instance e = i \<longrightarrow> \<not> exec_is_active e) \<and>
   (\<forall>s \<in> set (event_subscriptions (CompleteProcessInstanceTx now i d)). sub_instance s = i \<longrightarrow> sub_consumed s) \<and>
   (\<forall>t \<in> set (timer_jobs (CompleteProcessInstanceTx now i d)). timer_instance t = i \<longrightarrow> IsTriggered t) \<and>
   (\<forall>j. j \<noteq> i \<longrightarrow> instance_view j (CompleteProcessInstanceTx now i d) = instance_view j d)"
proof (intro conjI allI impI)
  show "\<forall>e \<in> set (executions (CompleteProcessInstanceTx now i d)). exec_instance e = i \<longrightarrow> \<not> exec_is_active e"
    by (simp add: CompleteProcessInstanceTx_def update_executions_def Let_def ball_update_where finish_as_def)
  show "\<forall>s \<in> set (event_subscriptions (CompleteProcessInstanceTx now i d)). sub_instance s = i \<longrightarrow> sub_consumed s"
    by (simp add: CompleteProcessInstanceTx_def update_executions_def Let_def ball_update_where)
  show "\<forall>t \<in> set (timer_jobs (CompleteProcessInstanceTx now i d)). timer_instance t = i \<longrightarrow> IsTriggered t"
    by (auto simp: CompleteProcessInstanceTx_def update_executions_def Let_def)
qed (rule complete_instance.isolated)

definition example_exec :: "uuid \<Rightarrow> uuid option \<Rightarrow> string \<Rightarrow> exec_status \<Rightarrow> Execution" where
  "example_exec i p el s = \<lparr>exec_id = i, exec_instance = ''I'', exec_element = el, exec_status = s,
     exec_parent = p, exec_path = None, exec_is_active = s \<in> {ExecActive, ExecWaiting}\<rparr>"

theorem CompleteProcessInstanceTx_quiesces_witness:
  "\<not> exec_is_active (finish_as ExecCompleted (example_exec ''e'' None ''n'' ExecActive)) \<and>
   instance_view ''J'' (CompleteProcessInstanceTx 7 ''I'' (empty_db\<lparr>executions := [example_exec ''e'' None ''n'' ExecActive]\<rparr>)) =
   instance_view ''J'' (empty_db\<lparr>executions := [example_exec ''e'' None ''n'' ExecActive]\<rparr>)"
proof
  let ?d = "empty_db\<lparr>executions := [example_exec ''e'' None ''n'' ExecActive]\<rparr>"
  have "finish_as ExecCompleted (example_exec ''e'' None ''n'' ExecActive) \<in>
      set (executions (CompleteProcessInstanceTx 7 ''I'' ?d))"
    by (simp add: CompleteProcessInstanceTx_def update_executions_def UpdateProcessInstanceStatusTx_def
        update_where_def example_exec_def Let_def)
  then show "\<not> exec_is_active (finish_as ExecCompleted (example_exec ''e'' None ''n'' ExecActive))"
    using CompleteProcessInstanceTx_quiesces [of 7 "''I''" ?d] by (simp add: finish_as_def example_exec_def)
  show "instance_view ''J'' (CompleteProcessInstanceTx 7 ''I'' ?d) = instance_view ''J'' ?d"
    using CompleteProcessInstanceTx_quiesces [of 7 "''I''" ?d] by simp
qed

text \<open>A job is locked by at most one worker: once a lock succeeded, every further attempt on the job
  fails and changes nothing, until something else reopens the job.\<close>

theorem LockJob_exclusive:
  assumes "LockJob now jid w dur d = (True, d')"
  shows "LockJob now' jid w' dur' d' = (False, d') \<and>
    (\<exists>j \<in> set (jobs d'). job_id j = jid \<and> job_status j = JobLocked \<and> LockedBy j = Some w \<and>
       LockedUntil j = Some (now + dur))"
proof
  let ?hit = "\<lambda>j. job_id j = jid \<and> job_status j = JobPending"
  have d': "d' = d\<lparr>jobs := update_where ?hit (\<lambda>j. j\<lparr>job_status := JobLocked, LockedBy := Some w,
      LockedUntil := Some (now + dur)\<rparr>) (jobs d)\<rparr>" and ex: "\<exists>j \<in> set (jobs d). ?hit j"
    using assms by (simp_all add: LockJob_def Let_def)
  have none: "\<forall>j \<in> set (jobs d'). \<not> ?hit j" by (simp add: d' ball_update_where)
  then show "LockJob now' jid w' dur' d' = (False, d')"
    by (simp add: LockJob_def Let_def update_where_none)
  show "\<exists>j \<in> set (jobs d'). job_id j = jid \<and> job_status j = JobLocked \<and> LockedBy j = Some w \<and>
      LockedUntil j = Some (now + dur)"
  proof -
    from ex obtain j where j: "j \<in> set (jobs d)" "?hit j" by blast
    let ?f = "\<lambda>j. j\<lparr>job_status := JobLocked, LockedBy := Some w, LockedUntil := Some (now + dur)\<rparr>"
    from update_where_hit [of j "jobs d" ?hit ?f, OF j] have "?f j \<in> set (jobs d')" by (simp add: d')
    then show ?thesis using j(2) by (intro bexI [of _ "?f j"]) simp_all
  qed
qed

theorem LockJob_exclusive_witness:
  "\<exists>d d'. LockJob 0 ''j'' ''w'' 5 d = (True, d') \<and> LockJob 1 ''j'' ''v'' 5 d' = (False, d')"
proof -
  obtain d where d: "CreateJobTx ''j'' ''I'' ''e'' ''mail'' '''' empty_db = Inr d"
    by (simp add: CreateJobTx_def empty_db_def)
  then have "fst (LockJob 0 ''j'' ''w'' 5 d)" by (auto simp: CreateJobTx_def LockJob_def empty_db_def Let_def)
  then have "LockJob 0 ''j'' ''w'' 5 d = (True, snd (LockJob 0 ''j'' ''w'' 5 d))" by (metis prod.collapse)
  with LockJob_exclusive [OF this, of 1 "''v''" 5] show ?thesis by blast
qed

definition timer_ids :: "db \<Rightarrow> uuid list" where
  "timer_ids d = map timer_id (timer_jobs d)"

definition triggered_ids :: "db \<Rightarrow> uuid set" where
  "triggered_ids d = timer_id ` {t \<in> set (timer_jobs d). IsTriggered t}"

lemma timer_by_id:
  "distinct (timer_ids d) \<Longrightarrow> t \<in> set (timer_jobs d) \<Longrightarrow> u \<in> set (timer_jobs d) \<Longrightarrow> timer_id t = timer_id u \<Longrightarrow> t = u"
  by (auto simp: timer_ids_def distinct_map inj_on_def)

lemma due_timers_sub:
  "t \<in> set (due_timers now limit d) \<Longrightarrow> t \<in> set (timer_jobs d) \<and> \<not> IsTriggered t \<and> DueAt t \<le> now"
  by (auto simp: due_timers_def dest: in_set_takeD)

lemma distinct_timers: "distinct (timer_ids d) \<Longrightarrow> distinct (timer_jobs d)"
  by (simp add: timer_ids_def distinct_map)

lemma triggered_ids_trigger:
  "triggered_ids (d\<lparr>timer_jobs := update_where P trigger (timer_jobs d)\<rparr>) =
     triggered_ids d \<union> timer_id ` {t \<in> set (timer_jobs d). P t}"
proof -
  have "{t \<in> set (update_where P trigger (timer_jobs d)). IsTriggered t} =
      trigger ` {t \<in> set (timer_jobs d). P t} \<union> {t \<in> set (timer_jobs d). \<not> P t \<and> IsTriggered t}"
    by (auto simp: set_update_where trigger_def)
  moreover have "timer_id ` trigger ` {t \<in> set (timer_jobs d). P t} = timer_id ` {t \<in> set (timer_jobs d). P t}"
    by (simp add: image_image trigger_def)
  ultimately show ?thesis by (auto simp: triggered_ids_def image_Un)
qed

lemma claim_hit:
  assumes "distinct (timer_ids d)"
  shows "{t \<in> set (timer_jobs d). timer_id t \<in> timer_id ` set (due_timers now limit d)} = set (due_timers now limit d)"
proof (intro equalityI subsetI)
  fix t
  assume "t \<in> {t \<in> set (timer_jobs d). timer_id t \<in> timer_id ` set (due_timers now limit d)}"
  then obtain u where "t \<in> set (timer_jobs d)" "u \<in> set (due_timers now limit d)" "timer_id t = timer_id u" by auto
  with due_timers_sub [of u now limit d] timer_by_id [OF assms, of t u] show "t \<in> set (due_timers now limit d)" by simp
qed (auto dest: due_timers_sub)

lemma fst_ClaimDueTimers:
  assumes "distinct (timer_ids d)"
  shows "set (fst (ClaimDueTimers now limit d)) = trigger ` set (due_timers now limit d)"
  using claim_hit [OF assms, of now limit] by (simp add: ClaimDueTimers_def Let_def)

text \<open>A claim returns at most \<open>limit\<close> timers, all of them due and not triggered before, marks
  exactly those as triggered, and a later claim at any time never returns one of them again.\<close>

theorem ClaimDueTimers_once:
  assumes uniq: "distinct (timer_ids d)" and claim: "ClaimDueTimers now limit d = (got, d')"
  shows "length got \<le> limit \<and> (\<forall>t \<in> set got. \<exists>u \<in> set (due_timers now limit d). t = trigger u) \<and>
    triggered_ids d' = triggered_ids d \<union> timer_id ` set got \<and>
    timer_id ` set got \<inter> timer_id ` set (fst (ClaimDueTimers now' limit' d')) = {}"
proof (intro conjI)
  let ?hit = "\<lambda>t. timer_id t \<in> set (map timer_id (due_timers now limit d))"
  have g: "got = map trigger (filter ?hit (timer_jobs d))"
    and d': "d' = d\<lparr>timer_jobs := update_where ?hit trigger (timer_jobs d)\<rparr>"
    using claim by (simp_all add: ClaimDueTimers_def Let_def)
  have sg: "set got = trigger ` set (due_timers now limit d)"
    using fst_ClaimDueTimers [OF uniq, of now limit] claim by simp
  have hit: "set (filter ?hit (timer_jobs d)) = set (due_timers now limit d)"
    using claim_hit [OF uniq, of now limit] by simp
  have "length got = card (set (filter ?hit (timer_jobs d)))"
    using distinct_timers [OF uniq] by (simp add: g distinct_card [symmetric] del: set_filter)
  also have "\<dots> \<le> length (due_timers now limit d)" unfolding hit by (rule card_length)
  also have "\<dots> \<le> limit" by (simp add: due_timers_def)
  finally show "length got \<le> limit" .
  show "\<forall>t \<in> set got. \<exists>u \<in> set (due_timers now limit d). t = trigger u" using sg by auto
  show tr: "triggered_ids d' = triggered_ids d \<union> timer_id ` set got"
    unfolding d' triggered_ids_trigger using hit by (simp add: sg image_image trigger_def)
  have uniq': "distinct (timer_ids d')"
    using uniq by (simp add: timer_ids_def d' map_update_where_frame trigger_def)
  have fresh: "timer_id ` set (due_timers now' limit' d') \<inter> triggered_ids d' = {}"
    using due_timers_sub [of _ now' limit' d'] timer_by_id [OF uniq'] by (fastforce simp: triggered_ids_def)
  have same: "timer_id ` trigger ` X = timer_id ` X" for X by (simp add: image_image trigger_def)
  show "timer_id ` set got \<inter> timer_id ` set (fst (ClaimDueTimers now' limit' d')) = {}"
    using fresh unfolding fst_ClaimDueTimers [OF uniq'] same tr by blast
qed

definition example_timer :: "uuid \<Rightarrow> int \<Rightarrow> TimerJob" where
  "example_timer i due = \<lparr>timer_id = i, timer_instance = ''I'', timer_execution = None, timer_event = ''intermediate'',
     DueAt = due, timer_payload = '''', IsTriggered = False, CycleCount = 0, TotalCycles = 1, RepeatInterval = ''''\<rparr>"

definition example_timers :: db where
  "example_timers = empty_db\<lparr>timer_jobs := [example_timer ''a'' 3, example_timer ''b'' 1]\<rparr>"

theorem ClaimDueTimers_once_witness:
  "triggered_ids (snd (ClaimDueTimers 5 1 example_timers)) = {''b''} \<and>
   timer_id ` set (fst (ClaimDueTimers 5 1 example_timers)) \<inter>
   timer_id ` set (fst (ClaimDueTimers 9 2 (snd (ClaimDueTimers 5 1 example_timers)))) = {}"
proof -
  have u: "distinct (timer_ids example_timers)" by code_simp
  have t: "triggered_ids example_timers = {}" "timer_id ` set (fst (ClaimDueTimers 5 1 example_timers)) = {''b''}"
    by code_simp+
  show ?thesis using ClaimDueTimers_once [OF u prod.collapse [symmetric], of 5 1 9 2] t by simp
qed

text \<open>What the other schedulers of a cluster do between two statements of ours: timer identifiers stay
  unique and a triggered timer stays triggered.\<close>

definition keeps_triggered :: "(db \<Rightarrow> db) \<Rightarrow> bool" where
  "keeps_triggered f \<longleftrightarrow>
     (\<forall>d. distinct (timer_ids d) \<longrightarrow> distinct (timer_ids (f d)) \<and> triggered_ids d \<subseteq> triggered_ids (f d))"

lemma claim_step:
  assumes "distinct (timer_ids d)"
    and "hit = (\<lambda>t. timer_instance t = timer_instance c \<and> timer_id t = timer_id c \<and> \<not> IsTriggered t)"
    and "d' = d\<lparr>timer_jobs := update_where hit trigger (timer_jobs d)\<rparr>"
  shows "distinct (timer_ids d')" "triggered_ids d \<subseteq> triggered_ids d'"
    "distinct (map timer_id (filter hit (timer_jobs d)))"
    "timer_id ` set (filter hit (timer_jobs d)) \<inter> triggered_ids d = {}"
    "timer_id ` set (filter hit (timer_jobs d)) \<subseteq> triggered_ids d'"
proof -
  show "distinct (timer_ids d')"
    using assms(1) by (simp add: timer_ids_def assms(3) map_update_where_frame trigger_def)
  show "triggered_ids d \<subseteq> triggered_ids d'" and "timer_id ` set (filter hit (timer_jobs d)) \<subseteq> triggered_ids d'"
    unfolding assms(3) triggered_ids_trigger by auto
  show "distinct (map timer_id (filter hit (timer_jobs d)))"
    using assms(1) by (simp add: timer_ids_def distinct_map_filter)
  show "timer_id ` set (filter hit (timer_jobs d)) \<inter> triggered_ids d = {}"
    using timer_by_id [OF assms(1)] by (fastforce simp: assms(2) triggered_ids_def)
qed

lemma claim_loop_spec:
  assumes "\<forall>f \<in> set env. keeps_triggered f" and "distinct (timer_ids d)"
  shows "\<exists>new. fst (claim_loop env got cs d) = got @ map trigger new \<and> distinct (map timer_id new) \<and>
    timer_id ` set new \<inter> triggered_ids d = {} \<and>
    timer_id ` set new \<union> triggered_ids d \<subseteq> triggered_ids (snd (claim_loop env got cs d))"
  using assms
proof (induction env got cs d rule: claim_loop.induct)
  case (1 env got d)
  then show ?case by simp
next
  case (2 env got c cs d)
  define e where "e = (case env of [] \<Rightarrow> d | f # _ \<Rightarrow> f d)"
  define hit where "hit = (\<lambda>t :: TimerJob. timer_instance t = timer_instance c \<and> timer_id t = timer_id c \<and> \<not> IsTriggered t)"
  define d' where "d' = e\<lparr>timer_jobs := update_where hit trigger (timer_jobs e)\<rparr>"
  define mine where "mine = filter hit (timer_jobs e)"
  have e: "distinct (timer_ids e)" "triggered_ids d \<subseteq> triggered_ids e"
    using "2.prems" by (auto simp: e_def keeps_triggered_def split: list.split)
  note st = claim_step [OF e(1) hit_def d'_def, folded mine_def]
  have "\<forall>f \<in> set (tl env). keeps_triggered f" using "2.prems"(1) by (cases env) auto
  from "2.IH" [OF e_def hit_def, folded d'_def mine_def, OF this st(1)] obtain new where
    n: "fst (claim_loop (tl env) (got @ map trigger mine) cs d') = (got @ map trigger mine) @ map trigger new"
      "distinct (map timer_id new)" "timer_id ` set new \<inter> triggered_ids d' = {}"
      "timer_id ` set new \<union> triggered_ids d' \<subseteq> triggered_ids (snd (claim_loop (tl env) (got @ map trigger mine) cs d'))"
    by blast
  have loop: "claim_loop env got (c # cs) d = claim_loop (tl env) (got @ map trigger mine) cs d'"
    by (simp add: e_def [symmetric] hit_def [symmetric] d'_def mine_def Let_def)
  show ?case
    unfolding loop using n st e(2)
    by (intro exI [of _ "mine @ new"]) (auto simp: disjoint_iff image_Un subset_iff)
qed

text \<open>On a sharded cluster, where candidates are read first and taken one statement at a time while
  other schedulers run, a claim returns no timer twice and none that was already triggered, and
  everything it returns is triggered afterwards, so no later claim of any scheduler returns it.\<close>

theorem claimDueTimers_once:
  assumes "\<forall>f \<in> set env. keeps_triggered f" and "distinct (timer_ids d)"
    and "claimDueTimers now limit env d = (got, d')"
  shows "distinct (map timer_id got) \<and> timer_id ` set got \<inter> triggered_ids d = {} \<and>
    timer_id ` set got \<union> triggered_ids d \<subseteq> triggered_ids d'"
proof -
  obtain new where "got = map trigger new" "distinct (map timer_id new)"
    "timer_id ` set new \<inter> triggered_ids d = {}" "timer_id ` set new \<union> triggered_ids d \<subseteq> triggered_ids d'"
    using claim_loop_spec [OF assms(1,2), of "[]" "due_timers now limit d"] assms(3)
    by (auto simp: claimDueTimers_def)
  moreover have "map timer_id (map trigger new) = map timer_id new" by (simp add: trigger_def)
  ultimately show ?thesis by (metis list.set_map)
qed

text \<open>Another scheduler's claim is such an interference.\<close>

lemma ClaimDueTimers_keeps: "keeps_triggered (\<lambda>d. snd (ClaimDueTimers now limit d))"
  unfolding keeps_triggered_def ClaimDueTimers_def Let_def snd_conv
  by (auto simp: triggered_ids_trigger timer_ids_def map_update_where_frame trigger_def)

theorem claimDueTimers_once_witness:
  "fst (claimDueTimers 5 2 [\<lambda>d. snd (ClaimDueTimers 5 1 d)] example_timers) = [trigger (example_timer ''a'' 3)] \<and>
   triggered_ids example_timers \<subseteq> triggered_ids (snd (claimDueTimers 5 2 [\<lambda>d. snd (ClaimDueTimers 5 1 d)] example_timers))"
proof
  show "fst (claimDueTimers 5 2 [\<lambda>d. snd (ClaimDueTimers 5 1 d)] example_timers) = [trigger (example_timer ''a'' 3)]"
    by code_simp
  have u: "distinct (timer_ids example_timers)" by code_simp
  show "triggered_ids example_timers \<subseteq> triggered_ids (snd (claimDueTimers 5 2 [\<lambda>d. snd (ClaimDueTimers 5 1 d)] example_timers))"
    using claimDueTimers_once [OF _ u prod.collapse [symmetric], of "[\<lambda>d. snd (ClaimDueTimers 5 1 d)]" 5 2]
    by (simp add: ClaimDueTimers_keeps)
qed

subsection \<open>The graph cache\<close>

text \<open>The definition table gives every instance of one definition the same graph.\<close>

definition loads_by_definition :: "(uuid \<Rightarrow> (uuid \<times> graph) option) \<Rightarrow> bool" where
  "loads_by_definition load \<longleftrightarrow>
     (\<forall>i j def g h. load i = Some (def, g) \<longrightarrow> load j = Some (def, h) \<longrightarrow> g = h)"

definition cache_coherent :: "(uuid \<Rightarrow> (uuid \<times> graph) option) \<Rightarrow> graph_cache \<Rightarrow> bool" where
  "cache_coherent load c \<longleftrightarrow>
     (\<forall>i def. map_of (instanceToDefCache c) i = Some def \<longrightarrow> (\<exists>g. load i = Some (def, g))) \<and>
     (\<forall>i def g g'. load i = Some (def, g) \<longrightarrow> map_of (graphCache c) def = Some g' \<longrightarrow> g' = g)"

lemma map_of_evict: "map_of (evict n v c) k = Some x \<Longrightarrow> map_of c k = Some x"
  by (auto simp: evict_def delete_conv' split: if_splits)

lemma length_evict_update:
  assumes "length c \<le> n" and "length c \<ge> n \<longrightarrow> v \<in> fst ` set c"
  shows "length (AList.update k x (evict n v c)) \<le> n"
proof -
  have del: "length (AList.delete v c) < length c" if v: "v \<in> fst ` set c"
  proof -
    from v obtain y where "(v, y) \<in> set c" by auto
    then show ?thesis unfolding AList.delete_eq by (rule length_filter_less) simp
  qed
  have upd: "length (AList.update k x ys) \<le> Suc (length ys)" for ys :: "('a \<times> 'b) list"
    by (induction ys) auto
  show ?thesis
  proof (cases "length c \<ge> n")
    case True
    then show ?thesis using assms del upd [of "AList.delete v c"] by (simp add: evict_def)
  next
    case False
    then show ?thesis using upd [of c] by (simp add: evict_def)
  qed
qed

text \<open>The graph cache is transparent: whatever it holds, a lookup answers with the graph the definition
  table has for the instance, and the cache stays coherent and within its 500 graphs and 5000 instances.\<close>

theorem GetProcessGraphByInstanceID_transparent:
  assumes "loads_by_definition load" and "cache_coherent load c"
    and "length (instanceToDefCache c) \<le> 5000" and "length (graphCache c) \<le> 500"
    and "length (instanceToDefCache c) \<ge> 5000 \<longrightarrow> fst victims \<in> fst ` set (instanceToDefCache c)"
    and "length (graphCache c) \<ge> 500 \<longrightarrow> snd victims \<in> fst ` set (graphCache c)"
    and "GetProcessGraphByInstanceID load victims i c = (r, c')"
  shows "r = map_option snd (load i) \<and> cache_coherent load c' \<and>
    length (instanceToDefCache c') \<le> 5000 \<and> length (graphCache c') \<le> 500"
proof (cases "Option.bind (map_of (instanceToDefCache c) i) (map_of (graphCache c))")
  case (Some g)
  then obtain def where "map_of (instanceToDefCache c) i = Some def" "map_of (graphCache c) def = Some g"
    by (auto simp: bind_eq_Some_conv)
  then have "load i = Some (def, g)" using assms(2) unfolding cache_coherent_def by blast
  then show ?thesis using Some assms by (simp add: GetProcessGraphByInstanceID_def)
next
  case None
  show ?thesis
  proof (cases "load i")
    case ln: None
    then show ?thesis using None assms by (simp add: GetProcessGraphByInstanceID_def)
  next
    case (Some p)
    obtain def g where p: "p = (def, g)" by (cases p)
    let ?i2d = "AList.update i def (evict 5000 (fst victims) (instanceToDefCache c))"
    have i2d: "\<exists>g. load j = Some (e, g)" if "map_of ?i2d j = Some e" for j e
      using that assms(2) Some p map_of_evict [of 5000 "fst victims" "instanceToDefCache c" j e]
      by (auto simp: update_conv' cache_coherent_def split: if_splits)
    have l1: "length ?i2d \<le> 5000" using assms(3,5) by (rule length_evict_update)
    show ?thesis
    proof (cases "map_of (graphCache c) def")
      case gn: None
      let ?gc = "AList.update def g (evict 500 (snd victims) (graphCache c))"
      have c': "r = Some g" "c' = \<lparr>instanceToDefCache = ?i2d, graphCache = ?gc\<rparr>"
        using assms(7) None Some p gn by (simp_all add: GetProcessGraphByInstanceID_def Let_def)
      have "h' = h" if "load j = Some (e, h)" "map_of ?gc e = Some h'" for j e h h'
        using that assms(1,2) Some p map_of_evict [of 500 "snd victims" "graphCache c" e h']
        unfolding loads_by_definition_def cache_coherent_def
        by (cases "e = def") (auto simp: update_conv')
      moreover have "length ?gc \<le> 500" using assms(4,6) by (rule length_evict_update)
      ultimately show ?thesis using i2d l1 Some p unfolding c' cache_coherent_def by auto
    next
      case (Some g')
      then have "g' = g" using assms(2) \<open>load i = Some p\<close> p by (auto simp: cache_coherent_def)
      then have c': "r = Some g" "c' = c\<lparr>instanceToDefCache := ?i2d\<rparr>"
        using assms(7) None \<open>load i = Some p\<close> p Some by (simp_all add: GetProcessGraphByInstanceID_def Let_def)
      then show ?thesis using i2d l1 assms(2,4) \<open>load i = Some p\<close> p unfolding cache_coherent_def by auto
    qed
  qed
qed

theorem GetProcessGraphByInstanceID_transparent_witness:
  "let load = (\<lambda>i. if i = ''I'' then Some (''D'', example_graph) else None);
       c = \<lparr>instanceToDefCache = [], graphCache = [(''D'', example_graph)]\<rparr>
   in fst (GetProcessGraphByInstanceID load ('''', '''') ''I'' c) = Some example_graph"
proof -
  let ?load = "\<lambda>i. if i = ''I'' then Some (''D'', example_graph) else None"
  let ?c = "\<lparr>instanceToDefCache = [], graphCache = [(''D'', example_graph)]\<rparr>"
  have l: "loads_by_definition ?load" by (auto simp: loads_by_definition_def split: if_splits)
  have c: "cache_coherent ?load ?c" by (auto simp: cache_coherent_def split: if_splits)
  show ?thesis
    using GetProcessGraphByInstanceID_transparent [OF l c _ _ _ _ prod.collapse [symmetric], of "('''', '''')" "''I''"]
    by (simp add: Let_def)
qed

end
