(* ===== verification/Exec_Tree.thy ===== *)
theory Exec_Tree
  imports Store
begin

text \<open>
  The tree of executions (\<open>internal/repository/subprocess_repository.go\<close>), the triggers of boundary
  events (\<open>boundary_repository.go\<close>) and the records of compensable activities
  (\<open>compensation_repository.go\<close>).

  Two loops of the code follow the parent links with no bound: \<open>descendants\<close> (no set of visited nodes)
  and the climb of \<open>FindScopeExecutionTx\<close>. Both take fuel, one unit per round, and return
  \<open>None\<close> when it runs out; the operations give them one unit more than the instance has executions.
  \<open>tree_wf\<close>, which creating an execution under an existing parent keeps, makes that enough.
\<close>

subsection \<open>Loading and walking the tree\<close>

record executionLink =
  link_id :: uuid
  link_parent :: "uuid option"
  link_element :: string
  link_status :: exec_status

definition link_of_exec :: "Execution \<Rightarrow> executionLink" where
  "link_of_exec e = \<lparr>link_id = exec_id e, link_parent = exec_parent e, link_element = exec_element e,
     link_status = exec_status e\<rparr>"

definition loadExecutionTreeTx :: "uuid \<Rightarrow> db \<Rightarrow> executionLink list" where
  "loadExecutionTreeTx inst d = map link_of_exec (filter (\<lambda>e. exec_instance e = inst) (executions d))"

definition tree_at :: "executionLink list \<Rightarrow> uuid \<Rightarrow> executionLink option" where
  "tree_at tree i = find (\<lambda>l. link_id l = i) tree"

definition tree_children :: "executionLink list \<Rightarrow> uuid \<Rightarrow> uuid list" where
  "tree_children tree p = map link_id (filter (\<lambda>l. link_parent l = Some p) tree)"

fun desc_loop :: "nat \<Rightarrow> executionLink list \<Rightarrow> uuid list \<Rightarrow> uuid list \<Rightarrow> uuid list option" where
  "desc_loop fuel tree out [] = Some out"
| "desc_loop 0 tree out (x # xs) = None"
| "desc_loop (Suc fuel) tree out (x # xs) =
     (let i = last (x # xs)
      in desc_loop fuel tree (out @ [i]) (butlast (x # xs) @ tree_children tree i))"

definition descendants :: "executionLink list \<Rightarrow> uuid \<Rightarrow> uuid list option" where
  "descendants tree rt = desc_loop (Suc (length tree)) tree [] (tree_children tree rt)"

fun find_scope_loop :: "nat \<Rightarrow> executionLink list \<Rightarrow> string \<Rightarrow> uuid \<Rightarrow> uuid option
    \<Rightarrow> (engine_error + uuid) option" where
  "find_scope_loop fuel tree scope self None = Some (Inl (NoScopeExecution scope self))"
| "find_scope_loop 0 tree scope self (Some p) = None"
| "find_scope_loop (Suc fuel) tree scope self (Some p) =
     (case tree_at tree p of
        None \<Rightarrow> Some (Inl (NoScopeExecution scope self))
      | Some l \<Rightarrow>
          if link_element l = scope \<and> link_status l = ExecWaiting then Some (Inr (link_id l))
          else find_scope_loop fuel tree scope self (link_parent l))"

definition FindScopeExecutionTx :: "uuid \<Rightarrow> uuid \<Rightarrow> string \<Rightarrow> db \<Rightarrow> (engine_error + uuid) option" where
  "FindScopeExecutionTx inst eid scope d =
     (let tree = loadExecutionTreeTx inst d in
      case tree_at tree eid of
        None \<Rightarrow> Some (Inl (ExecutionNotFound eid))
      | Some self \<Rightarrow> find_scope_loop (Suc (length tree)) tree scope eid (link_parent self))"

subsection \<open>Live work\<close>

definition armed :: "string list \<Rightarrow> executionLink \<Rightarrow> bool" where
  "armed ignore l \<longleftrightarrow> link_status l = ExecWaiting \<and> link_element l \<in> set ignore"

definition link_open :: "executionLink \<Rightarrow> bool" where
  "link_open l \<longleftrightarrow> link_status l \<in> {ExecActive, ExecWaiting}"

text \<open>The identifiers come from the tree itself, so the lookup of each one succeeds.\<close>

definition anyLiveLeaf :: "executionLink list \<Rightarrow> uuid list \<Rightarrow> string list \<Rightarrow> bool" where
  "anyLiveLeaf tree ids ignore =
     list_ex (\<lambda>i. case tree_at tree i of
         None \<Rightarrow> False
       | Some e \<Rightarrow> link_open e \<and> \<not> list_ex (\<lambda>l. link_parent l = Some i \<and> \<not> armed ignore l) tree
           \<and> \<not> armed ignore e) ids"

definition HasLiveWorkUnderTx :: "uuid \<Rightarrow> uuid \<Rightarrow> string list \<Rightarrow> db \<Rightarrow> bool option" where
  "HasLiveWorkUnderTx inst scope ignore d =
     (let tree = loadExecutionTreeTx inst d
      in map_option (\<lambda>ids. anyLiveLeaf tree ids ignore) (descendants tree scope))"

definition HasLiveWorkInInstanceTx :: "uuid \<Rightarrow> string list \<Rightarrow> db \<Rightarrow> bool" where
  "HasLiveWorkInInstanceTx inst ignore d =
     (let tree = loadExecutionTreeTx inst d in anyLiveLeaf tree (map link_id tree) ignore)"

subsection \<open>Boundary triggers\<close>

definition boundaryTriggerPrefix :: string where
  "boundaryTriggerPrefix = ''boundary:''"

definition BoundaryTriggerPathID :: "string \<Rightarrow> uuid \<Rightarrow> string" where
  "BoundaryTriggerPathID node eid = boundaryTriggerPrefix @ node @ '':'' @ eid"

text \<open>\<open>parse\<close> is \<open>uuid.Parse\<close>, code outside the repository.\<close>

definition ParseBoundaryTriggerPathID :: "(string \<Rightarrow> uuid option) \<Rightarrow> string option \<Rightarrow> uuid option" where
  "ParseBoundaryTriggerPathID parse path =
     (case path of
        None \<Rightarrow> None
      | Some p \<Rightarrow> if has_prefix p boundaryTriggerPrefix then parse (after_last (CHR '':'') p) else None)"

definition deleteWaitStateTx :: "uuid \<Rightarrow> uuid list \<Rightarrow> db \<Rightarrow> db" where
  "deleteWaitStateTx inst ids d = d\<lparr>
     timer_jobs := delete_where (\<lambda>t. timer_instance t = inst \<and> timer_execution t \<in> Some ` set ids
       \<and> \<not> IsTriggered t) (timer_jobs d),
     event_subscriptions := delete_where (\<lambda>s. sub_instance s = inst \<and> sub_execution s \<in> Some ` set ids
       \<and> \<not> sub_consumed s \<and> sub_type s \<noteq> ''compensable'') (event_subscriptions d)\<rparr>"

definition is_trigger_of :: "uuid \<Rightarrow> uuid list \<Rightarrow> Execution \<Rightarrow> bool" where
  "is_trigger_of inst acts e \<longleftrightarrow> exec_instance e = inst \<and> exec_status e = ExecWaiting \<and>
     (case exec_path e of
        None \<Rightarrow> False
      | Some p \<Rightarrow> has_prefix p boundaryTriggerPrefix \<and> split_part p (CHR '':'') 3 \<in> set acts)"

definition DisarmBoundaryTriggersTx :: "uuid \<Rightarrow> uuid list \<Rightarrow> db \<Rightarrow> db" where
  "DisarmBoundaryTriggersTx inst acts d =
     (if acts = [] then d
      else
        let triggers = map exec_id (filter (is_trigger_of inst acts) (executions d));
            d1 = update_executions (is_trigger_of inst acts) (finish_as ExecCompleted) d;
            d2 = (if triggers = [] then d1 else deleteWaitStateTx inst triggers d1)
        in d2\<lparr>timer_jobs := delete_where (\<lambda>t. timer_instance t = inst \<and> timer_execution t \<in> Some ` set acts
             \<and> timer_event t = ''boundary'' \<and> \<not> IsTriggered t) (timer_jobs d2)\<rparr>)"

definition LockActivityExecutionTx :: "uuid \<Rightarrow> uuid \<Rightarrow> db \<Rightarrow> engine_error + Execution" where
  "LockActivityExecutionTx inst eid d =
     (case find (exec_key inst eid) (executions d) of None \<Rightarrow> Inl (ExecutionNotFound eid) | Some e \<Rightarrow> Inr e)"

definition CancelActivityWorkTx :: "uuid \<Rightarrow> uuid \<Rightarrow> db \<Rightarrow> uuid list \<times> uuid list \<times> db" where
  "CancelActivityWorkTx inst eid d =
     (let (ts, d1) = cancel_tasks (\<lambda>t. task_instance t = inst \<and> task_execution t = eid) d;
          (js, d2) = cancel_jobs (\<lambda>j. job_instance j = inst \<and> job_execution j = eid) d1
      in (ts, js, d2))"

subsection \<open>Closing and cancelling a scope\<close>

definition exec_open :: "Execution \<Rightarrow> bool" where
  "exec_open e \<longleftrightarrow> exec_status e \<in> {ExecActive, ExecWaiting}"

definition finish_open :: "uuid \<Rightarrow> uuid list \<Rightarrow> exec_status \<Rightarrow> db \<Rightarrow> db" where
  "finish_open inst ids s =
     update_executions (\<lambda>e. exec_instance e = inst \<and> exec_id e \<in> set ids \<and> exec_open e) (finish_as s)"

definition CloseScopeTx :: "uuid \<Rightarrow> uuid \<Rightarrow> db \<Rightarrow> db option" where
  "CloseScopeTx inst scope d =
     map_option (\<lambda>ids. if ids = [] then d
        else deleteWaitStateTx inst ids (finish_open inst ids ExecCompleted (DisarmBoundaryTriggersTx inst ids d)))
       (descendants (loadExecutionTreeTx inst d) scope)"

definition CancelScopeTx :: "uuid \<Rightarrow> uuid \<Rightarrow> uuid \<Rightarrow> db \<Rightarrow> (uuid list \<times> uuid list \<times> db) option" where
  "CancelScopeTx inst rt keep d =
     map_option (\<lambda>all. let ids = filter (\<lambda>i. i \<noteq> keep) all in
        if ids = [] then ([], [], d)
        else
          let d1 = finish_open inst ids ExecTerminated (DisarmBoundaryTriggersTx inst ids d);
              (ts, d2) = cancel_tasks (\<lambda>t. task_instance t = inst \<and> task_execution t \<in> set ids) d1;
              (js, d3) = cancel_jobs (\<lambda>j. job_instance j = inst \<and> job_execution j \<in> set ids) d2
          in (ts, js, deleteWaitStateTx inst ids d3))
       (descendants (loadExecutionTreeTx inst d) rt)"

definition CancelExecutionWorkTx :: "uuid \<Rightarrow> uuid \<Rightarrow> db \<Rightarrow> uuid list \<times> uuid list \<times> db" where
  "CancelExecutionWorkTx inst eid d =
     (let (ts, js, d1) = CancelActivityWorkTx inst eid d;
          d2 = DisarmBoundaryTriggersTx inst [eid] d1;
          d3 = deleteWaitStateTx inst [eid] d2;
          own = job_id ` {j \<in> set (jobs d3). job_instance j = inst \<and> job_execution j = eid}
      in (ts, js, d3\<lparr>incidents := update_where
           (\<lambda>n. inc_instance n = inst \<and> inc_open n \<and> (inc_execution n = Some eid \<or> inc_job n \<in> Some ` own))
           (\<lambda>n. n\<lparr>inc_open := False\<rparr>) (incidents d3)\<rparr>))"

definition TerminateOtherWorkTx :: "uuid \<Rightarrow> uuid \<Rightarrow> db \<Rightarrow> uuid list \<times> uuid list \<times> db" where
  "TerminateOtherWorkTx inst keep d =
     (let d1 = update_executions (\<lambda>e. exec_instance e = inst \<and> exec_id e \<noteq> keep \<and> exec_open e)
                 (finish_as ExecTerminated) d;
          (ts, d2) = cancel_tasks (\<lambda>t. task_instance t = inst) d1;
          (js, d3) = cancel_jobs (\<lambda>j. job_instance j = inst) d2;
          d4 = d3\<lparr>timer_jobs := delete_where (\<lambda>t. timer_instance t = inst \<and> \<not> IsTriggered t) (timer_jobs d3)\<rparr>
      in (ts, js, d4\<lparr>event_subscriptions := delete_where (\<lambda>s. sub_instance s = inst \<and> \<not> sub_consumed s
           \<and> sub_type s \<noteq> ''compensable'' \<and> sub_execution s \<noteq> Some keep) (event_subscriptions d4)\<rparr>))"

definition LockProcessInstanceTx :: "uuid \<Rightarrow> db \<Rightarrow> engine_error + db" where
  "LockProcessInstanceTx inst d =
     (if \<exists>p \<in> set (process_instances d). pi_id p = inst then Inr d else Inl (ExecutionNotFound inst))"

definition CreateErrorTriggerTx :: "uuid \<Rightarrow> uuid \<Rightarrow> uuid \<Rightarrow> string \<Rightarrow> string \<Rightarrow> db
    \<Rightarrow> (engine_error + (uuid \<times> db)) option" where
  "CreateErrorTriggerTx new inst throwing evsub scope d =
     map_option (\<lambda>r. result_bind r (\<lambda>parent.
        result_bind (CreateExecutionTx \<lparr>exec_id = new, exec_instance = inst, exec_element = evsub,
            exec_status = ExecActive, exec_parent = parent, exec_path = Some (new @ ''_'' @ evsub),
            exec_is_active = True\<rparr> d)
          (\<lambda>d'. Inr (new, d'))))
      (if scope = '''' then Some (Inr None)
       else map_option (\<lambda>r. result_bind r (\<lambda>i. Inr (Some i))) (FindScopeExecutionTx inst throwing scope d))"

subsection \<open>Compensation\<close>

definition compensationHandlerPrefix :: string where
  "compensationHandlerPrefix = ''compensation:''"

definition RecordCompensableTx :: "uuid \<Rightarrow> uuid \<Rightarrow> uuid \<Rightarrow> string \<Rightarrow> string \<Rightarrow> db \<Rightarrow> db" where
  "RecordCompensableTx new inst eid activity handler d = d\<lparr>event_subscriptions := event_subscriptions d @
     [\<lparr>sub_id = new, sub_instance = inst, sub_execution = Some eid, sub_type = ''compensable'', sub_name = activity,
       sub_correlation = None, sub_target = Some handler, sub_consumed = False, sub_last = None\<rparr>]\<rparr>"

definition is_compensable :: "uuid \<Rightarrow> string list \<Rightarrow> EventSubscription \<Rightarrow> bool" where
  "is_compensable inst acts s \<longleftrightarrow> sub_instance s = inst \<and> sub_type s = ''compensable'' \<and> \<not> sub_consumed s
     \<and> sub_name s \<in> set acts"

definition TakeCompensablesTx :: "uuid \<Rightarrow> string list \<Rightarrow> db \<Rightarrow> (string \<times> string option) list \<times> db" where
  "TakeCompensablesTx inst acts d =
     (if acts = [] then ([], d)
      else (map (\<lambda>s. (sub_name s, sub_target s)) (filter (is_compensable inst acts) (event_subscriptions d)),
            d\<lparr>event_subscriptions := update_where (is_compensable inst acts)
                (\<lambda>s. s\<lparr>sub_consumed := True\<rparr>) (event_subscriptions d)\<rparr>))"

definition CompensationHandlerPathID :: "uuid \<Rightarrow> string" where
  "CompensationHandlerPathID thrower = compensationHandlerPrefix @ thrower"

definition ParseCompensationHandlerPathID :: "(string \<Rightarrow> uuid option) \<Rightarrow> string option \<Rightarrow> uuid option" where
  "ParseCompensationHandlerPathID parse path =
     (case path of
        None \<Rightarrow> None
      | Some p \<Rightarrow>
          if length p \<le> length compensationHandlerPrefix
             \<or> take (length compensationHandlerPrefix) p \<noteq> compensationHandlerPrefix then None
          else parse (drop (length compensationHandlerPrefix) p))"

definition CountRunningCompensationHandlersTx :: "uuid \<Rightarrow> uuid \<Rightarrow> db \<Rightarrow> nat" where
  "CountRunningCompensationHandlersTx inst thrower d =
     length (filter (\<lambda>e. exec_instance e = inst \<and> exec_path e = Some (CompensationHandlerPathID thrower) \<and> exec_open e)
       (executions d))"

subsection \<open>Well-formed trees\<close>

definition child_rel :: "executionLink list \<Rightarrow> (uuid \<times> uuid) set" where
  "child_rel tree = {(p, c). \<exists>l \<in> set tree. link_parent l = Some p \<and> link_id l = c}"

text \<open>Identifiers are unique and every parent is an execution created before its child.\<close>

definition tree_wf :: "executionLink list \<Rightarrow> bool" where
  "tree_wf tree \<longleftrightarrow> distinct (map link_id tree) \<and>
     (\<forall>i < length tree. \<forall>p. link_parent (tree ! i) = Some p \<longrightarrow> p \<in> link_id ` set (take i tree))"

lemma tree_wf_Nil [simp]: "tree_wf []"
  by (simp add: tree_wf_def)

lemma tree_wf_snoc:
  "tree_wf (tree @ [l]) \<longleftrightarrow> tree_wf tree \<and> link_id l \<notin> link_id ` set tree \<and>
     (\<forall>p. link_parent l = Some p \<longrightarrow> p \<in> link_id ` set tree)"
  by (auto simp: tree_wf_def nth_append less_Suc_eq)

lemma tree_wf_parent:
  assumes "tree_wf tree" and "(p, c) \<in> child_rel tree"
  shows "p \<in> link_id ` set tree \<and> c \<in> link_id ` set tree"
proof -
  from assms(2) obtain i where i: "i < length tree" "link_parent (tree ! i) = Some p" "link_id (tree ! i) = c"
    by (auto simp: child_rel_def in_set_conv_nth)
  with assms(1) have "p \<in> link_id ` set (take i tree)" by (simp add: tree_wf_def)
  moreover have "c \<in> link_id ` set tree" using i by (metis imageI nth_mem)
  ultimately show ?thesis using set_take_subset [of i tree] by blast
qed

lemma tree_wf_rank:
  assumes "tree_wf tree"
  shows "\<exists>r :: uuid \<Rightarrow> nat. (\<forall>p c. (p, c) \<in> child_rel tree \<longrightarrow> r p < r c) \<and> (\<forall>l \<in> set tree. r (link_id l) < length tree)"
  using assms
proof (induction tree rule: rev_induct)
  case Nil
  then show ?case by (simp add: child_rel_def)
next
  case (snoc l tree)
  then have wf: "tree_wf tree" "link_id l \<notin> link_id ` set tree"
    "\<And>p. link_parent l = Some p \<Longrightarrow> p \<in> link_id ` set tree"
    by (auto simp: tree_wf_snoc)
  from snoc.IH [OF wf(1)] obtain r :: "uuid \<Rightarrow> nat" where
    r: "\<forall>p c. (p, c) \<in> child_rel tree \<longrightarrow> r p < r c" "\<forall>l \<in> set tree. r (link_id l) < length tree" by blast
  have known: "p \<in> link_id ` set tree \<and> c \<in> link_id ` set tree" if "(p, c) \<in> child_rel tree" for p c
    by (rule tree_wf_parent [OF wf(1) that])
  define r' where "r' = r(link_id l := length tree)"
  have "r' p < r' c" if "(p, c) \<in> child_rel (tree @ [l])" for p c
  proof -
    from that consider "(p, c) \<in> child_rel tree" | "link_parent l = Some p" "c = link_id l"
      by (auto simp: child_rel_def)
    then show ?thesis
    proof cases
      case 1
      with known wf(2) have "p \<noteq> link_id l" "c \<noteq> link_id l" by blast+
      with 1 r(1) show ?thesis by (simp add: r'_def)
    next
      case 2
      with wf(3) obtain k where "k \<in> set tree" "p = link_id k" by auto
      with 2 wf(2) have "p \<noteq> link_id l" by blast
      with \<open>k \<in> set tree\<close> \<open>p = link_id k\<close> 2 r(2) show ?thesis by (simp add: r'_def)
    qed
  qed
  moreover have "\<forall>k \<in> set (tree @ [l]). r' (link_id k) < length (tree @ [l])"
    using r(2) unfolding r'_def by (auto simp: less_SucI)
  ultimately show ?case by blast
qed

lemma tree_wf_irrefl:
  assumes "tree_wf tree"
  shows "(x, x) \<notin> (child_rel tree)\<^sup>+"
proof
  assume cyc: "(x, x) \<in> (child_rel tree)\<^sup>+"
  obtain r :: "uuid \<Rightarrow> nat" where r: "\<forall>p c. (p, c) \<in> child_rel tree \<longrightarrow> r p < r c"
    using tree_wf_rank [OF assms] by blast
  have "r a < r b" if "(a, b) \<in> (child_rel tree)\<^sup>+" for a b
    using that by (induction rule: trancl_induct) (use r in \<open>auto intro: less_trans\<close>)
  from this [OF cyc] show False by simp
qed

lemma child_rel_unique:
  "tree_wf tree \<Longrightarrow> (p, c) \<in> child_rel tree \<Longrightarrow> (q, c) \<in> child_rel tree \<Longrightarrow> p = q"
  unfolding tree_wf_def child_rel_def by (auto simp: distinct_map inj_on_def)

lemma set_tree_children: "set (tree_children tree p) = {c. (p, c) \<in> child_rel tree}"
  by (auto simp: tree_children_def child_rel_def)

lemma distinct_tree_children: "tree_wf tree \<Longrightarrow> distinct (tree_children tree p)"
  by (simp add: tree_wf_def tree_children_def distinct_map_filter)

lemma trancl_child_in_tree: "(p, c) \<in> (child_rel tree)\<^sup>+ \<Longrightarrow> c \<in> link_id ` set tree"
  by (induction rule: trancl_induct) (auto simp: child_rel_def)

subsection \<open>Correctness of the walk\<close>

text \<open>The loop's invariant: what was popped and what is still on the stack are distinct, each has its
  parent among the root and what was popped, and nothing below those is missing.\<close>

definition desc_inv :: "executionLink list \<Rightarrow> uuid \<Rightarrow> uuid list \<Rightarrow> uuid list \<Rightarrow> bool" where
  "desc_inv tree rt out stack \<longleftrightarrow> distinct (out @ stack) \<and>
     (\<forall>x \<in> set (out @ stack). (rt, x) \<in> (child_rel tree)\<^sup>+ \<and> (\<exists>p \<in> insert rt (set out). (p, x) \<in> child_rel tree)) \<and>
     (\<forall>p \<in> insert rt (set out). \<forall>c. (p, c) \<in> child_rel tree \<longrightarrow> c \<in> set (out @ stack))"

lemma desc_inv_dest:
  assumes "desc_inv tree rt out stack"
  shows "distinct (out @ stack)"
    and "x \<in> set (out @ stack) \<Longrightarrow> (rt, x) \<in> (child_rel tree)\<^sup>+"
    and "x \<in> set (out @ stack) \<Longrightarrow> \<exists>p \<in> insert rt (set out). (p, x) \<in> child_rel tree"
    and "p \<in> insert rt (set out) \<Longrightarrow> (p, c) \<in> child_rel tree \<Longrightarrow> c \<in> set (out @ stack)"
  using assms unfolding desc_inv_def by blast+

lemma desc_inv_start: "tree_wf tree \<Longrightarrow> desc_inv tree rt [] (tree_children tree rt)"
  by (auto simp: desc_inv_def distinct_tree_children set_tree_children)

lemma desc_inv_step:
  assumes wf: "tree_wf tree" and inv: "desc_inv tree rt out (st @ [i])"
  shows "desc_inv tree rt (out @ [i]) (st @ tree_children tree i)"
proof -
  have i: "(rt, i) \<in> (child_rel tree)\<^sup>+" "i \<notin> set out" "i \<notin> set st" "distinct (out @ st)"
    using inv by (auto simp: desc_inv_def)
  have "i \<noteq> rt" using i(1) tree_wf_irrefl [OF wf] by auto
  have fresh: "c \<notin> set (out @ st @ [i])" if "(i, c) \<in> child_rel tree" for c
  proof
    assume "c \<in> set (out @ st @ [i])"
    with desc_inv_dest(3) [OF inv, of c] obtain p where "p \<in> insert rt (set out)" "(p, c) \<in> child_rel tree" by auto
    with child_rel_unique [OF wf that] i(2) \<open>i \<noteq> rt\<close> show False by auto
  qed
  have below: "(rt, c) \<in> (child_rel tree)\<^sup>+" if "(i, c) \<in> child_rel tree" for c
    using i(1) that by (rule trancl_into_trancl)
  show ?thesis unfolding desc_inv_def
  proof (intro conjI)
    show "distinct ((out @ [i]) @ st @ tree_children tree i)"
      using i fresh distinct_tree_children [OF wf, of i] by (auto simp: set_tree_children)
    show "\<forall>x \<in> set ((out @ [i]) @ st @ tree_children tree i). (rt, x) \<in> (child_rel tree)\<^sup>+ \<and>
        (\<exists>p \<in> insert rt (set (out @ [i])). (p, x) \<in> child_rel tree)"
    proof
      fix x
      assume "x \<in> set ((out @ [i]) @ st @ tree_children tree i)"
      then consider "x \<in> set (out @ st @ [i])" | "(i, x) \<in> child_rel tree" by (auto simp: set_tree_children)
      then show "(rt, x) \<in> (child_rel tree)\<^sup>+ \<and> (\<exists>p \<in> insert rt (set (out @ [i])). (p, x) \<in> child_rel tree)"
      proof cases
        case 1
        then show ?thesis using desc_inv_dest(2,3) [OF inv, of x] by auto
      next
        case 2
        then show ?thesis using below by auto
      qed
    qed
    show "\<forall>p \<in> insert rt (set (out @ [i])). \<forall>c. (p, c) \<in> child_rel tree \<longrightarrow>
        c \<in> set ((out @ [i]) @ st @ tree_children tree i)"
      using desc_inv_dest(4) [OF inv] by (auto simp: set_tree_children)
  qed
qed

lemma desc_inv_done:
  assumes "desc_inv tree rt out []"
  shows "set out = {x. (rt, x) \<in> (child_rel tree)\<^sup>+}"
proof (intro equalityI subsetI CollectI)
  fix x
  assume "x \<in> {x. (rt, x) \<in> (child_rel tree)\<^sup>+}"
  then have "(rt, x) \<in> (child_rel tree)\<^sup>+" by simp
  then show "x \<in> set out"
    by (induction rule: trancl_induct) (use desc_inv_dest(4) [OF assms] in auto)
next
  fix x
  assume "x \<in> set out"
  then show "(rt, x) \<in> (child_rel tree)\<^sup>+" using desc_inv_dest(2) [OF assms, of x] by simp
qed

lemma desc_inv_length:
  assumes inv: "desc_inv tree rt out stack"
  shows "length (out @ stack) \<le> length tree"
proof -
  have "length (out @ stack) = card (set (out @ stack))"
    using desc_inv_dest(1) [OF inv] by (simp only: distinct_card)
  also have "\<dots> \<le> card (link_id ` set tree)"
    using desc_inv_dest(2) [OF inv] trancl_child_in_tree [of rt _ tree] by (intro card_mono) auto
  also have "\<dots> \<le> length tree" using card_image_le [of "set tree" link_id] card_length [of tree] by simp
  finally show ?thesis .
qed

lemma desc_loop_total:
  assumes "tree_wf tree" and "desc_inv tree rt out stack" and "length tree < length out + fuel"
  shows "\<exists>ids. desc_loop fuel tree out stack = Some ids \<and> distinct ids \<and>
    set ids = {x. (rt, x) \<in> (child_rel tree)\<^sup>+}"
  using assms(2,3)
proof (induction fuel arbitrary: out stack)
  case 0
  then show ?case using desc_inv_length [of tree rt out stack] by simp
next
  case (Suc fuel)
  show ?case
  proof (cases stack)
    case Nil
    then show ?thesis
      using desc_inv_done [of tree rt out] desc_inv_dest(1) [of tree rt out] Suc.prems(1) by simp
  next
    case (Cons x xs)
    define st i where "st = butlast stack" and "i = last stack"
    have stack: "stack = st @ [i]" using Cons by (simp add: st_def i_def)
    have "desc_inv tree rt (out @ [i]) (st @ tree_children tree i)"
      using desc_inv_step [OF assms(1)] Suc.prems(1) stack by simp
    moreover have "length tree < length (out @ [i]) + fuel" using Suc.prems(2) by simp
    moreover have "desc_loop (Suc fuel) tree out stack = desc_loop fuel tree (out @ [i]) (st @ tree_children tree i)"
      by (simp only: Cons desc_loop.simps Let_def st_def i_def)
    ultimately show ?thesis using Suc.IH by simp
  qed
qed

lemma descendants_total:
  assumes "tree_wf tree"
  obtains ids where "descendants tree rt = Some ids" "distinct ids" "set ids = {x. (rt, x) \<in> (child_rel tree)\<^sup>+}"
  using desc_loop_total [OF assms desc_inv_start [OF assms], of "Suc (length tree)" rt]
  unfolding descendants_def by auto

subsection \<open>Operations and the shape of the tree\<close>

text \<open>The shape of the tree is the list of its identifiers and parents; only creation changes it.\<close>

definition shape :: "executionLink list \<Rightarrow> (uuid \<times> uuid option) list" where
  "shape tree = map (\<lambda>l. (link_id l, link_parent l)) tree"

definition tree_shape :: "uuid \<Rightarrow> db \<Rightarrow> (uuid \<times> uuid option) list" where
  "tree_shape inst d = shape (loadExecutionTreeTx inst d)"

lemma child_rel_shape: "child_rel tree = {(p, c). (c, Some p) \<in> set (shape tree)}"
  by (force simp: child_rel_def shape_def)

lemma tree_wf_shape:
  assumes "shape t = shape u"
  shows "tree_wf t \<longleftrightarrow> tree_wf u"
proof -
  have len: "length t = length u" using assms by (metis length_map shape_def)
  have ids: "map link_id t = map link_id u"
    using arg_cong [OF assms, of "map fst"] by (simp add: shape_def comp_def)
  have pars: "map link_parent t = map link_parent u"
    using arg_cong [OF assms, of "map snd"] by (simp add: shape_def comp_def)
  have "link_parent (t ! i) = link_parent (u ! i)" if "i < length t" for i
    using pars that len by (metis nth_map)
  moreover have "link_id ` set (take i t) = link_id ` set (take i u)" for i
    using arg_cong [OF ids, of "\<lambda>xs. set (take i xs)"] by (simp add: take_map)
  ultimately show ?thesis unfolding tree_wf_def using ids len by auto
qed

lemma loadExecutionTreeTx_update:
  assumes "\<And>e. exec_instance (f e) = exec_instance e"
  shows "loadExecutionTreeTx inst (update_executions P f d) =
    map link_of_exec (update_where P f (filter (\<lambda>e. exec_instance e = inst) (executions d)))"
proof -
  have "filter (\<lambda>e. exec_instance e = inst) (update_where P f xs) =
      update_where P f (filter (\<lambda>e. exec_instance e = inst) xs)" for xs
    by (induction xs) (simp_all add: update_where_def assms)
  then show ?thesis by (simp add: loadExecutionTreeTx_def update_executions_def)
qed

lemma tree_shape_update [frame_simps]:
  assumes "\<And>e. exec_instance (f e) = exec_instance e \<and> exec_id (f e) = exec_id e \<and> exec_parent (f e) = exec_parent e"
  shows "tree_shape inst (update_executions P f d) = tree_shape inst d"
proof -
  have "map (\<lambda>e. (link_id (link_of_exec e), link_parent (link_of_exec e))) (update_where P f xs) =
      map (\<lambda>e. (link_id (link_of_exec e), link_parent (link_of_exec e))) xs" for xs
    by (rule map_update_where_frame) (simp add: link_of_exec_def assms)
  then show ?thesis
    unfolding tree_shape_def using assms
    by (subst loadExecutionTreeTx_update) (simp_all add: shape_def loadExecutionTreeTx_def comp_def)
qed

lemma tree_shape_same_executions [frame_simps]:
  "executions d' = executions d \<Longrightarrow> tree_shape inst d' = tree_shape inst d"
  by (simp add: tree_shape_def loadExecutionTreeTx_def)

lemma finish_as_simps [simp]:
  "exec_instance (finish_as s e) = exec_instance e" "exec_id (finish_as s e) = exec_id e"
  "exec_parent (finish_as s e) = exec_parent e" "exec_element (finish_as s e) = exec_element e"
  "exec_status (finish_as s e) = s" "exec_path (finish_as s e) = exec_path e"
  by (simp_all add: finish_as_def)

lemma executions_deleteWaitStateTx [simp]: "executions (deleteWaitStateTx inst ids d) = executions d"
  by (simp add: deleteWaitStateTx_def)

lemma executions_cancel [simp]:
  "executions (snd (cancel_tasks P d)) = executions d" "executions (snd (cancel_jobs Q d)) = executions d"
  by (simp_all add: cancel_tasks_def cancel_jobs_def Let_def)

lemma executions_Disarm:
  "executions (DisarmBoundaryTriggersTx inst acts d) =
     (if acts = [] then executions d
      else update_where (is_trigger_of inst acts) (finish_as ExecCompleted) (executions d))"
  by (simp add: DisarmBoundaryTriggersTx_def update_executions_def Let_def)

lemma tree_shape_Disarm [frame_simps]: "tree_shape i (DisarmBoundaryTriggersTx inst acts d) = tree_shape i d"
proof -
  have "executions (DisarmBoundaryTriggersTx inst acts d) =
      executions (if acts = [] then d else update_executions (is_trigger_of inst acts) (finish_as ExecCompleted) d)"
    by (simp add: executions_Disarm update_executions_def)
  then have "tree_shape i (DisarmBoundaryTriggersTx inst acts d) =
      tree_shape i (if acts = [] then d else update_executions (is_trigger_of inst acts) (finish_as ExecCompleted) d)"
    by (rule tree_shape_same_executions)
  then show ?thesis by (simp add: tree_shape_update)
qed

lemma tree_shape_finish_open [frame_simps]: "tree_shape i (finish_open inst ids s d) = tree_shape i d"
  unfolding finish_open_def by (rule tree_shape_update) simp

definition below :: "uuid \<Rightarrow> uuid \<Rightarrow> db \<Rightarrow> uuid set" where
  "below inst rt d = {x. (rt, x) \<in> (child_rel (loadExecutionTreeTx inst d))\<^sup>+}"

lemma below_shape: "tree_shape inst d' = tree_shape inst d \<Longrightarrow> below inst rt d' = below inst rt d"
  by (simp add: below_def tree_shape_def child_rel_shape)

text \<open>The state of the executions the engine keeps: the tree of every instance is well formed.\<close>

definition execs_wf :: "db \<Rightarrow> bool" where
  "execs_wf d \<longleftrightarrow> (\<forall>inst. tree_wf (loadExecutionTreeTx inst d))"

lemma execs_wf_shape: "(\<And>inst. tree_shape inst d' = tree_shape inst d) \<Longrightarrow> execs_wf d \<Longrightarrow> execs_wf d'"
  unfolding execs_wf_def tree_shape_def by (metis tree_wf_shape)

lemma descendants_below:
  assumes "tree_wf (loadExecutionTreeTx inst d)"
  obtains ids where "descendants (loadExecutionTreeTx inst d) rt = Some ids" "distinct ids" "set ids = below inst rt d"
  using descendants_total [OF assms] unfolding below_def by metis

lemma CreateExecutionTx_wf:
  assumes "execs_wf d" and "CreateExecutionTx e d = Inr d'"
    and "\<And>p. exec_parent e = Some p \<Longrightarrow> \<exists>x \<in> set (executions d). exec_key (exec_instance e) p x"
  shows "execs_wf d'"
  unfolding execs_wf_def
proof
  fix inst
  have d': "d' = d\<lparr>executions := executions d @ [e]\<rparr>"
    and fresh: "\<not> (\<exists>x \<in> set (executions d). exec_key (exec_instance e) (exec_id e) x)"
    using assms(2) by (auto simp: CreateExecutionTx_def split: if_splits)
  have wf: "tree_wf (loadExecutionTreeTx inst d)" using assms(1) by (simp add: execs_wf_def)
  show "tree_wf (loadExecutionTreeTx inst d')"
  proof (cases "exec_instance e = inst")
    case True
    then have "loadExecutionTreeTx inst d' = loadExecutionTreeTx inst d @ [link_of_exec e]"
      by (simp add: d' loadExecutionTreeTx_def)
    moreover have "exec_id e \<notin> link_id ` set (loadExecutionTreeTx inst d)"
      using fresh True by (auto simp: loadExecutionTreeTx_def link_of_exec_def exec_key_def)
    moreover have "p \<in> link_id ` set (loadExecutionTreeTx inst d)" if "exec_parent e = Some p" for p
      using assms(3) [OF that] True by (auto simp: loadExecutionTreeTx_def link_of_exec_def exec_key_def image_iff)
    ultimately show ?thesis using wf by (simp add: tree_wf_snoc link_of_exec_def)
  next
    case False
    then show ?thesis using wf by (simp add: d' loadExecutionTreeTx_def)
  qed
qed

lemma tree_at_Some_iff:
  "tree_wf tree \<Longrightarrow> tree_at tree i = Some l \<longleftrightarrow> l \<in> set tree \<and> link_id l = i"
  unfolding tree_at_def tree_wf_def by (simp add: find_unique_iff)

text \<open>The result of a cancellation, with the pairs of the intermediate steps resolved.\<close>

lemma CancelScopeTx_cases:
  assumes "CancelScopeTx inst rt keep d = Some (ts, js, d')"
  obtains all ids d1 where "descendants (loadExecutionTreeTx inst d) rt = Some all"
    "ids = filter (\<lambda>i. i \<noteq> keep) all"
    "d1 = finish_open inst ids ExecTerminated (DisarmBoundaryTriggersTx inst ids d)"
    "d' = (if ids = [] then d else deleteWaitStateTx inst ids
       (snd (cancel_jobs (\<lambda>j. job_instance j = inst \<and> job_execution j \<in> set ids)
         (snd (cancel_tasks (\<lambda>t. task_instance t = inst \<and> task_execution t \<in> set ids) d1)))))"
proof -
  from assms obtain all where all: "descendants (loadExecutionTreeTx inst d) rt = Some all"
    by (auto simp: CancelScopeTx_def)
  show thesis
    by (rule that [OF all refl refl])
      (use assms all in \<open>simp add: CancelScopeTx_def Let_def case_prod_beta split: if_splits\<close>)
qed

lemma executions_CancelScopeTx:
  assumes "CancelScopeTx inst rt keep d = Some (ts, js, d')"
  shows "\<exists>ids. executions d' = executions (if ids = [] then d
      else finish_open inst ids ExecTerminated (DisarmBoundaryTriggersTx inst ids d))"
  using assms by (rule CancelScopeTx_cases) (auto split: if_splits)

lemma tree_shape_CloseScopeTx:
  assumes "CloseScopeTx inst eid d = Some d'"
  shows "tree_shape i d' = tree_shape i d"
proof -
  from assms obtain ids where "d' = (if ids = [] then d
      else deleteWaitStateTx inst ids (finish_open inst ids ExecCompleted (DisarmBoundaryTriggersTx inst ids d)))"
    by (auto simp: CloseScopeTx_def)
  then show ?thesis
    using tree_shape_same_executions [OF executions_deleteWaitStateTx]
    by (simp add: tree_shape_finish_open tree_shape_Disarm)
qed

lemma execs_wf_kept_close: "execs_wf d \<Longrightarrow> CloseScopeTx inst eid d = Some d' \<Longrightarrow> execs_wf d'"
  by (rule execs_wf_shape [OF tree_shape_CloseScopeTx])

subsection \<open>Properties of the tree\<close>

text \<open>The walk below an execution ends, although it keeps no set of visited executions, and
  returns exactly the executions strictly below it, each one once.\<close>

theorem descendants_correct:
  assumes "execs_wf d"
  shows "\<exists>ids. descendants (loadExecutionTreeTx inst d) rt = Some ids \<and> distinct ids \<and> set ids = below inst rt d"
  using assms descendants_below unfolding execs_wf_def by metis

text \<open>An instance with a scope execution, two branches under it and a boundary trigger.\<close>

definition example_tree :: db where
  "example_tree = empty_db\<lparr>executions := [
     example_exec ''s'' None ''sub'' ExecWaiting, example_exec ''f'' (Some ''s'') ''fork'' ExecWaiting,
     example_exec ''a'' (Some ''f'') ''taskA'' ExecActive, example_exec ''b'' (Some ''f'') ''taskB'' ExecWaiting,
     (example_exec ''t'' None ''timer'' ExecWaiting)\<lparr>exec_path := Some ''boundary:timer:a''\<rparr>]\<rparr>"

lemma example_tree_wf: "execs_wf example_tree"
  unfolding execs_wf_def
proof
  fix inst
  show "tree_wf (loadExecutionTreeTx inst example_tree)"
  proof (cases "inst = ''I''")
    case True
    have "loadExecutionTreeTx ''I'' example_tree = (((([] @
      [\<lparr>link_id = ''s'', link_parent = None, link_element = ''sub'', link_status = ExecWaiting\<rparr>]) @
      [\<lparr>link_id = ''f'', link_parent = Some ''s'', link_element = ''fork'', link_status = ExecWaiting\<rparr>]) @
      [\<lparr>link_id = ''a'', link_parent = Some ''f'', link_element = ''taskA'', link_status = ExecActive\<rparr>]) @
      [\<lparr>link_id = ''b'', link_parent = Some ''f'', link_element = ''taskB'', link_status = ExecWaiting\<rparr>]) @
      [\<lparr>link_id = ''t'', link_parent = None, link_element = ''timer'', link_status = ExecWaiting\<rparr>]"
      by (simp add: loadExecutionTreeTx_def example_tree_def example_exec_def link_of_exec_def)
    then show ?thesis using True by (simp only: tree_wf_snoc tree_wf_Nil) simp
  next
    case False
    then show ?thesis by (simp add: loadExecutionTreeTx_def example_tree_def example_exec_def)
  qed
qed

theorem descendants_correct_witness:
  "descendants (loadExecutionTreeTx ''I'' example_tree) ''s'' = Some [''f'', ''b'', ''a''] \<and>
   below ''I'' ''s'' example_tree = {''f'', ''a'', ''b''}"
proof -
  have "descendants (loadExecutionTreeTx ''I'' example_tree) ''s'' = Some [''f'', ''b'', ''a'']" by code_simp
  with descendants_correct [OF example_tree_wf, of "''I''" "''s''"] show ?thesis by auto
qed

text \<open>The executions of every instance form a forest, and every operation keeps it one: creating an
  execution under one that exists, moving, completing, closing, cancelling and terminating.\<close>

theorem execs_wf_kept:
  assumes "execs_wf d"
  shows "(\<forall>e d'. CreateExecutionTx e d = Inr d' \<longrightarrow>
       (\<forall>p. exec_parent e = Some p \<longrightarrow> (\<exists>x \<in> set (executions d). exec_key (exec_instance e) p x)) \<longrightarrow> execs_wf d') \<and>
     execs_wf (UpdateExecutionStatusAndNodeTx inst eid s el d) \<and> execs_wf (CompleteExecutionTx inst eid d) \<and>
     execs_wf (DisarmBoundaryTriggersTx inst acts d) \<and> execs_wf (snd (snd (TerminateOtherWorkTx inst eid d))) \<and>
     (\<forall>d'. CloseScopeTx inst eid d = Some d' \<longrightarrow> execs_wf d') \<and>
     (\<forall>ts js d'. CancelScopeTx inst eid keep d = Some (ts, js, d') \<longrightarrow> execs_wf d')"
proof (intro conjI allI impI)
  fix e d'
  assume "CreateExecutionTx e d = Inr d'"
    and "\<forall>p. exec_parent e = Some p \<longrightarrow> (\<exists>x \<in> set (executions d). exec_key (exec_instance e) p x)"
  then show "execs_wf d'" using CreateExecutionTx_wf [OF assms] by blast
next
  show "execs_wf (UpdateExecutionStatusAndNodeTx inst eid s el d)" "execs_wf (CompleteExecutionTx inst eid d)"
    unfolding UpdateExecutionStatusAndNodeTx_def CompleteExecutionTx_def
    by (rule execs_wf_shape [OF _ assms], simp add: tree_shape_update)+
  show "execs_wf (DisarmBoundaryTriggersTx inst acts d)"
    by (rule execs_wf_shape [OF _ assms]) (rule tree_shape_Disarm)
  have "executions (snd (snd (TerminateOtherWorkTx inst eid d))) =
      executions (update_executions (\<lambda>e. exec_instance e = inst \<and> exec_id e \<noteq> eid \<and> exec_open e) (finish_as ExecTerminated) d)"
    by (simp add: TerminateOtherWorkTx_def case_prod_beta Let_def)
  from tree_shape_same_executions [OF this]
  show "execs_wf (snd (snd (TerminateOtherWorkTx inst eid d)))"
    by (intro execs_wf_shape [OF _ assms]) (simp add: tree_shape_update)
next
  fix d'
  assume "CloseScopeTx inst eid d = Some d'"
  then show "execs_wf d'" by (rule execs_wf_kept_close [OF assms])
next
  fix ts js d'
  assume "CancelScopeTx inst eid keep d = Some (ts, js, d')"
  then obtain ids where "executions d' = executions (if ids = [] then d
      else finish_open inst ids ExecTerminated (DisarmBoundaryTriggersTx inst ids d))"
    using executions_CancelScopeTx by metis
  then have "tree_shape i d' = tree_shape i (if ids = [] then d
      else finish_open inst ids ExecTerminated (DisarmBoundaryTriggersTx inst ids d))" for i
    by (rule tree_shape_same_executions)
  then have "tree_shape i d' = tree_shape i d" for i
    by (simp add: tree_shape_finish_open tree_shape_Disarm)
  then show "execs_wf d'" by (rule execs_wf_shape) (rule assms)
qed

theorem execs_wf_kept_witness:
  "execs_wf (DisarmBoundaryTriggersTx ''I'' [''a''] example_tree) \<and>
   execs_wf (snd (snd (TerminateOtherWorkTx ''I'' ''a'' example_tree)))"
  using execs_wf_kept [OF example_tree_wf, of "''I''" "''a''" ExecActive "''x''" "[''a'']"] by blast

lemma finish_open_closes:
  assumes "e \<in> set (executions (finish_open inst ids s d))" and "exec_instance e = inst" and "exec_id e \<in> set ids"
    and "s \<notin> {ExecActive, ExecWaiting}"
  shows "\<not> exec_open e"
proof -
  have "\<forall>e \<in> set (executions (finish_open inst ids s d)). exec_instance e = inst \<and> exec_id e \<in> set ids \<longrightarrow> \<not> exec_open e"
    using assms(4) unfolding finish_open_def update_executions_def
    by (simp add: ball_update_where exec_open_def)
  with assms show ?thesis by blast
qed

lemma cancel_tasks_closes: "\<forall>t \<in> set (tasks (snd (cancel_tasks P d))). P t \<longrightarrow> \<not> task_open t"
  if "\<And>t. P (t\<lparr>task_status := TaskCancelled\<rparr>) = P t"
  using that by (simp add: cancel_tasks_def Let_def ball_update_where task_open_def)

lemma cancel_jobs_closes: "\<forall>j \<in> set (jobs (snd (cancel_jobs P d))). P j \<longrightarrow> \<not> job_open j"
  if "\<And>j. P (j\<lparr>job_status := JobCancelled\<rparr>) = P j"
  using that by (simp add: cancel_jobs_def Let_def ball_update_where job_open_def)

lemma tasks_frame [simp]:
  "tasks (deleteWaitStateTx inst ids d) = tasks d" "tasks (snd (cancel_jobs Q d)) = tasks d"
  "jobs (deleteWaitStateTx inst ids d) = jobs d"
  by (simp_all add: deleteWaitStateTx_def cancel_jobs_def Let_def)

lemma waits_frame [simp]:
  "timer_jobs (snd (cancel_jobs Q d)) = timer_jobs d" "timer_jobs (snd (cancel_tasks P d)) = timer_jobs d"
  "event_subscriptions (snd (cancel_jobs Q d)) = event_subscriptions d"
  "event_subscriptions (snd (cancel_tasks P d)) = event_subscriptions d"
  by (simp_all add: cancel_tasks_def cancel_jobs_def Let_def)

definition compensables :: "db \<Rightarrow> EventSubscription list" where
  "compensables d = filter (\<lambda>s. sub_type s = ''compensable'') (event_subscriptions d)"

lemma compensables_deleteWaitStateTx [simp]: "compensables (deleteWaitStateTx inst ids d) = compensables d"
  by (auto simp: compensables_def deleteWaitStateTx_def intro!: filter_delete_where_frame)

lemma compensables_frame [simp]:
  "compensables (snd (cancel_jobs Q d)) = compensables d" "compensables (snd (cancel_tasks P d)) = compensables d"
  "compensables (finish_open inst ids s d) = compensables d"
  by (simp_all add: compensables_def finish_open_def update_executions_def)

lemma compensables_Disarm [simp]: "compensables (DisarmBoundaryTriggersTx inst acts d) = compensables d"
proof -
  have "compensables (d\<lparr>timer_jobs := x\<rparr>) = compensables d" for d :: db and x by (simp add: compensables_def)
  moreover have "compensables (update_executions P f d) = compensables d" for P f
    by (simp add: compensables_def update_executions_def)
  ultimately show ?thesis by (simp add: DisarmBoundaryTriggersTx_def Let_def)
qed

definition sub_pending :: "EventSubscription \<Rightarrow> bool" where
  "sub_pending s \<longleftrightarrow> \<not> sub_consumed s \<and> sub_type s \<noteq> ''compensable''"

lemma CancelScopeTx_stops:
  assumes "execs_wf d"
  shows "\<exists>ts js d'. CancelScopeTx inst rt keep d = Some (ts, js, d') \<and>
    (let gone = below inst rt d - {keep} in
      (\<forall>e \<in> set (executions d'). exec_instance e = inst \<and> exec_id e \<in> gone \<longrightarrow> \<not> exec_open e) \<and>
      (\<forall>t \<in> set (tasks d'). task_instance t = inst \<and> task_execution t \<in> gone \<longrightarrow> \<not> task_open t) \<and>
      (\<forall>j \<in> set (jobs d'). job_instance j = inst \<and> job_execution j \<in> gone \<longrightarrow> \<not> job_open j) \<and>
      (\<forall>t \<in> set (timer_jobs d'). timer_instance t = inst \<and> timer_execution t \<in> Some ` gone \<longrightarrow> IsTriggered t) \<and>
      (\<forall>s \<in> set (event_subscriptions d'). sub_instance s = inst \<and> sub_execution s \<in> Some ` gone \<longrightarrow> \<not> sub_pending s) \<and>
      compensables d' = compensables d)"
proof -
  obtain all where all: "descendants (loadExecutionTreeTx inst d) rt = Some all" "set all = below inst rt d"
    using descendants_below [of inst d rt] assms unfolding execs_wf_def by metis
  obtain r where r: "CancelScopeTx inst rt keep d = Some r"
    unfolding CancelScopeTx_def all(1) option.map by blast
  obtain ts js d' where "r = (ts, js, d')" by (rule prod_cases3)
  with r have some: "CancelScopeTx inst rt keep d = Some (ts, js, d')" by simp
  define ids where "ids = filter (\<lambda>i. i \<noteq> keep) all"
  have ids: "set ids = below inst rt d - {keep}" using all(2) by (auto simp: ids_def)
  define d1 where "d1 = finish_open inst ids ExecTerminated (DisarmBoundaryTriggersTx inst ids d)"
  define d2 where "d2 = snd (cancel_tasks (\<lambda>t. task_instance t = inst \<and> task_execution t \<in> set ids) d1)"
  define d3 where "d3 = snd (cancel_jobs (\<lambda>j. job_instance j = inst \<and> job_execution j \<in> set ids) d2)"
  have d': "d' = (if ids = [] then d else deleteWaitStateTx inst ids d3)"
    by (rule CancelScopeTx_cases [OF some]) (simp only: all(1) option.inject d3_def d2_def d1_def ids_def)
  have "(\<forall>e \<in> set (executions d'). exec_instance e = inst \<and> exec_id e \<in> set ids \<longrightarrow> \<not> exec_open e)
    \<and> (\<forall>t \<in> set (tasks d'). task_instance t = inst \<and> task_execution t \<in> set ids \<longrightarrow> \<not> task_open t)
    \<and> (\<forall>j \<in> set (jobs d'). job_instance j = inst \<and> job_execution j \<in> set ids \<longrightarrow> \<not> job_open j)
    \<and> (\<forall>t \<in> set (timer_jobs d'). timer_instance t = inst \<and> timer_execution t \<in> Some ` set ids \<longrightarrow> IsTriggered t)
    \<and> (\<forall>s \<in> set (event_subscriptions d'). sub_instance s = inst \<and> sub_execution s \<in> Some ` set ids \<longrightarrow> \<not> sub_pending s)
    \<and> compensables d' = compensables d"
  proof (cases "ids = []")
    case True
    then show ?thesis by (simp add: d')
  next
    case False
    then have d'': "d' = deleteWaitStateTx inst ids d3" by (simp add: d')
    have e: "executions d' = executions d1" by (simp add: d'' d3_def d2_def)
    have "tasks d' = tasks d2" "jobs d' = jobs d3" by (simp_all add: d'' d3_def)
    moreover have "\<forall>e \<in> set (executions d'). exec_instance e = inst \<and> exec_id e \<in> set ids \<longrightarrow> \<not> exec_open e"
      unfolding e d1_def by (auto dest: finish_open_closes)
    moreover have "compensables d' = compensables d" by (simp add: d'' d3_def d2_def d1_def)
    moreover have "\<forall>t \<in> set (timer_jobs d'). timer_instance t = inst \<and> timer_execution t \<in> Some ` set ids \<longrightarrow> IsTriggered t"
      "\<forall>s \<in> set (event_subscriptions d'). sub_instance s = inst \<and> sub_execution s \<in> Some ` set ids \<longrightarrow> \<not> sub_pending s"
      by (auto simp: d'' deleteWaitStateTx_def sub_pending_def)
    ultimately show ?thesis unfolding d3_def d2_def
      using cancel_tasks_closes [of "\<lambda>t. task_instance t = inst \<and> task_execution t \<in> set ids" d1]
        cancel_jobs_closes [of "\<lambda>j. job_instance j = inst \<and> job_execution j \<in> set ids" d2]
      unfolding d2_def by simp
  qed
  then show ?thesis unfolding ids Let_def using some by blast
qed


lemma example_below: "below ''I'' ''s'' example_tree = set [''f'', ''b'', ''a'']"
proof -
  obtain ids where ids: "descendants (loadExecutionTreeTx ''I'' example_tree) ''s'' = Some ids"
    "set ids = below ''I'' ''s'' example_tree"
    using descendants_below [of "''I''" example_tree "''s''"] example_tree_wf unfolding execs_wf_def by metis
  have "descendants (loadExecutionTreeTx ''I'' example_tree) ''s'' = Some [''f'', ''b'', ''a'']" by code_simp
  then have "ids = [''f'', ''b'', ''a'']" by (simp only: ids(1) option.inject)
  then show ?thesis using ids(2) by (simp only:)
qed


text \<open>Closing a scope leaves no live work under it, whatever triggers were armed there; the records of
  compensable activities survive.\<close>

theorem CloseScopeTx_closes:
  assumes "execs_wf d"
  shows "\<exists>d'. CloseScopeTx inst scope d = Some d' \<and> HasLiveWorkUnderTx inst scope ignore d' = Some False \<and>
    compensables d' = compensables d"
proof -
  obtain ids where ids: "descendants (loadExecutionTreeTx inst d) scope = Some ids" "set ids = below inst scope d"
    using descendants_below [of inst d scope] assms unfolding execs_wf_def by metis
  define d1 where "d1 = finish_open inst ids ExecCompleted (DisarmBoundaryTriggersTx inst ids d)"
  define d' where "d' = (if ids = [] then d else deleteWaitStateTx inst ids d1)"
  have some: "CloseScopeTx inst scope d = Some d'" by (simp add: CloseScopeTx_def ids(1) d'_def d1_def)
  have wf': "execs_wf d'" using execs_wf_kept_close [OF assms some] .
  have "tree_shape inst d' = tree_shape inst d" by (rule tree_shape_CloseScopeTx [OF some])
  then have bl: "below inst scope d' = set ids" using below_shape [of inst d' d scope] ids(2) by simp
  obtain ids' where ids': "descendants (loadExecutionTreeTx inst d') scope = Some ids'" "set ids' = set ids"
    using descendants_below [of inst d' scope] wf' bl unfolding execs_wf_def by metis
  have closed: "\<not> exec_open e" if "e \<in> set (executions d')" "exec_instance e = inst" "exec_id e \<in> set ids" for e
  proof (cases "ids = []")
    case False
    then have "executions d' = executions d1" by (simp add: d'_def)
    with that show ?thesis unfolding d1_def by (auto dest: finish_open_closes)
  qed (use that in simp)
  have "\<not> link_open l" if "i \<in> set ids" "tree_at (loadExecutionTreeTx inst d') i = Some l" for i l
    using that closed wf' unfolding execs_wf_def
    by (auto simp: tree_at_Some_iff loadExecutionTreeTx_def link_of_exec_def link_open_def exec_open_def)
  then have "\<not> anyLiveLeaf (loadExecutionTreeTx inst d') ids' ignore"
    using ids'(2) by (auto simp: anyLiveLeaf_def list_ex_iff split: option.splits)
  moreover have "compensables d' = compensables d" by (simp add: d'_def d1_def)
  ultimately show ?thesis using some ids'(1) by (simp add: HasLiveWorkUnderTx_def Let_def)
qed

theorem CloseScopeTx_closes_witness:
  "HasLiveWorkUnderTx ''I'' ''s'' [] example_tree = Some True \<and>
   (\<exists>d'. CloseScopeTx ''I'' ''s'' example_tree = Some d' \<and> HasLiveWorkUnderTx ''I'' ''s'' [] d' = Some False)"
proof
  show "HasLiveWorkUnderTx ''I'' ''s'' [] example_tree = Some True" by code_simp
  show "\<exists>d'. CloseScopeTx ''I'' ''s'' example_tree = Some d' \<and> HasLiveWorkUnderTx ''I'' ''s'' [] d' = Some False"
    using CloseScopeTx_closes [OF example_tree_wf, of "''I''" "''s''" "[]"] by blast
qed

text \<open>The executions above one, innermost first.\<close>

definition above :: "executionLink list \<Rightarrow> uuid \<Rightarrow> uuid \<Rightarrow> bool" where
  "above tree a x \<longleftrightarrow> (a, x) \<in> (child_rel tree)\<^sup>+"

definition parked :: "executionLink list \<Rightarrow> string \<Rightarrow> uuid \<Rightarrow> bool" where
  "parked tree scope a \<longleftrightarrow> (\<exists>l \<in> set tree. link_id l = a \<and> link_element l = scope \<and> link_status l = ExecWaiting)"

lemma parked_link: "tree_wf tree \<Longrightarrow> l \<in> set tree \<Longrightarrow>
    parked tree scope (link_id l) \<longleftrightarrow> link_element l = scope \<and> link_status l = ExecWaiting"
  unfolding parked_def tree_wf_def by (auto simp: distinct_map inj_on_def)

text \<open>One step up: the executions above a child are its parent and those above the parent.\<close>

lemma above_parent:
  assumes "tree_wf tree" and "(p, x) \<in> child_rel tree"
  shows "above tree a x \<longleftrightarrow> a = p \<or> above tree a p"
proof
  assume "above tree a x"
  then have "(a, x) \<in> (child_rel tree)\<^sup>+" by (simp add: above_def)
  then obtain q where "(a, q) \<in> (child_rel tree)\<^sup>*" "(q, x) \<in> child_rel tree"
    by (meson tranclD2)
  with child_rel_unique [OF assms(1) _ assms(2)] have "(a, p) \<in> (child_rel tree)\<^sup>*" by blast
  then show "a = p \<or> above tree a p" by (auto simp: above_def rtrancl_eq_or_trancl)
next
  assume "a = p \<or> above tree a p"
  then show "above tree a x" using assms(2) by (auto simp: above_def)
qed

lemma above_root: "tree_wf tree \<Longrightarrow> l \<in> set tree \<Longrightarrow> link_parent l = None \<Longrightarrow> \<not> above tree a (link_id l)"
proof
  assume wf: "tree_wf tree" and l: "l \<in> set tree" "link_parent l = None" and "above tree a (link_id l)"
  then obtain q where "(q, link_id l) \<in> child_rel tree" unfolding above_def by (meson tranclD2)
  then obtain k where "k \<in> set tree" "link_id k = link_id l" "link_parent k = Some q" by (auto simp: child_rel_def)
  with wf l show False unfolding tree_wf_def by (auto simp: distinct_map inj_on_def)
qed

definition nearest_parked :: "executionLink list \<Rightarrow> string \<Rightarrow> uuid \<Rightarrow> uuid \<Rightarrow> bool" where
  "nearest_parked tree scope x a \<longleftrightarrow> above tree a x \<and> parked tree scope a \<and>
     (\<forall>b. above tree b x \<and> parked tree scope b \<longrightarrow> b = a \<or> above tree b a)"

lemma find_scope_loop_spec:
  assumes "tree_wf tree" and "l \<in> set tree"
    and r: "\<forall>p c. (p, c) \<in> child_rel tree \<longrightarrow> r p < (r c :: nat)" and "r (link_id l) < fuel"
  shows "(\<exists>a. find_scope_loop fuel tree scope self (link_parent l) = Some (Inr a) \<and> nearest_parked tree scope (link_id l) a) \<or>
     find_scope_loop fuel tree scope self (link_parent l) = Some (Inl (NoScopeExecution scope self)) \<and>
       (\<forall>b. above tree b (link_id l) \<longrightarrow> \<not> parked tree scope b)"
  using assms(2,4)
proof (induction fuel arbitrary: l)
  case 0
  then show ?case by simp
next
  case (Suc fuel)
  show ?case
  proof (cases "link_parent l")
    case None
    then show ?thesis using above_root [OF assms(1) Suc.prems(1)] by simp
  next
    case (Some p)
    then have pc: "(p, link_id l) \<in> child_rel tree" using Suc.prems(1) by (auto simp: child_rel_def)
    then obtain m where m: "m \<in> set tree" "link_id m = p" using tree_wf_parent [OF assms(1)] by blast
    then have at: "tree_at tree p = Some m" using tree_at_Some_iff [OF assms(1)] by simp
    note up = above_parent [OF assms(1) pc]
    show ?thesis
    proof (cases "link_element m = scope \<and> link_status m = ExecWaiting")
      case True
      then have "parked tree scope p" using parked_link [OF assms(1) m(1)] m(2) by simp
      then have "nearest_parked tree scope (link_id l) p" using up by (simp add: nearest_parked_def)
      then show ?thesis using Some at m(2) True by simp
    next
      case False
      then have "\<not> parked tree scope p" using parked_link [OF assms(1) m(1)] m(2) by simp
      then have "nearest_parked tree scope (link_id l) a" if "nearest_parked tree scope p a" for a
        using that up by (auto simp: nearest_parked_def)
      moreover have "r (link_id m) < fuel" using r pc m(2) Suc.prems(2) by fastforce
      ultimately show ?thesis
        using Suc.IH [OF m(1)] Some at m(2) False up \<open>\<not> parked tree scope p\<close> by auto
    qed
  qed
qed

text \<open>The climb to the enclosing scope ends, and finds the nearest execution above the given one that is
  parked on the scope's node; it fails exactly when there is none.\<close>

theorem FindScopeExecutionTx_nearest:
  assumes "execs_wf d" and "e \<in> set (executions d)" and "exec_instance e = inst" and "exec_id e = eid"
  shows "let tree = loadExecutionTreeTx inst d in
    (\<exists>a. FindScopeExecutionTx inst eid scope d = Some (Inr a) \<and> nearest_parked tree scope eid a) \<or>
    FindScopeExecutionTx inst eid scope d = Some (Inl (NoScopeExecution scope eid)) \<and>
      (\<forall>b. above tree b eid \<longrightarrow> \<not> parked tree scope b)"
proof -
  let ?tree = "loadExecutionTreeTx inst d"
  have wf: "tree_wf ?tree" using assms(1) by (simp add: execs_wf_def)
  have l: "link_of_exec e \<in> set ?tree" using assms by (simp add: loadExecutionTreeTx_def)
  have l2: "link_id (link_of_exec e) = eid" using assms(4) by (simp add: link_of_exec_def)
  have at: "tree_at ?tree eid = Some (link_of_exec e)" using tree_at_Some_iff [OF wf] l l2 by simp
  obtain r :: "uuid \<Rightarrow> nat" where r: "\<forall>p c. (p, c) \<in> child_rel ?tree \<longrightarrow> r p < r c"
    "\<forall>l \<in> set ?tree. r (link_id l) < length ?tree"
    using tree_wf_rank [OF wf] by blast
  have "r (link_id (link_of_exec e)) < Suc (length ?tree)" using r(2) l by auto
  from find_scope_loop_spec [OF wf l r(1) this, of scope eid] show ?thesis
    using at l2 by (simp add: FindScopeExecutionTx_def Let_def)
qed

theorem FindScopeExecutionTx_nearest_witness:
  "\<exists>a. FindScopeExecutionTx ''I'' ''a'' ''sub'' example_tree = Some (Inr a) \<and>
     nearest_parked (loadExecutionTreeTx ''I'' example_tree) ''sub'' ''a'' a"
proof -
  have e: "example_exec ''a'' (Some ''f'') ''taskA'' ExecActive \<in> set (executions example_tree)"
    by (simp add: example_tree_def)
  have "FindScopeExecutionTx ''I'' ''a'' ''sub'' example_tree = Some (Inr ''s'')" by code_simp
  then show ?thesis
    using FindScopeExecutionTx_nearest [OF example_tree_wf e, of "''I''" "''a''" "''sub''"]
    by (simp add: example_exec_def Let_def)
qed

lemma TerminateOtherWorkTx_fields:
  "executions (snd (snd (TerminateOtherWorkTx inst keep d))) =
     update_where (\<lambda>e. exec_instance e = inst \<and> exec_id e \<noteq> keep \<and> exec_open e) (finish_as ExecTerminated) (executions d)"
  "tasks (snd (snd (TerminateOtherWorkTx inst keep d))) = tasks (snd (cancel_tasks (\<lambda>t. task_instance t = inst) d))"
  "jobs (snd (snd (TerminateOtherWorkTx inst keep d))) = jobs (snd (cancel_jobs (\<lambda>j. job_instance j = inst) d))"
  "timer_jobs (snd (snd (TerminateOtherWorkTx inst keep d))) =
     delete_where (\<lambda>t. timer_instance t = inst \<and> \<not> IsTriggered t) (timer_jobs d)"
  "event_subscriptions (snd (snd (TerminateOtherWorkTx inst keep d))) =
     delete_where (\<lambda>s. sub_instance s = inst \<and> \<not> sub_consumed s \<and> sub_type s \<noteq> ''compensable''
       \<and> sub_execution s \<noteq> Some keep) (event_subscriptions d)"
  "variables (snd (snd (TerminateOtherWorkTx inst keep d))) = variables d"
  "scope_variables (snd (snd (TerminateOtherWorkTx inst keep d))) = scope_variables d"
  "gateway_states (snd (snd (TerminateOtherWorkTx inst keep d))) = gateway_states d"
  "incidents (snd (snd (TerminateOtherWorkTx inst keep d))) = incidents d"
  "process_instances (snd (snd (TerminateOtherWorkTx inst keep d))) = process_instances d"
  "multi_instance_executions (snd (snd (TerminateOtherWorkTx inst keep d))) = multi_instance_executions d"
  "multi_instance_children (snd (snd (TerminateOtherWorkTx inst keep d))) = multi_instance_children d"
  by (simp_all add: TerminateOtherWorkTx_def case_prod_beta Let_def update_executions_def cancel_tasks_def cancel_jobs_def)

interpretation terminate_other: instance_op "\<lambda>i d. snd (snd (TerminateOtherWorkTx i keep d))" for keep
proof
  fix j i d
  assume ne: "j \<noteq> (i :: uuid)"
  have t: "filter (\<lambda>t. task_instance t = j) (tasks (snd (cancel_tasks (\<lambda>t. task_instance t = i) d))) =
      filter (\<lambda>t. task_instance t = j) (tasks d)"
    using isolated_cancel_tasks [of "\<lambda>t. task_instance t = i" i j d] ne by (simp add: instance_view_def)
  have jb: "filter (\<lambda>x. job_instance x = j) (jobs (snd (cancel_jobs (\<lambda>x. job_instance x = i) d))) =
      filter (\<lambda>x. job_instance x = j) (jobs d)"
    using isolated_cancel_jobs [of "\<lambda>x. job_instance x = i" i j d] ne by (simp add: instance_view_def)
  show "instance_view j (snd (snd (TerminateOtherWorkTx i keep d))) = instance_view j d"
    unfolding instance_view_def TerminateOtherWorkTx_fields t jb using ne
    by (auto intro!: filter_update_where_frame filter_delete_where_frame)
qed

text \<open>A terminate end event stops the whole instance but the terminating execution: every other
  execution is closed, every task and job is closed, no timer is pending; other instances are untouched and
  compensable activities stay recorded.\<close>

theorem TerminateOtherWorkTx_stops:
  "let d' = snd (snd (TerminateOtherWorkTx inst keep d)) in
    (\<forall>e \<in> set (executions d'). exec_instance e = inst \<and> exec_open e \<longrightarrow> exec_id e = keep) \<and>
    (\<forall>t \<in> set (tasks d'). task_instance t = inst \<longrightarrow> \<not> task_open t) \<and>
    (\<forall>j \<in> set (jobs d'). job_instance j = inst \<longrightarrow> \<not> job_open j) \<and>
    (\<forall>t \<in> set (timer_jobs d'). timer_instance t = inst \<longrightarrow> IsTriggered t) \<and>
    compensables d' = compensables d \<and>
    (\<forall>j. j \<noteq> inst \<longrightarrow> instance_view j d' = instance_view j d)"
  unfolding Let_def
proof (intro conjI allI impI)
  let ?d' = "snd (snd (TerminateOtherWorkTx inst keep d))"
  show "\<forall>e \<in> set (executions ?d'). exec_instance e = inst \<and> exec_open e \<longrightarrow> exec_id e = keep"
    unfolding TerminateOtherWorkTx_fields ball_update_where by (auto simp: exec_open_def)
  show "\<forall>t \<in> set (tasks ?d'). task_instance t = inst \<longrightarrow> \<not> task_open t"
    unfolding TerminateOtherWorkTx_fields by (rule cancel_tasks_closes) simp
  show "\<forall>j \<in> set (jobs ?d'). job_instance j = inst \<longrightarrow> \<not> job_open j"
    unfolding TerminateOtherWorkTx_fields by (rule cancel_jobs_closes) simp
  show "\<forall>t \<in> set (timer_jobs ?d'). timer_instance t = inst \<longrightarrow> IsTriggered t"
    by (simp add: TerminateOtherWorkTx_fields)
  show "compensables ?d' = compensables d"
    unfolding compensables_def TerminateOtherWorkTx_fields by (intro filter_delete_where_frame) simp
qed (rule terminate_other.isolated)

theorem TerminateOtherWorkTx_stops_witness:
  "filter (\<lambda>e. exec_instance e = ''I'' \<and> exec_open e \<and> exec_id e \<noteq> ''a'')
     (executions (snd (snd (TerminateOtherWorkTx ''I'' ''a'' example_tree)))) = []"
  using TerminateOtherWorkTx_stops [of "''I''" "''a''" example_tree]
  by (auto simp: Let_def filter_empty_conv)

subsection \<open>Boundary triggers and compensation\<close>

lemma boundary_prefix_split: "BoundaryTriggerPathID node eid = ''boundary'' @ CHR '':'' # node @ CHR '':'' # eid"
  by (simp add: BoundaryTriggerPathID_def boundaryTriggerPrefix_def)

lemma split_part_trigger:
  "CHR '':'' \<notin> set node \<Longrightarrow> CHR '':'' \<notin> set eid \<Longrightarrow> split_part (BoundaryTriggerPathID node eid) (CHR '':'') 3 = eid"
  unfolding boundary_prefix_split split_part_def
  by (subst split_on_append_sep, simp, subst split_on_append_sep, simp) (simp add: split_on_no_sep)

text \<open>The path of a boundary trigger names its activity: parsing it gives the activity back (where
  the parser accepts what it prints), and disarming the activity ends every trigger armed for it and drops
  its timers and subscriptions.\<close>

theorem boundary_trigger_disarmed:
  assumes "CHR '':'' \<notin> set node" and "CHR '':'' \<notin> set eid" and "parse eid = Some eid"
    and "d' = DisarmBoundaryTriggersTx inst (eid # eids) d"
  shows "ParseBoundaryTriggerPathID parse (Some (BoundaryTriggerPathID node eid)) = Some eid \<and>
    (\<forall>e \<in> set (executions d'). exec_instance e = inst \<and> exec_path e = Some (BoundaryTriggerPathID node eid) \<longrightarrow>
       exec_status e \<noteq> ExecWaiting) \<and>
    (\<forall>e \<in> set (executions d). exec_key inst (exec_id e) e \<and> exec_status e = ExecWaiting \<and>
       exec_path e = Some (BoundaryTriggerPathID node eid) \<longrightarrow>
       (\<forall>t \<in> set (timer_jobs d'). timer_instance t = inst \<and> timer_execution t = Some (exec_id e) \<longrightarrow> IsTriggered t) \<and>
       (\<forall>s \<in> set (event_subscriptions d'). sub_instance s = inst \<and> sub_execution s = Some (exec_id e) \<longrightarrow> \<not> sub_pending s))"
proof (intro conjI)
  have pre: "has_prefix (BoundaryTriggerPathID node eid) boundaryTriggerPrefix"
    by (simp add: BoundaryTriggerPathID_def)
  have "after_last (CHR '':'') (BoundaryTriggerPathID node eid) = eid"
    using after_last_append_sep [OF assms(2), of "''boundary:'' @ node"] by (simp add: boundary_prefix_split)
  then show "ParseBoundaryTriggerPathID parse (Some (BoundaryTriggerPathID node eid)) = Some eid"
    using pre assms(3) by (simp add: ParseBoundaryTriggerPathID_def)
  have hit: "is_trigger_of inst (eid # eids) e"
    if "exec_instance e = inst" "exec_path e = Some (BoundaryTriggerPathID node eid)" "exec_status e = ExecWaiting" for e
    using that pre split_part_trigger [OF assms(1,2)] by (simp add: is_trigger_of_def)
  show "\<forall>e \<in> set (executions d'). exec_instance e = inst \<and> exec_path e = Some (BoundaryTriggerPathID node eid) \<longrightarrow>
      exec_status e \<noteq> ExecWaiting"
    unfolding assms(4) executions_Disarm using hit by (auto simp: ball_update_where)
  let ?tr = "map exec_id (filter (is_trigger_of inst (eid # eids)) (executions d))"
  have w: "timer_jobs d' = delete_where (\<lambda>t. timer_instance t = inst \<and> timer_execution t \<in> Some ` set (eid # eids)
        \<and> timer_event t = ''boundary'' \<and> \<not> IsTriggered t) (timer_jobs (deleteWaitStateTx inst ?tr d))"
    "event_subscriptions d' = event_subscriptions (deleteWaitStateTx inst ?tr d)" if "?tr \<noteq> []"
    using that by (simp_all add: assms(4) DisarmBoundaryTriggersTx_def Let_def update_executions_def deleteWaitStateTx_def)
  show "\<forall>e \<in> set (executions d). exec_key inst (exec_id e) e \<and> exec_status e = ExecWaiting \<and>
       exec_path e = Some (BoundaryTriggerPathID node eid) \<longrightarrow>
       (\<forall>t \<in> set (timer_jobs d'). timer_instance t = inst \<and> timer_execution t = Some (exec_id e) \<longrightarrow> IsTriggered t) \<and>
       (\<forall>s \<in> set (event_subscriptions d'). sub_instance s = inst \<and> sub_execution s = Some (exec_id e) \<longrightarrow> \<not> sub_pending s)"
  proof (intro ballI impI)
    fix e
    assume e: "e \<in> set (executions d)"
      "exec_key inst (exec_id e) e \<and> exec_status e = ExecWaiting \<and> exec_path e = Some (BoundaryTriggerPathID node eid)"
    then have tr: "exec_id e \<in> set ?tr" using hit by (simp add: exec_key_def)
    then have ne: "?tr \<noteq> []" by (metis empty_iff list.set(1))
    show "(\<forall>t \<in> set (timer_jobs d'). timer_instance t = inst \<and> timer_execution t = Some (exec_id e) \<longrightarrow> IsTriggered t) \<and>
       (\<forall>s \<in> set (event_subscriptions d'). sub_instance s = inst \<and> sub_execution s = Some (exec_id e) \<longrightarrow> \<not> sub_pending s)"
      unfolding w(1) [OF ne] w(2) [OF ne] using tr by (auto simp: deleteWaitStateTx_def sub_pending_def)
  qed
qed

theorem boundary_trigger_disarmed_witness:
  "filter (\<lambda>e. exec_instance e = ''I'' \<and> exec_path e = Some (BoundaryTriggerPathID ''timer'' ''a'') \<and> exec_status e = ExecWaiting)
     (executions (DisarmBoundaryTriggersTx ''I'' [''a''] example_tree)) = []"
  using boundary_trigger_disarmed [of "''timer''" "''a''" Some _ "''I''" "[]" example_tree, OF _ _ _ refl]
  by (auto simp: filter_empty_conv)

text \<open>Each completed activity is compensated once: what was recorded is taken with its handler, and
  taking again gives nothing until something new is recorded.\<close>

theorem TakeCompensablesTx_once:
  assumes "TakeCompensablesTx inst acts (RecordCompensableTx new inst eid act handler d) = (taken, d')" and "act \<in> set acts"
  shows "(act, Some handler) \<in> set taken \<and> TakeCompensablesTx inst acts d' = ([], d') \<and>
    length taken = Suc (length (fst (TakeCompensablesTx inst acts d)))"
proof -
  let ?s = "\<lparr>sub_id = new, sub_instance = inst, sub_execution = Some eid, sub_type = ''compensable'', sub_name = act,
       sub_correlation = None, sub_target = Some handler, sub_consumed = False, sub_last = None\<rparr>"
  have acts: "acts \<noteq> []" and new: "is_compensable inst acts ?s" using assms(2) by (auto simp: is_compensable_def)
  let ?d = "RecordCompensableTx new inst eid act handler d"
  have t: "taken = map (\<lambda>s. (sub_name s, sub_target s)) (filter (is_compensable inst acts) (event_subscriptions d @ [?s]))"
    and d': "d' = ?d\<lparr>event_subscriptions := update_where (is_compensable inst acts) (\<lambda>s. s\<lparr>sub_consumed := True\<rparr>)
      (event_subscriptions ?d)\<rparr>"
    using assms acts by (simp_all add: TakeCompensablesTx_def RecordCompensableTx_def)
  have "\<forall>s \<in> set (event_subscriptions d'). \<not> is_compensable inst acts s"
    by (simp add: d' ball_update_where is_compensable_def)
  then have "TakeCompensablesTx inst acts d' = ([], d')"
    using acts by (simp add: TakeCompensablesTx_def update_where_none filter_empty_conv)
  moreover have "length taken = Suc (length (fst (TakeCompensablesTx inst acts d)))"
    using acts new by (simp add: t TakeCompensablesTx_def)
  moreover have "(act, Some handler) \<in> set taken" using new by (simp add: t)
  ultimately show ?thesis by simp
qed

theorem TakeCompensablesTx_once_witness:
  "fst (TakeCompensablesTx ''I'' [''book''] (RecordCompensableTx ''s'' ''I'' ''e'' ''book'' ''cancel'' empty_db)) = [(''book'', Some ''cancel'')] \<and>
   (let d' = snd (TakeCompensablesTx ''I'' [''book''] (RecordCompensableTx ''s'' ''I'' ''e'' ''book'' ''cancel'' empty_db))
    in TakeCompensablesTx ''I'' [''book''] d' = ([], d'))"
proof
  show "fst (TakeCompensablesTx ''I'' [''book''] (RecordCompensableTx ''s'' ''I'' ''e'' ''book'' ''cancel'' empty_db)) = [(''book'', Some ''cancel'')]"
    by code_simp
  show "let d' = snd (TakeCompensablesTx ''I'' [''book''] (RecordCompensableTx ''s'' ''I'' ''e'' ''book'' ''cancel'' empty_db))
    in TakeCompensablesTx ''I'' [''book''] d' = ([], d')"
    using TakeCompensablesTx_once [OF prod.collapse [symmetric], of "''book''" "[''book'']" "''cancel''" "''I''" "''s''" "''e''" empty_db]
    by (simp add: Let_def)
qed

end
