(* ===== verification/Scope_Variables.thy ===== *)
theory Scope_Variables
  imports Exec_Tree
begin

text \<open>
  Variable scopes (\<open>internal/repository/scope_variables.go\<close>): an instance's variables live in the instance
  scope and in local scopes held by executions. Reading goes from the innermost scope outwards; setting
  updates the nearest scope that has the variable, or else the instance scope.

  The locale \<open>scoped_store\<close> states what a client of the scopes relies on: every variable seen from an
  execution has one owning scope, a write changes it there only, and is seen by exactly those executions for
  which the same scope owns the variable. It is interpreted on the engine's own operations.
\<close>

subsection \<open>Operations\<close>

definition parent_links :: "uuid \<Rightarrow> db \<Rightarrow> (uuid \<times> uuid option) list" where
  "parent_links inst d = map (\<lambda>e. (exec_id e, exec_parent e)) (filter (\<lambda>e. exec_instance e = inst) (executions d))"

lemma finite_parents: "finite {x. Some x \<in> snd ` set parent}"
proof -
  have "{x. Some x \<in> snd ` set parent} \<subseteq> the ` snd ` set parent" by (auto intro: rev_image_eqI)
  then show ?thesis by (rule finite_subset) simp
qed

text \<open>The climb keeps the set of executions it has seen, so it ends whatever the links are.\<close>

function chain_loop :: "(uuid \<times> uuid option) list \<Rightarrow> uuid list \<Rightarrow> uuid option \<Rightarrow> uuid list" where
  "chain_loop parent chain None = chain"
| "chain_loop parent chain (Some x) =
     (if x \<in> set chain then chain
      else chain_loop parent (chain @ [x]) (Option.bind (map_of parent x) id))"
  by pat_completeness auto

termination
proof (relation "measure (\<lambda>(parent, chain, cur).
    card (set_option cur \<union> {x. Some x \<in> snd ` set parent} - set chain))", simp)
  fix parent :: "(uuid \<times> uuid option) list" and chain :: "uuid list" and x
  assume x: "x \<notin> set chain"
  let ?P = "{y. Some y \<in> snd ` set parent}"
  have "set_option (Option.bind (map_of parent x) id) \<subseteq> ?P"
    by (auto simp: image_iff dest!: map_of_SomeD split: option.splits)
       (metis bind_eq_Some_conv id_apply map_of_SomeD snd_conv)
  then have sub: "set_option (Option.bind (map_of parent x) id) \<union> ?P - set (chain @ [x]) \<subset>
      set_option (Some x) \<union> ?P - set chain" using x by auto
  have "finite (set_option (Some x) \<union> ?P - set chain)" using finite_parents by simp
  from psubset_card_mono [OF this sub]
  show "((parent, chain @ [x], Option.bind (map_of parent x) id), (parent, chain, Some x)) \<in>
      measure (\<lambda>(parent, chain, cur). card (set_option cur \<union> {x. Some x \<in> snd ` set parent} - set chain))"
    by simp
qed

definition scopeChain :: "uuid \<Rightarrow> uuid \<Rightarrow> db \<Rightarrow> uuid list" where
  "scopeChain inst eid d = (if eid = uuid_Nil then [] else chain_loop (parent_links inst d) [] (Some eid))"

definition VariableScopeOf :: "(string \<Rightarrow> uuid option) \<Rightarrow> uuid \<Rightarrow> uuid \<Rightarrow> db \<Rightarrow> uuid" where
  "VariableScopeOf parse inst eid d =
     (case find (exec_key inst eid) (executions d) of
        None \<Rightarrow> eid
      | Some e \<Rightarrow> (case ParseBoundaryTriggerPathID parse (exec_path e) of Some a \<Rightarrow> a | None \<Rightarrow> eid))"

definition localScopes :: "uuid \<Rightarrow> db \<Rightarrow> (uuid \<times> vars) list" where
  "localScopes inst d = map (\<lambda>((i, s), vs). (s, vs)) (filter (\<lambda>((i, s), vs). i = inst) (scope_variables d))"

definition rootVariables :: "uuid \<Rightarrow> db \<Rightarrow> vars" where
  "rootVariables inst d = (case map_of (variables d) inst of Some vs \<Rightarrow> vs | None \<Rightarrow> [])"

definition VariablesForExecution :: "uuid \<Rightarrow> uuid \<Rightarrow> db \<Rightarrow> vars" where
  "VariablesForExecution inst eid d =
     (let scopes = localScopes inst d in
      if scopes = [] then rootVariables inst d
      else fold (\<lambda>s vs. merge_vars vs (case map_of scopes s of Some l \<Rightarrow> l | None \<Rightarrow> []))
             (rev (scopeChain inst eid d)) (rootVariables inst d))"

definition LocalVariables :: "uuid \<Rightarrow> uuid \<Rightarrow> db \<Rightarrow> vars" where
  "LocalVariables inst s d = (case map_of (scope_variables d) (inst, s) of Some vs \<Rightarrow> vs | None \<Rightarrow> [])"

definition SetLocalVariablesTx :: "uuid \<Rightarrow> uuid \<Rightarrow> vars \<Rightarrow> db \<Rightarrow> db" where
  "SetLocalVariablesTx inst s vs d =
     (if vs = [] then d
      else d\<lparr>scope_variables := AList.update (inst, s)
        (case map_of (scope_variables d) (inst, s) of Some old \<Rightarrow> merge_vars old vs | None \<Rightarrow> vs)
        (scope_variables d)\<rparr>)"

text \<open>The nearest scope of the chain that has the name.\<close>

definition place :: "uuid list \<Rightarrow> (uuid \<times> vars) list \<Rightarrow> string \<Rightarrow> uuid option" where
  "place chain scopes name =
     find (\<lambda>s. case map_of scopes s of None \<Rightarrow> False | Some l \<Rightarrow> map_of l name \<noteq> None) chain"

text \<open>One round of the loop over the variables to set: what goes to each scope, the new instance scope,
  and whether that changed.\<close>

fun set_step :: "(string \<Rightarrow> uuid option) \<Rightarrow> string \<times> json \<Rightarrow> (uuid \<times> vars) list \<times> vars \<times> bool
    \<Rightarrow> (uuid \<times> vars) list \<times> vars \<times> bool" where
  "set_step pl (name, v) (touched, rvars, changed) =
     (case pl name of
        Some s \<Rightarrow> (AList.update s (AList.update name v (case map_of touched s of Some m \<Rightarrow> m | None \<Rightarrow> [])) touched,
                   rvars, changed)
      | None \<Rightarrow> (touched, AList.update name v rvars, True))"

definition SetVariablesTx :: "uuid \<Rightarrow> uuid \<Rightarrow> vars \<Rightarrow> db \<Rightarrow> db" where
  "SetVariablesTx inst eid vs d =
     (if vs = [] then d
      else
        let scopes = localScopes inst d;
            chain = (if scopes = [] then [] else scopeChain inst eid d);
            (touched, rvars, changed) = fold (set_step (place chain scopes)) vs ([], rootVariables inst d, False);
            d1 = fold (\<lambda>(s, m). SetLocalVariablesTx inst s m) touched d
        in if changed then d1\<lparr>variables := AList.update inst rvars (variables d1)\<rparr> else d1)"

definition ClearLocalVariablesTx :: "uuid \<Rightarrow> uuid list \<Rightarrow> db \<Rightarrow> db" where
  "ClearLocalVariablesTx inst scopes d =
     fold (\<lambda>s d. d\<lparr>scope_variables := delete_where (\<lambda>((i, t), vs). i = inst \<and> t = s) (scope_variables d)\<rparr>) scopes d"

subsection \<open>Reading\<close>

text \<open>The value a scope itself holds, and the value seen through a chain of scopes.\<close>

definition local_at :: "uuid \<Rightarrow> db \<Rightarrow> uuid \<Rightarrow> string \<Rightarrow> json option" where
  "local_at inst d s k = Option.bind (map_of (scope_variables d) (inst, s)) (\<lambda>m. map_of m k)"

definition owner_in :: "uuid list \<Rightarrow> (uuid \<Rightarrow> string \<Rightarrow> json option) \<Rightarrow> string \<Rightarrow> uuid option" where
  "owner_in chain loc k = find (\<lambda>s. loc s k \<noteq> None) chain"

definition view_in :: "uuid list \<Rightarrow> (uuid \<Rightarrow> string \<Rightarrow> json option) \<Rightarrow> (string \<Rightarrow> json option) \<Rightarrow> string \<Rightarrow> json option" where
  "view_in chain loc rv k = (case owner_in chain loc k of Some s \<Rightarrow> loc s k | None \<Rightarrow> rv k)"

text \<open>Every stored map of variables has distinct names, as a Go map or a JSON object has.\<close>

definition vars_wf :: "db \<Rightarrow> bool" where
  "vars_wf d \<longleftrightarrow> maps_wf (scope_variables d) \<and> maps_wf (variables d)"

lemma map_of_localScopes: "map_of (localScopes inst d) s = map_of (scope_variables d) (inst, s)"
proof -
  have "map_of (map (\<lambda>((i, s), vs). (s, vs)) (filter (\<lambda>((i, s), vs). i = inst) xs)) s = map_of xs (inst, s)" for xs :: "((uuid \<times> uuid) \<times> vars) list"
    by (induction xs) auto
  then show ?thesis by (simp add: localScopes_def)
qed

lemma local_at_Nil: "localScopes inst d = [] \<Longrightarrow> local_at inst d s k = None"
  using map_of_localScopes [of inst d s] by (simp add: local_at_def)

lemma place_owner: "place chain (localScopes inst d) k = owner_in chain (local_at inst d) k"
proof -
  have "(case map_of (localScopes inst d) s of None \<Rightarrow> False | Some l \<Rightarrow> map_of l k \<noteq> None) \<longleftrightarrow>
      local_at inst d s k \<noteq> None" for s
    by (auto simp: map_of_localScopes local_at_def split: option.splits)
  then show ?thesis by (simp add: place_def owner_in_def)
qed

lemma fold_merge_view:
  assumes "\<And>s l. map_of scopes s = Some l \<Longrightarrow> distinct (map fst l)"
  shows "map_of (fold (\<lambda>s vs. merge_vars vs (case map_of scopes s of Some l \<Rightarrow> l | None \<Rightarrow> [])) (rev chain) rv) k =
    view_in chain (\<lambda>s k. Option.bind (map_of scopes s) (\<lambda>m. map_of m k)) (map_of rv) k"
proof (induction chain)
  case Nil
  then show ?case by (simp add: view_in_def owner_in_def)
next
  case (Cons s chain)
  let ?inner = "fold (\<lambda>s vs. merge_vars vs (case map_of scopes s of Some l \<Rightarrow> l | None \<Rightarrow> [])) (rev chain) rv"
  have "map_of (merge_vars ?inner (case map_of scopes s of Some l \<Rightarrow> l | None \<Rightarrow> [])) k =
      (case Option.bind (map_of scopes s) (\<lambda>m. map_of m k) of Some v \<Rightarrow> Some v | None \<Rightarrow> map_of ?inner k)"
    using assms [of s] by (auto simp: map_of_merge_vars_distinct map_add_def split: option.splits)
  then show ?case using Cons by (auto simp: view_in_def owner_in_def split: option.splits)
qed

lemma VariablesForExecution_view:
  assumes "vars_wf d"
  shows "map_of (VariablesForExecution inst eid d) k =
    view_in (scopeChain inst eid d) (local_at inst d) (map_of (rootVariables inst d)) k"
proof (cases "localScopes inst d = []")
  case True
  have "owner_in chain (local_at inst d) k = None" for chain
    by (simp add: owner_in_def local_at_Nil [OF True] find_None_iff)
  then show ?thesis using True by (simp add: VariablesForExecution_def view_in_def)
next
  case False
  have "distinct (map fst l)" if "map_of (localScopes inst d) s = Some l" for s l
    using that assms by (auto simp: map_of_localScopes vars_wf_def dest: maps_wf_lookup)
  from fold_merge_view [of "localScopes inst d", OF this] show ?thesis using False
    by (simp add: VariablesForExecution_def Let_def map_of_localScopes local_at_def [abs_def])
qed

subsection \<open>Writing\<close>

definition touched_at :: "(uuid \<times> vars) list \<Rightarrow> uuid \<Rightarrow> string \<Rightarrow> json option" where
  "touched_at t s k = Option.bind (map_of t s) (\<lambda>m. map_of m k)"

definition touched_wf :: "(uuid \<times> vars) list \<Rightarrow> bool" where
  "touched_wf t \<longleftrightarrow> distinct (map fst t) \<and> maps_wf t"

lemma touched_wf_update:
  "touched_wf t \<Longrightarrow> distinct (map fst m) \<Longrightarrow> touched_wf (AList.update s m t)"
  by (simp add: touched_wf_def distinct_update maps_wf_update)

lemma touched_at_update:
  "touched_at (AList.update s m t) s' k = (if s' = s then map_of m k else touched_at t s' k)"
  by (simp add: touched_at_def update_conv')

text \<open>What the loop has gathered: each variable with a scope went there, the others to the instance.\<close>

lemma set_loop_spec:
  assumes "distinct (map fst vs)" and "touched_wf t" and "distinct (map fst rv)"
    and "fold (set_step pl) vs (t, rv, c) = (t', rv', c')"
  shows "touched_wf t' \<and> distinct (map fst rv') \<and>
    (\<forall>s k. touched_at t' s k = (if pl k = Some s \<and> map_of vs k \<noteq> None then map_of vs k else touched_at t s k)) \<and>
    (\<forall>k. map_of rv' k = (if pl k = None \<and> map_of vs k \<noteq> None then map_of vs k else map_of rv k)) \<and>
    (c' \<longleftrightarrow> c \<or> (\<exists>k \<in> fst ` set vs. pl k = None)) \<and>
    fst ` set t' \<subseteq> fst ` set t \<union> {s. \<exists>k. pl k = Some s}"
  using assms
proof (induction vs arbitrary: t rv c)
  case Nil
  then show ?case by simp
next
  case (Cons nv vs)
  obtain n v where nv: "nv = (n, v)" by (cases nv)
  have n: "n \<notin> fst ` set vs" "map_of vs n = None" "distinct (map fst vs)"
    using Cons.prems(1) nv by (auto simp: map_of_eq_None_iff)
  show ?case
  proof (cases "pl n")
    case None
    have st: "fold (set_step pl) vs (t, AList.update n v rv, True) = (t', rv', c')"
      using Cons.prems(4) nv None by simp
    from Cons.IH [OF n(3) Cons.prems(2) _ st] Cons.prems(3) show ?thesis
      using None n nv by (auto simp: distinct_update update_conv')
  next
    case (Some s)
    define m where "m = AList.update n v (case map_of t s of Some m \<Rightarrow> m | None \<Rightarrow> [])"
    have dm: "distinct (map fst m)"
      using Cons.prems(2) unfolding m_def touched_wf_def
      by (auto simp: distinct_update dest: maps_wf_lookup split: option.splits)
    have mk: "map_of m k = (if k = n then Some v else touched_at t s k)" for k
      by (auto simp: m_def touched_at_def update_conv' split: option.splits)
    have st: "fold (set_step pl) vs (AList.update s m t, rv, c) = (t', rv', c')"
      using Cons.prems(4) nv Some by (simp add: m_def)
    have keys: "fst ` set (AList.update s m t) = insert s (fst ` set t)" by (simp add: dom_update)
    from Cons.IH [OF n(3) touched_wf_update [OF Cons.prems(2) dm] Cons.prems(3) st] show ?thesis
      using Some n nv unfolding touched_at_update mk keys by auto
  qed
qed

lemma local_at_SetLocal:
  assumes "distinct (map fst vs)"
  shows "local_at inst (SetLocalVariablesTx inst s vs d) t k =
    (if t = s then (case map_of vs k of Some v \<Rightarrow> Some v | None \<Rightarrow> local_at inst d s k) else local_at inst d t k)"
  using assms
  by (auto simp: local_at_def SetLocalVariablesTx_def update_conv' map_of_merge_vars_distinct map_add_def
      split: option.splits)

lemma SetLocal_frame [simp]:
  "executions (SetLocalVariablesTx inst s vs d) = executions d" "variables (SetLocalVariablesTx inst s vs d) = variables d"
  by (simp_all add: SetLocalVariablesTx_def)

lemma vars_wf_update_scope:
  "vars_wf d \<Longrightarrow> distinct (map fst m) \<Longrightarrow> vars_wf (d\<lparr>scope_variables := AList.update k m (scope_variables d)\<rparr>)"
  by (simp add: vars_wf_def maps_wf_update)

lemma vars_wf_update_variables:
  "vars_wf d \<Longrightarrow> distinct (map fst m) \<Longrightarrow> vars_wf (d\<lparr>variables := AList.update k m (variables d)\<rparr>)"
  by (simp add: vars_wf_def maps_wf_update)

lemma vars_wf_scope:
  "vars_wf d \<Longrightarrow> map_of (scope_variables d) k = Some m \<Longrightarrow> distinct (map fst m)"
  unfolding vars_wf_def by (blast dest: maps_wf_lookup)

lemma vars_wf_SetLocal:
  assumes "vars_wf d" and "distinct (map fst vs)"
  shows "vars_wf (SetLocalVariablesTx inst s vs d)"
proof -
  have "distinct (map fst (case map_of (scope_variables d) (inst, s) of Some old \<Rightarrow> merge_vars old vs | None \<Rightarrow> vs))"
    using assms vars_wf_scope [OF assms(1)] by (auto split: option.splits)
  then show ?thesis using vars_wf_update_scope [OF assms(1)] assms(1) by (simp add: SetLocalVariablesTx_def)
qed

text \<open>Writing what was gathered, scope by scope.\<close>

lemma local_at_fold_SetLocal:
  assumes "touched_wf t"
  shows "local_at inst (fold (\<lambda>(s, m). SetLocalVariablesTx inst s m) t d) s k =
    (case touched_at t s k of Some v \<Rightarrow> Some v | None \<Rightarrow> local_at inst d s k)"
  using assms
proof (induction t arbitrary: d)
  case Nil
  then show ?case by (simp add: touched_at_def)
next
  case (Cons sm t)
  obtain s' m where sm: "sm = (s', m)" by (cases sm)
  have t: "touched_wf t" and m: "distinct (map fst m)" and fresh: "map_of t s' = None"
    using Cons.prems sm by (simp_all add: touched_wf_def map_of_eq_None_iff)
  show ?case
    using Cons.IH [OF t, of "SetLocalVariablesTx inst s' m d"] sm fresh
    by (auto simp: local_at_SetLocal [OF m] touched_at_def split: option.splits)
qed

lemma fold_SetLocal_frame:
  "executions (fold (\<lambda>(s, m). SetLocalVariablesTx inst s m) t d) = executions d"
  "variables (fold (\<lambda>(s, m). SetLocalVariablesTx inst s m) t d) = variables d"
  by (induction t arbitrary: d) (auto split: prod.splits)

lemma vars_wf_fold_SetLocal:
  "touched_wf t \<Longrightarrow> vars_wf d \<Longrightarrow> vars_wf (fold (\<lambda>(s, m). SetLocalVariablesTx inst s m) t d)"
proof (induction t arbitrary: d)
  case Nil
  then show ?case by simp
next
  case (Cons sm t)
  then show ?case by (cases sm) (simp add: touched_wf_def vars_wf_SetLocal)
qed

lemma scopeChain_executions: "executions d' = executions d \<Longrightarrow> scopeChain inst eid d' = scopeChain inst eid d"
  by (simp add: scopeChain_def parent_links_def)

definition owner_of :: "uuid \<Rightarrow> uuid \<Rightarrow> db \<Rightarrow> string \<Rightarrow> uuid option" where
  "owner_of inst eid d k = owner_in (scopeChain inst eid d) (local_at inst d) k"

lemma distinct_rootVariables: "vars_wf d \<Longrightarrow> distinct (map fst (rootVariables inst d))"
  unfolding vars_wf_def rootVariables_def by (auto split: option.splits dest: maps_wf_lookup)

lemma SetVariablesTx_effect:
  assumes wf: "vars_wf d" and dist: "distinct (map fst vs)" and d': "d' = SetVariablesTx inst eid vs d"
  shows "executions d' = executions d" and "vars_wf d'"
    and "local_at inst d' s k =
      (if owner_of inst eid d k = Some s \<and> map_of vs k \<noteq> None then map_of vs k else local_at inst d s k)"
    and "map_of (rootVariables inst d') k =
      (if owner_of inst eid d k = None \<and> map_of vs k \<noteq> None then map_of vs k else map_of (rootVariables inst d) k)"
proof -
  define chain where "chain = (if localScopes inst d = [] then [] else scopeChain inst eid d)"
  define pl where "pl = place chain (localScopes inst d)"
  have pl: "pl k = owner_of inst eid d k" for k
    unfolding pl_def place_owner chain_def owner_of_def
    by (auto simp: owner_in_def local_at_Nil find_None_iff)
  obtain t rv c where loop: "fold (set_step pl) vs ([], rootVariables inst d, False) = (t, rv, c)"
    by (rule prod_cases3)
  have "touched_wf []" by (simp add: touched_wf_def)
  note spec = set_loop_spec [OF dist this distinct_rootVariables [OF wf] loop]
  define d1 where "d1 = fold (\<lambda>(s, m). SetLocalVariablesTx inst s m) t d"
  have tw: "touched_wf t" and rvd: "distinct (map fst rv)"
    and ta: "\<And>s k. touched_at t s k = (if pl k = Some s \<and> map_of vs k \<noteq> None then map_of vs k else None)"
    and rk: "\<And>k. map_of rv k = (if pl k = None \<and> map_of vs k \<noteq> None then map_of vs k else map_of (rootVariables inst d) k)"
    and ch: "c \<longleftrightarrow> (\<exists>k \<in> fst ` set vs. pl k = None)"
    using spec by (auto simp: touched_at_def)
  have fr: "executions d1 = executions d" "variables d1 = variables d" by (simp_all add: d1_def fold_SetLocal_frame)
  have wf1: "vars_wf d1" unfolding d1_def using tw wf by (rule vars_wf_fold_SetLocal)
  have eq: "d' = (if vs = [] then d else if c then d1\<lparr>variables := AList.update inst rv (variables d1)\<rparr> else d1)"
    using loop unfolding d' SetVariablesTx_def chain_def [symmetric] Let_def pl_def by (simp add: d1_def)
  have loc: "local_at inst d1 s k = (if pl k = Some s \<and> map_of vs k \<noteq> None then map_of vs k else local_at inst d s k)"
    unfolding d1_def local_at_fold_SetLocal [OF tw] ta by auto
  have upd: "local_at inst (d1\<lparr>variables := x\<rparr>) s k = local_at inst d1 s k" for x by (simp add: local_at_def)
  show "executions d' = executions d" using fr by (simp add: eq)
  show "vars_wf d'" using wf wf1 vars_wf_update_variables [OF wf1 rvd] by (simp add: eq)
  show "local_at inst d' s k =
      (if owner_of inst eid d k = Some s \<and> map_of vs k \<noteq> None then map_of vs k else local_at inst d s k)"
    by (auto simp: eq loc upd pl)
  have "pl k \<noteq> None" if "\<not> c" "map_of vs k \<noteq> None"
  proof -
    have k: "k \<in> fst ` set vs" using that(2) by (simp add: map_of_eq_None_iff)
    have "\<forall>k \<in> fst ` set vs. pl k \<noteq> None" using that(1) ch by simp
    from bspec [OF this k] show ?thesis .
  qed
  then show "map_of (rootVariables inst d') k =
      (if owner_of inst eid d k = None \<and> map_of vs k \<noteq> None then map_of vs k else map_of (rootVariables inst d) k)"
    using rk [of k] fr(2) by (auto simp: eq rootVariables_def update_conv' pl)
qed

subsection \<open>The interface of scoped variables\<close>

text \<open>What a client of the scopes relies on. \<open>owner x d k\<close> is the scope that owns the name \<open>k\<close> as seen from
  \<open>x\<close> (\<open>None\<close> the instance scope).\<close>

locale scoped_store =
  fixes ok :: "'d \<Rightarrow> bool"
    and get :: "'x \<Rightarrow> 'd \<Rightarrow> string \<Rightarrow> json option"
    and put :: "'x \<Rightarrow> vars \<Rightarrow> 'd \<Rightarrow> 'd"
    and owner :: "'x \<Rightarrow> 'd \<Rightarrow> string \<Rightarrow> uuid option"
  assumes ok_put: "ok d \<Longrightarrow> distinct (map fst vs) \<Longrightarrow> ok (put y vs d)"
    and owner_put: "ok d \<Longrightarrow> distinct (map fst vs) \<Longrightarrow> owner x (put y vs d) k = owner x d k"
    and get_put: "ok d \<Longrightarrow> distinct (map fst vs) \<Longrightarrow> get x (put y vs d) k =
      (case map_of vs k of Some v \<Rightarrow> if owner x d k = owner y d k then Some v else get x d k | None \<Rightarrow> get x d k)"
begin

lemma read_own_write: "ok d \<Longrightarrow> distinct (map fst vs) \<Longrightarrow> map_of vs k = Some v \<Longrightarrow> get x (put x vs d) k = Some v"
  by (simp add: get_put)

lemma unrelated_unchanged:
  "ok d \<Longrightarrow> distinct (map fst vs) \<Longrightarrow> owner x d k \<noteq> owner y d k \<Longrightarrow> get x (put y vs d) k = get x d k"
  by (simp add: get_put split: option.splits)

lemma last_write_wins:
  assumes "ok d" and "distinct (map fst vs)" and "distinct (map fst ws)" and "map_of ws k = Some w"
  shows "get x (put y ws (put y vs d)) k = get x (put y ws d) k"
  using assms ok_put [OF assms(1,2)] by (simp add: get_put owner_put split: option.splits)

text \<open>Two writers of variables owned by different scopes do not see each other's order.\<close>

lemma independent_writes:
  assumes "ok d" and "distinct (map fst vs)" and "distinct (map fst ws)"
    and "\<And>k. map_of vs k \<noteq> None \<Longrightarrow> map_of ws k \<noteq> None \<Longrightarrow> owner y d k \<noteq> owner z d k"
  shows "get x (put y vs (put z ws d)) k = get x (put z ws (put y vs d)) k"
proof (cases "map_of vs k = None \<or> map_of ws k = None")
  case True
  then show ?thesis using assms(1-3) ok_put [OF assms(1,3)] ok_put [OF assms(1,2)]
    by (auto simp: get_put owner_put split: option.splits)
next
  case False
  with assms(4) [of k] have "owner y d k \<noteq> owner z d k" by simp
  then show ?thesis using assms(1-3) ok_put [OF assms(1,3)] ok_put [OF assms(1,2)]
    by (simp add: get_put owner_put split: option.splits)
qed

end

lemma owner_of_SetVariables:
  assumes "vars_wf d" and "distinct (map fst vs)"
  shows "owner_of inst x (SetVariablesTx inst y vs d) k = owner_of inst x d k"
proof -
  note eff = SetVariablesTx_effect [OF assms refl, of inst y]
  have "local_at inst (SetVariablesTx inst y vs d) s k \<noteq> None \<longleftrightarrow> local_at inst d s k \<noteq> None" for s
  proof -
    have "local_at inst d s k \<noteq> None" if "owner_of inst y d k = Some s"
      using that unfolding owner_of_def owner_in_def by (auto simp: find_Some_iff)
    then show ?thesis unfolding eff(3) by auto
  qed
  then show ?thesis by (simp add: owner_of_def owner_in_def scopeChain_executions [OF eff(1)])
qed

lemma VariablesForExecution_SetVariables:
  assumes "vars_wf d" and "distinct (map fst vs)"
  shows "map_of (VariablesForExecution inst x (SetVariablesTx inst y vs d)) k =
    (case map_of vs k of
       Some v \<Rightarrow> if owner_of inst x d k = owner_of inst y d k then Some v
                  else map_of (VariablesForExecution inst x d) k
     | None \<Rightarrow> map_of (VariablesForExecution inst x d) k)"
proof -
  let ?d' = "SetVariablesTx inst y vs d"
  note eff = SetVariablesTx_effect [OF assms refl, of inst y]
  have "owner_in (scopeChain inst x ?d') (local_at inst ?d') k = owner_of inst x d k"
    using owner_of_SetVariables [OF assms, of inst x y k] by (simp add: owner_of_def)
  moreover have "owner_in (scopeChain inst x d) (local_at inst d) k = owner_of inst x d k"
    by (simp add: owner_of_def)
  ultimately show ?thesis
    unfolding VariablesForExecution_view [OF eff(2)] VariablesForExecution_view [OF assms(1)] view_in_def eff(3,4)
    by (auto split: option.splits)
qed

interpretation scope_vars: scoped_store vars_wf "\<lambda>x d. map_of (VariablesForExecution inst x d)"
  "SetVariablesTx inst" "owner_of inst" for inst
proof
  fix d :: db and vs :: vars and y
  assume "vars_wf d" and "distinct (map fst vs)"
  then show "vars_wf (SetVariablesTx inst y vs d)" by (rule SetVariablesTx_effect(2) [OF _ _ refl])
qed (rule owner_of_SetVariables VariablesForExecution_SetVariables; assumption)+

subsection \<open>Properties\<close>

text \<open>Reading: an execution sees, for each name, the value of the innermost of its enclosing scopes that has
  the name, and the instance's value when none has it.\<close>

theorem VariablesForExecution_innermost:
  assumes "vars_wf d"
  shows "map_of (VariablesForExecution inst eid d) k =
    (case find (\<lambda>s. map_of (LocalVariables inst s d) k \<noteq> None) (scopeChain inst eid d) of
       Some s \<Rightarrow> map_of (LocalVariables inst s d) k
     | None \<Rightarrow> map_of (rootVariables inst d) k)"
proof -
  have "map_of (LocalVariables inst s d) k = local_at inst d s k" for s
    by (auto simp: LocalVariables_def local_at_def split: option.splits)
  then show ?thesis unfolding VariablesForExecution_view [OF assms]
    by (simp add: view_in_def owner_in_def cong: option.case_cong)
qed

text \<open>The instance scope has \<open>x\<close> and \<open>y\<close>; the sub-process \<open>s\<close> has its own \<open>x\<close>.\<close>

definition example_scopes :: db where
  "example_scopes = example_tree\<lparr>variables := [(''I'', [(''x'', JNum 1), (''y'', JNum 2)])],
     scope_variables := [((''I'', ''s''), [(''x'', JStr ''local'')])]\<rparr>"

lemma example_scopes_wf: "vars_wf example_scopes"
  by (simp add: vars_wf_def example_scopes_def)

theorem VariablesForExecution_innermost_witness:
  "map_of (VariablesForExecution ''I'' ''a'' example_scopes) ''x'' = Some (JStr ''local'') \<and>
   map_of (VariablesForExecution ''I'' ''t'' example_scopes) ''x'' = Some (JNum 1)"
proof -
  have "find (\<lambda>s. map_of (LocalVariables ''I'' s example_scopes) ''x'' \<noteq> None) (scopeChain ''I'' ''a'' example_scopes) = Some ''s''"
    "find (\<lambda>s. map_of (LocalVariables ''I'' s example_scopes) ''x'' \<noteq> None) (scopeChain ''I'' ''t'' example_scopes) = None"
    "map_of (LocalVariables ''I'' ''s'' example_scopes) ''x'' = Some (JStr ''local'')"
    "map_of (rootVariables ''I'' example_scopes) ''x'' = Some (JNum 1)"
    by code_simp+
  then show ?thesis using VariablesForExecution_innermost [OF example_scopes_wf] by simp
qed

text \<open>C29: Writing: a variable set from one execution is seen with its new value by exactly the executions for
  which the same scope owns the name, the writer among them; everything else reads as before, and the scope
  that owns each name stays the same.\<close>

theorem SetVariablesTx_owner:
  assumes "vars_wf d" and "distinct (map fst vs)"
  shows "map_of (VariablesForExecution inst x (SetVariablesTx inst y vs d)) k =
      (if map_of vs k \<noteq> None \<and> owner_of inst x d k = owner_of inst y d k then map_of vs k
       else map_of (VariablesForExecution inst x d) k) \<and>
    owner_of inst x (SetVariablesTx inst y vs d) k = owner_of inst x d k \<and>
    vars_wf (SetVariablesTx inst y vs d)"
  using scope_vars.get_put [OF assms, of inst x y k] scope_vars.owner_put [OF assms, of inst x y k]
    scope_vars.ok_put [OF assms, of inst y]
  by (auto split: option.splits)

theorem SetVariablesTx_owner_witness:
  "map_of (VariablesForExecution ''I'' ''a'' (SetVariablesTx ''I'' ''b'' [(''x'', JNum 7), (''z'', JNum 8)] example_scopes)) ''x'' = Some (JNum 7) \<and>
   map_of (VariablesForExecution ''I'' ''t'' (SetVariablesTx ''I'' ''b'' [(''x'', JNum 7), (''z'', JNum 8)] example_scopes)) ''x'' = Some (JNum 1)"
proof -
  let ?vs = "[(''x'', JNum 7), (''z'', JNum 8)]"
  have o: "owner_of ''I'' ''a'' example_scopes ''x'' = owner_of ''I'' ''b'' example_scopes ''x''"
    "owner_of ''I'' ''t'' example_scopes ''x'' \<noteq> owner_of ''I'' ''b'' example_scopes ''x''"
    "map_of (VariablesForExecution ''I'' ''t'' example_scopes) ''x'' = Some (JNum 1)" by code_simp+
  have "distinct (map fst ?vs)" by simp
  note law = SetVariablesTx_owner [OF example_scopes_wf this, of "''I''" _ "''b''" "''x''"]
  from law [of "''a''"] law [of "''t''"] o show ?thesis by simp
qed

text \<open>Two executions that set variables owned by different scopes can do so in either order: every
  execution reads the same afterwards.\<close>

theorem SetVariablesTx_commute:
  assumes "vars_wf d" and "distinct (map fst vs)" and "distinct (map fst ws)"
    and "\<forall>k. map_of vs k \<noteq> None \<longrightarrow> map_of ws k \<noteq> None \<longrightarrow> owner_of inst y d k \<noteq> owner_of inst z d k"
  shows "map_of (VariablesForExecution inst x (SetVariablesTx inst y vs (SetVariablesTx inst z ws d))) =
    map_of (VariablesForExecution inst x (SetVariablesTx inst z ws (SetVariablesTx inst y vs d)))"
  using assms(4) by (intro ext scope_vars.independent_writes assms(1-3)) blast

theorem SetVariablesTx_commute_witness:
  "map_of (VariablesForExecution ''I'' ''a'' (SetVariablesTx ''I'' ''b'' [(''x'', JNum 7)] (SetVariablesTx ''I'' ''t'' [(''x'', JNum 8)] example_scopes))) =
   map_of (VariablesForExecution ''I'' ''a'' (SetVariablesTx ''I'' ''t'' [(''x'', JNum 8)] (SetVariablesTx ''I'' ''b'' [(''x'', JNum 7)] example_scopes)))"
proof -
  have "owner_of ''I'' ''b'' example_scopes ''x'' \<noteq> owner_of ''I'' ''t'' example_scopes ''x''" by code_simp
  then show ?thesis by (intro SetVariablesTx_commute example_scopes_wf) auto
qed

lemma local_at_ClearLocal:
  "local_at inst (ClearLocalVariablesTx inst ss d) s k = (if s \<in> set ss then None else local_at inst d s k)"
proof -
  have del: "map_of (delete_where (\<lambda>((i, t), vs). i = inst \<and> t = u) xs) (inst, s) =
      (if s = u then None else map_of xs (inst, s))" for u and xs :: "((uuid \<times> uuid) \<times> vars) list"
    by (induction xs) (auto simp: delete_where_def)
  show ?thesis
    unfolding ClearLocalVariablesTx_def
    by (induction ss arbitrary: d) (auto simp: local_at_def del)
qed

lemma ClearLocal_frame:
  "executions (ClearLocalVariablesTx inst ss d) = executions d" "variables (ClearLocalVariablesTx inst ss d) = variables d"
  by (induction ss arbitrary: d) (simp_all add: ClearLocalVariablesTx_def)

lemma vars_wf_ClearLocal: "vars_wf d \<Longrightarrow> vars_wf (ClearLocalVariablesTx inst ss d)"
proof -
  have "maps_wf xs \<Longrightarrow> maps_wf (delete_where P xs)" for P and xs :: "((uuid \<times> uuid) \<times> vars) list"
    by (induction xs) (auto simp: delete_where_def)
  then show "vars_wf d \<Longrightarrow> vars_wf (ClearLocalVariablesTx inst ss d)"
    by (induction ss arbitrary: d) (simp_all add: ClearLocalVariablesTx_def vars_wf_def)
qed

text \<open>A local scope is private and temporary: variables put in one scope are seen only through chains that
  go through that scope, and once the scope is cleared everything reads as if they had never been set.\<close>

theorem local_scope_private:
  assumes "vars_wf d" and "distinct (map fst vs)" and "\<forall>k. local_at inst d s k = None"
  shows "(s \<notin> set (scopeChain inst x d) \<longrightarrow>
      map_of (VariablesForExecution inst x (SetLocalVariablesTx inst s vs d)) k = map_of (VariablesForExecution inst x d) k) \<and>
    map_of (VariablesForExecution inst x (ClearLocalVariablesTx inst [s] (SetLocalVariablesTx inst s vs d))) k =
      map_of (VariablesForExecution inst x d) k"
proof
  let ?d1 = "SetLocalVariablesTx inst s vs d"
  let ?d2 = "ClearLocalVariablesTx inst [s] ?d1"
  have wf1: "vars_wf ?d1" using assms(1,2) by (rule vars_wf_SetLocal)
  have wf2: "vars_wf ?d2" using wf1 by (rule vars_wf_ClearLocal)
  have ch: "scopeChain inst x ?d1 = scopeChain inst x d" "scopeChain inst x ?d2 = scopeChain inst x d"
    by (rule scopeChain_executions, simp add: ClearLocal_frame)+
  have rt: "rootVariables inst ?d1 = rootVariables inst d" "rootVariables inst ?d2 = rootVariables inst d"
    by (simp_all add: rootVariables_def ClearLocal_frame)
  have "local_at inst ?d2 t j = local_at inst d t j" for t j
    using assms(3) by (simp add: local_at_ClearLocal local_at_SetLocal [OF assms(2)])
  then have "local_at inst ?d2 = local_at inst d" by (intro ext)
  then show "map_of (VariablesForExecution inst x ?d2) k = map_of (VariablesForExecution inst x d) k"
    unfolding VariablesForExecution_view [OF wf2] VariablesForExecution_view [OF assms(1)] ch rt by simp
  show "s \<notin> set (scopeChain inst x d) \<longrightarrow>
      map_of (VariablesForExecution inst x ?d1) k = map_of (VariablesForExecution inst x d) k"
  proof
    assume out: "s \<notin> set (scopeChain inst x d)"
    have same: "local_at inst ?d1 t k = local_at inst d t k" if "t \<in> set (scopeChain inst x d)" for t
    proof -
      have "t \<noteq> s" using that out by auto
      then show ?thesis by (simp only: local_at_SetLocal [OF assms(2)] if_False)
    qed
    have own: "owner_in (scopeChain inst x d) (local_at inst ?d1) k = owner_in (scopeChain inst x d) (local_at inst d) k"
      unfolding owner_in_def by (rule find_cong [OF refl]) (simp only: same)
    have mem: "t \<in> set (scopeChain inst x d)" if "owner_in (scopeChain inst x d) (local_at inst d) k = Some t" for t
      using that unfolding owner_in_def find_Some_iff by (metis nth_mem)
    show "map_of (VariablesForExecution inst x ?d1) k = map_of (VariablesForExecution inst x d) k"
      unfolding VariablesForExecution_view [OF wf1] VariablesForExecution_view [OF assms(1)] ch rt view_in_def own
      by (cases "owner_in (scopeChain inst x d) (local_at inst d) k") (simp_all only: option.case mem same)
  qed
qed

theorem local_scope_private_witness:
  "map_of (VariablesForExecution ''I'' ''b'' (SetLocalVariablesTx ''I'' ''a'' [(''item'', JNum 1)] example_scopes)) ''item'' =
   map_of (VariablesForExecution ''I'' ''b'' example_scopes) ''item''"
proof -
  have "''a'' \<notin> set (scopeChain ''I'' ''b'' example_scopes)" by code_simp
  moreover have "\<forall>k. local_at ''I'' example_scopes ''a'' k = None" by (simp add: local_at_def example_scopes_def)
  ultimately show ?thesis using local_scope_private [OF example_scopes_wf, of "[(''item'', JNum 1)]"] by simp
qed

end
