(* ===== verification/Gateways.thy ===== *)
theory Gateways
  imports Scope_Variables
begin

text \<open>
  Parallel and inclusive gateways (\<open>internal/runtime/parallel_gateway_executor.go\<close>,
  \<open>executor_inclusive_gateway.go\<close>, \<open>isForkGateway\<close> of \<open>runtime.go\<close>).

  A fork creates one child execution per branch and parks the forking execution; a join counts the children
  that arrive in a \<open>gateway_state\<close> row and resumes the parent when the count reaches the number of
  children that were active when the first one arrived. Each handler is one transaction. A join reads
  the row, and when there is none inserts it: \<open>env\<close> is what other transactions commit between those two
  statements (the identity when nothing happens). \<open>new\<close> are the UUIDs the handler draws.
\<close>

subsection \<open>Forks\<close>

definition fork_child :: "Execution \<Rightarrow> uuid \<Rightarrow> nat \<Rightarrow> Flow \<Rightarrow> Execution" where
  "fork_child e new i f = \<lparr>exec_id = new, exec_instance = exec_instance e, exec_element = TargetRef f,
     exec_status = ExecActive, exec_parent = Some (exec_id e), exec_path = Some (exec_id e @ ''_'' @ nat_dec i),
     exec_is_active = True\<rparr>"

definition store_branch_variables :: "uuid \<Rightarrow> vars \<Rightarrow> db \<Rightarrow> db" where
  "store_branch_variables eid vs d = d\<lparr>execution_variables := execution_variables d @ [(eid, vs)]\<rparr>"

fun fork_loop :: "Execution \<Rightarrow> vars \<Rightarrow> (nat \<Rightarrow> uuid) \<Rightarrow> nat \<Rightarrow> Flow list \<Rightarrow> db \<Rightarrow> engine_error + db" where
  "fork_loop e vs new i [] d = Inr d"
| "fork_loop e vs new i (f # fs) d =
     result_bind (CreateExecutionTx (fork_child e (new i) i f) d)
       (\<lambda>d'. fork_loop e vs new (Suc i) fs (store_branch_variables (new i) vs d'))"

definition park :: "Execution \<Rightarrow> db \<Rightarrow> db" where
  "park e = UpdateExecutionStatusTx (exec_instance e) (exec_id e) ExecWaiting"

definition parallel_ExecuteFork :: "(nat \<Rightarrow> uuid) \<Rightarrow> uuid \<Rightarrow> Node \<Rightarrow> vars \<Rightarrow> db \<Rightarrow> engine_error + db" where
  "parallel_ExecuteFork new eid gw vs d =
     (case GetActiveExecution eid d of
        None \<Rightarrow> Inl (ExecutionNotFound eid)
      | Some e \<Rightarrow>
          if Outgoing gw = [] then Inl NoOutgoingFlows
          else result_bind (fork_loop e vs new 0 (Outgoing gw) d) (\<lambda>d'. Inr (park e d')))"

definition inclusive_ExecuteFork :: "evaluator \<Rightarrow> (nat \<Rightarrow> uuid) \<Rightarrow> uuid \<Rightarrow> Node \<Rightarrow> vars \<Rightarrow> db \<Rightarrow> engine_error + db" where
  "inclusive_ExecuteFork ev new eid gw vs d =
     (case GetActiveExecution eid d of
        None \<Rightarrow> Inl (ExecutionNotFound eid)
      | Some e \<Rightarrow>
          (case ResolveInclusiveBranches ev gw vs of
             Inl err \<Rightarrow> Inl (FlowFailed err)
           | Inr branches \<Rightarrow> result_bind (fork_loop e vs new 0 branches d) (\<lambda>d'. Inr (park e d'))))"

subsection \<open>Joins\<close>

definition find_waiting :: "uuid \<Rightarrow> string \<Rightarrow> db \<Rightarrow> GatewayState option" where
  "find_waiting inst gid d =
     find (\<lambda>g. gw_instance g = inst \<and> gw_gateway g = gid \<and> gw_status g = GatewayWaiting) (gateway_states d)"

definition getChildExecutionCount :: "uuid \<Rightarrow> db \<Rightarrow> nat" where
  "getChildExecutionCount p d = length (filter (\<lambda>e. exec_parent e = Some p \<and> exec_is_active e) (executions d))"

text \<open>The join of executions and their branch variables; a later row overrides an earlier one.\<close>

definition branch_rows :: "uuid \<Rightarrow> db \<Rightarrow> vars list" where
  "branch_rows p d = concat (map (\<lambda>e. map snd (filter (\<lambda>r. fst r = exec_id e) (execution_variables d)))
     (filter (\<lambda>e. exec_parent e = Some p \<and> \<not> exec_is_active e) (executions d)))"

definition mergeBranchVariables :: "uuid \<Rightarrow> db \<Rightarrow> vars" where
  "mergeBranchVariables p d = fold (\<lambda>vs acc. merge_vars acc vs) (branch_rows p d) []"

definition getNextNodeAfterGateway :: "Node \<Rightarrow> string" where
  "getNextNodeAfterGateway gw = (case Outgoing gw of [] \<Rightarrow> '''' | f # _ \<Rightarrow> TargetRef f)"

definition update_gateway :: "GatewayState \<Rightarrow> (GatewayState \<Rightarrow> GatewayState) \<Rightarrow> db \<Rightarrow> db" where
  "update_gateway g f d = d\<lparr>gateway_states :=
     update_where (\<lambda>x. gw_instance x = gw_instance g \<and> gw_id x = gw_id g) f (gateway_states d)\<rparr>"

text \<open>Counting an arrival in a row that is there: the row in memory and the database afterwards.\<close>

definition count_arrival :: "string list \<Rightarrow> GatewayState \<Rightarrow> db \<Rightarrow> GatewayState \<times> db" where
  "count_arrival path g d =
     (let n = Suc (ReceivedIncoming g); js = JoinedFlows g @ path
      in (g\<lparr>ReceivedIncoming := n\<rparr>, update_gateway g (\<lambda>x. x\<lparr>ReceivedIncoming := n, JoinedFlows := js\<rparr>) d))"

text \<open>The arrival of an execution at the gateway, up to the row that counts it. \<open>later\<close> is what is added to the
  joined flows when the row is there already.\<close>

definition arrive :: "(db \<Rightarrow> db) \<Rightarrow> uuid \<Rightarrow> Execution \<Rightarrow> uuid \<Rightarrow> string \<Rightarrow> (engine_error + string list) \<Rightarrow> db
    \<Rightarrow> engine_error + (GatewayState \<times> db)" where
  "arrive env new e parent gid later d =
     (case find_waiting (exec_instance e) gid d of
        Some g \<Rightarrow> result_bind later (\<lambda>path. Inr (count_arrival path g d))
      | None \<Rightarrow>
          (case exec_path e of
             None \<Rightarrow> Inl NilDereference
           | Some p \<Rightarrow>
               let g = \<lparr>gw_id = new, gw_instance = exec_instance e, gw_gateway = gid,
                         ExpectedIncoming = getChildExecutionCount parent d, ReceivedIncoming = 1,
                         JoinedFlows = [p], gw_status = GatewayWaiting\<rparr>;
                   (created, d1) = CreateGatewayStateTx g (env d)
               in if created then Inr (g, d1)
                  else (case find_waiting (exec_instance e) gid d1 of
                      None \<Rightarrow> Inl GatewayRefetchFailed
                    | Some g' \<Rightarrow> result_bind later (\<lambda>path. Inr (count_arrival path g' d1)))))"

text \<open>Resuming the parent once all have arrived.\<close>

definition finish_join :: "db \<Rightarrow> Execution \<Rightarrow> uuid \<Rightarrow> GatewayState \<Rightarrow> string \<Rightarrow> db \<Rightarrow> db" where
  "finish_join committed e parent g next d =
     (let merged = mergeBranchVariables parent d;
          d1 = (if merged = [] then d else MergeProcessVariablesTx committed (exec_instance e) merged d);
          d2 = UpdateExecutionStatusAndNodeTx (exec_instance e) parent ExecActive next d1
      in update_gateway g (\<lambda>x. x\<lparr>gw_status := GatewayCompleted\<rparr>) d2)"

definition parallel_ExecuteJoin :: "(db \<Rightarrow> db) \<Rightarrow> uuid \<Rightarrow> uuid \<Rightarrow> Node \<Rightarrow> db \<Rightarrow> engine_error + db" where
  "parallel_ExecuteJoin env new eid gw d =
     (case GetActiveExecution eid d of
        None \<Rightarrow> Inl (ExecutionNotFound eid)
      | Some e \<Rightarrow> (case exec_parent e of
            None \<Rightarrow> Inl JoinWithoutParent
          | Some parent \<Rightarrow>
              result_bind (arrive env new e parent (ID gw)
                (case exec_path e of None \<Rightarrow> Inl NilDereference | Some p \<Rightarrow> Inr [p]) d) (\<lambda>(g, d1).
                let d2 = CompleteChildExecutionTx (exec_instance e) (exec_id e) d1
                in if ReceivedIncoming g = ExpectedIncoming g
                   then Inr (finish_join (env d) e parent g (getNextNodeAfterGateway gw) d2)
                   else Inr d2)))"

definition inclusive_ExecuteJoin :: "(db \<Rightarrow> db) \<Rightarrow> uuid \<Rightarrow> uuid \<Rightarrow> Node \<Rightarrow> db \<Rightarrow> engine_error + db" where
  "inclusive_ExecuteJoin env new eid gw d =
     (case GetActiveExecution eid d of
        None \<Rightarrow> Inl (ExecutionNotFound eid)
      | Some e \<Rightarrow> (case exec_parent e of
            None \<Rightarrow> Inl JoinWithoutParent
          | Some parent \<Rightarrow>
              result_bind (arrive env new e parent (ID gw)
                (Inr (case exec_path e of None \<Rightarrow> [] | Some p \<Rightarrow> [p])) d) (\<lambda>(g, d1).
                let d2 = CompleteChildExecutionTx (exec_instance e) (exec_id e) d1
                in if ReceivedIncoming g = ExpectedIncoming g
                   then (case Outgoing gw of
                       [] \<Rightarrow> Inl NilDereference
                     | f # _ \<Rightarrow> Inr (finish_join (env d) e parent g (TargetRef f) d2))
                   else Inr d2)))"

definition ResumeParentExecution :: "uuid \<Rightarrow> uuid \<Rightarrow> string \<Rightarrow> vars \<Rightarrow> db \<Rightarrow> db" where
  "ResumeParentExecution parent inst next vs d =
     (let d1 = UpdateExecutionStatusAndNodeTx inst parent ExecActive next d
      in if vs = [] then d1 else MergeProcessVariablesTx d inst vs d1)"

text \<open>The runtime's choice between the two: a gateway with one way out is a join; one with several is a fork,
  except where a row is already waiting.\<close>

definition isForkGateway :: "Node \<Rightarrow> Execution \<Rightarrow> db \<Rightarrow> bool" where
  "isForkGateway node e d =
     (if length (Outgoing node) > 1
      then exec_parent e = None \<or> CountGatewayWaitingState (exec_parent e) (ID node) d = 0
      else False)"

subsection \<open>What a fork creates\<close>

lemma fork_loop_effect:
  assumes "\<And>k. k < length fs \<Longrightarrow> \<not> (\<exists>x \<in> set (executions d). exec_key (exec_instance e) (new (i + k)) x)"
    and "inj_on new {i..<i + length fs}"
  shows "\<exists>d'. fork_loop e vs new i fs d = Inr d' \<and>
    executions d' = executions d @ map (\<lambda>k. fork_child e (new (i + k)) (i + k) (fs ! k)) [0..<length fs] \<and>
    execution_variables d' = execution_variables d @ map (\<lambda>k. (new (i + k), vs)) [0..<length fs] \<and>
    gateway_states d' = gateway_states d \<and> variables d' = variables d"
  using assms
proof (induction fs arbitrary: i d)
  case Nil
  then show ?case by simp
next
  case (Cons f fs)
  have fresh0: "\<not> (\<exists>x \<in> set (executions d). exec_key (exec_instance e) (new i) x)"
    using Cons.prems(1) [of 0] by simp
  define d1 where "d1 = store_branch_variables (new i) vs (d\<lparr>executions := executions d @ [fork_child e (new i) i f]\<rparr>)"
  have d1: "executions d1 = executions d @ [fork_child e (new i) i f]"
    "execution_variables d1 = execution_variables d @ [(new i, vs)]"
    "gateway_states d1 = gateway_states d" "variables d1 = variables d"
    by (simp_all add: d1_def store_branch_variables_def)
  have step: "fork_loop e vs new i (f # fs) d = fork_loop e vs new (Suc i) fs d1"
    using fresh0 by (simp add: CreateExecutionTx_def fork_child_def d1_def)
  have fresh: "\<not> (\<exists>x \<in> set (executions d1). exec_key (exec_instance e) (new (Suc i + k)) x)" if "k < length fs" for k
  proof -
    have "new (Suc i + k) \<noteq> new i" using inj_onD [OF Cons.prems(2), of "Suc i + k" i] that by auto
    then show ?thesis using Cons.prems(1) [of "Suc k"] that by (auto simp: d1 exec_key_def fork_child_def)
  qed
  have inj: "inj_on new {Suc i..<Suc i + length fs}" using Cons.prems(2) by (rule inj_on_subset) auto
  have split: "map g [0..<length (f # fs)] = g 0 # map (\<lambda>k. g (Suc k)) [0..<length fs]" for g :: "nat \<Rightarrow> 'b"
    by (simp only: list.size(4) add_0_right upt_conv_Cons zero_less_Suc list.map map_Suc_upt [symmetric] map_map comp_def
        One_nat_def add_Suc_right)
  from Cons.IH [OF fresh inj] obtain d' where
    "fork_loop e vs new (Suc i) fs d1 = Inr d'"
    "executions d' = executions d1 @ map (\<lambda>k. fork_child e (new (Suc i + k)) (Suc i + k) (fs ! k)) [0..<length fs]"
    "execution_variables d' = execution_variables d1 @ map (\<lambda>k. (new (Suc i + k), vs)) [0..<length fs]"
    "gateway_states d' = gateway_states d1" "variables d' = variables d1" by blast
  then show ?case unfolding step split d1 by simp
qed

lemma GetActiveExecution_Some:
  "GetActiveExecution eid d = Some e \<Longrightarrow> e \<in> set (executions d) \<and> exec_id e = eid \<and> exec_is_active e"
  by (auto simp: GetActiveExecution_def find_Some_iff in_set_conv_nth)

lemma executions_park:
  "executions (park e d) = update_where (exec_key (exec_instance e) (exec_id e)) (\<lambda>x. x\<lparr>exec_status := ExecWaiting\<rparr>) (executions d)"
  by (simp add: park_def UpdateExecutionStatusTx_def update_executions_def)

text \<open>The common part of the two forks.\<close>

lemma fork_effect:
  assumes e: "GetActiveExecution eid d = Some e"
    and fresh: "\<And>k. k < length fs \<Longrightarrow> \<not> (\<exists>x \<in> set (executions d). exec_key (exec_instance e) (new k) x)"
    and inj: "inj_on new {0..<length fs}"
  shows "\<exists>d'. result_bind (fork_loop e vs new 0 fs d) (\<lambda>d'. Inr (park e d')) = Inr d' \<and>
    executions d' = executions (park e d) @ map (\<lambda>k. fork_child e (new k) k (fs ! k)) [0..<length fs] \<and>
    execution_variables d' = execution_variables d @ map (\<lambda>k. (new k, vs)) [0..<length fs]"
proof -
  obtain d1 where d1: "fork_loop e vs new 0 fs d = Inr d1"
    "executions d1 = executions d @ map (\<lambda>k. fork_child e (new k) k (fs ! k)) [0..<length fs]"
    "execution_variables d1 = execution_variables d @ map (\<lambda>k. (new k, vs)) [0..<length fs]"
    using fork_loop_effect [of fs d e new 0 vs] fresh inj by auto
  have "e \<in> set (executions d)" using GetActiveExecution_Some [OF e] by simp
  then have "new k \<noteq> exec_id e" if "k < length fs" for k
    using fresh [OF that] by (auto simp: exec_key_def)
  then have "update_where (exec_key (exec_instance e) (exec_id e)) g (map (\<lambda>k. fork_child e (new k) k (fs ! k)) [0..<length fs]) =
      map (\<lambda>k. fork_child e (new k) k (fs ! k)) [0..<length fs]" for g
    by (intro update_where_none) (auto simp: exec_key_def fork_child_def)
  then have "executions (park e d1) = executions (park e d) @ map (\<lambda>k. fork_child e (new k) k (fs ! k)) [0..<length fs]"
    unfolding executions_park d1(2) by (simp add: update_where_def)
  moreover have "execution_variables (park e d1) = execution_variables d1"
    by (simp add: park_def UpdateExecutionStatusTx_def update_executions_def)
  ultimately show ?thesis using d1 by simp
qed

subsection \<open>One arrival\<close>

definition gateway_rows :: "uuid \<Rightarrow> string \<Rightarrow> db \<Rightarrow> GatewayState list" where
  "gateway_rows inst gid d = filter (\<lambda>g. gw_instance g = inst \<and> gw_gateway g = gid) (gateway_states d)"

text \<open>A join under way: of \<open>n\<close> children, those no longer active have been counted, and the parent waits.\<close>

definition join_inv :: "uuid \<Rightarrow> uuid \<Rightarrow> string \<Rightarrow> nat \<Rightarrow> db \<Rightarrow> bool" where
  "join_inv inst pid gid n d \<longleftrightarrow> distinct (map exec_id (executions d)) \<and>
     (\<forall>c \<in> set (GetChildExecutions pid d). exec_instance c = inst \<and> exec_path c \<noteq> None) \<and>
     (\<forall>c \<in> set (executions d). exec_parent c = Some pid \<longrightarrow> exec_id c \<noteq> pid) \<and>
     (\<exists>p \<in> set (executions d). exec_key inst pid p \<and> exec_status p = ExecWaiting) \<and>
     length (GetChildExecutions pid d) \<le> n \<and>
     (if length (GetChildExecutions pid d) = n then gateway_rows inst gid d = []
      else \<exists>g. gateway_rows inst gid d = [g] \<and> gw_status g = GatewayWaiting \<and> ExpectedIncoming g = n \<and>
        ReceivedIncoming g = n - length (GetChildExecutions pid d))"

definition resumed :: "uuid \<Rightarrow> uuid \<Rightarrow> string \<Rightarrow> string \<Rightarrow> db \<Rightarrow> bool" where
  "resumed inst pid gid next d \<longleftrightarrow> GetChildExecutions pid d = [] \<and>
     (\<exists>p \<in> set (executions d). exec_key inst pid p \<and> exec_status p = ExecActive \<and> exec_element p = next) \<and>
     (\<exists>g. gateway_rows inst gid d = [g] \<and> gw_status g = GatewayCompleted)"

lemma filter_update_where_comm:
  "(\<And>x. Q (f x) = Q x) \<Longrightarrow> filter Q (update_where P f xs) = update_where P f (filter Q xs)"
  by (induction xs) (simp_all add: update_where_def)

lemma gateway_rows_update:
  assumes "gateway_rows inst gid d = [g]" and "\<And>x. gw_instance (f x) = gw_instance x \<and> gw_gateway (f x) = gw_gateway x"
    and "gw_instance h = inst" and "gw_id h = gw_id g"
  shows "gateway_rows inst gid (update_gateway h f d) = [f g]"
proof -
  have "g \<in> set (gateway_rows inst gid d)" using assms(1) by simp
  then have "gw_instance g = inst" by (simp add: gateway_rows_def)
  moreover have "gateway_rows inst gid (update_gateway h f d) =
      update_where (\<lambda>x. gw_instance x = gw_instance h \<and> gw_id x = gw_id h) f (gateway_rows inst gid d)"
    unfolding gateway_rows_def update_gateway_def using assms(2) by (simp add: filter_update_where_comm)
  ultimately show ?thesis using assms(1,3,4) by (simp add: update_where_def)
qed

lemma update_gateway_frame [simp]:
  "executions (update_gateway g f d) = executions d" "variables (update_gateway g f d) = variables d"
  "execution_variables (update_gateway g f d) = execution_variables d"
  by (simp_all add: update_gateway_def)

lemma find_waiting_rows:
  "find_waiting inst gid d = find (\<lambda>g. gw_status g = GatewayWaiting) (gateway_rows inst gid d)"
proof -
  have "find (\<lambda>g. gw_instance g = inst \<and> gw_gateway g = gid \<and> gw_status g = GatewayWaiting) xs =
      find (\<lambda>g. gw_status g = GatewayWaiting) (filter (\<lambda>g. gw_instance g = inst \<and> gw_gateway g = gid) xs)" for xs
    by (induction xs) auto
  then show ?thesis by (simp add: find_waiting_def gateway_rows_def)
qed

lemma getChildExecutionCount_children: "getChildExecutionCount p d = length (GetChildExecutions p d)"
  by (simp add: getChildExecutionCount_def GetChildExecutions_def)

lemma arrive_counts:
  assumes inv: "join_inv inst pid gid n d" and c: "c \<in> set (GetChildExecutions pid d)" and path: "exec_path c = Some path"
  shows "\<exists>g d1 h. arrive id new c pid gid (Inr [path]) d = Inr (g, d1) \<and>
    ReceivedIncoming g = Suc (n - length (GetChildExecutions pid d)) \<and> ExpectedIncoming g = n \<and> gw_instance g = inst \<and>
    executions d1 = executions d \<and> execution_variables d1 = execution_variables d \<and> variables d1 = variables d \<and>
    gateway_rows inst gid d1 = [h] \<and> gw_status h = GatewayWaiting \<and> ExpectedIncoming h = n \<and>
    ReceivedIncoming h = ReceivedIncoming g \<and> gw_id h = gw_id g"
proof (cases "length (GetChildExecutions pid d) = n")
  case True
  then have none: "gateway_rows inst gid d = []" using inv by (simp add: join_inv_def)
  have inst: "exec_instance c = inst" using inv c by (simp add: join_inv_def)
  have "\<not> (\<exists>x \<in> set (gateway_states d). gw_instance x = inst \<and> gw_gateway x = gid)"
    using none by (auto simp: gateway_rows_def filter_empty_conv)
  then show ?thesis using True none inst path
    by (simp add: arrive_def find_waiting_rows CreateGatewayStateTx_def Let_def getChildExecutionCount_children gateway_rows_def)
next
  case False
  then obtain g where g: "gateway_rows inst gid d = [g]" "gw_status g = GatewayWaiting" "ExpectedIncoming g = n"
    "ReceivedIncoming g = n - length (GetChildExecutions pid d)"
    using inv by (auto simp: join_inv_def)
  have inst: "exec_instance c = inst" using inv c by (simp add: join_inv_def)
  have "g \<in> set (gateway_rows inst gid d)" using g(1) by simp
  then have gi: "gw_instance g = inst" by (simp add: gateway_rows_def)
  let ?f = "\<lambda>x. x\<lparr>ReceivedIncoming := Suc (ReceivedIncoming g), JoinedFlows := JoinedFlows g @ [path]\<rparr>"
  have "arrive id new c pid gid (Inr [path]) d = Inr (g\<lparr>ReceivedIncoming := Suc (ReceivedIncoming g)\<rparr>, update_gateway g ?f d)"
    using g(1,2) inst by (simp add: arrive_def find_waiting_rows count_arrival_def Let_def)
  moreover have "gateway_rows inst gid (update_gateway g ?f d) = [?f g]"
    by (rule gateway_rows_update [OF g(1)]) (simp_all add: gi)
  ultimately show ?thesis using g gi by simp
qed

lemma children_complete:
  assumes "distinct (map exec_id (executions d))" and "c \<in> set (executions d)"
  shows "GetChildExecutions pid (CompleteChildExecutionTx (exec_instance c) (exec_id c) d) =
    filter (\<lambda>x. exec_id x \<noteq> exec_id c) (GetChildExecutions pid d)"
proof -
  have same: "exec_key (exec_instance c) (exec_id c) x \<longleftrightarrow> exec_id x = exec_id c" if "x \<in> set (executions d)" for x
    using that assms by (auto simp: exec_key_def distinct_map inj_on_def)
  have "filter (\<lambda>e. exec_parent e = Some pid \<and> exec_is_active e)
      (update_where (exec_key (exec_instance c) (exec_id c)) (finish_as ExecCompleted) xs) =
      filter (\<lambda>x. exec_id x \<noteq> exec_id c) (filter (\<lambda>e. exec_parent e = Some pid \<and> exec_is_active e) xs)"
    if "\<And>x. x \<in> set xs \<Longrightarrow> exec_key (exec_instance c) (exec_id c) x \<longleftrightarrow> exec_id x = exec_id c" for xs
    using that by (induction xs) (auto simp: update_where_def finish_as_def)
  from this [OF same] show ?thesis
    by (simp add: GetChildExecutions_def CompleteChildExecutionTx_def update_executions_def)
qed

lemma parallel_ExecuteJoin_eq:
  assumes "GetActiveExecution (exec_id c) d = Some c" and "exec_parent c = Some pid" and "exec_path c = Some path"
    and "arrive id new c pid (ID gw) (Inr [path]) d = Inr (g, d1)"
  shows "parallel_ExecuteJoin id new (exec_id c) gw d =
    (let d2 = CompleteChildExecutionTx (exec_instance c) (exec_id c) d1
     in if ReceivedIncoming g = ExpectedIncoming g
        then Inr (finish_join d c pid g (getNextNodeAfterGateway gw) d2) else Inr d2)"
  using assms by (simp add: parallel_ExecuteJoin_def Let_def)

lemma GetActiveExecution_unique:
  assumes "distinct (map exec_id (executions d))" and "c \<in> set (executions d)" and "exec_is_active c"
  shows "GetActiveExecution (exec_id c) d = Some c"
proof -
  have "find (\<lambda>e. exec_id e = exec_id c \<and> exec_is_active e) xs = Some c"
    if "distinct (map exec_id xs)" "c \<in> set xs" for xs
    using that by (induction xs) (auto simp: assms(3))
  then show ?thesis using assms by (simp add: GetActiveExecution_def)
qed

lemma finish_join_fields:
  "executions (finish_join com c pid g next d) =
     update_where (exec_key (exec_instance c) pid) (\<lambda>e. e\<lparr>exec_status := ExecActive, exec_element := next\<rparr>) (executions d)"
  "gateway_states (finish_join com c pid g next d) =
     gateway_states (update_gateway g (\<lambda>x. x\<lparr>gw_status := GatewayCompleted\<rparr>) d)"
  by (simp_all add: finish_join_def UpdateExecutionStatusAndNodeTx_def update_executions_def
      MergeProcessVariablesTx_def UpdateProcessVariablesTx_def update_gateway_def Let_def)

lemma GetChild_update:
  assumes "\<And>e. exec_parent (f e) = exec_parent e \<and> exec_is_active (f e) = exec_is_active e"
    and "executions d' = update_where P f (executions d)"
  shows "GetChildExecutions pid d' = update_where P f (GetChildExecutions pid d)"
  using assms by (simp add: GetChildExecutions_def filter_update_where_comm)

text \<open>One child arrives: it is counted and completed; the last one resumes the parent.\<close>

lemma join_step:
  assumes inv: "join_inv inst pid (ID gw) n d" and c: "c \<in> set (GetChildExecutions pid d)"
  shows "\<exists>d'. parallel_ExecuteJoin id new (exec_id c) gw d = Inr d' \<and>
    map exec_id (GetChildExecutions pid d') = filter (\<lambda>i. i \<noteq> exec_id c) (map exec_id (GetChildExecutions pid d)) \<and>
    (if length (GetChildExecutions pid d) = 1 then resumed inst pid (ID gw) (getNextNodeAfterGateway gw) d'
     else join_inv inst pid (ID gw) n d')"
proof -
  let ?cs = "GetChildExecutions pid d"
  have dist: "distinct (map exec_id (executions d))" and inst: "exec_instance c = inst" and le: "length ?cs \<le> n"
    using inv c by (simp_all add: join_inv_def)
  obtain path where path: "exec_path c = Some path" using inv c by (auto simp: join_inv_def)
  have ce: "c \<in> set (executions d)" "exec_parent c = Some pid" "exec_is_active c"
    using c by (simp_all add: GetChildExecutions_def)
  obtain g d1 h where arr: "arrive id new c pid (ID gw) (Inr [path]) d = Inr (g, d1)"
    and g: "ReceivedIncoming g = Suc (n - length ?cs)" "ExpectedIncoming g = n" "gw_instance g = inst"
    and d1: "executions d1 = executions d"
    and h: "gateway_rows inst (ID gw) d1 = [h]" "gw_status h = GatewayWaiting" "ExpectedIncoming h = n"
      "ReceivedIncoming h = ReceivedIncoming g" "gw_id h = gw_id g"
    using arrive_counts [OF inv c path] by blast
  define d2 where "d2 = CompleteChildExecutionTx inst (exec_id c) d1"
  have e2: "executions d2 = update_where (exec_key inst (exec_id c)) (finish_as ExecCompleted) (executions d)"
    by (simp add: d2_def d1 CompleteChildExecutionTx_def update_executions_def)
  have rows2: "gateway_rows inst (ID gw) d2 = [h]"
    using h(1) by (simp add: d2_def gateway_rows_def CompleteChildExecutionTx_def update_executions_def)
  have kids: "GetChildExecutions pid d2 = filter (\<lambda>x. exec_id x \<noteq> exec_id c) ?cs"
    using children_complete [of d1 c pid] dist ce(1) inst d1 by (simp add: d2_def GetChildExecutions_def)
  have cpid: "exec_id c \<noteq> pid" using inv ce by (auto simp: join_inv_def)
  have par: "\<exists>p \<in> set (executions d2). exec_key inst pid p \<and> exec_status p = ExecWaiting"
    using inv cpid unfolding join_inv_def e2 set_update_where by (auto simp: exec_key_def)
  have len: "length (GetChildExecutions pid d2) = length ?cs - 1"
  proof -
    have "distinct (map exec_id ?cs)" using dist by (simp add: GetChildExecutions_def distinct_map_filter)
    then have "distinct ?cs" "inj_on exec_id (set ?cs)" by (simp_all add: distinct_map)
    then have "filter (\<lambda>x. exec_id x \<noteq> exec_id c) ?cs = remove1 c ?cs"
      using c by (auto simp: distinct_remove1_removeAll removeAll_filter_not_eq inj_on_def intro!: filter_cong)
    then show ?thesis using kids c by (simp add: length_remove1)
  qed
  note eq = parallel_ExecuteJoin_eq [OF GetActiveExecution_unique [OF dist ce(1,3)] ce(2) path arr, unfolded inst, folded d2_def]
  have ids: "map exec_id (GetChildExecutions pid d2) = filter (\<lambda>i. i \<noteq> exec_id c) (map exec_id ?cs)"
    by (simp add: kids filter_map comp_def)
  have pos: "0 < length ?cs" using c by (cases ?cs) auto
  show ?thesis
  proof (cases "length ?cs = 1")
    case True
    define d' where "d' = finish_join d c pid g (getNextNodeAfterGateway gw) d2"
    have run: "parallel_ExecuteJoin id new (exec_id c) gw d = Inr d'"
      using eq True g le pos by (simp add: d'_def Let_def)
    have kids': "GetChildExecutions pid d' =
        update_where (exec_key inst pid) (\<lambda>e. e\<lparr>exec_status := ExecActive, exec_element := getNextNodeAfterGateway gw\<rparr>)
          (GetChildExecutions pid d2)"
      by (rule GetChild_update) (simp_all add: d'_def finish_join_fields inst)
    have "GetChildExecutions pid d2 = []" using len True by simp
    then have none: "GetChildExecutions pid d' = []" using kids' by (simp add: update_where_def)
    obtain p where p: "p \<in> set (executions d2)" "exec_key inst pid p" using par by blast
    from update_where_hit [of p "executions d2" "exec_key inst pid", OF p, of "\<lambda>e. e\<lparr>exec_status := ExecActive, exec_element := getNextNodeAfterGateway gw\<rparr>"]
    have "\<exists>p \<in> set (executions d'). exec_key inst pid p \<and> exec_status p = ExecActive \<and>
        exec_element p = getNextNodeAfterGateway gw"
      using p(2) unfolding d'_def finish_join_fields inst
      by (intro bexI) (auto simp: exec_key_def)
    moreover have "gateway_rows inst (ID gw) d' = [h\<lparr>gw_status := GatewayCompleted\<rparr>]"
      using gateway_rows_update [OF rows2, of "\<lambda>x. x\<lparr>gw_status := GatewayCompleted\<rparr>" g] g(3) h(5)
      by (simp add: d'_def gateway_rows_def finish_join_fields)
    ultimately have "resumed inst pid (ID gw) (getNextNodeAfterGateway gw) d'" using none by (simp add: resumed_def)
    then show ?thesis using run none ids \<open>GetChildExecutions pid d2 = []\<close> True by simp
  next
    case False
    have run: "parallel_ExecuteJoin id new (exec_id c) gw d = Inr d2"
      using eq False g le pos by (simp add: Let_def)
    have "distinct (map exec_id (executions d2))"
      using dist by (simp add: e2 map_update_where_frame)
    moreover have "\<forall>x \<in> set (executions d2). exec_parent x = Some pid \<longrightarrow> exec_id x \<noteq> pid"
      using inv by (simp add: e2 ball_update_where join_inv_def)
    moreover have "\<forall>x \<in> set (GetChildExecutions pid d2). exec_instance x = inst \<and> exec_path x \<noteq> None"
      using inv by (simp add: kids join_inv_def)
    moreover have "length (GetChildExecutions pid d2) \<noteq> n"
      "ReceivedIncoming h = n - length (GetChildExecutions pid d2)" "length (GetChildExecutions pid d2) \<le> n"
      using len pos le h(4) g(1) by linarith+
    ultimately have "join_inv inst pid (ID gw) n d2"
      unfolding join_inv_def using rows2 h(2,3) par by simp
    then show ?thesis using run ids False by simp
  qed
qed

subsection \<open>Properties\<close>

text \<open>The children arrive one after the other; each join draws a UUID of its own.\<close>

definition joins :: "Node \<Rightarrow> (uuid \<times> uuid) list \<Rightarrow> db \<Rightarrow> engine_error + db" where
  "joins gw = fold_result (\<lambda>(new, c). parallel_ExecuteJoin id new c gw)"

lemma join_prefix:
  assumes "join_inv inst pid (ID gw) n d" and "distinct (map snd js)"
    and "set (map snd js) \<subset> exec_id ` set (GetChildExecutions pid d)"
  shows "\<exists>d'. joins gw js d = Inr d' \<and> join_inv inst pid (ID gw) n d' \<and>
    map exec_id (GetChildExecutions pid d') = filter (\<lambda>i. i \<notin> set (map snd js)) (map exec_id (GetChildExecutions pid d))"
  using assms(2,3)
proof (induction js rule: rev_induct)
  case Nil
  then show ?case using assms(1) by (simp add: joins_def)
next
  case (snoc j js)
  obtain new i where j: "j = (new, i)" by (cases j)
  have i: "i \<notin> set (map snd js)" "i \<in> exec_id ` set (GetChildExecutions pid d)"
    using snoc.prems by (auto simp: j)
  from snoc.prems have "distinct (map snd js)" "set (map snd js) \<subset> exec_id ` set (GetChildExecutions pid d)"
    by auto
  from snoc.IH [OF this] obtain d1 where d1: "joins gw js d = Inr d1" "join_inv inst pid (ID gw) n d1"
    "map exec_id (GetChildExecutions pid d1) = filter (\<lambda>i. i \<notin> set (map snd js)) (map exec_id (GetChildExecutions pid d))"
    by blast
  have ids1: "exec_id ` set (GetChildExecutions pid d1) = exec_id ` set (GetChildExecutions pid d) - set (map snd js)"
    using arg_cong [OF d1(3), of set] by auto
  then obtain c where c: "c \<in> set (GetChildExecutions pid d1)" "exec_id c = i" using i by (metis DiffI image_iff)
  obtain x where x: "x \<in> exec_id ` set (GetChildExecutions pid d)" "x \<notin> set (map snd (js @ [j]))"
    using snoc.prems(2) by blast
  then have "x \<in> exec_id ` set (GetChildExecutions pid d1)" "x \<noteq> i" using ids1 by (auto simp: j)
  then have "length (GetChildExecutions pid d1) \<noteq> 1" using c by (auto simp: length_Suc_conv)
  with join_step [OF d1(2) c(1), of new] c(2) obtain d2 where
    "parallel_ExecuteJoin id new i gw d1 = Inr d2" "join_inv inst pid (ID gw) n d2"
    "map exec_id (GetChildExecutions pid d2) = filter (\<lambda>k. k \<noteq> i) (map exec_id (GetChildExecutions pid d1))" by auto
  moreover have "filter (\<lambda>k. k \<noteq> i) (filter (\<lambda>i. i \<notin> set (map snd js)) xs) = filter (\<lambda>k. k \<notin> set (map snd (js @ [j]))) xs" for xs
    by (induction xs) (auto simp: j)
  ultimately show ?case using d1 by (simp add: joins_def fold_result_append j)
qed

lemma proper_prefix_keys:
  assumes "distinct (map snd (pre @ j # post))"
  shows "set (map snd pre) \<subset> set (map snd (pre @ j # post))"
proof
  show "set (map snd pre) \<subseteq> set (map snd (pre @ j # post))" by auto
  have "snd j \<notin> set (map snd pre)" "snd j \<in> set (map snd (pre @ j # post))" using assms by auto
  then show "set (map snd pre) \<noteq> set (map snd (pre @ j # post))" by metis
qed

text \<open>C27: Whatever the order in which the children of a fork reach the join, no arrival fails; while some are
  missing the parent stays parked and nothing continues; the last arrival, and only it, resumes the
  parent after the gateway, with no child left and the join completed.\<close>

theorem parallel_join_any_order:
  assumes inv: "join_inv inst pid (ID gw) n d" and dist: "distinct (map snd js)" and ne: "js \<noteq> []"
    and all: "set (map snd js) = exec_id ` set (GetChildExecutions pid d)"
  shows "(\<exists>d'. joins gw js d = Inr d' \<and> resumed inst pid (ID gw) (getNextNodeAfterGateway gw) d') \<and>
    (\<forall>pre j post. js = pre @ j # post \<longrightarrow> (\<exists>d'. joins gw pre d = Inr d' \<and> join_inv inst pid (ID gw) n d'))"
proof
  show "\<forall>pre j post. js = pre @ j # post \<longrightarrow> (\<exists>d'. joins gw pre d = Inr d' \<and> join_inv inst pid (ID gw) n d')"
  proof (intro allI impI)
    fix pre j post
    assume js: "js = pre @ j # post"
    have "set (map snd pre) \<subset> exec_id ` set (GetChildExecutions pid d)"
      unfolding all [symmetric] js by (rule proper_prefix_keys) (use dist js in simp)
    with join_prefix [OF inv, of pre] dist js show "\<exists>d'. joins gw pre d = Inr d' \<and> join_inv inst pid (ID gw) n d'"
      by auto
  qed
  define pre new i where "pre = butlast js" and "new = fst (last js)" and "i = snd (last js)"
  have js: "js = pre @ [(new, i)]" using ne by (simp add: pre_def new_def i_def)
  have "set (map snd pre) \<subset> exec_id ` set (GetChildExecutions pid d)"
    unfolding all [symmetric] js by (rule proper_prefix_keys) (use dist js in simp)
  with join_prefix [OF inv, of pre] dist js obtain d1 where d1: "joins gw pre d = Inr d1" "join_inv inst pid (ID gw) n d1"
    "map exec_id (GetChildExecutions pid d1) = filter (\<lambda>i. i \<notin> set (map snd pre)) (map exec_id (GetChildExecutions pid d))"
    by fastforce
  have "exec_id ` set (GetChildExecutions pid d1) = exec_id ` set (GetChildExecutions pid d) - set (map snd pre)"
    using arg_cong [OF d1(3), of set] by auto
  then have one: "exec_id ` set (GetChildExecutions pid d1) = {i}"
    unfolding all [symmetric] unfolding js using dist [unfolded js] by auto
  then obtain c where c: "c \<in> set (GetChildExecutions pid d1)" "exec_id c = i" by blast
  have dk: "distinct (map exec_id (GetChildExecutions pid d1))"
    using d1(2) by (simp add: join_inv_def GetChildExecutions_def distinct_map_filter)
  have "length (map exec_id (GetChildExecutions pid d1)) = card {i}"
    using distinct_card [OF dk] one by simp
  then have "length (GetChildExecutions pid d1) = 1" by simp
  with join_step [OF d1(2) c(1), of new] c(2) d1(1)
  show "\<exists>d'. joins gw js d = Inr d' \<and> resumed inst pid (ID gw) (getNextNodeAfterGateway gw) d'"
    by (auto simp: js joins_def fold_result_append)
qed

definition example_join :: Node where
  "example_join = (new_node ''join'' ParallelGatewayType)\<lparr>Outgoing := [example_flow ''out'' '''']\<rparr>"

definition example_forked :: db where
  "example_forked = empty_db\<lparr>executions := [example_exec ''p'' None ''fork'' ExecWaiting,
     (example_exec ''a'' (Some ''p'') ''join'' ExecActive)\<lparr>exec_path := Some ''p_0''\<rparr>,
     (example_exec ''b'' (Some ''p'') ''join'' ExecActive)\<lparr>exec_path := Some ''p_1''\<rparr>],
   execution_variables := [(''a'', [(''x'', JNum 1)]), (''b'', [(''x'', JNum 1)])],
   variables := [(''I'', [(''x'', JNum 1)])]\<rparr>"

lemma example_forked_inv: "join_inv ''I'' ''p'' (ID example_join) 2 example_forked"
  by (simp add: join_inv_def example_forked_def example_exec_def GetChildExecutions_def gateway_rows_def exec_key_def
      empty_db_def)

theorem parallel_join_any_order_witness:
  "\<exists>d'. joins example_join [(''g1'', ''b''), (''g2'', ''a'')] example_forked = Inr d' \<and>
     resumed ''I'' ''p'' ''join'' ''out_target'' d'"
proof -
  have "set (map snd [(''g1'', ''b''), (''g2'', ''a'')]) = exec_id ` set (GetChildExecutions ''p'' example_forked)"
    by (auto simp: example_forked_def example_exec_def GetChildExecutions_def)
  from parallel_join_any_order [OF example_forked_inv _ _ this]
  show ?thesis by (simp add: example_join_def new_node_def getNextNodeAfterGateway_def example_flow_def)
qed

text \<open>A parallel fork creates exactly one active child per outgoing flow, each at its flow's target with
  the parent's variables, and parks the parent; it leaves the state from which the children can join, in any
  order, at any gateway that was not used before.\<close>

theorem parallel_fork_creates:
  assumes e: "GetActiveExecution eid d = Some e" and out: "Outgoing gw \<noteq> []"
    and dist: "distinct (map exec_id (executions d))" and inj: "inj_on new {0..<length (Outgoing gw)}"
    and fresh: "\<forall>k < length (Outgoing gw). new k \<notin> exec_id ` set (executions d)"
    and first: "\<forall>c \<in> set (executions d). exec_parent c = Some eid \<longrightarrow> \<not> exec_is_active c \<and> exec_id c \<noteq> eid"
    and unused: "gateway_rows (exec_instance e) gid d = []"
  shows "\<exists>d'. parallel_ExecuteFork new eid gw vs d = Inr d' \<and>
    GetChildExecutions eid d' = map (\<lambda>k. fork_child e (new k) k (Outgoing gw ! k)) [0..<length (Outgoing gw)] \<and>
    execution_variables d' = execution_variables d @ map (\<lambda>k. (new k, vs)) [0..<length (Outgoing gw)] \<and>
    join_inv (exec_instance e) eid gid (length (Outgoing gw)) d'"
proof -
  let ?n = "length (Outgoing gw)"
  let ?kids = "map (\<lambda>k. fork_child e (new k) k (Outgoing gw ! k)) [0..<?n]"
  note ge = GetActiveExecution_Some [OF e]
  have "\<not> (\<exists>x \<in> set (executions d). exec_key (exec_instance e) (new k) x)" if "k < ?n" for k
    using fresh that unfolding exec_key_def by (metis image_eqI)
  from fork_effect [OF e this inj, of vs] obtain d' where
    d': "parallel_ExecuteFork new eid gw vs d = Inr d'" "executions d' = executions (park e d) @ ?kids"
    "execution_variables d' = execution_variables d @ map (\<lambda>k. (new k, vs)) [0..<?n]"
    using e out unfolding parallel_ExecuteFork_def by auto
  have gs: "gateway_states d' = gateway_states d"
    using d'(1) e out fork_loop_effect [of "Outgoing gw" d e new 0 vs] fresh inj
    by (force simp: parallel_ExecuteFork_def park_def UpdateExecutionStatusTx_def update_executions_def
        result_bind_Inr_iff exec_key_def)
  have old: "map exec_id (executions (park e d)) = map exec_id (executions d)"
    unfolding executions_park by (rule map_update_where_frame) simp
  have par: "\<forall>c \<in> set (executions (park e d)). exec_parent c = Some eid \<longrightarrow> \<not> exec_is_active c \<and> exec_id c \<noteq> eid"
    using first unfolding executions_park ball_update_where by simp
  have kid: "exec_id c \<notin> exec_id ` set (executions d) \<and> exec_parent c = Some eid \<and> exec_is_active c \<and>
      exec_instance c = exec_instance e \<and> exec_path c \<noteq> None" if "c \<in> set ?kids" for c
    using that fresh ge by (auto simp: fork_child_def)
  have ne: "exec_id c \<noteq> eid" if "c \<in> set ?kids" for c
    using kid [OF that] ge by (metis image_eqI)
  have kids: "GetChildExecutions eid d' = ?kids"
  proof -
    have "filter (\<lambda>x. exec_parent x = Some eid \<and> exec_is_active x) (executions (park e d)) = []"
      using par by (auto simp: filter_empty_conv)
    moreover have "filter (\<lambda>x. exec_parent x = Some eid \<and> exec_is_active x) ?kids = ?kids"
      using kid by (intro filter_True) blast
    ultimately show ?thesis by (simp only: GetChildExecutions_def d'(2) filter_append append_Nil)
  qed
  have "distinct (map exec_id (executions d'))"
  proof -
    have "map exec_id ?kids = map new [0..<?n]" by (simp add: fork_child_def)
    moreover have "distinct (map new [0..<?n])" using inj by (simp add: distinct_map)
    moreover have "set (map new [0..<?n]) \<inter> exec_id ` set (executions d) = {}" using fresh by auto
    ultimately show ?thesis unfolding d'(2) map_append old using dist
      by (simp only: distinct_append list.set_map) blast
  qed
  moreover have "\<exists>p \<in> set (executions d'). exec_key (exec_instance e) eid p \<and> exec_status p = ExecWaiting"
  proof -
    have "exec_key (exec_instance e) (exec_id e) e" by (simp add: exec_key_def)
    from update_where_hit [of e "executions d" "exec_key (exec_instance e) (exec_id e)", OF _ this,
        of "\<lambda>x. x\<lparr>exec_status := ExecWaiting\<rparr>"] ge
    have "e\<lparr>exec_status := ExecWaiting\<rparr> \<in> set (executions d')" unfolding d'(2) executions_park by simp
    then show ?thesis using ge by (intro bexI) (simp_all add: exec_key_def)
  qed
  moreover have "\<forall>c \<in> set (executions d'). exec_parent c = Some eid \<longrightarrow> exec_id c \<noteq> eid"
    unfolding d'(2) using par ne by fastforce
  moreover have "gateway_rows (exec_instance e) gid d' = []" using unused gs by (simp add: gateway_rows_def)
  moreover have "\<forall>c \<in> set ?kids. exec_instance c = exec_instance e \<and> exec_path c \<noteq> None" using kid by blast
  ultimately have "join_inv (exec_instance e) eid gid ?n d'"
    unfolding join_inv_def kids by simp
  then show ?thesis using d' kids by blast
qed

definition example_fork :: Node where
  "example_fork = (new_node ''fork'' ParallelGatewayType)\<lparr>Outgoing := [example_flow ''l'' '''', example_flow ''r'' '''']\<rparr>"

theorem parallel_fork_creates_witness:
  "\<exists>d'. parallel_ExecuteFork (\<lambda>k. ''c'' @ nat_dec k) ''p'' example_fork [(''x'', JNum 1)]
      (empty_db\<lparr>executions := [example_exec ''p'' None ''fork'' ExecActive]\<rparr>) = Inr d' \<and>
    join_inv ''I'' ''p'' ''join'' 2 d'"
proof -
  let ?d = "empty_db\<lparr>executions := [example_exec ''p'' None ''fork'' ExecActive]\<rparr>"
  let ?new = "\<lambda>k. ''c'' @ nat_dec k"
  have e: "GetActiveExecution ''p'' ?d = Some (example_exec ''p'' None ''fork'' ExecActive)"
    by (simp add: GetActiveExecution_def example_exec_def)
  have n: "length (Outgoing example_fork) = 2" by (simp add: example_fork_def new_node_def)
  have "nat_dec 0 = ''0''" "nat_dec 1 = ''1''" by code_simp+
  then have inj: "inj_on ?new {0..<length (Outgoing example_fork)}"
    unfolding n by (auto simp: inj_on_def less_2_cases_iff)
  have i: "exec_instance (example_exec ''p'' None ''fork'' ExecActive) = ''I''" by (simp add: example_exec_def)
  have o: "Outgoing example_fork \<noteq> []" by (simp add: example_fork_def)
  have r: "gateway_rows (exec_instance (example_exec ''p'' None ''fork'' ExecActive)) ''join'' ?d = []"
    by (simp add: gateway_rows_def empty_db_def)
  show ?thesis
    using parallel_fork_creates [OF e o _ inj _ _ r, of "[(''x'', JNum 1)]", unfolded n i]
    by (simp add: example_exec_def) blast
qed

text \<open>Losing the race to create the row does not lose an arrival: when another branch commits the row
  between the look-up and the insert, the arrival is counted in that row.\<close>

theorem arrive_race_counted:
  assumes "find_waiting (exec_instance e) gid d = None" and "exec_path e = Some p"
    and "gateway_rows (exec_instance e) gid (env d) = [g]" and "gw_status g = GatewayWaiting"
  shows "\<exists>g' d1 h. arrive env new e parent gid (Inr [p]) d = Inr (g', d1) \<and>
    gateway_rows (exec_instance e) gid d1 = [h] \<and> ReceivedIncoming g' = Suc (ReceivedIncoming g) \<and>
    ReceivedIncoming h = Suc (ReceivedIncoming g) \<and> ExpectedIncoming h = ExpectedIncoming g \<and>
    JoinedFlows h = JoinedFlows g @ [p] \<and> gw_status h = GatewayWaiting"
proof -
  have "g \<in> set (gateway_rows (exec_instance e) gid (env d))" using assms(3) by simp
  then have g: "g \<in> set (gateway_states (env d))" "gw_instance g = exec_instance e" "gw_gateway g = gid"
    by (simp_all add: gateway_rows_def)
  let ?f = "\<lambda>x. x\<lparr>ReceivedIncoming := Suc (ReceivedIncoming g), JoinedFlows := JoinedFlows g @ [p]\<rparr>"
  have "\<exists>x \<in> set (gateway_states (env d)). gw_instance x = exec_instance e \<and> gw_gateway x = gid" using g by blast
  then have "arrive env new e parent gid (Inr [p]) d = Inr (g\<lparr>ReceivedIncoming := Suc (ReceivedIncoming g)\<rparr>, update_gateway g ?f (env d))"
    using assms by (simp add: arrive_def CreateGatewayStateTx_def Let_def find_waiting_rows count_arrival_def)
  moreover have "gateway_rows (exec_instance e) gid (update_gateway g ?f (env d)) = [?f g]"
    by (rule gateway_rows_update [OF assms(3)]) (simp_all add: g)
  ultimately show ?thesis using assms(4) by simp
qed

definition example_row :: "gateway_status \<Rightarrow> GatewayState" where
  "example_row s = \<lparr>gw_id = ''g'', gw_instance = ''I'', gw_gateway = ''join'', ExpectedIncoming = 2,
     ReceivedIncoming = 1, JoinedFlows = [''p_0''], gw_status = s\<rparr>"

theorem arrive_race_counted_witness:
  "\<exists>g' d1 h. arrive (\<lambda>d. d\<lparr>gateway_states := [example_row GatewayWaiting]\<rparr>) ''n''
      ((example_exec ''b'' (Some ''p'') ''join'' ExecActive)\<lparr>exec_path := Some ''p_1''\<rparr>) ''p'' ''join'' (Inr [''p_1'']) empty_db = Inr (g', d1) \<and>
    gateway_rows ''I'' ''join'' d1 = [h] \<and> ReceivedIncoming h = 2"
proof -
  let ?e = "(example_exec ''b'' (Some ''p'') ''join'' ExecActive)\<lparr>exec_path := Some ''p_1''\<rparr>"
  have "exec_instance ?e = ''I''" by (simp add: example_exec_def)
  then show ?thesis
    using arrive_race_counted [of ?e "''join''" empty_db "''p_1''" "\<lambda>d. d\<lparr>gateway_states := [example_row GatewayWaiting]\<rparr>"
        "example_row GatewayWaiting" "''n''" "''p''"]
    by (auto simp: find_waiting_def empty_db_def gateway_rows_def example_row_def)
qed

text \<open>A join that has completed once in an instance fails the next time it is reached, for instance in a
  loop: the unique row of the pair is still there, completed, so it is neither found nor inserted.\<close>

theorem join_fails_second_time:
  assumes "GetActiveExecution eid d = Some e" and "exec_parent e = Some parent" and "exec_path e = Some p"
    and "gateway_rows (exec_instance e) (ID gw) d = [g]" and "gw_status g = GatewayCompleted"
  shows "parallel_ExecuteJoin id new eid gw d = Inl GatewayRefetchFailed \<and>
    inclusive_ExecuteJoin id new eid gw d = Inl GatewayRefetchFailed"
proof -
  have "g \<in> set (gateway_rows (exec_instance e) (ID gw) d)" using assms(4) by simp
  then have "\<exists>x \<in> set (gateway_states d). gw_instance x = exec_instance e \<and> gw_gateway x = ID gw"
    by (auto simp: gateway_rows_def)
  then show ?thesis using assms
    by (simp add: parallel_ExecuteJoin_def inclusive_ExecuteJoin_def arrive_def find_waiting_rows
        CreateGatewayStateTx_def Let_def)
qed

theorem join_fails_second_time_witness:
  "parallel_ExecuteJoin id ''n'' ''a'' example_join (example_forked\<lparr>gateway_states := [example_row GatewayCompleted]\<rparr>) =
     Inl GatewayRefetchFailed"
  using join_fails_second_time [of "''a''" "example_forked\<lparr>gateway_states := [example_row GatewayCompleted]\<rparr>"
      "(example_exec ''a'' (Some ''p'') ''join'' ExecActive)\<lparr>exec_path := Some ''p_0''\<rparr>" "''p''" "''p_0''" example_join
      "example_row GatewayCompleted" "''n''"]
  by (simp add: GetActiveExecution_def example_forked_def example_exec_def gateway_rows_def example_row_def
      example_join_def new_node_def)

lemma map_of_merged_const:
  assumes "\<forall>vs \<in> set rows. vs = snap" and "rows \<noteq> []" and "distinct (map fst snap)"
  shows "map_of (fold (\<lambda>vs acc. merge_vars acc vs) rows acc) = map_of acc ++ map_of snap"
  using assms
proof (induction rows arbitrary: acc)
  case (Cons vs rows)
  then have vs: "vs = snap" by simp
  show ?case
  proof (cases "rows = []")
    case True
    then show ?thesis using Cons.prems vs by (simp add: map_of_merge_vars_distinct)
  next
    case False
    have twice: "(a ++ b) ++ b = a ++ b" for a b :: "string \<rightharpoonup> json"
      by (auto simp: map_add_def fun_eq_iff split: option.splits)
    have "\<forall>v \<in> set rows. v = snap" using Cons.prems(1) by simp
    from Cons.IH [OF this False Cons.prems(3), of "merge_vars acc vs"] show ?thesis
      by (simp add: vs map_of_merge_vars_distinct [OF Cons.prems(3)] twice)
  qed
qed simp

lemma distinct_fold_merge: "distinct (map fst acc) \<Longrightarrow> distinct (map fst (fold (\<lambda>vs acc. merge_vars acc vs) rows acc))"
  by (induction rows arbitrary: acc) auto

lemma variables_finish_join:
  assumes "mergeBranchVariables pid d \<noteq> []"
  shows "GetProcessVariables (exec_instance e) (finish_join com e pid g next d) =
    merge_vars (GetProcessVariables (exec_instance e) com) (mergeBranchVariables pid d)"
  using assms by (simp add: finish_join_def GetProcessVariables_def UpdateExecutionStatusAndNodeTx_def update_executions_def
      MergeProcessVariablesTx_def UpdateProcessVariablesTx_def update_conv' Let_def)

text \<open>A join puts the variables of the time of the fork back: each branch's snapshot is merged over the
  instance's variables, so what a branch has changed in between has its old value again.\<close>

theorem finish_join_reverts:
  assumes "branch_rows pid d \<noteq> []" and "\<forall>vs \<in> set (branch_rows pid d). vs = snap"
    and "distinct (map fst snap)" and "map_of snap x = Some old"
  shows "map_of (GetProcessVariables (exec_instance e) (finish_join com e pid g next d)) x = Some old"
proof -
  have m: "map_of (mergeBranchVariables pid d) = map_of snap"
    unfolding mergeBranchVariables_def using map_of_merged_const [OF assms(2,1,3), of "[]"] by simp
  have "mergeBranchVariables pid d \<noteq> []" using m assms(4) by auto
  moreover have "distinct (map fst (mergeBranchVariables pid d))"
    unfolding mergeBranchVariables_def by (rule distinct_fold_merge) simp
  ultimately show ?thesis
    using m assms(4) by (simp add: variables_finish_join map_of_merge_vars_distinct)
qed

theorem finish_join_reverts_witness:
  "map_of (GetProcessVariables ''I'' (finish_join (SetProcessVariableTx ''I'' ''x'' (JNum 2) example_forked)
      (example_exec ''b'' (Some ''p'') ''join'' ExecActive) ''p'' (example_row GatewayWaiting) ''out''
      (CompleteChildExecutionTx ''I'' ''a'' (SetProcessVariableTx ''I'' ''x'' (JNum 2) example_forked)))) ''x'' = Some (JNum 1)"
proof -
  let ?d = "CompleteChildExecutionTx ''I'' ''a'' (SetProcessVariableTx ''I'' ''x'' (JNum 2) example_forked)"
  let ?e = "example_exec ''b'' (Some ''p'') ''join'' ExecActive"
  have rows: "branch_rows ''p'' ?d = [[(''x'', JNum 1)]]" by code_simp
  have i: "exec_instance ?e = ''I''" by (simp add: example_exec_def)
  have "branch_rows ''p'' ?d \<noteq> []" "\<forall>vs \<in> set (branch_rows ''p'' ?d). vs = [(''x'', JNum 1)]"
    unfolding rows by simp_all
  from finish_join_reverts [OF this, of "''x''" "JNum 1" ?e, unfolded i] show ?thesis by simp
qed

text \<open>A gateway with several ways out is taken for a fork whenever the execution has a parent, even while
  its row is waiting for more arrivals: the row is looked up under the parent execution's identifier in
  place of the instance's, which no row has.\<close>

theorem isForkGateway_ignores_waiting:
  assumes "length (Outgoing node) > 1" and "exec_parent e = Some p"
    and "\<forall>g \<in> set (gateway_states d). gw_instance g \<noteq> p"
  shows "isForkGateway node e d"
  using assms by (auto simp: isForkGateway_def CountGatewayWaitingState_def filter_empty_conv)

theorem isForkGateway_ignores_waiting_witness:
  "isForkGateway (example_fork\<lparr>ID := ''join''\<rparr>) (example_exec ''b'' (Some ''p'') ''join'' ExecActive)
     (empty_db\<lparr>gateway_states := [example_row GatewayWaiting]\<rparr>) \<and>
   find_waiting ''I'' ''join'' (empty_db\<lparr>gateway_states := [example_row GatewayWaiting]\<rparr>) = Some (example_row GatewayWaiting)"
proof
  show "isForkGateway (example_fork\<lparr>ID := ''join''\<rparr>) (example_exec ''b'' (Some ''p'') ''join'' ExecActive)
     (empty_db\<lparr>gateway_states := [example_row GatewayWaiting]\<rparr>)"
    by (rule isForkGateway_ignores_waiting [of _ _ "''p''"])
      (simp_all add: example_fork_def new_node_def example_exec_def example_row_def)
  show "find_waiting ''I'' ''join'' (empty_db\<lparr>gateway_states := [example_row GatewayWaiting]\<rparr>) = Some (example_row GatewayWaiting)"
    by (simp add: find_waiting_def example_row_def)
qed

end
