(* ===== verification/Go_Time.thy ===== *)
theory Go_Time
  imports Prelude
begin

text \<open>
  What the engine uses of Go's 64-bit integers and of package \<open>time\<close>: instants, the proleptic Gregorian
  calendar, \<open>time.Date\<close> with its normalisation of months and days, \<open>Add\<close>, \<open>Sub\<close>,
  \<open>AddDate\<close> and the components of a time. A time is an instant in nanoseconds since the start of
  year 1 (UTC) with the offset of its location; locations are fixed offsets.

  The calendar is counted in days from 1 January of year 1. The main facts are the round trip between a
  date and its day number, and that normalising a date keeps it when it is one.
\<close>

subsection \<open>64-bit integers\<close>

definition wrap64 :: "int \<Rightarrow> int" where
  "wrap64 n = (n + 2 ^ 63) mod 2 ^ 64 - 2 ^ 63"

definition MinInt64 :: int where "MinInt64 = - (2 ^ 63)"
definition MaxInt64 :: int where "MaxInt64 = 2 ^ 63 - 1"

definition is_int64 :: "int \<Rightarrow> bool" where
  "is_int64 n \<longleftrightarrow> MinInt64 \<le> n \<and> n \<le> MaxInt64"

lemma wrap64_id [simp]: "is_int64 n \<Longrightarrow> wrap64 n = n"
  by (simp add: wrap64_def is_int64_def MinInt64_def MaxInt64_def)

lemma is_int64_wrap64 [simp]: "is_int64 (wrap64 n)"
proof -
  have "0 \<le> (n + 2 ^ 63) mod 2 ^ 64" "(n + 2 ^ 63) mod 2 ^ 64 < 2 ^ 64" for n :: int by simp_all
  from this [of n] show ?thesis unfolding wrap64_def is_int64_def MinInt64_def MaxInt64_def by simp
qed

lemma wrap64_add [simp]: "wrap64 (wrap64 a + b) = wrap64 (a + b)"
proof -
  have "wrap64 a + b + 2 ^ 63 = (a + 2 ^ 63) mod 2 ^ 64 + b" by (simp add: wrap64_def)
  then have "(wrap64 a + b + 2 ^ 63) mod 2 ^ 64 = (a + 2 ^ 63 + b) mod 2 ^ 64" by (simp only: mod_add_left_eq)
  also have "a + 2 ^ 63 + b = a + b + 2 ^ 63" by simp
  finally show ?thesis by (simp only: wrap64_def [of "wrap64 a + b"] wrap64_def [of "a + b"])
qed

subsection \<open>The calendar\<close>

definition leap_year :: "int \<Rightarrow> bool" where
  "leap_year y \<longleftrightarrow> y mod 4 = 0 \<and> (y mod 100 \<noteq> 0 \<or> y mod 400 = 0)"

definition days_in_month :: "int \<Rightarrow> int \<Rightarrow> int" where
  "days_in_month y m = (if m = 2 then if leap_year y then 29 else 28
     else if m \<in> {4, 6, 9, 11} then 30 else 31)"

text \<open>Days from the start of year 1 to the start of a year, and from the start of a year to the start of
  a month.\<close>

definition year_start :: "int \<Rightarrow> int" where
  "year_start y = 365 * (y - 1) + (y - 1) div 4 - (y - 1) div 100 + (y - 1) div 400"

fun month_start :: "int \<Rightarrow> nat \<Rightarrow> int" where
  "month_start y 0 = 0"
| "month_start y (Suc n) = month_start y n + days_in_month y (int n + 1)"

definition day_number :: "int \<Rightarrow> int \<Rightarrow> int \<Rightarrow> int" where
  "day_number y m d = year_start y + month_start y (nat (m - 1)) + d - 1"

text \<open>The year of a day, by cycles of 400, 100, 4 and 1 years; a last 100 or 1 of a cycle is one day
  longer.\<close>

definition year_of_day :: "int \<Rightarrow> int" where
  "year_of_day n =
     (let a = n div 146097; n1 = n mod 146097;
          b = min 3 (n1 div 36524); n2 = n1 - 36524 * b;
          c = n2 div 1461; n3 = n2 mod 1461;
          e = min 3 (n3 div 365)
      in 400 * a + 100 * b + 4 * c + e + 1)"

definition month_of_yday :: "int \<Rightarrow> int \<Rightarrow> nat" where
  "month_of_yday y r = length (takeWhile (\<lambda>k. month_start y k \<le> r) [1..<12]) + 1"

definition date_of_day :: "int \<Rightarrow> int \<times> int \<times> int" where
  "date_of_day n = (let y = year_of_day n; r = n - year_start y; m = month_of_yday y r
                    in (y, int m, r - month_start y (m - 1) + 1))"

definition valid_date :: "int \<Rightarrow> int \<Rightarrow> int \<Rightarrow> bool" where
  "valid_date y m d \<longleftrightarrow> 1 \<le> m \<and> m \<le> 12 \<and> 1 \<le> d \<and> d \<le> days_in_month y m"

lemma year_start_cycles:
  assumes "0 \<le> b" "b \<le> 3" "0 \<le> c" "c \<le> 24" "0 \<le> e" "e \<le> 3"
  shows "year_start (400 * a + 100 * b + 4 * c + e + 1) = 146097 * a + 36524 * b + 1461 * c + 365 * e"
proof -
  let ?x = "400 * a + 100 * b + 4 * c + e"
  have "?x div 4 = 100 * a + 25 * b + c" using assms by linarith
  moreover have "?x div 100 = 4 * a + b" using assms by linarith
  moreover have "?x div 400 = a" using assms by linarith
  ultimately show ?thesis by (simp add: year_start_def)
qed

lemma div_step:
  fixes k :: int
  assumes "1 < k"
  shows "(x + 1) div k = x div k + (if (x + 1) mod k = 0 then 1 else 0)"
proof (cases "x mod k = k - 1")
  case True
  have "x + 1 = k * (x div k) + (x mod k + 1)" by simp
  then have x: "x + 1 = k * (x div k + 1)" unfolding True by (simp only: distrib_left mult_1_right diff_add_cancel)
  then have "(x + 1) mod k = 0" by (metis mod_mult_self1_is_0)
  moreover have "(x + 1) div k = x div k + 1" unfolding x using assms by simp
  ultimately show ?thesis by simp
next
  case False
  have "0 \<le> x mod k" "x mod k < k" using assms by simp_all
  then have r: "0 \<le> x mod k + 1" "x mod k + 1 < k" using False by linarith+
  have x: "x + 1 = k * (x div k) + (x mod k + 1)" by simp
  have "(x + 1) div k = x div k" "(x + 1) mod k = x mod k + 1"
    using int_div_pos_eq [OF x r] int_mod_pos_eq [OF x r] .
  moreover have "0 \<le> x mod k" using assms by simp
  ultimately show ?thesis by simp
qed

lemma year_start_Suc: "year_start (y + 1) = year_start y + (if leap_year y then 366 else 365)"
proof -
  have sum: "365 * y + A' - B' + C' = 365 * (y - 1) + A - B + C + (365 + p - q + r)"
    if "A' = A + p" "B' = B + q" "C' = C + r" for A A' B B' C C' p q r
    using that by simp
  define p where "p k = (if y mod k = 0 then 1 else 0 :: int)" for k
  have step: "y div k = (y - 1) div k + p k" if "1 < k" for k
    using div_step [OF that, of "y - 1"] by (simp add: p_def)
  have eq: "year_start (y + 1) = year_start y + (365 + p 4 - p 100 + p 400)"
    unfolding year_start_def add_diff_cancel_right' by (rule sum; rule step; simp)
  have "y mod 400 = 0 \<Longrightarrow> y mod 100 = 0" "y mod 100 = 0 \<Longrightarrow> y mod 4 = 0"
    using dvd_trans [of 100 400 y] dvd_trans [of 4 100 y] by (simp_all add: mod_eq_0_iff_dvd)
  then consider "y mod 4 \<noteq> 0" "y mod 100 \<noteq> 0" "y mod 400 \<noteq> 0" | "y mod 4 = 0" "y mod 100 \<noteq> 0" "y mod 400 \<noteq> 0"
    | "y mod 4 = 0" "y mod 100 = 0" "y mod 400 \<noteq> 0" | "y mod 4 = 0" "y mod 100 = 0" "y mod 400 = 0" by metis
  then show ?thesis unfolding eq by cases (simp_all add: p_def leap_year_def)
qed

lemma year_start_mono: "y \<le> z \<Longrightarrow> year_start y \<le> year_start z"
proof (induction z rule: int_ge_induct)
  case base
  then show ?case by simp
next
  case (step i)
  then show ?case using year_start_Suc [of i] by (simp split: if_splits)
qed

lemma year_unique:
  assumes "year_start y \<le> n" "n < year_start (y + 1)" "year_start z \<le> n" "n < year_start (z + 1)"
  shows "y = z"
proof (rule ccontr)
  assume "y \<noteq> z"
  then consider "y + 1 \<le> z" | "z + 1 \<le> y" by linarith
  then show False using year_start_mono [of "y + 1" z] year_start_mono [of "z + 1" y] assms by cases auto
qed

lemma leap_cycle:
  assumes "0 \<le> b" "b \<le> 3" "0 \<le> c" "c \<le> 24"
  shows "leap_year (400 * a + 100 * b + 4 * c + 4) \<or> c = 24 \<and> b < 3"
proof -
  let ?y = "400 * a + 100 * b + 4 * c + 4"
  have 4: "?y mod 4 = 0" by presburger
  consider "c < 24" | "c = 24" "b = 3" | "c = 24" "b < 3" using assms by linarith
  then show ?thesis
  proof cases
    case 1
    have "?y mod 100 = (100 * (4 * a + b) + (4 * c + 4)) mod 100" by (simp add: algebra_simps)
    also have "\<dots> = 4 * c + 4" using 1 assms by (simp only: mod_mult_self4) simp
    finally show ?thesis using 4 assms(3) by (simp add: leap_year_def)
  next
    case 2
    then have "?y = 400 * (a + 1)" by simp
    then have "?y mod 400 = 0" by (metis mod_mult_self1_is_0)
    then show ?thesis using 4 by (simp add: leap_year_def)
  qed simp
qed

lemma year_of_day_spec: "year_start (year_of_day n) \<le> n \<and> n < year_start (year_of_day n + 1)"
proof -
  define a n1 where "a = n div 146097" and "n1 = n mod 146097"
  define b n2 where "b = min 3 (n1 div 36524)" and "n2 = n1 - 36524 * b"
  define c n3 where "c = n2 div 1461" and "n3 = n2 mod 1461"
  define e where "e = min 3 (n3 div 365)"
  define y where "y = 400 * a + 100 * b + 4 * c + e + 1"
  have y: "year_of_day n = y"
    by (simp add: year_of_day_def Let_def y_def a_def n1_def b_def n2_def c_def n3_def e_def)
  have n1: "0 \<le> n1" "n1 \<le> 146096" "n = 146097 * a + n1" by (auto simp: n1_def a_def)
  have b: "0 \<le> b" "b \<le> 3" "0 \<le> n2" "n2 \<le> 36524" "b < 3 \<longrightarrow> n2 \<le> 36523"
    using n1 unfolding b_def n2_def by (auto simp: min_def; linarith)+
  have c: "0 \<le> c" "c \<le> 24" "n2 = 1461 * c + n3" "0 \<le> n3" "n3 \<le> 1460"
    using b unfolding c_def n3_def by (auto; linarith)+
  have e: "0 \<le> e" "e \<le> 3" "365 * e \<le> n3" "e < 3 \<longrightarrow> n3 < 365 * (e + 1)"
    using c(4,5) unfolding e_def by (auto simp: min_def; linarith)+
  have lo: "year_start y = 146097 * a + 36524 * b + 1461 * c + 365 * e"
    unfolding y_def by (rule year_start_cycles) (use b c e in auto)
  have n: "n = 146097 * a + 36524 * b + 1461 * c + n3" using n1(3) c(3) by (simp add: n2_def)
  have hi: "n3 < 365 * e + (if leap_year y then 366 else 365)"
  proof (cases "e = 3")
    case False
    then show ?thesis using e by simp
  next
    case True
    have "leap_year y \<or> c = 24 \<and> b < 3"
      using leap_cycle [of b c a] b(1,2) c(1,2) True by (simp add: y_def add.commute add.left_commute)
    then show ?thesis
    proof
      assume "leap_year y" then show ?thesis using c(5) True by simp
    next
      assume "c = 24 \<and> b < 3" then have "n3 \<le> 1459" using b(5) c(3) by simp
      then show ?thesis using True by simp
    qed
  qed
  show ?thesis unfolding y year_start_Suc lo using n hi e(3) by simp
qed

lemma month_starts:
  "month_start y 1 = 31"
  "month_start y 2 = (if leap_year y then 60 else 59)"
  "month_start y 3 = (if leap_year y then 91 else 90)"
  "month_start y 4 = (if leap_year y then 121 else 120)"
  "month_start y 5 = (if leap_year y then 152 else 151)"
  "month_start y 6 = (if leap_year y then 182 else 181)"
  "month_start y 7 = (if leap_year y then 213 else 212)"
  "month_start y 8 = (if leap_year y then 244 else 243)"
  "month_start y 9 = (if leap_year y then 274 else 273)"
  "month_start y 10 = (if leap_year y then 305 else 304)"
  "month_start y 11 = (if leap_year y then 335 else 334)"
  "month_start y 12 = (if leap_year y then 366 else 365)"
  by (simp_all add: eval_nat_numeral days_in_month_def)

lemma month_of_yday_spec:
  assumes "0 \<le> r" "r < month_start y 12"
  shows "1 \<le> month_of_yday y r \<and> month_of_yday y r \<le> 12 \<and> month_start y (month_of_yday y r - 1) \<le> r \<and>
    r < month_start y (month_of_yday y r)"
proof -
  let ?P = "\<lambda>k. month_start y k \<le> r" and ?xs = "[1..<12]"
  define j where "j = length (takeWhile ?P ?xs)"
  have j: "j \<le> 11" using length_takeWhile_le [of ?P ?xs] by (simp add: j_def)
  have lo: "month_start y j \<le> r"
  proof (cases j)
    case 0
    then show ?thesis using assms(1) by simp
  next
    case (Suc i)
    then have i: "i < length (takeWhile ?P ?xs)" by (simp add: j_def)
    note takeWhile_nth [OF i] nth_mem [OF i]
    then have "?P (?xs ! i)" by (metis set_takeWhileD)
    moreover have "?xs ! i = j" using Suc j by simp
    ultimately show ?thesis by simp
  qed
  have hi: "r < month_start y (Suc j)"
  proof (cases "j < 11")
    case True
    then have "\<not> ?P (?xs ! j)" unfolding j_def by (intro nth_length_takeWhile) simp
    then show ?thesis using True by simp
  next
    case False
    then have "Suc j = 12" using j by simp
    then show ?thesis using assms(2) by presburger
  qed
  show ?thesis using j lo hi by (simp add: month_of_yday_def j_def)
qed

lemma month_start_mono: "k \<le> n \<Longrightarrow> month_start y k \<le> month_start y n"
proof (induction n rule: dec_induct)
  case (step n)
  have "0 \<le> days_in_month y (int n + 1)" by (simp add: days_in_month_def)
  with step show ?case by simp
qed simp

lemma month_unique:
  assumes "month_start y k \<le> r" "r < month_start y (Suc k)" "month_start y n \<le> r" "r < month_start y (Suc n)"
  shows "k = n"
  using assms month_start_mono [of "Suc k" n y] month_start_mono [of "Suc n" k y]
  by (metis leD le_less_trans not_less_eq_eq order_antisym_conv nle_le)

lemma month_span:
  assumes "1 \<le> m" "m \<le> 12"
  shows "month_start y (nat (m - 1)) + days_in_month y m = month_start y (Suc (nat (m - 1)))"
    "month_start y (Suc (nat (m - 1))) \<le> month_start y 12" "0 \<le> month_start y (nat (m - 1))"
  using assms month_start_mono [of "Suc (nat (m - 1))" 12 y] month_start_mono [of 0 "nat (m - 1)" y] by auto

text \<open>The two directions of the round trip.\<close>

lemma date_of_day_number:
  assumes "valid_date y m d"
  shows "date_of_day (day_number y m d) = (y, m, d)"
proof -
  have m: "1 \<le> m" "m \<le> 12" and d: "1 \<le> d" "d \<le> days_in_month y m" using assms by (auto simp: valid_date_def)
  let ?k = "nat (m - 1)" and ?n = "day_number y m d" and ?r = "month_start y (nat (m - 1)) + d - 1"
  have r: "month_start y ?k \<le> ?r" "?r < month_start y (Suc ?k)" "0 \<le> ?r" "?r < month_start y 12"
    using month_span [OF m, of y] d by auto
  have y: "year_of_day ?n = y"
    by (rule year_unique [of _ ?n])
       (use year_of_day_spec [of ?n] year_start_Suc [of y] r(3,4) in \<open>auto simp: day_number_def month_starts\<close>)
  have sub: "?n - year_start y = ?r" by (simp add: day_number_def)
  have "month_of_yday y ?r = Suc ?k"
    using month_of_yday_spec [OF r(3,4)] month_unique [OF _ _ r(1,2), of "month_of_yday y ?r - 1"] by auto
  then show ?thesis using m by (simp add: date_of_day_def Let_def y sub)
qed

lemma day_number_of_day:
  assumes "date_of_day n = (y, m, d)"
  shows "day_number y m d = n" "valid_date y m d"
proof -
  define r where "r = n - year_start y"
  have y: "y = year_of_day n" and m: "m = int (month_of_yday y r)" and d: "d = r - month_start y (month_of_yday y r - 1) + 1"
    using assms by (auto simp: date_of_day_def Let_def r_def)
  have "0 \<le> r" "r < month_start y 12"
    using year_of_day_spec [of n] year_start_Suc [of y] by (auto simp: r_def y month_starts)
  note s = month_of_yday_spec [OF this]
  then obtain k where k: "month_of_yday y r = Suc k" by (metis Suc_le_D One_nat_def)
  have mk: "nat (m - 1) = k" "1 \<le> m" "m \<le> 12" using m k s by auto
  show "day_number y m d = n" using mk d k by (simp add: day_number_def r_def)
  show "valid_date y m d" using s month_span(1) [OF mk(2,3), of y] mk d k by (auto simp: valid_date_def)
qed

subsection \<open>Times\<close>

record gotime =
  instant :: int
  zone_offset :: int

definition ns_per_day :: int where "ns_per_day = 86400000000000"

definition local_ns :: "gotime \<Rightarrow> int" where
  "local_ns t = instant t + zone_offset t * 1000000000"

definition time_date :: "gotime \<Rightarrow> int \<times> int \<times> int" where
  "time_date t = date_of_day (local_ns t div ns_per_day)"

definition time_of_day :: "gotime \<Rightarrow> int" where
  "time_of_day t = local_ns t mod ns_per_day"

definition Hour :: "gotime \<Rightarrow> int" where "Hour t = time_of_day t div 3600000000000"
definition Minute :: "gotime \<Rightarrow> int" where "Minute t = time_of_day t mod 3600000000000 div 60000000000"
definition Second :: "gotime \<Rightarrow> int" where "Second t = time_of_day t mod 60000000000 div 1000000000"
definition Nanosecond :: "gotime \<Rightarrow> int" where "Nanosecond t = time_of_day t mod 1000000000"

text \<open>Sunday is 0; 1 January of year 1 was a Monday.\<close>

definition Weekday :: "gotime \<Rightarrow> int" where
  "Weekday t = (local_ns t div ns_per_day + 1) mod 7"

text \<open>\<open>time.Date\<close>: months outside 1 to 12 carry into the year, everything else into the days.\<close>

definition time_Date :: "int \<Rightarrow> int \<Rightarrow> int \<Rightarrow> int \<Rightarrow> int \<Rightarrow> int \<Rightarrow> int \<Rightarrow> int \<Rightarrow> gotime" where
  "time_Date y m d h mi s ns off =
     (let y' = y + (m - 1) div 12; m' = (m - 1) mod 12 + 1
      in \<lparr>instant = (day_number y' m' 1 + d - 1) * ns_per_day + h * 3600000000000 + mi * 60000000000
            + s * 1000000000 + ns - off * 1000000000,
          zone_offset = off\<rparr>)"

definition AddDate :: "gotime \<Rightarrow> int \<Rightarrow> int \<Rightarrow> int \<Rightarrow> gotime" where
  "AddDate t dy dm dd = (case time_date t of (y, m, d) \<Rightarrow>
     time_Date (y + dy) (m + dm) (d + dd) (Hour t) (Minute t) (Second t) (Nanosecond t) (zone_offset t))"

definition time_Add :: "gotime \<Rightarrow> int \<Rightarrow> gotime" where
  "time_Add t n = t\<lparr>instant := instant t + n\<rparr>"

text \<open>\<open>Sub\<close> saturates at the ends of \<open>time.Duration\<close>.\<close>

definition time_Sub :: "gotime \<Rightarrow> gotime \<Rightarrow> int" where
  "time_Sub t u = max MinInt64 (min MaxInt64 (instant t - instant u))"

lemma mixed_radix:
  fixes x a b c :: int
  assumes "b dvd a" "c dvd b"
  shows "x div a * a + x mod a div b * b + x mod b div c * c + x mod c = x"
proof -
  have b: "x mod b = x mod a mod b" and c: "x mod c = x mod b mod c" using assms by (simp_all only: mod_mod_cancel)
  have "x mod b div c * c + x mod c = x mod b" unfolding c by (rule div_mult_mod_eq)
  moreover have "x mod a div b * b + x mod b = x mod a" unfolding b by (rule div_mult_mod_eq)
  ultimately show ?thesis using div_mult_mod_eq [of x a] by (simp only: add.assoc)
qed

lemma time_of_day_parts:
  "Hour t * 3600000000000 + Minute t * 60000000000 + Second t * 1000000000 + Nanosecond t = time_of_day t"
  unfolding Hour_def Minute_def Second_def Nanosecond_def by (rule mixed_radix) simp_all

lemma time_of_day_range: "0 \<le> time_of_day t" "time_of_day t < ns_per_day"
  by (simp_all add: time_of_day_def ns_per_day_def)

lemma day_number_add: "day_number y m 1 + d - 1 = day_number y m d"
  by (simp add: day_number_def)

text \<open>A date and a time of day read back as they were given, whatever the month's overflow; a day outside
  the month carries.\<close>

lemma time_Date_day:
  "time_date (time_Date y m d (Hour t) (Minute t) (Second t) (Nanosecond t) off) =
      date_of_day (day_number (y + (m - 1) div 12) ((m - 1) mod 12 + 1) d)"
  "time_of_day (time_Date y m d (Hour t) (Minute t) (Second t) (Nanosecond t) off) = time_of_day t"
proof -
  let ?x = "time_Date y m d (Hour t) (Minute t) (Second t) (Nanosecond t) off"
  let ?n = "day_number (y + (m - 1) div 12) ((m - 1) mod 12 + 1) d"
  have "local_ns ?x = ?n * ns_per_day + time_of_day t"
    using time_of_day_parts [of t] unfolding time_Date_def local_ns_def Let_def day_number_add by simp
  then have l: "local_ns ?x = ns_per_day * ?n + time_of_day t" by (simp add: mult.commute)
  have "local_ns ?x div ns_per_day = ?n" "local_ns ?x mod ns_per_day = time_of_day t"
    using int_div_pos_eq [OF l time_of_day_range] int_mod_pos_eq [OF l time_of_day_range] .
  then show "time_date ?x = date_of_day ?n" "time_of_day ?x = time_of_day t"
    by (simp_all add: time_date_def time_of_day_def)
qed

lemma day_before_next_month:
  assumes "1 \<le> m" "m \<le> 12"
  shows "day_number (y + m div 12) (m mod 12 + 1) 0 = day_number y m (days_in_month y m)"
proof (cases "m = 12")
  case True
  have "nat (12 - 1) = 11" by simp
  moreover have "month_start y 11 + days_in_month y 12 = month_start y 12" using month_span(1) [of 12 y] by simp
  moreover have "month_start y 12 = (if leap_year y then 366 else 365)" by (rule month_starts)
  ultimately show ?thesis using year_start_Suc [of y] True by (simp add: day_number_def)
next
  case False
  then have "m div 12 = 0" "m mod 12 = m" "Suc (nat (m - 1)) = nat m" using assms by auto
  then show ?thesis using month_span(1) [OF assms, of y] by (simp add: day_number_def)
qed

end
