(* ===== verification/Feel_Value.thy ===== *)
theory Feel_Value
  imports Go_Time "HOL-Library.List_Lexorder" "HOL-Library.Char_ord" "HOL-Library.Multiset"
begin

text \<open>
  The values of the FEEL interpreter (\<open>internal/feel\<close>): numbers with their scale (\<open>scale.go\<close>),
  three-valued logic, comparison, arithmetic and paths (\<open>eval.go\<close>), text (\<open>api.go\<close>).

  A number is an exact rational; the code keeps a number's scale beside it, keyed by the number's pointer,
  and gives a scale only to a number it has just made, so here the scale is a field of the number. A
  context is an association list with distinct keys; where the code ranges over a Go map, the order of the
  list is the order of that iteration.

  Floating point, regular expressions, Unicode tables and the layouts of package \<open>time\<close> are Go library
  code: they are the fields of a record \<open>golib\<close> that the operations which use them take.
\<close>

subsection \<open>Values\<close>

datatype float64 = Fin rat | PosInf | NegInf | NaN

datatype fval =
    VNull
  | VBool bool
  | VStr string
  | VNum rat "int option"
  | VList "fval list"
  | VCtx "(string \<times> fval) list"
  | VDate gotime
  | VTime gotime
  | VDT int
  | VYM int
  | VRange fval fval bool bool

text \<open>What \<open>FromFEEL\<close> gives back: the Go values that marshal to JSON.\<close>

datatype goval = GNil | GBool bool | GFloat float64 | GStr string | GList "goval list" | GMap "(string \<times> goval) list"

record golib =
  Rat_Float64 :: "rat \<Rightarrow> float64"
  float_mul :: "float64 \<Rightarrow> float64 \<Rightarrow> float64"
  math_Pow :: "float64 \<Rightarrow> float64 \<Rightarrow> float64"
  math_Sqrt :: "float64 \<Rightarrow> float64"
  math_Round :: "float64 \<Rightarrow> float64"
  float_int64 :: "float64 \<Rightarrow> int"
  FormatFloat :: "float64 \<Rightarrow> string"
  ParseFloat :: "string \<Rightarrow> float64 option"
  Rat_SetString :: "string \<Rightarrow> rat option"
  json_Marshal :: "goval \<Rightarrow> string option"
  time_Parse :: "string \<Rightarrow> string \<Rightarrow> gotime option"
  time_Format :: "string \<Rightarrow> gotime \<Rightarrow> string"
  Seconds :: "int \<Rightarrow> string"
  time_Now :: gotime
  ToUpper :: "string \<Rightarrow> string"
  ToLower :: "string \<Rightarrow> string"
  unicode_IsSpace :: "string \<Rightarrow> bool"
  unicode_IsDigit :: "string \<Rightarrow> bool"
  unicode_IsLetter :: "string \<Rightarrow> bool"
  Sscanf_rune :: "string \<Rightarrow> string option"
  re_MatchString :: "string \<Rightarrow> string \<Rightarrow> bool option"
  re_ReplaceAllString :: "string \<Rightarrow> string \<Rightarrow> string \<Rightarrow> string option"
  Sprint_range :: "fval \<Rightarrow> string"
  re_Split :: "string \<Rightarrow> string \<Rightarrow> string list option"
  float_add :: "float64 \<Rightarrow> float64 \<Rightarrow> float64"
  Sprintv :: "goval \<Rightarrow> string"

text \<open>A number the code makes afresh has no scale recorded.\<close>

abbreviation num :: "rat \<Rightarrow> fval" where
  "num r \<equiv> VNum r None"

definition IsInt :: "rat \<Rightarrow> bool" where
  "IsInt r \<longleftrightarrow> snd (quotient_of r) = 1"

definition Num :: "rat \<Rightarrow> int" where
  "Num r = fst (quotient_of r)"

subsection \<open>Scales\<close>

text \<open>The loop divides the denominator, which is positive, by 2 and by 5 as long as it can.\<close>

function scale_loop :: "nat \<Rightarrow> nat \<Rightarrow> nat \<Rightarrow> int" where
  "scale_loop d twos fives =
     (if d \<le> 1 then int (max twos fives)
      else if d mod 2 = 0 then scale_loop (d div 2) (Suc twos) fives
      else if d mod 5 = 0 then scale_loop (d div 5) twos (Suc fives)
      else - 1)"
  by pat_completeness auto
termination by (relation "measure (\<lambda>(d, _, _). d)") auto

declare scale_loop.simps [simp del]

definition naturalScale :: "rat \<Rightarrow> int" where
  "naturalScale r = scale_loop (nat (snd (quotient_of r))) 0 0"

definition withScale :: "rat \<Rightarrow> int \<Rightarrow> fval" where
  "withScale r scale = (let natural = naturalScale r in
     if natural < 0 \<or> scale \<le> natural then VNum r None else VNum r (Some scale))"

definition scaleOf :: "rat \<Rightarrow> int option \<Rightarrow> int" where
  "scaleOf r s = (case s of Some n \<Rightarrow> n | None \<Rightarrow> naturalScale r)"

definition literalScale :: "string \<Rightarrow> int" where
  "literalScale text =
     (if CHR ''e'' \<in> set text \<or> CHR ''E'' \<in> set text then 0
      else case dropWhile (\<lambda>c. c \<noteq> CHR ''.'') text of [] \<Rightarrow> 0 | _ # ds \<Rightarrow> int (length ds))"

definition scaleArithmetic :: "string \<Rightarrow> rat \<times> int option \<Rightarrow> rat \<times> int option \<Rightarrow> rat \<Rightarrow> fval" where
  "scaleArithmetic op a b result =
     (let sa = scaleOf (fst a) (snd a); sb = scaleOf (fst b) (snd b) in
      if sa < 0 \<or> sb < 0 then num result
      else if op = ''+'' \<or> op = ''-'' then withScale result (max sa sb)
      else if op = ''*'' then withScale result (sa + sb)
      else num result)"

subsection \<open>Three-valued logic\<close>

fun toBool3 :: "fval \<Rightarrow> bool option" where
  "toBool3 (VBool b) = Some b"
| "toBool3 _ = None"

definition and3 :: "fval \<Rightarrow> fval \<Rightarrow> fval" where
  "and3 a b = (let x = toBool3 a; y = toBool3 b in
     if x = Some False \<or> y = Some False then VBool False
     else if x \<noteq> None \<and> y \<noteq> None then VBool True else VNull)"

definition or3 :: "fval \<Rightarrow> fval \<Rightarrow> fval" where
  "or3 a b = (let x = toBool3 a; y = toBool3 b in
     if x = Some True \<or> y = Some True then VBool True
     else if x \<noteq> None \<and> y \<noteq> None then VBool False else VNull)"

definition not3 :: "fval \<Rightarrow> fval" where
  "not3 v = (case toBool3 v of Some b \<Rightarrow> VBool (\<not> b) | None \<Rightarrow> VNull)"

subsection \<open>Comparison\<close>

definition cmp :: "'a :: linorder \<Rightarrow> 'a \<Rightarrow> int" where
  "cmp a b = (if a < b then - 1 else if b < a then 1 else 0)"

text \<open>\<open>order\<close> and \<open>equal\<close> return their result and whether the values can be compared.\<close>

fun order :: "fval \<Rightarrow> fval \<Rightarrow> int \<times> bool" where
  "order (VNum a _) (VNum b _) = (cmp a b, True)"
| "order (VStr a) (VStr b) = (cmp a b, True)"
| "order (VDate a) (VDate b) = (cmp (instant a) (instant b), True)"
| "order (VTime a) (VTime b) = (cmp (instant a) (instant b), True)"
| "order (VDT a) (VDT b) = (cmp a b, True)"
| "order (VYM a) (VYM b) = (cmp a b, True)"
| "order _ _ = (0, False)"

fun equal :: "fval \<Rightarrow> fval \<Rightarrow> bool \<times> bool"
  and equal_list :: "fval list \<Rightarrow> fval list \<Rightarrow> bool \<times> bool"
  and equal_ctx :: "(string \<times> fval) list \<Rightarrow> (string \<times> fval) list \<Rightarrow> bool \<times> bool" where
  "equal l r =
     (if l = VNull \<or> r = VNull then (l = VNull \<and> r = VNull, True)
      else case l of
        VList a \<Rightarrow> (case r of
            VList b \<Rightarrow> if length a \<noteq> length b then (False, True) else equal_list a b
          | _ \<Rightarrow> (False, False))
      | VCtx a \<Rightarrow> (case r of
            VCtx b \<Rightarrow> if length a \<noteq> length b then (False, True) else equal_ctx a b
          | _ \<Rightarrow> (False, False))
      | VBool a \<Rightarrow> (case r of VBool b \<Rightarrow> (a = b, True) | _ \<Rightarrow> (a = False, False))
      | _ \<Rightarrow> (let (c, ok) = order l r in (c = 0, ok)))"
| "equal_list (x # xs) (y # ys) =
     (let (e, ok) = equal x y in if \<not> ok \<or> \<not> e then (False, ok) else equal_list xs ys)"
| "equal_list _ _ = (True, True)"
| "equal_ctx [] b = (True, True)"
| "equal_ctx ((k, av) # a) b =
     (case map_of b k of
        None \<Rightarrow> (False, True)
      | Some bv \<Rightarrow> (let (e, ok) = equal av bv in if \<not> ok \<or> \<not> e then (False, ok) else equal_ctx a b))"

declare equal.simps [simp del]

definition compareOp :: "string \<Rightarrow> fval \<Rightarrow> fval \<Rightarrow> fval" where
  "compareOp op l r =
     (if op = ''='' \<or> op = ''!='' then
        (let (eq, ok) = equal l r in
         if \<not> ok then VNull else if op = ''!='' then VBool (\<not> eq) else VBool eq)
      else
        (let (c, ok) = order l r in
         if \<not> ok then VNull
         else if op = ''<'' then VBool (c < 0)
         else if op = ''<='' then VBool (c \<le> 0)
         else if op = ''>'' then VBool (c > 0)
         else VBool (c \<ge> 0)))"

fun inRange :: "fval \<Rightarrow> fval \<Rightarrow> fval \<Rightarrow> bool \<Rightarrow> bool \<Rightarrow> fval" where
  "inRange x lo hi loClosed hiClosed =
     and3 (if lo = VNull then VBool True else if loClosed then compareOp ''>='' x lo else compareOp ''>'' x lo)
       (if hi = VNull then VBool True else if hiClosed then compareOp ''<='' x hi else compareOp ''<'' x hi)"

text \<open>\<open>sort.SliceStable\<close> with \<open>order\<close>: a value goes after those it is not below. Every
  comparison is between values that can be ordered, or the flag is false: the first value of another
  kind meets one of the first kind, whichever pairs the library compares.\<close>

fun insert_by :: "('a \<Rightarrow> 'a \<Rightarrow> int \<times> bool) \<Rightarrow> 'a \<Rightarrow> 'a list \<Rightarrow> 'a list" where
  "insert_by ord x ys = takeWhile (\<lambda>y. \<not> fst (ord x y) < 0) ys @ x # dropWhile (\<lambda>y. \<not> fst (ord x y) < 0) ys"

declare insert_by.simps [simp del]

definition sortValues :: "fval list \<Rightarrow> fval list \<times> bool" where
  "sortValues items =
     (foldl (\<lambda>ys x. insert_by order x ys) [] items,
      length items < 2 \<or> list_all (\<lambda>x. snd (order (hd items) x)) items)"

subsection \<open>Arithmetic\<close>

definition ratFromFloat :: "golib \<Rightarrow> float64 \<Rightarrow> fval" where
  "ratFromFloat go f =
     (case f of
        Fin _ \<Rightarrow> (case Rat_SetString go (FormatFloat go f) of Some r \<Rightarrow> num r | None \<Rightarrow> VNull)
      | _ \<Rightarrow> VNull)"

definition ratTimesInt64 :: "golib \<Rightarrow> rat \<Rightarrow> int \<Rightarrow> int" where
  "ratTimesInt64 go r n = float_int64 go (math_Round go (Rat_Float64 go (r * of_int n)))"

fun power_loop :: "nat \<Rightarrow> rat \<Rightarrow> rat \<Rightarrow> rat" where
  "power_loop 0 b result = result"
| "power_loop (Suc e) b result = power_loop e b (result * b)"

definition power :: "golib \<Rightarrow> rat \<Rightarrow> rat \<Rightarrow> fval" where
  "power go base ex =
     (if IsInt ex \<and> is_int64 (Num ex) then
        (let e = Num ex in
         if e > 10000 \<or> e < - 10000 then VNull
         else
           (let result = power_loop (nat (abs e)) base 1 in
            if e < 0 then if result = 0 then VNull else num (inverse result)
            else num result))
      else ratFromFloat go (math_Pow go (Rat_Float64 go base) (Rat_Float64 go ex)))"

definition addMonths :: "gotime \<Rightarrow> int \<Rightarrow> gotime" where
  "addMonths t n =
     (case time_date t of (y, m, d) \<Rightarrow>
       (let first = time_Date y (wrap64 (m + n)) 1 (Hour t) (Minute t) (Second t) (Nanosecond t) (zone_offset t);
            last = (case time_date (AddDate first 0 1 (- 1)) of (_, _, dl) \<Rightarrow> dl);
            d' = (if d > last then last else d)
        in AddDate first 0 0 (d' - 1)))"

definition temporalArithmetic :: "string \<Rightarrow> gotime \<Rightarrow> fval \<Rightarrow> bool \<Rightarrow> fval" where
  "temporalArithmetic op t r isDate =
     (let wrap = (\<lambda>x. if isDate then VDate x else VTime x) in
      case r of
        VDT b \<Rightarrow> if op = ''+'' then wrap (time_Add t b)
                 else if op = ''-'' then wrap (time_Add t (wrap64 (- b))) else VNull
      | VYM b \<Rightarrow> if op = ''+'' then wrap (addMonths t b)
                 else if op = ''-'' then wrap (addMonths t (wrap64 (- b))) else VNull
      | VDate b \<Rightarrow> if op = ''-'' then VDT (time_Sub t b) else VNull
      | VTime b \<Rightarrow> if op = ''-'' then VDT (time_Sub t b) else VNull
      | _ \<Rightarrow> VNull)"

definition arithmetic :: "golib \<Rightarrow> string \<Rightarrow> fval \<Rightarrow> fval \<Rightarrow> fval" where
  "arithmetic go op l r =
     (case l of
        VNum a sa \<Rightarrow>
          (case r of
             VNum b sb \<Rightarrow>
               if op = ''+'' then scaleArithmetic op (a, sa) (b, sb) (a + b)
               else if op = ''-'' then scaleArithmetic op (a, sa) (b, sb) (a - b)
               else if op = ''*'' then scaleArithmetic op (a, sa) (b, sb) (a * b)
               else if op = ''/'' then if b = 0 then VNull else num (a / b)
               else if op = ''**'' then power go a b
               else VNull
           | VDT d \<Rightarrow> if op = ''*'' then VDT (ratTimesInt64 go a d) else VNull
           | _ \<Rightarrow> VNull)
      | VStr a \<Rightarrow> (case r of VStr b \<Rightarrow> if op = ''+'' then VStr (a @ b) else VNull | _ \<Rightarrow> VNull)
      | VDate a \<Rightarrow> temporalArithmetic op a r True
      | VTime a \<Rightarrow> temporalArithmetic op a r False
      | VDT a \<Rightarrow>
          (case r of
             VDT b \<Rightarrow> if op = ''+'' then VDT (wrap64 (a + b)) else if op = ''-'' then VDT (wrap64 (a - b)) else VNull
           | VNum b _ \<Rightarrow>
               if op = ''*'' then VDT (ratTimesInt64 go b a)
               else if op = ''/'' then if b = 0 then VNull else VDT (ratTimesInt64 go (inverse b) a)
               else VNull
           | VDate b \<Rightarrow> if op = ''+'' then VDate (time_Add b a) else VNull
           | VTime b \<Rightarrow> if op = ''+'' then VTime (time_Add b a) else VNull
           | _ \<Rightarrow> VNull)
      | VYM a \<Rightarrow>
          (case r of
             VYM b \<Rightarrow> if op = ''+'' then VYM (wrap64 (a + b)) else if op = ''-'' then VYM (wrap64 (a - b)) else VNull
           | VDate b \<Rightarrow> if op = ''+'' then VDate (addMonths b a) else VNull
           | VTime b \<Rightarrow> if op = ''+'' then VTime (addMonths b a) else VNull
           | _ \<Rightarrow> VNull)
      | _ \<Rightarrow> VNull)"

subsection \<open>Paths\<close>

definition temporalComponent :: "gotime \<Rightarrow> string \<Rightarrow> fval" where
  "temporalComponent t name =
     (case time_date t of (y, m, d) \<Rightarrow>
        if name = ''year'' then num (of_int y)
        else if name = ''month'' then num (of_int m)
        else if name = ''day'' then num (of_int d)
        else if name = ''hour'' then num (of_int (Hour t))
        else if name = ''minute'' then num (of_int (Minute t))
        else if name = ''second'' then num (of_int (Second t))
        else if name = ''weekday'' then num (of_int (if Weekday t = 0 then 7 else Weekday t))
        else VNull)"

fun path :: "fval \<Rightarrow> string \<Rightarrow> fval" where
  "path (VCtx m) name = (case map_of m name of Some v \<Rightarrow> v | None \<Rightarrow> VNull)"
| "path (VList vs) name = VList (map (\<lambda>v. path v name) vs)"
| "path (VDate t) name = temporalComponent t name"
| "path (VTime t) name = temporalComponent t name"
| "path _ name = VNull"

subsection \<open>Text\<close>

text \<open>\<open>big.Rat.FloatString\<close>: the number with the given decimals, halves rounded away from zero.\<close>

definition int_dec :: "int \<Rightarrow> string" where
  "int_dec n = (if n < 0 then CHR ''-'' # nat_dec (nat (- n)) else nat_dec (nat n))"

definition pad_left :: "nat \<Rightarrow> string \<Rightarrow> string" where
  "pad_left n s = replicate (n - length s) (CHR ''0'') @ s"

definition FloatString :: "rat \<Rightarrow> nat \<Rightarrow> string" where
  "FloatString r prec =
     (let n = nat (abs (Num r)); den = nat (snd (quotient_of r)); p = 10 ^ prec;
          q = n * p div den; m = n * p mod den;
          t = (if m + m \<ge> den then Suc q else q)
      in (if Num r < 0 then ''-'' else '''') @ nat_dec (t div p) @
         (if prec = 0 then '''' else CHR ''.'' # pad_left prec (nat_dec (t mod p))))"

definition trim_right_zeros :: "string \<Rightarrow> string" where
  "trim_right_zeros s = rev (dropWhile (\<lambda>c. c = CHR ''0'') (rev s))"

definition trim_suffix :: "string \<Rightarrow> string \<Rightarrow> string" where
  "trim_suffix s p = (if has_suffix s p then take (length s - length p) s else s)"

definition formatRat :: "rat \<Rightarrow> int option \<Rightarrow> string" where
  "formatRat r sc =
     (let s = scaleOf r sc in
      if s > naturalScale r then FloatString r (nat s)
      else if IsInt r then int_dec (Num r)
      else trim_suffix (trim_right_zeros (FloatString r 20)) ''.'')"

text \<open>Go's integer division truncates.\<close>

definition tdiv :: "int \<Rightarrow> int \<Rightarrow> int" where
  "tdiv a b = sgn a * (abs a div b)"

definition formatDTDuration :: "golib \<Rightarrow> int \<Rightarrow> string" where
  "formatDTDuration go d0 =
     (if d0 = 0 then ''PT0S''
      else
        (let sign = (if d0 < 0 then ''-'' else ''''); d1 = (if d0 < 0 then wrap64 (- d0) else d0);
             days = tdiv d1 86400000000000; d2 = d1 - days * 86400000000000;
             h = tdiv d2 3600000000000; d3 = d2 - h * 3600000000000;
             m = tdiv d3 60000000000; d4 = d3 - m * 60000000000
         in sign @ ''P'' @ (if days > 0 then int_dec days @ ''D'' else '''') @
            (if h > 0 \<or> m > 0 \<or> d4 > 0 then
               ''T'' @ (if h > 0 then int_dec h @ ''H'' else '''') @ (if m > 0 then int_dec m @ ''M'' else '''')
               @ (if d4 > 0 then Seconds go d4 @ ''S'' else '''')
             else '''')))"

definition formatYMDuration :: "int \<Rightarrow> string" where
  "formatYMDuration n =
     (let sign = (if n < 0 then ''-'' else ''''); months = (if n < 0 then wrap64 (- n) else n);
          y = tdiv months 12; m = months - 12 * y
      in if y > 0 \<and> m > 0 then sign @ ''P'' @ int_dec y @ ''Y'' @ int_dec m @ ''M''
         else if y > 0 then sign @ ''P'' @ int_dec y @ ''Y''
         else sign @ ''P'' @ int_dec m @ ''M'')"

fun FromFEEL :: "golib \<Rightarrow> fval \<Rightarrow> goval" where
  "FromFEEL go (VNum r s) = GFloat (Rat_Float64 go r)"
| "FromFEEL go (VList xs) = GList (map (FromFEEL go) xs)"
| "FromFEEL go (VCtx m) = GMap (map (\<lambda>(k, v). (k, FromFEEL go v)) m)"
| "FromFEEL go (VDate t) = GStr (time_Format go ''2006-01-02'' t)"
| "FromFEEL go (VTime t) = GStr (time_Format go ''2006-01-02T15:04:05.999999999Z07:00'' t)"
| "FromFEEL go (VDT d) = GStr (formatDTDuration go d)"
| "FromFEEL go (VYM n) = GStr (formatYMDuration n)"
| "FromFEEL go (VRange _ _ _ _) = GNil"
| "FromFEEL go VNull = GNil"
| "FromFEEL go (VBool b) = GBool b"
| "FromFEEL go (VStr s) = GStr s"

definition toString :: "golib \<Rightarrow> fval \<Rightarrow> fval" where
  "toString go v =
     (case v of
        VNull \<Rightarrow> VNull
      | VStr s \<Rightarrow> VStr s
      | VBool b \<Rightarrow> VStr (if b then ''true'' else ''false'')
      | VNum r s \<Rightarrow> VStr (formatRat r s)
      | VDate t \<Rightarrow> VStr (time_Format go ''2006-01-02'' t)
      | VTime t \<Rightarrow> VStr (time_Format go ''2006-01-02T15:04:05.999999999Z07:00'' t)
      | VDT d \<Rightarrow> VStr (formatDTDuration go d)
      | VYM n \<Rightarrow> VStr (formatYMDuration n)
      | VRange _ _ _ _ \<Rightarrow> VStr (Sprint_range go v)
      | _ \<Rightarrow> (case json_Marshal go (FromFEEL go v) of Some b \<Rightarrow> VStr b | None \<Rightarrow> VNull))"

text \<open>The Go value a JSON document decodes to.\<close>

fun json_goval :: "json \<Rightarrow> goval" where
  "json_goval JNull = GNil"
| "json_goval (JBool b) = GBool b"
| "json_goval (JNum x) = GFloat (Fin x)"
| "json_goval (JStr s) = GStr s"
| "json_goval (JList xs) = GList (map json_goval xs)"
| "json_goval (JObj m) = GMap (map (\<lambda>(k, v). (k, json_goval v)) m)"

text \<open>The conversion of the Go values that come out of JSON or out of another evaluation.\<close>

fun ToFEEL :: "golib \<Rightarrow> goval \<Rightarrow> fval" where
  "ToFEEL go GNil = VNull"
| "ToFEEL go (GBool b) = VBool b"
| "ToFEEL go (GStr s) = VStr s"
| "ToFEEL go (GFloat x) = ratFromFloat go x"
| "ToFEEL go (GList xs) = VList (map (ToFEEL go) xs)"
| "ToFEEL go (GMap m) = VCtx (map (\<lambda>(k, v). (k, ToFEEL go v)) m)"

subsection \<open>Durations\<close>

record duration_state =
  months :: int
  nanos :: int
  has_ym :: bool
  has_dt :: bool

definition add_months :: "golib \<Rightarrow> int \<Rightarrow> float64 \<Rightarrow> duration_state \<Rightarrow> duration_state" where
  "add_months go k f s = s\<lparr>months := wrap64 (months s + wrap64 (float_int64 go f * k)), has_ym := True\<rparr>"

text \<open>A unit is the factors the code multiplies, from the left.\<close>

definition add_nanos :: "golib \<Rightarrow> rat list \<Rightarrow> float64 \<Rightarrow> duration_state \<Rightarrow> duration_state" where
  "add_nanos go ks f s = s\<lparr>nanos := wrap64 (nanos s + float_int64 go (foldl (\<lambda>x k. float_mul go x (Fin k)) f ks)), has_dt := True\<rparr>"

type_synonym duration_units = "(char \<times> (float64 \<Rightarrow> duration_state \<Rightarrow> duration_state)) list"

definition date_units :: "golib \<Rightarrow> duration_units" where
  "date_units go =
     [(CHR ''Y'', add_months go 12), (CHR ''M'', add_months go 1),
      (CHR ''W'', add_nanos go [7, 24, 3600000000000]), (CHR ''D'', add_nanos go [24, 3600000000000])]"

definition time_units :: "golib \<Rightarrow> duration_units" where
  "time_units go =
     [(CHR ''H'', add_nanos go [3600000000000]), (CHR ''M'', add_nanos go [60000000000]),
      (CHR ''S'', add_nanos go [1000000000])]"

definition is_digit :: "char \<Rightarrow> bool" where
  "is_digit c \<longleftrightarrow> 48 \<le> (of_char c :: nat) \<and> (of_char c :: nat) \<le> 57"

fun read_units :: "golib \<Rightarrow> duration_units \<Rightarrow> string \<Rightarrow> string \<Rightarrow> duration_state \<Rightarrow> duration_state option" where
  "read_units go units n [] s = (if n \<noteq> [] then None else Some s)"
| "read_units go units n (c # cs) s =
     (if is_digit c \<or> c = CHR ''.'' then read_units go units (n @ [c]) cs s
      else
        (case ParseFloat go n of
           None \<Rightarrow> None
         | Some f \<Rightarrow>
             if n = [] then None
             else (case map_of units c of
                     None \<Rightarrow> None
                   | Some step \<Rightarrow> read_units go units [] cs (step f s))))"

definition parseDuration :: "golib \<Rightarrow> string \<Rightarrow> fval option" where
  "parseDuration go s0 =
     (let neg = has_prefix s0 ''-''; s1 = trim_prefix s0 ''-'' in
      if \<not> has_prefix s1 ''P'' \<or> length s1 < 2 then None
      else
        (let s2 = tl s1; datePart = takeWhile (\<lambda>c. c \<noteq> CHR ''T'') s2;
             rest = dropWhile (\<lambda>c. c \<noteq> CHR ''T'') s2;
             start = \<lparr>months = 0, nanos = 0, has_ym = False, has_dt = False\<rparr>
         in case Option.bind (read_units go (date_units go) [] datePart start)
                (\<lambda>s. if rest = [] then Some s else read_units go (time_units go) [] (tl rest) s) of
              None \<Rightarrow> None
            | Some s \<Rightarrow>
                if has_ym s \<and> has_dt s then None
                else if has_ym s then Some (VYM (if neg then wrap64 (- months s) else months s))
                else if has_dt s then Some (VDT (if neg then wrap64 (- nanos s) else nanos s))
                else None))"

definition parseDateTime :: "golib \<Rightarrow> string \<Rightarrow> gotime option" where
  "parseDateTime go s =
     (case time_Parse go ''2006-01-02T15:04:05.999999999Z07:00'' s of
        Some t \<Rightarrow> Some t
      | None \<Rightarrow>
          (case time_Parse go ''2006-01-02T15:04:05.999999999'' s of
             Some t \<Rightarrow> Some t
           | None \<Rightarrow> time_Parse go ''2006-01-02T15:04:05'' s))"

definition parseTemporal :: "golib \<Rightarrow> string \<Rightarrow> fval option" where
  "parseTemporal go s =
     (case parseDuration go s of
        Some d \<Rightarrow> Some d
      | None \<Rightarrow>
          (case time_Parse go ''2006-01-02'' s of
             Some t \<Rightarrow> Some (VDate t)
           | None \<Rightarrow> map_option VTime (parseDateTime go s)))"

subsection \<open>A library for the examples\<close>

text \<open>A golib with exact numbers, for the examples: a float64 is its rational value, decimal digits are read as
  an integer, nothing outside ASCII is a letter, and times and patterns are not read.\<close>

fun digits_value :: "nat \<Rightarrow> string \<Rightarrow> nat option" where
  "digits_value acc [] = Some acc"
| "digits_value acc (c # cs) = (if is_digit c then digits_value (10 * acc + (of_char c - 48)) cs else None)"

definition plain_go :: golib where
  "plain_go =
     \<lparr>Rat_Float64 = Fin,
      float_mul = (\<lambda>x y. case (x, y) of (Fin a, Fin b) \<Rightarrow> Fin (a * b) | _ \<Rightarrow> NaN),
      math_Pow = (\<lambda>_ _. NaN), math_Sqrt = (\<lambda>_. NaN), math_Round = id,
      float_int64 = (\<lambda>x. case x of Fin r \<Rightarrow> wrap64 \<lfloor>r\<rfloor> | _ \<Rightarrow> 0),
      FormatFloat = (\<lambda>x. case x of Fin r \<Rightarrow> int_dec \<lfloor>r\<rfloor> | _ \<Rightarrow> ''NaN''),
      ParseFloat = (\<lambda>s. map_option (\<lambda>n. Fin (of_nat n)) (digits_value 0 s)),
      Rat_SetString = (\<lambda>s. map_option of_nat (digits_value 0 s)),
      json_Marshal = (\<lambda>_. None), time_Parse = (\<lambda>_ _. None), time_Format = (\<lambda>_ _. []), Seconds = (\<lambda>_. []),
      time_Now = \<lparr>instant = 0, zone_offset = 0\<rparr>, ToUpper = id, ToLower = id,
      unicode_IsSpace = (\<lambda>_. False), unicode_IsDigit = (\<lambda>_. False), unicode_IsLetter = (\<lambda>_. False),
      Sscanf_rune = (\<lambda>_. None), re_MatchString = (\<lambda>_ _. None), re_ReplaceAllString = (\<lambda>_ _ _. None),
      Sprint_range = (\<lambda>_. []), re_Split = (\<lambda>_ _. None),
      float_add = (\<lambda>x y. case (x, y) of (Fin a, Fin b) \<Rightarrow> Fin (a + b) | _ \<Rightarrow> NaN),
      Sprintv = (\<lambda>v. case v of GStr s \<Rightarrow> s | _ \<Rightarrow> [])\<rparr>"

subsection \<open>Facts about scales\<close>

lemma scale_loop_prod: "d = 2 ^ a * 5 ^ b \<Longrightarrow> scale_loop d t f = int (max (t + a) (f + b))"
proof (induction d t f arbitrary: a b rule: scale_loop.induct)
  case (1 d t f)
  show ?case
  proof (cases a)
    case (Suc a')
    define x :: nat where "x = 2 ^ a' * 5 ^ b"
    have "1 \<le> x" "d = 2 * x" using "1.prems" Suc by (simp_all add: x_def)
    then have "d mod 2 = 0" "\<not> d \<le> 1" "d div 2 = 2 ^ a' * 5 ^ b" by (auto simp flip: x_def)
    then show ?thesis using "1.IH"(1) [of a' b] Suc by (subst scale_loop.simps) simp
  next
    case 0
    then have d: "d = 5 ^ b" using "1.prems" by simp
    show ?thesis
    proof (cases b)
      case 0
      then show ?thesis using d \<open>a = 0\<close> by (subst scale_loop.simps) simp
    next
      case (Suc b')
      define x :: nat where "x = 5 ^ b'"
      have "odd x" "1 \<le> x" "d = 5 * x" using d Suc by (simp_all add: x_def)
      then have "d mod 2 \<noteq> 0" by (simp add: even_iff_mod_2_eq_zero [symmetric])
      moreover have "\<not> d \<le> 1" "d mod 5 = 0" "d div 5 = 2 ^ 0 * 5 ^ b'"
        using \<open>1 \<le> x\<close> \<open>d = 5 * x\<close> by (auto simp flip: x_def)
      ultimately show ?thesis using "1.IH"(2) [of 0 b'] Suc \<open>a = 0\<close> by (subst scale_loop.simps) simp
    qed
  qed
qed

lemma scale_loop_nonneg: "0 \<le> scale_loop d t f \<Longrightarrow> 0 < d \<Longrightarrow> \<exists>a b. d = 2 ^ a * 5 ^ b"
proof (induction d t f rule: scale_loop.induct)
  case (1 d t f)
  consider "d = 1" | "d > 1" "d mod 2 = 0" | "d > 1" "d mod 2 \<noteq> 0" "d mod 5 = 0" | "d > 1" "d mod 2 \<noteq> 0" "d mod 5 \<noteq> 0"
    using "1.prems"(2) by linarith
  then show ?case
  proof cases
    case 1
    then show ?thesis by (metis mult_1 power_0)
  next
    case 2
    then have "0 \<le> scale_loop (d div 2) (Suc t) f" using "1.prems"(1) by (subst (asm) scale_loop.simps) simp
    moreover have "0 < d div 2" using 2 by linarith
    ultimately obtain a b where "d div 2 = 2 ^ a * 5 ^ b" using "1.IH"(1) 2 by fastforce
    then have "d = 2 ^ Suc a * 5 ^ b" using 2(2) by auto
    then show ?thesis by blast
  next
    case 3
    then have "0 \<le> scale_loop (d div 5) t (Suc f)" using "1.prems"(1) by (subst (asm) scale_loop.simps) simp
    moreover have "0 < d div 5" using 3(1,3) div_mult_mod_eq [of d 5] by (cases "d div 5") auto
    ultimately obtain a b where "d div 5 = 2 ^ a * 5 ^ b" using "1.IH"(2) 3 by fastforce
    then have "d = 2 ^ a * 5 ^ Suc b" using 3(3) by auto
    then show ?thesis by blast
  next
    case 4
    then show ?thesis using "1.prems"(1) by (subst (asm) scale_loop.simps) simp
  qed
qed

lemma dvd_power_10: "2 ^ a * 5 ^ b dvd (10 ^ k :: nat) \<longleftrightarrow> a \<le> k \<and> b \<le> k"
proof
  have ten: "(10 ^ k :: nat) = 2 ^ k * 5 ^ k" by (simp flip: power_mult_distrib)
  have cop: "coprime (2 ^ i :: nat) (5 ^ j)" for i j by (simp add: coprime_power_left_iff coprime_power_right_iff)
  assume *: "2 ^ a * 5 ^ b dvd (10 ^ k :: nat)"
  have "2 ^ a dvd (2 ^ k * 5 ^ k :: nat)" "5 ^ b dvd (5 ^ k * 2 ^ k :: nat)"
    using dvd_mult_left [OF *] dvd_mult_right [OF *] by (simp_all only: ten mult.commute)
  then have "2 ^ a dvd (2 ^ k :: nat)" "5 ^ b dvd (5 ^ k :: nat)"
    using cop coprime_dvd_mult_left_iff coprime_commute by blast+
  then show "a \<le> k \<and> b \<le> k" by (auto intro: power_dvd_imp_le)
next
  assume "a \<le> k \<and> b \<le> k"
  moreover have ten: "(10 ^ k :: nat) = 2 ^ k * 5 ^ k" by (simp flip: power_mult_distrib)
  ultimately show "2 ^ a * 5 ^ b dvd (10 ^ k :: nat)" by (simp add: le_imp_power_dvd mult_dvd_mono)
qed

lemma decimal_iff_dvd:
  assumes "quotient_of r = (p, q)"
  shows "r * 10 ^ k \<in> \<int> \<longleftrightarrow> nat q dvd 10 ^ k"
proof -
  have q: "0 < q" "coprime p q" "r = of_int p / of_int q"
    using quotient_of_denom_pos [OF assms] quotient_of_coprime [OF assms] quotient_of_div [OF assms] .
  have "r * 10 ^ k \<in> \<int> \<longleftrightarrow> of_int (p * 10 ^ k) / of_int q \<in> (\<int> :: rat set)" using q(3) by simp
  also have "\<dots> \<longleftrightarrow> q dvd p * 10 ^ k" using of_int_div_of_int_in_Ints_iff [of "p * 10 ^ k" q, where 'a = rat] q(1) by simp
  also have "\<dots> \<longleftrightarrow> q dvd 10 ^ k" using q(2) coprime_dvd_mult_right_iff coprime_commute by blast
  also have "\<dots> \<longleftrightarrow> nat q dvd 10 ^ k" using nat_dvd_iff [of q "10 ^ k"] q(1) by simp
  finally show ?thesis .
qed

lemma coprime_10:
  fixes d :: nat
  assumes "d mod 2 \<noteq> 0" "d mod 5 \<noteq> 0"
  shows "coprime d (10 ^ k)"
proof -
  have "d mod 5 \<in> {1, 2, 3, 4}" using assms(2) by auto
  then have "gcd (d mod 5) 5 = 1" by (auto simp: gcd_non_0_nat)
  then have "coprime d 5" by (metis coprime_iff_gcd_eq_1 gcd.commute gcd_red_nat)
  moreover have "coprime d 2" using assms(1) by (simp add: coprime_right_2_iff_odd even_iff_mod_2_eq_zero)
  ultimately have "coprime d (2 * 5)" by (simp only: coprime_mult_right_iff) 
  then show ?thesis by (simp add: coprime_power_right_iff)
qed

lemma scale_loop_dvd: "d dvd 10 ^ k \<Longrightarrow> 0 < d \<Longrightarrow> 0 \<le> scale_loop d t f"
proof (induction d t f rule: scale_loop.induct)
  case (1 d t f)
  show ?case
  proof (cases "d \<le> 1 \<or> d mod 2 = 0 \<or> d mod 5 = 0")
    case True
    have "d div m dvd 10 ^ k" "0 < d div m" if "d mod m = 0" for m
      using that "1.prems" dvd_trans [OF _ "1.prems"(1), of "d div m"]
      by (auto simp: mod_eq_0_iff_dvd div_dvd_iff_mult dvd_div_eq_0_iff elim: dvdE)
    with True "1.IH" show ?thesis by (subst scale_loop.simps) auto
  next
    case False
    then have "coprime d (10 ^ k)" using coprime_10 by auto
    then have "d = 1" using "1.prems"(1) by (metis coprime_absorb_left nat_dvd_1_iff_1)
    then show ?thesis using False by simp
  qed
qed

text \<open>The natural scale of a number is the number of decimals its value needs, and is negative exactly
  when no number of decimals is enough.\<close>

lemma naturalScale_decimals:
  "r * 10 ^ k \<in> \<int> \<longleftrightarrow> 0 \<le> naturalScale r \<and> naturalScale r \<le> int k"
proof -
  obtain p q where pq: "quotient_of r = (p, q)" by (cases "quotient_of r")
  have q: "0 < nat q" using quotient_of_denom_pos [OF pq] by simp
  have ns: "naturalScale r = scale_loop (nat q) 0 0" by (simp add: naturalScale_def pq)
  show ?thesis
  proof (cases "0 \<le> naturalScale r")
    case True
    then obtain a b where ab: "nat q = 2 ^ a * 5 ^ b" using scale_loop_nonneg [OF _ q] ns by metis
    have n: "naturalScale r = int (max a b)" using ns scale_loop_prod [OF ab, of 0 0] by simp
    show ?thesis unfolding decimal_iff_dvd [OF pq] n ab dvd_power_10 by auto
  next
    case False
    then have "\<not> nat q dvd 10 ^ k" using scale_loop_dvd [OF _ q] ns by metis
    then show ?thesis using False decimal_iff_dvd [OF pq] by simp
  qed
qed

text \<open>A recorded scale is wider than the value needs.\<close>

definition scale_ok :: "rat \<Rightarrow> int option \<Rightarrow> bool" where
  "scale_ok r s \<longleftrightarrow> (case s of None \<Rightarrow> True | Some n \<Rightarrow> 0 \<le> naturalScale r \<and> naturalScale r < n)"

lemma scale_ok_None [simp]: "scale_ok r None"
  by (simp add: scale_ok_def)

lemma withScale_ok: "withScale r n = VNum r' s \<Longrightarrow> r' = r \<and> scale_ok r s"
  by (auto simp: withScale_def Let_def scale_ok_def split: if_splits)

lemma naturalScale_le_scaleOf: "scale_ok r s \<Longrightarrow> naturalScale r \<le> scaleOf r s"
  by (auto simp: scale_ok_def scaleOf_def split: option.splits)

lemma decimal_scaleOf:
  assumes "scale_ok r s" "0 \<le> naturalScale r" "scaleOf r s \<le> int k"
  shows "r * 10 ^ k \<in> \<int>"
  using assms naturalScale_le_scaleOf [OF assms(1)] by (simp add: naturalScale_decimals)

lemma withScale_scaleOf:
  assumes "r * 10 ^ nat n \<in> \<int>" "0 \<le> n"
  shows "\<exists>s. withScale r n = VNum r s \<and> scale_ok r s \<and> scaleOf r s = n"
  using assms by (auto simp: naturalScale_decimals withScale_def Let_def scale_ok_def scaleOf_def)

lemma Ints_decimal_mult:
  assumes "a * 10 ^ m \<in> (\<int> :: rat set)" "b * 10 ^ n \<in> \<int>"
  shows "a * b * 10 ^ (m + n) \<in> \<int>"
proof -
  have "a * b * 10 ^ (m + n) = (a * 10 ^ m) * (b * 10 ^ n)" by (simp add: power_add)
  then show ?thesis using Ints_mult [OF assms] by (simp only:)
qed

text \<open>Addition, subtraction and multiplication keep scales as \<open>BigDecimal\<close> does: the result of adding or
  subtracting two finite decimals has the larger of their scales, that of multiplying them the sum, and the
  value always fits its scale.\<close>

theorem arithmetic_scale:
  assumes "scale_ok a sa" "scale_ok b sb" "0 \<le> naturalScale a" "0 \<le> naturalScale b"
  shows "(\<exists>s. arithmetic go ''+'' (VNum a sa) (VNum b sb) = VNum (a + b) s \<and> scale_ok (a + b) s \<and>
      scaleOf (a + b) s = max (scaleOf a sa) (scaleOf b sb)) \<and>
    (\<exists>s. arithmetic go ''-'' (VNum a sa) (VNum b sb) = VNum (a - b) s \<and> scale_ok (a - b) s \<and>
      scaleOf (a - b) s = max (scaleOf a sa) (scaleOf b sb)) \<and>
    (\<exists>s. arithmetic go ''*'' (VNum a sa) (VNum b sb) = VNum (a * b) s \<and> scale_ok (a * b) s \<and>
      scaleOf (a * b) s = scaleOf a sa + scaleOf b sb)"
proof (intro conjI)
  have sa: "0 \<le> scaleOf a sa" and sb: "0 \<le> scaleOf b sb"
    using naturalScale_le_scaleOf [OF assms(1)] naturalScale_le_scaleOf [OF assms(2)] assms(3,4) by linarith+
  define m where "m = max (scaleOf a sa) (scaleOf b sb)"
  have m: "0 \<le> m" "scaleOf a sa \<le> int (nat m)" "scaleOf b sb \<le> int (nat m)" using sa by (auto simp: m_def)
  note ints = decimal_scaleOf [OF assms(1,3)] decimal_scaleOf [OF assms(2,4)]
  have "(a + b) * 10 ^ nat m \<in> \<int>" "(a - b) * 10 ^ nat m \<in> \<int>"
    using ints(1) [OF m(2)] ints(2) [OF m(3)] by (simp_all add: ring_distribs)
  from this [THEN withScale_scaleOf, OF m(1)] sa sb
  show "\<exists>s. arithmetic go ''+'' (VNum a sa) (VNum b sb) = VNum (a + b) s \<and> scale_ok (a + b) s \<and>
      scaleOf (a + b) s = max (scaleOf a sa) (scaleOf b sb)"
    "\<exists>s. arithmetic go ''-'' (VNum a sa) (VNum b sb) = VNum (a - b) s \<and> scale_ok (a - b) s \<and>
      scaleOf (a - b) s = max (scaleOf a sa) (scaleOf b sb)"
    by (simp_all add: arithmetic_def scaleArithmetic_def Let_def m_def)
  have "a * b * 10 ^ nat (scaleOf a sa + scaleOf b sb) \<in> \<int>"
    using Ints_decimal_mult [OF ints(1) ints(2), of "nat (scaleOf a sa)" "nat (scaleOf b sb)"] sa sb
    by (simp add: nat_add_distrib)
  from withScale_scaleOf [OF this] sa sb
  show "\<exists>s. arithmetic go ''*'' (VNum a sa) (VNum b sb) = VNum (a * b) s \<and> scale_ok (a * b) s \<and>
      scaleOf (a * b) s = scaleOf a sa + scaleOf b sb"
    by (simp add: arithmetic_def scaleArithmetic_def Let_def)
qed

subsection \<open>Facts about the logic\<close>

text \<open>The three truth values in the order false, null, true: conjunction is the minimum, disjunction the
  maximum.\<close>

datatype truth = F3 | N3 | T3

instantiation truth :: linorder
begin

fun less_eq_truth :: "truth \<Rightarrow> truth \<Rightarrow> bool" where
  "less_eq_truth F3 b = True"
| "less_eq_truth N3 b = (b \<noteq> F3)"
| "less_eq_truth T3 b = (b = T3)"

definition less_truth :: "truth \<Rightarrow> truth \<Rightarrow> bool" where
  "less_truth a b \<longleftrightarrow> a \<le> b \<and> \<not> b \<le> a"

instance
proof
  fix a b c :: truth
  show "(a < b) = (a \<le> b \<and> \<not> b \<le> a)" by (rule less_truth_def)
  show "a \<le> a" by (cases a) simp_all
  show "a \<le> b \<or> b \<le> a" by (cases a; cases b) simp_all
  show "a \<le> b \<Longrightarrow> b \<le> a \<Longrightarrow> a = b" by (cases a; cases b) simp_all
  show "a \<le> b \<Longrightarrow> b \<le> c \<Longrightarrow> a \<le> c" by (cases a; cases b; cases c) simp_all
qed

end

fun truth_of :: "fval \<Rightarrow> truth" where
  "truth_of (VBool b) = (if b then T3 else F3)"
| "truth_of _ = N3"

fun of_truth :: "truth \<Rightarrow> fval" where
  "of_truth F3 = VBool False"
| "of_truth N3 = VNull"
| "of_truth T3 = VBool True"

lemma truth_cases: "toBool3 v = (case truth_of v of F3 \<Rightarrow> Some False | N3 \<Rightarrow> None | T3 \<Rightarrow> Some True)"
  by (cases v) simp_all

lemma truth_of_truth [simp]: "truth_of (of_truth t) = t"
  by (cases t) simp_all

lemma and3_min: "and3 a b = of_truth (min (truth_of a) (truth_of b))"
  by (cases "truth_of a"; cases "truth_of b") (simp_all add: and3_def truth_cases min_def)

lemma or3_max: "or3 a b = of_truth (max (truth_of a) (truth_of b))"
  by (cases "truth_of a"; cases "truth_of b") (simp_all add: or3_def truth_cases max_def)

lemma foldl_and3:
  "foldl and3 (of_truth t) vs = of_truth (foldr min (map truth_of vs) t)"
proof (induction vs arbitrary: t)
  case (Cons v vs)
  have "foldr min ts (min t u) = min (foldr min ts t) u" for ts and t u :: truth
    by (induction ts) (auto simp: min.assoc)
  with Cons show ?case by (simp add: and3_min min.commute)
qed simp

lemma foldl_or3:
  "foldl or3 (of_truth t) vs = of_truth (foldr max (map truth_of vs) t)"
proof (induction vs arbitrary: t)
  case (Cons v vs)
  have "foldr max ts (max t u) = max (foldr max ts t) u" for ts and t u :: truth
    by (induction ts) (auto simp: max.assoc)
  with Cons show ?case by (simp add: or3_max max.commute)
qed simp

subsection \<open>Facts about comparison\<close>

definition all_ordered :: "('a \<Rightarrow> 'a \<Rightarrow> int \<times> bool) \<Rightarrow> 'a list \<Rightarrow> bool" where
  "all_ordered ord xs \<longleftrightarrow> (\<forall>x \<in> set xs. \<forall>y \<in> set xs. snd (ord x y))"

text \<open>What sorting and the extremes rely on: comparability is an equivalence on the values that can be
  ordered, and among comparable values the sign of a comparison is a total preorder.\<close>

locale value_order =
  fixes ord :: "'a \<Rightarrow> 'a \<Rightarrow> int \<times> bool"
  assumes ord_sym: "snd (ord x y) \<Longrightarrow> snd (ord y x)"
    and ord_trans_ok: "snd (ord x y) \<Longrightarrow> snd (ord y z) \<Longrightarrow> snd (ord x z)"
    and ord_anti: "fst (ord x y) = - fst (ord y x)"
    and ord_trans: "snd (ord x y) \<Longrightarrow> snd (ord y z) \<Longrightarrow> fst (ord x y) \<le> 0 \<Longrightarrow> fst (ord y z) \<le> 0 \<Longrightarrow> fst (ord x z) \<le> 0"
begin

abbreviation leq :: "'a \<Rightarrow> 'a \<Rightarrow> bool" where
  "leq x y \<equiv> fst (ord x y) \<le> 0"

lemma not_less: "\<not> fst (ord x y) < 0 \<longleftrightarrow> leq y x"
  using ord_anti [of x y] by linarith

lemma mset_insert_by: "mset (insert_by ord x ys) = add_mset x (mset ys)"
  unfolding insert_by.simps by (metis mset.simps(2) mset_append takeWhile_dropWhile_id union_mset_add_mset_right)

lemma set_insert_by: "set (insert_by ord x ys) = insert x (set ys)"
  by (metis mset_insert_by set_mset_add_mset_insert set_mset_mset)

lemma sorted_insert_by:
  assumes "all_ordered ord (x # ys)" and "sorted_wrt leq ys"
  shows "sorted_wrt leq (insert_by ord x ys)"
proof -
  let ?P = "\<lambda>y. \<not> fst (ord x y) < 0"
  have "sorted_wrt leq (takeWhile ?P ys @ dropWhile ?P ys)" using assms(2) by simp
  note srt = this [unfolded sorted_wrt_append]
  have lo: "leq y x" if "y \<in> set (takeWhile ?P ys)" for y using set_takeWhileD [OF that] not_less by blast
  have hi: "leq x y" if y: "y \<in> set (dropWhile ?P ys)" for y
  proof (cases "dropWhile ?P ys")
    case Nil
    then have False using y by (metis empty_iff list.set(1))
    then show ?thesis ..
  next
    case (Cons z zs)
    have z: "leq x z" using Cons hd_dropWhile [of ?P ys] by auto
    have "sorted_wrt leq (z # zs)" using srt Cons by metis
    then have "y = z \<or> leq z y" using y Cons by auto
    moreover have "z \<in> set ys" "y \<in> set ys" using y Cons by (metis list.set_intros(1) set_dropWhileD)+
    then have "snd (ord x z)" "snd (ord z y)" using assms(1) by (auto simp: all_ordered_def)
    ultimately show ?thesis using z ord_trans by blast
  qed
  show ?thesis unfolding insert_by.simps sorted_wrt_append using srt lo hi by auto
qed

text \<open>Sorting keeps the values equal to a given one in their order.\<close>

lemma filter_insert_by:
  assumes "all_ordered ord (k # x # ys)" and "sorted_wrt leq ys"
  shows "filter (\<lambda>y. fst (ord y k) = 0) (insert_by ord x ys) = filter (\<lambda>y. fst (ord y k) = 0) (ys @ [x])"
proof -
  let ?P = "\<lambda>y. \<not> fst (ord x y) < 0" and ?K = "\<lambda>y. fst (ord y k) = 0"
  show ?thesis
  proof (cases "?K x")
    case False
    have "filter ?K (insert_by ord x ys) = filter ?K (takeWhile ?P ys @ dropWhile ?P ys)"
      unfolding insert_by.simps filter_append using False by simp
    then show ?thesis using False by simp
  next
    case True
    have "\<not> ?K y" if y: "y \<in> set (dropWhile ?P ys)" for y
    proof
      assume k: "?K y"
      have "y \<in> set ys" using y by (rule set_dropWhileD)
      then have ok: "snd (ord y k)" "snd (ord k x)" "snd (ord y x)" "\<And>z. z \<in> set ys \<Longrightarrow> snd (ord z y)" "\<And>z. z \<in> set ys \<Longrightarrow> snd (ord z x)"
        using assms(1) by (auto simp: all_ordered_def)
      have yx: "leq y x" using ord_trans [OF ok(1,2)] k True ord_anti [of k x] by simp
      obtain z zs where z: "dropWhile ?P ys = z # zs" using y by (cases "dropWhile ?P ys") auto
      have "ys = takeWhile ?P ys @ z # zs" using z by (metis takeWhile_dropWhile_id)
      then have "sorted_wrt leq (z # zs)" "z \<in> set ys" using assms(2) by (metis sorted_wrt_append, metis in_set_conv_decomp)
      then have "leq z y \<or> z = y" using y z by auto
      then have "leq z x" using ord_trans [OF ok(4) ok(3)] yx \<open>z \<in> set ys\<close> by blast
      moreover have "fst (ord x z) < 0" using z hd_dropWhile [of ?P ys] by auto
      ultimately show False using ord_anti [of x z] by simp
    qed
    then have d: "filter ?K (dropWhile ?P ys) = []" by (simp add: filter_empty_conv)
    have "filter ?K ys = filter ?K (takeWhile ?P ys @ dropWhile ?P ys)" by simp
    then show ?thesis unfolding insert_by.simps filter_append using True d by simp
  qed
qed

lemma sort_by_spec:
  assumes "all_ordered ord items" and "out = foldl (\<lambda>ys x. insert_by ord x ys) [] items"
  shows "sorted_wrt leq out" "mset out = mset items"
    "k \<in> set items \<Longrightarrow> filter (\<lambda>y. fst (ord y k) = 0) out = filter (\<lambda>y. fst (ord y k) = 0) items"
proof -
  have "sorted_wrt leq out \<and> mset out = mset items \<and>
      (\<forall>k. all_ordered ord (k # items) \<longrightarrow> filter (\<lambda>y. fst (ord y k) = 0) out = filter (\<lambda>y. fst (ord y k) = 0) items)"
    using assms
  proof (induction items arbitrary: out rule: rev_induct)
    case (snoc x items)
    define ys where "ys = foldl (\<lambda>ys x. insert_by ord x ys) [] items"
    have s: "out = insert_by ord x ys" using snoc.prems(2) by (simp add: ys_def)
    have "all_ordered ord items" using snoc.prems(1) by (auto simp: all_ordered_def)
    note IH = snoc.IH [OF this ys_def]
    then have set: "set ys = set items" by (metis set_mset_mset)
    have "all_ordered ord (x # ys)" using snoc.prems(1) by (auto simp: all_ordered_def set)
    then have so: "sorted_wrt leq out" using sorted_insert_by IH s by blast
    have st: "filter (\<lambda>y. fst (ord y k) = 0) out = filter (\<lambda>y. fst (ord y k) = 0) (items @ [x])"
      if k: "all_ordered ord (k # items @ [x])" for k
    proof -
      have "all_ordered ord (k # x # ys)" "all_ordered ord (k # items)" using k by (auto simp: all_ordered_def set)
      then show ?thesis using IH filter_insert_by [of k x ys] by (simp add: s)
    qed
    show ?case using so st IH by (simp add: s mset_insert_by)
  qed simp
  then show "sorted_wrt leq out" "mset out = mset items"
    "k \<in> set items \<Longrightarrow> filter (\<lambda>y. fst (ord y k) = 0) out = filter (\<lambda>y. fst (ord y k) = 0) items"
    using assms(1) by (auto simp: all_ordered_def)
qed

end

lemma cmp_le: "cmp a b \<le> 0 \<longleftrightarrow> a \<le> b"
  by (auto simp: cmp_def)

interpretation feel_order: value_order order
proof
  fix x y z :: fval
  show "snd (order x y) \<Longrightarrow> snd (order y x)" by (cases x; cases y) simp_all
  show "snd (order x y) \<Longrightarrow> snd (order y z) \<Longrightarrow> snd (order x z)"
    by (cases x; cases y; simp) (cases z; simp)+
  show "fst (order x y) = - fst (order y x)" by (cases x; cases y) (auto simp: cmp_def)
  show "snd (order x y) \<Longrightarrow> snd (order y z) \<Longrightarrow> fst (order x y) \<le> 0 \<Longrightarrow> fst (order y z) \<le> 0 \<Longrightarrow> fst (order x z) \<le> 0"
    by (cases x; cases y; simp) (cases z; auto simp: cmp_le)+
qed

text \<open>Sorting: the \<open>sort\<close> of values that can be ordered is a permutation of them, ascending, and
  stable.\<close>

theorem sortValues_sorts:
  assumes "sortValues items = (out, True)"
  shows "sorted_wrt (\<lambda>x y. fst (order x y) \<le> 0) out \<and> mset out = mset items \<and>
    (\<forall>k \<in> set items. filter (\<lambda>y. fst (order y k) = 0) out = filter (\<lambda>y. fst (order y k) = 0) items)"
proof (cases "length items < 2")
  case True
  then consider "items = []" | x where "items = [x]" by (cases items; cases "tl items") auto
  then show ?thesis using assms by cases (auto simp: sortValues_def insert_by.simps)
next
  case False
  then have hd: "snd (order (hd items) x)" if "x \<in> set items" for x
    using assms that by (auto simp: sortValues_def list_all_iff)
  have "all_ordered order items"
    unfolding all_ordered_def using hd feel_order.ord_sym feel_order.ord_trans_ok by blast
  moreover have "out = foldl (\<lambda>ys x. insert_by order x ys) [] items" using assms by (simp add: sortValues_def)
  ultimately show ?thesis using feel_order.sort_by_spec by blast
qed

subsection \<open>Facts about dates\<close>

text \<open>Adding months to a time lands in the month that many months later, at the same time of day, on the
  same day of the month or, where the month lacks it, on its last day.\<close>

theorem addMonths_clamps:
  assumes "time_date t = (y, m, d)" and "is_int64 (m + n)"
    and "y' = y + (m + n - 1) div 12" and "m' = (m + n - 1) mod 12 + 1"
  shows "time_date (addMonths t n) = (y', m', min d (days_in_month y' m')) \<and>
    time_of_day (addMonths t n) = time_of_day t"
proof -
  define first where "first = time_Date y (wrap64 (m + n)) 1 (Hour t) (Minute t) (Second t) (Nanosecond t) (zone_offset t)"
  have m': "1 \<le> m'" "m' \<le> 12" by (simp_all add: assms(4))
  have v: "valid_date y' m' k" if "1 \<le> k" "k \<le> days_in_month y' m'" for k using that m' by (simp add: valid_date_def)
  have len: "1 \<le> days_in_month y' m'" by (simp add: days_in_month_def)
  have f: "time_date first = (y', m', 1)" "time_of_day first = time_of_day t"
    using time_Date_day [of y "m + n" 1 t "zone_offset t"] date_of_day_number [OF v [of 1]] len assms(2,3,4)
    by (simp_all add: first_def)
  have add: "AddDate first 0 k e = time_Date y' (m' + k) (1 + e) (Hour first) (Minute first) (Second first)
      (Nanosecond first) (zone_offset first)" for k e by (simp add: AddDate_def f)
  have last: "time_date (AddDate first 0 1 (- 1)) = (y', m', days_in_month y' m')"
    unfolding add time_Date_day using day_before_next_month [OF m', of y'] date_of_day_number [OF v] len by simp
  have id: "y' + (m' - 1) div 12 = y'" "(m' - 1) mod 12 + 1 = m'" using m' by auto
  have day: "time_date (AddDate first 0 0 (k - 1)) = (y', m', k)" if "1 \<le> k" "k \<le> days_in_month y' m'" for k
    unfolding add time_Date_day using date_of_day_number [OF v [OF that]] by (simp add: id)
  have "1 \<le> d" using day_number_of_day(2) [of "local_ns t div ns_per_day"] assms(1)
    by (auto simp: time_date_def valid_date_def)
  then have "time_date (AddDate first 0 0 (min d (days_in_month y' m') - 1)) = (y', m', min d (days_in_month y' m'))"
    using len by (intro day) auto
  moreover have "time_of_day (AddDate first 0 0 k) = time_of_day t" for k
    unfolding add time_Date_day by (rule f)
  moreover have "addMonths t n = AddDate first 0 0 (min d (days_in_month y' m') - 1)"
    by (simp add: addMonths_def assms(1) Let_def last flip: first_def)
  ultimately show ?thesis by simp
qed

theorem addMonths_clamps_witness:
  "time_date (addMonths \<lparr>instant = 30 * ns_per_day, zone_offset = 0\<rparr> 1) = (1, 2, 28)"
proof -
  let ?t = "\<lparr>instant = 30 * ns_per_day, zone_offset = 0\<rparr>"
  have t: "time_date ?t = (1, 1, 31)" by code_simp
  have n: "is_int64 (1 + 1)" "min 31 (days_in_month 1 2) = 28" by code_simp+
  have y: "(1 :: int) = 1 + (1 + 1 - 1) div 12" "(2 :: int) = (1 + 1 - 1) mod 12 + 1" by simp_all
  from conjunct1 [OF addMonths_clamps [OF t n(1) y]] show ?thesis unfolding n(2) .
qed

theorem arithmetic_scale_witness:
  "\<exists>s. arithmetic plain_go ''+'' (VNum (1 / 2) (Some 2)) (VNum (1 / 4) None) = VNum (3 / 4) s \<and> scaleOf (3 / 4) s = 2"
proof -
  have n: "naturalScale (1 / 2) = 1" "naturalScale (1 / 4) = 2" by code_simp+
  have sc: "scale_ok (1 / 2) (Some 2)" "scale_ok (1 / 4) None" by (simp_all add: scale_ok_def n)
  have "scaleOf (1 / 2) (Some 2) = 2" "scaleOf (1 / 4) None = 2" by (simp_all add: scaleOf_def n)
  then show ?thesis using arithmetic_scale [OF sc, of plain_go] n by auto
qed

theorem sortValues_sorts_witness:
  "mset (fst (sortValues [VStr ''b'', VStr ''a''])) = mset [VStr ''b'', VStr ''a'']"
proof -
  have "sortValues [VStr ''b'', VStr ''a''] = ([VStr ''a'', VStr ''b''], True)" by code_simp
  from sortValues_sorts [OF this] show ?thesis using \<open>sortValues _ = _\<close> by simp
qed

end
