(* ===== verification/Feel_Builtins.thy ===== *)
theory Feel_Builtins
  imports Feel_Value
begin

text \<open>
  The built-in functions of the FEEL interpreter (\<open>internal/feel/builtins.go\<close>), one definition per
  entry of the table and the table itself. A built-in gets its arguments padded with null to its number of
  parameters, so reading one of its parameters never fails; taking a slice can, and a slice out of range is
  a panic, which the interpreter turns into an error.

  Strings are bytes; \<open>runes\<close> decodes UTF-8 the way Go's conversion to \<open>[]rune\<close> does.
\<close>

subsection \<open>Helpers\<close>

datatype feel_error =
    UnknownFunction string
  | MixedArguments string
  | UnknownNamedArgument string
  | NotArity nat
  | RangeNotInteger
  | RangeTooLarge
  | SyntaxError string
  | NotBoolean fval
  | FeelPanic
  | NoReturn

type_synonym feel_result = "feel_error + fval"

definition in_bytes :: "nat \<Rightarrow> nat \<Rightarrow> char \<Rightarrow> bool" where
  "in_bytes lo hi c \<longleftrightarrow> lo \<le> (of_char c :: nat) \<and> (of_char c :: nat) \<le> hi"

text \<open>The length of the UTF-8 encoding at the start of a byte string, 0 when there is none.\<close>

definition rune_width :: "string \<Rightarrow> nat" where
  "rune_width s =
     (let cont = in_bytes 128 191 in
      case s of
        [] \<Rightarrow> 0
      | c # cs \<Rightarrow>
          if in_bytes 0 127 c then 1
          else if in_bytes 194 223 c then
            (case cs of d # _ \<Rightarrow> if cont d then 2 else 0 | [] \<Rightarrow> 0)
          else if in_bytes 224 239 c then
            (case cs of
               d # e # _ \<Rightarrow>
                 if in_bytes (if c = char_of (224 :: nat) then 160 else 128) (if c = char_of (237 :: nat) then 159 else 191) d \<and> cont e
                 then 3 else 0
             | _ \<Rightarrow> 0)
          else if in_bytes 240 244 c then
            (case cs of
               d # e # f # _ \<Rightarrow>
                 if in_bytes (if c = char_of (240 :: nat) then 144 else 128) (if c = char_of (244 :: nat) then 143 else 191) d \<and> cont e \<and> cont f
                 then 4 else 0
             | _ \<Rightarrow> 0)
          else 0)"

definition replacement_char :: string where
  "replacement_char = map char_of [239, 191, 189 :: nat]"

function runes :: "string \<Rightarrow> string list" where
  "runes [] = []"
| "runes (c # cs) =
     (let w = rune_width (c # cs) in
      if w = 0 then replacement_char # runes cs
      else (c # take (w - 1) cs) # runes (drop (w - 1) cs))"
  by pat_completeness auto
termination by (relation "measure length") auto

fun str_index :: "string \<Rightarrow> string \<Rightarrow> nat option" where
  "str_index [] sub = (if sub = [] then Some 0 else None)"
| "str_index (c # cs) sub = (if has_prefix (c # cs) sub then Some 0 else map_option Suc (str_index cs sub))"

fun str_join :: "string list \<Rightarrow> string \<Rightarrow> string" where
  "str_join [] delim = []"
| "str_join [s] delim = s"
| "str_join (s # t # ss) delim = s @ delim @ str_join (t # ss) delim"

definition arg :: "fval list \<Rightarrow> nat \<Rightarrow> fval" where
  "arg a i = (if i < length a then a ! i else VNull)"

definition intArg :: "fval \<Rightarrow> int option" where
  "intArg v = (case v of VNum r _ \<Rightarrow> if IsInt r \<and> is_int64 (Num r) then Some (Num r) else None | _ \<Rightarrow> None)"

definition listArgs :: "fval list \<Rightarrow> fval list" where
  "listArgs a = (case a of [VList l] \<Rightarrow> l | _ \<Rightarrow> a)"

definition strFn :: "(string \<Rightarrow> fval) \<Rightarrow> fval list \<Rightarrow> feel_result" where
  "strFn f a = (case arg a 0 of VStr s \<Rightarrow> Inr (f s) | _ \<Rightarrow> Inr VNull)"

definition str2 :: "(string \<Rightarrow> string \<Rightarrow> fval) \<Rightarrow> fval list \<Rightarrow> feel_result" where
  "str2 f a = (case (arg a 0, arg a 1) of (VStr s, VStr t) \<Rightarrow> Inr (f s t) | _ \<Rightarrow> Inr VNull)"

definition numFn :: "(rat \<Rightarrow> fval) \<Rightarrow> fval list \<Rightarrow> feel_result" where
  "numFn f a = (case arg a 0 of VNum r _ \<Rightarrow> Inr (f r) | _ \<Rightarrow> Inr VNull)"

definition listFn :: "(fval list \<Rightarrow> feel_result) \<Rightarrow> fval list \<Rightarrow> feel_result" where
  "listFn f a = (case arg a 0 of VList l \<Rightarrow> f l | _ \<Rightarrow> Inr VNull)"

text \<open>\<open>l[lo:hi]\<close> with \<open>hi\<close> at most the length.\<close>

definition go_slice :: "'a list \<Rightarrow> int \<Rightarrow> int \<Rightarrow> 'a list option" where
  "go_slice l lo hi = (if 0 \<le> lo \<and> lo \<le> hi \<and> hi \<le> int (length l) then Some (take (nat (hi - lo)) (drop (nat lo) l)) else None)"

definition go_abs :: "int \<Rightarrow> int" where
  "go_abs i = (if i < 0 then wrap64 (- i) else i)"

definition floorRat :: "rat \<Rightarrow> rat" where
  "floorRat r = of_int (Num r div snd (quotient_of r))"

definition roundHalfEven :: "rat \<Rightarrow> int \<Rightarrow> rat" where
  "roundHalfEven r scale =
     (let factor = 10 ^ nat (go_abs scale);
          scaled = (if scale \<ge> 0 then r * factor else r / factor);
          f = floorRat scaled; diff = scaled - f;
          g = (if diff > 1 / 2 then f + 1 else if diff = 1 / 2 \<and> odd (Num f) then f + 1 else f)
      in if scale \<ge> 0 then g / factor else g * factor)"

fun extreme_loop :: "int \<Rightarrow> fval \<Rightarrow> fval list \<Rightarrow> fval" where
  "extreme_loop sign best [] = best"
| "extreme_loop sign best (v # vs) =
     (let (c, ok) = order v best in
      if \<not> ok then VNull else extreme_loop sign (if c * sign > 0 then v else best) vs)"

definition extreme :: "fval list \<Rightarrow> int \<Rightarrow> fval" where
  "extreme items sign = (case items of [] \<Rightarrow> VNull | b # vs \<Rightarrow> extreme_loop sign b vs)"

fun flatten_val :: "fval \<Rightarrow> fval list" where
  "flatten_val (VList inner) = concat (map flatten_val inner)"
| "flatten_val v = [v]"

definition flatten :: "fval list \<Rightarrow> fval list" where
  "flatten l = concat (map flatten_val l)"

fun contextPut :: "(string \<times> fval) list \<Rightarrow> string list \<Rightarrow> fval \<Rightarrow> (string \<times> fval) list" where
  "contextPut ctx [] v = ctx"
| "contextPut ctx [k] v = AList.update k v ctx"
| "contextPut ctx (k # k' # ks) v =
     AList.update k (VCtx (contextPut (case map_of ctx k of Some (VCtx inner) \<Rightarrow> inner | _ \<Rightarrow> []) (k' # ks) v)) ctx"

definition regexFlags :: "fval list \<Rightarrow> string" where
  "regexFlags a =
     (if length a < 3 then []
      else case a ! 2 of
        VStr f \<Rightarrow>
          (let flags = filter (\<lambda>c. c \<in> {CHR ''i'', CHR ''s'', CHR ''m''}) f
           in if flags = [] then [] else ''(?'' @ flags @ '')'')
      | _ \<Rightarrow> [])"

subsection \<open>Conversion\<close>

definition bi_number :: "golib \<Rightarrow> fval list \<Rightarrow> feel_result" where
  "bi_number go a =
     (case arg a 0 of
        VStr s \<Rightarrow> (case Rat_SetString go (trim_space s) of Some r \<Rightarrow> Inr (num r) | None \<Rightarrow> Inr VNull)
      | VNum r sc \<Rightarrow> Inr (VNum r sc)
      | _ \<Rightarrow> Inr VNull)"

definition bi_date :: "golib \<Rightarrow> fval list \<Rightarrow> feel_result" where
  "bi_date go a =
     (case arg a 0 of
        VDate t \<Rightarrow> Inr (VDate t)
      | VTime t \<Rightarrow> (case time_date t of (y, m, d) \<Rightarrow> Inr (VDate (time_Date y m d 0 0 0 0 0)))
      | VStr s \<Rightarrow> (case time_Parse go ''2006-01-02'' s of Some t \<Rightarrow> Inr (VDate t) | None \<Rightarrow> Inr VNull)
      | _ \<Rightarrow>
          if length a = 3 then
            (case (intArg (arg a 0), intArg (arg a 1), intArg (arg a 2)) of
               (Some y, Some m, Some d) \<Rightarrow> Inr (VDate (time_Date y m d 0 0 0 0 0))
             | _ \<Rightarrow> Inr VNull)
          else Inr VNull)"

definition bi_date_and_time :: "golib \<Rightarrow> fval list \<Rightarrow> feel_result" where
  "bi_date_and_time go a =
     (case arg a 0 of
        VTime t \<Rightarrow> Inr (VTime t)
      | VDate t \<Rightarrow> Inr (VTime t)
      | VStr s \<Rightarrow> (case parseDateTime go s of Some t \<Rightarrow> Inr (VTime t) | None \<Rightarrow> Inr VNull)
      | _ \<Rightarrow> Inr VNull)"

definition bi_duration :: "golib \<Rightarrow> fval list \<Rightarrow> feel_result" where
  "bi_duration go a =
     (case arg a 0 of
        VStr s \<Rightarrow> (case parseDuration go s of Some d \<Rightarrow> Inr d | None \<Rightarrow> Inr VNull)
      | _ \<Rightarrow> Inr VNull)"

definition bi_now :: "golib \<Rightarrow> fval list \<Rightarrow> feel_result" where
  "bi_now go a = Inr (VTime (time_Now go\<lparr>zone_offset := 0\<rparr>))"

definition bi_today :: "golib \<Rightarrow> fval list \<Rightarrow> feel_result" where
  "bi_today go a = Inr (VDate \<lparr>instant = instant (time_Now go) - instant (time_Now go) mod ns_per_day, zone_offset = 0\<rparr>)"

subsection \<open>Strings\<close>

definition bi_substring_before :: "fval list \<Rightarrow> feel_result" where
  "bi_substring_before = str2 (\<lambda>a b. case str_index a b of Some i \<Rightarrow> VStr (take i a) | None \<Rightarrow> VStr '''')"

definition bi_substring_after :: "fval list \<Rightarrow> feel_result" where
  "bi_substring_after = str2 (\<lambda>a b. case str_index a b of Some i \<Rightarrow> VStr (drop (i + length b) a) | None \<Rightarrow> VStr '''')"

text \<open>The end of a \<open>substring\<close> or \<open>sublist\<close>: \<open>n\<close> items from position \<open>start\<close>, or all. \<open>None\<close> is
  a length that is not an integer.\<close>

definition slice_end :: "fval \<Rightarrow> int \<Rightarrow> nat \<Rightarrow> int option" where
  "slice_end v start len =
     (if v = VNull then Some (int len)
      else case intArg v of
        None \<Rightarrow> None
      | Some l \<Rightarrow> (let e = wrap64 (start - 1 + l) in Some (if e < int len then e else int len)))"

definition bi_substring :: "fval list \<Rightarrow> feel_result" where
  "bi_substring a =
     (case (arg a 0, intArg (arg a 1)) of
        (VStr s, Some start0) \<Rightarrow>
          (let r = runes s; n = int (length r);
               start1 = (if start0 < 0 then n + start0 + 1 else start0);
               start = (if start1 < 1 then 1 else start1)
           in if start > n then Inr (VStr '''')
              else case slice_end (arg a 2) start (length r) of
                None \<Rightarrow> Inr VNull
              | Some e \<Rightarrow>
                  (case go_slice r (start - 1) e of Some part \<Rightarrow> Inr (VStr (concat part)) | None \<Rightarrow> Inl FeelPanic))
      | _ \<Rightarrow> Inr VNull)"

definition bi_matches :: "golib \<Rightarrow> fval list \<Rightarrow> feel_result" where
  "bi_matches go a =
     (case (arg a 0, arg a 1) of
        (VStr s, VStr p) \<Rightarrow>
          (case re_MatchString go (regexFlags a @ p) s of None \<Rightarrow> Inr VNull | Some b \<Rightarrow> Inr (VBool b))
      | _ \<Rightarrow> Inr VNull)"

definition bi_replace :: "golib \<Rightarrow> fval list \<Rightarrow> feel_result" where
  "bi_replace go a =
     (case (arg a 0, arg a 1, arg a 2) of
        (VStr s, VStr p, VStr rep) \<Rightarrow>
          (let flags = (if length a > 3 then regexFlags [VNull, VNull, a ! 3] else '''')
           in case re_ReplaceAllString go (flags @ p) s rep of None \<Rightarrow> Inr VNull | Some t \<Rightarrow> Inr (VStr t))
      | _ \<Rightarrow> Inr VNull)"

definition bi_split :: "golib \<Rightarrow> fval list \<Rightarrow> feel_result" where
  "bi_split go a =
     (case (arg a 0, arg a 1) of
        (VStr s, VStr d) \<Rightarrow> (case re_Split go d s of None \<Rightarrow> Inr VNull | Some ps \<Rightarrow> Inr (VList (map VStr ps)))
      | _ \<Rightarrow> Inr VNull)"

fun join_parts :: "fval list \<Rightarrow> string list option" where
  "join_parts [] = Some []"
| "join_parts (VNull # vs) = join_parts vs"
| "join_parts (VStr s # vs) = map_option ((#) s) (join_parts vs)"
| "join_parts (v # vs) = None"

definition bi_string_join :: "fval list \<Rightarrow> feel_result" where
  "bi_string_join a =
     listFn (\<lambda>l. let delim = (case arg a 1 of VStr d \<Rightarrow> d | _ \<Rightarrow> '''')
       in case join_parts l of None \<Rightarrow> Inr VNull | Some ps \<Rightarrow> Inr (VStr (str_join ps delim))) a"

subsection \<open>Lists\<close>

definition same :: "fval \<Rightarrow> fval \<Rightarrow> bool" where
  "same x y \<longleftrightarrow> equal x y = (True, True)"

definition bi_list_contains :: "fval list \<Rightarrow> feel_result" where
  "bi_list_contains a = listFn (\<lambda>l. Inr (VBool (list_ex (\<lambda>item. same item (arg a 1)) l))) a"

definition bi_count :: "fval list \<Rightarrow> feel_result" where
  "bi_count a = Inr (num (of_nat (length (listArgs a))))"

definition bi_is_empty :: "fval list \<Rightarrow> feel_result" where
  "bi_is_empty = listFn (\<lambda>l. Inr (VBool (length l = 0)))"

text \<open>The running total of \<open>sum\<close>, \<open>product\<close> and \<open>mean\<close>; \<open>None\<close> at a value that is not a number.\<close>

fun total :: "(rat \<Rightarrow> rat \<Rightarrow> rat) \<Rightarrow> rat \<Rightarrow> fval list \<Rightarrow> rat option" where
  "total f t [] = Some t"
| "total f t (VNum r _ # vs) = total f (f t r) vs"
| "total f t (v # vs) = None"

definition bi_sum :: "fval list \<Rightarrow> feel_result" where
  "bi_sum a = (case total (+) 0 (listArgs a) of Some t \<Rightarrow> Inr (num t) | None \<Rightarrow> Inr VNull)"

definition bi_product :: "fval list \<Rightarrow> feel_result" where
  "bi_product a =
     (if listArgs a = [] then Inr VNull
      else case total (*) 1 (listArgs a) of Some t \<Rightarrow> Inr (num t) | None \<Rightarrow> Inr VNull)"

definition bi_mean :: "fval list \<Rightarrow> feel_result" where
  "bi_mean a =
     (if listArgs a = [] then Inr VNull
      else case total (+) 0 (listArgs a) of Some t \<Rightarrow> Inr (num (t / of_nat (length (listArgs a)))) | None \<Rightarrow> Inr VNull)"

definition bi_all :: "fval list \<Rightarrow> feel_result" where
  "bi_all a = Inr (foldl and3 (VBool True) (listArgs a))"

definition bi_any :: "fval list \<Rightarrow> feel_result" where
  "bi_any a = Inr (foldl or3 (VBool False) (listArgs a))"

definition bi_append :: "fval list \<Rightarrow> feel_result" where
  "bi_append a = listFn (\<lambda>l. Inr (VList (l @ tl a))) a"

fun concat_lists :: "fval list \<Rightarrow> fval list option" where
  "concat_lists [] = Some []"
| "concat_lists (VList l # vs) = map_option ((@) l) (concat_lists vs)"
| "concat_lists (v # vs) = None"

definition bi_concatenate :: "fval list \<Rightarrow> feel_result" where
  "bi_concatenate a = (case concat_lists a of Some l \<Rightarrow> Inr (VList l) | None \<Rightarrow> Inr VNull)"

definition bi_index_of :: "fval list \<Rightarrow> feel_result" where
  "bi_index_of a =
     listFn (\<lambda>l. Inr (VList (map (\<lambda>i. num (of_nat (Suc i))) (filter (\<lambda>i. same (l ! i) (arg a 1)) [0..<length l])))) a"

fun distinct_loop :: "fval list \<Rightarrow> fval list \<Rightarrow> fval list" where
  "distinct_loop out [] = out"
| "distinct_loop out (item # l) =
     (if list_ex (\<lambda>seen. same item seen) out then distinct_loop out l else distinct_loop (out @ [item]) l)"

definition bi_distinct_values :: "fval list \<Rightarrow> feel_result" where
  "bi_distinct_values = listFn (\<lambda>l. Inr (VList (distinct_loop [] l)))"

definition bi_sort :: "fval list \<Rightarrow> feel_result" where
  "bi_sort = listFn (\<lambda>l. let (out, ok) = sortValues l in if \<not> ok then Inr VNull else Inr (VList out))"

definition bi_sublist :: "fval list \<Rightarrow> feel_result" where
  "bi_sublist a =
     (case (arg a 0, intArg (arg a 1)) of
        (VList l, Some start0) \<Rightarrow>
          (let n = int (length l); start = (if start0 < 0 then n + start0 + 1 else start0)
           in if start < 1 \<or> start > n then Inr VNull
              else case slice_end (arg a 2) start (length l) of
                None \<Rightarrow> Inr VNull
              | Some e \<Rightarrow>
                  (case go_slice l (start - 1) e of Some part \<Rightarrow> Inr (VList part) | None \<Rightarrow> Inl FeelPanic))
      | _ \<Rightarrow> Inr VNull)"

definition bi_remove :: "fval list \<Rightarrow> feel_result" where
  "bi_remove a =
     (case (arg a 0, intArg (arg a 1)) of
        (VList l, Some pos0) \<Rightarrow>
          (let n = int (length l) in
           if pos0 = 0 \<or> pos0 > n \<or> wrap64 (- pos0) > n then Inr VNull
           else
             (let pos = (if pos0 < 0 then n + pos0 + 1 else pos0)
              in case (go_slice l 0 (pos - 1), go_slice l pos n) of
                   (Some p, Some q) \<Rightarrow> Inr (VList (p @ q))
                 | _ \<Rightarrow> Inl FeelPanic))
      | _ \<Rightarrow> Inr VNull)"

subsection \<open>Numbers\<close>

definition bi_decimal :: "fval list \<Rightarrow> feel_result" where
  "bi_decimal a =
     (case (arg a 0, intArg (arg a 1)) of
        (VNum r _, Some scale) \<Rightarrow>
          (let rounded = roundHalfEven r scale
           in if scale < 0 then Inr (num rounded) else Inr (withScale rounded scale))
      | _ \<Rightarrow> Inr VNull)"

definition bi_ceiling :: "fval list \<Rightarrow> feel_result" where
  "bi_ceiling = numFn (\<lambda>r. let f = floorRat r in num (if f \<noteq> r then f + 1 else f))"

definition bi_modulo :: "fval list \<Rightarrow> feel_result" where
  "bi_modulo a =
     (case (arg a 0, arg a 1) of
        (VNum x _, VNum y _) \<Rightarrow> if y = 0 then Inr VNull else Inr (num (x - floorRat (x / y) * y))
      | _ \<Rightarrow> Inr VNull)"

definition bi_sqrt :: "golib \<Rightarrow> fval list \<Rightarrow> feel_result" where
  "bi_sqrt go = numFn (\<lambda>r. if r < 0 then VNull else ratFromFloat go (math_Sqrt go (Rat_Float64 go r)))"

subsection \<open>Contexts\<close>

definition bi_get_value :: "fval list \<Rightarrow> feel_result" where
  "bi_get_value a =
     (case (arg a 0, arg a 1) of
        (VCtx m, VStr k) \<Rightarrow> Inr (case map_of m k of Some v \<Rightarrow> v | None \<Rightarrow> VNull)
      | _ \<Rightarrow> Inr VNull)"

fun as_string :: "fval \<Rightarrow> string option" where
  "as_string (VStr s) = Some s"
| "as_string _ = None"

fun key_path :: "fval \<Rightarrow> string list option" where
  "key_path (VStr k) = Some [k]"
| "key_path (VList ks) = those (map as_string ks)"
| "key_path _ = Some []"

definition bi_context_put :: "fval list \<Rightarrow> feel_result" where
  "bi_context_put a =
     (case arg a 0 of
        VCtx m \<Rightarrow>
          (case key_path (arg a 1) of
             None \<Rightarrow> Inr VNull
           | Some [] \<Rightarrow> Inr VNull
           | Some ks \<Rightarrow> Inr (VCtx (contextPut m ks (arg a 2))))
      | _ \<Rightarrow> Inr VNull)"

fun merge_contexts :: "(string \<times> fval) list \<Rightarrow> fval list \<Rightarrow> (string \<times> fval) list option" where
  "merge_contexts out [] = Some out"
| "merge_contexts out (VCtx m # vs) = merge_contexts (fold (\<lambda>(k, v) acc. AList.update k v acc) m out) vs"
| "merge_contexts out (v # vs) = None"

definition bi_context_merge :: "fval list \<Rightarrow> feel_result" where
  "bi_context_merge = listFn (\<lambda>l. case merge_contexts [] l of Some m \<Rightarrow> Inr (VCtx m) | None \<Rightarrow> Inr VNull)"

definition bi_get_entries :: "fval list \<Rightarrow> feel_result" where
  "bi_get_entries a =
     (case arg a 0 of
        VCtx m \<Rightarrow> Inr (VList (map (\<lambda>k. VCtx [(''key'', VStr k),
            (''value'', case map_of m k of Some v \<Rightarrow> v | None \<Rightarrow> VNull)]) (sort (map fst m))))
      | _ \<Rightarrow> Inr VNull)"

subsection \<open>The table\<close>

record builtin =
  params :: "string list"
  fn :: "fval list \<Rightarrow> feel_result"

definition builtins :: "golib \<Rightarrow> (string \<times> builtin) list" where
  "builtins go = map (\<lambda>(name, ps, f). (name, \<lparr>params = ps, fn = f\<rparr>))
     [(''string'', [''from''], \<lambda>a. Inr (toString go (arg a 0))),
      (''number'', [''from''], bi_number go),
      (''date'', [''from''], bi_date go),
      (''date and time'', [''from''], bi_date_and_time go),
      (''duration'', [''from''], bi_duration go),
      (''now'', [], bi_now go),
      (''today'', [], bi_today go),
      (''is defined'', [''value''], \<lambda>a. Inr (VBool (arg a 0 \<noteq> VNull))),
      (''string length'', [''string''], strFn (\<lambda>s. num (of_nat (length (runes s))))),
      (''upper case'', [''string''], strFn (\<lambda>s. VStr (ToUpper go s))),
      (''lower case'', [''string''], strFn (\<lambda>s. VStr (ToLower go s))),
      (''trim'', [''string''], strFn (\<lambda>s. VStr (trim_space s))),
      (''contains'', [''string'', ''match''], str2 (\<lambda>a b. VBool (str_index a b \<noteq> None))),
      (''starts with'', [''string'', ''match''], str2 (\<lambda>a b. VBool (has_prefix a b))),
      (''ends with'', [''string'', ''match''], str2 (\<lambda>a b. VBool (has_suffix a b))),
      (''substring before'', [''string'', ''match''], bi_substring_before),
      (''substring after'', [''string'', ''match''], bi_substring_after),
      (''substring'', [''string'', ''start position'', ''length''], bi_substring),
      (''matches'', [''input'', ''pattern'', ''flags''], bi_matches go),
      (''replace'', [''input'', ''pattern'', ''replacement'', ''flags''], bi_replace go),
      (''split'', [''string'', ''delimiter''], bi_split go),
      (''string join'', [''list'', ''delimiter''], bi_string_join),
      (''list contains'', [''list'', ''element''], bi_list_contains),
      (''count'', [''list''], bi_count),
      (''is empty'', [''list''], bi_is_empty),
      (''min'', [''list''], \<lambda>a. Inr (extreme (listArgs a) (- 1))),
      (''max'', [''list''], \<lambda>a. Inr (extreme (listArgs a) 1)),
      (''sum'', [''list''], bi_sum),
      (''product'', [''list''], bi_product),
      (''mean'', [''list''], bi_mean),
      (''all'', [''list''], bi_all),
      (''any'', [''list''], bi_any),
      (''append'', [''list''], bi_append),
      (''concatenate'', [''lists''], bi_concatenate),
      (''index of'', [''list'', ''match''], bi_index_of),
      (''distinct values'', [''list''], bi_distinct_values),
      (''flatten'', [''list''], listFn (\<lambda>l. Inr (VList (flatten l)))),
      (''reverse'', [''list''], listFn (\<lambda>l. Inr (VList (rev l)))),
      (''sort'', [''list''], bi_sort),
      (''sublist'', [''list'', ''start position'', ''length''], bi_sublist),
      (''remove'', [''list'', ''position''], bi_remove),
      (''decimal'', [''n'', ''scale''], bi_decimal),
      (''floor'', [''n''], numFn (\<lambda>r. num (floorRat r))),
      (''ceiling'', [''n''], bi_ceiling),
      (''abs'', [''n''], numFn (\<lambda>r. num \<bar>r\<bar>)),
      (''modulo'', [''dividend'', ''divisor''], bi_modulo),
      (''sqrt'', [''number''], bi_sqrt go),
      (''odd'', [''number''], numFn (\<lambda>r. VBool (IsInt r \<and> odd (Num r)))),
      (''even'', [''number''], numFn (\<lambda>r. VBool (IsInt r \<and> even (Num r)))),
      (''get value'', [''m'', ''key''], bi_get_value),
      (''context put'', [''context'', ''key'', ''value''], bi_context_put),
      (''context merge'', [''contexts''], bi_context_merge),
      (''get entries'', [''m''], bi_get_entries)]"

definition multiWordFunctions :: "golib \<Rightarrow> string list" where
  "multiWordFunctions go = filter (\<lambda>name. CHR '' '' \<in> set name) (map fst (builtins go))"

end
