(* ===== verification/Feel_Eval.thy ===== *)
theory Feel_Eval
  imports Feel_Builtins
begin

text \<open>
  The evaluator of the FEEL interpreter (\<open>internal/feel/eval.go\<close>, \<open>evalCall\<close> of
  \<open>builtins.go\<close>): syntax trees, scopes and the mutually recursive evaluation of expressions, iterators
  and unary tests, as one total function.

  \<open>iterate\<close> calls a function once per combination of the iterators' values and stops at the first
  error. Here it returns those calls as a list: one scope per call, and an error where evaluating a
  collection ends the loop; \<open>run_calls\<close> makes the calls in order and stops at the first error.

  Iterating over a range up to the largest 64-bit integer never ends, because the counter wraps; that
  outcome is the error value \<open>NoReturn\<close>. A panic (\<open>FeelPanic\<close>) passes through the one place where
  an error is dropped, the trial evaluation of a filter as an index.
\<close>

subsection \<open>Syntax trees\<close>

datatype node =
    litNode fval
  | nameNode string
  | negNode node
  | binNode string node node
  | betweenNode node node node
  | inNode node "node list"
  | ifNode node node node
  | forNode "(string \<times> node) list" node
  | quantNode bool "(string \<times> node) list" node
  | listNode "node list"
  | contextNode "(string \<times> node) list"
  | rangeNode node node bool bool
  | pathNode node string
  | filterNode node node
  | callNode string "node list" "(string \<times> node) list"
  | cmpTestNode string node
  | anyTestNode
  | notTestNode "node list"

fun usesInput :: "node \<Rightarrow> bool" where
  "usesInput (litNode v) = False"
| "usesInput (nameNode name) = (name = ''?'')"
| "usesInput (negNode x) = usesInput x"
| "usesInput (binNode op l r) = (usesInput l \<or> usesInput r)"
| "usesInput (betweenNode x lo hi) = (usesInput x \<or> usesInput lo \<or> usesInput hi)"
| "usesInput (inNode x tests) = (usesInput x \<or> list_ex usesInput tests)"
| "usesInput (ifNode c t e) = (usesInput c \<or> usesInput t \<or> usesInput e)"
| "usesInput (forNode iters body) = (list_ex (\<lambda>(_, i). usesInput i) iters \<or> usesInput body)"
| "usesInput (quantNode every iters c) = (list_ex (\<lambda>(_, i). usesInput i) iters \<or> usesInput c)"
| "usesInput (listNode items) = list_ex usesInput items"
| "usesInput (contextNode entries) = list_ex (\<lambda>(_, v). usesInput v) entries"
| "usesInput (rangeNode lo hi _ _) = (usesInput lo \<or> usesInput hi)"
| "usesInput (pathNode x _) = usesInput x"
| "usesInput (filterNode x c) = (usesInput x \<or> usesInput c)"
| "usesInput (callNode _ args named) = (list_ex (\<lambda>(_, a). usesInput a) named \<or> list_ex usesInput args)"
| "usesInput (cmpTestNode _ _) = True"
| "usesInput anyTestNode = False"
| "usesInput (notTestNode tests) = list_ex usesInput tests"

subsection \<open>Scopes\<close>

text \<open>A scope and its parents, innermost first.\<close>

record scope =
  vars_of :: "(string \<times> fval) list"
  input :: fval
  hasInput :: bool

type_synonym scopes = "scope list"

fun lookup :: "scopes \<Rightarrow> string \<Rightarrow> fval" where
  "lookup [] name = VNull"
| "lookup (c # cs) name =
     (case map_of (vars_of c) name of
        Some v \<Rightarrow> v
      | None \<Rightarrow> if name = ''?'' \<and> hasInput c then input c else lookup cs name)"

definition child :: "scopes \<Rightarrow> (string \<times> fval) list \<Rightarrow> scopes" where
  "child s vs = \<lparr>vars_of = vs, input = input (hd s), hasInput = hasInput (hd s)\<rparr> # s"

definition testing :: "scopes \<Rightarrow> fval \<Rightarrow> scopes" where
  "testing s x = \<lparr>vars_of = [], input = x, hasInput = True\<rparr> # s"

subsection \<open>Iteration\<close>

text \<open>The counting loops over a range. Each round takes one unit of fuel; a range that passes the size test
  has at most 100001 values, so running out of fuel means that the counter has wrapped and the loop never
  ends.\<close>

fun count_up :: "nat \<Rightarrow> int \<Rightarrow> int \<Rightarrow> int list option" where
  "count_up 0 i b = None"
| "count_up (Suc f) i b = (if i \<le> b then map_option ((#) i) (count_up f (wrap64 (i + 1)) b) else Some [])"

fun count_down :: "nat \<Rightarrow> int \<Rightarrow> int \<Rightarrow> int list option" where
  "count_down 0 i b = None"
| "count_down (Suc f) i b = (if i \<ge> b then map_option ((#) i) (count_down f (wrap64 (i - 1)) b) else Some [])"

definition range_fuel :: nat where "range_fuel = 100002"

definition iterationValues :: "fval \<Rightarrow> feel_error + fval list" where
  "iterationValues coll =
     (case coll of
        VList c \<Rightarrow> Inr c
      | VRange lo hi loClosed hiClosed \<Rightarrow>
          (case (lo, hi) of
             (VNum l _, VNum h _) \<Rightarrow>
               if \<not> IsInt l \<or> \<not> IsInt h then Inl RangeNotInteger
               else
                 (let a0 = wrap64 (Num l); b0 = wrap64 (Num h);
                      a = (if loClosed then a0 else wrap64 (a0 + 1));
                      b = (if hiClosed then b0 else wrap64 (b0 - 1))
                  in if wrap64 (b - a) > 100000 \<or> wrap64 (a - b) > 100000 then Inl RangeTooLarge
                     else case (if a \<le> b then count_up range_fuel a b else count_down range_fuel a b) of
                       None \<Rightarrow> Inl NoReturn
                     | Some is \<Rightarrow> Inr (map (\<lambda>i. num (of_int i)) is))
           | _ \<Rightarrow> Inl RangeNotInteger)
      | VNull \<Rightarrow> Inr []
      | _ \<Rightarrow> Inr [coll])"

text \<open>Results in order, up to the first error.\<close>

fun run_calls :: "('e + 'a) list \<Rightarrow> 'e + 'a list" where
  "run_calls [] = Inr []"
| "run_calls (Inl e # rs) = Inl e"
| "run_calls (Inr a # rs) = result_bind (run_calls rs) (\<lambda>as. Inr (a # as))"

text \<open>The verdicts of unary tests in order: an error or a true verdict ends the loop.\<close>

fun any_verdict :: "fval \<Rightarrow> feel_result list \<Rightarrow> feel_result" where
  "any_verdict result [] = Inr result"
| "any_verdict result (Inl e # rs) = Inl e"
| "any_verdict result (Inr v # rs) =
     (let r = or3 result v in if r = VBool True then Inr (VBool True) else any_verdict r rs)"

definition fatal :: "feel_error \<Rightarrow> bool" where
  "fatal e \<longleftrightarrow> e = FeelPanic \<or> e = NoReturn"

text \<open>The items a list index picks; \<open>None\<close> is an index out of the list's bounds that the tests let
  through.\<close>

definition index_value :: "rat \<Rightarrow> fval list \<Rightarrow> feel_result" where
  "index_value r l =
     (if \<not> IsInt r then Inr VNull
      else
        (let i = wrap64 (Num r); n = int (length l) in
         if i > 0 \<and> i \<le> n then Inr (l ! nat (i - 1))
         else if i < 0 \<and> wrap64 (- i) \<le> n then
           (if n + i < 0 then Inl FeelPanic else Inr (l ! nat (n + i)))
         else Inr VNull))"

definition item_vars :: "fval \<Rightarrow> (string \<times> fval) list" where
  "item_vars item =
     (case item of
        VCtx m \<Rightarrow> AList.update ''item'' item (fold (\<lambda>(k, v) acc. AList.update k v acc) m [(''item'', item)])
      | _ \<Rightarrow> [(''item'', item)])"

definition countPresent :: "(string \<times> 'a) list \<Rightarrow> string list \<Rightarrow> nat" where
  "countPresent named ps = length (filter (\<lambda>p. map_of named p \<noteq> None) ps)"

text \<open>What a unary test concludes from the value of its expression.\<close>

definition test_verdict :: "bool \<Rightarrow> fval \<Rightarrow> fval \<Rightarrow> fval" where
  "test_verdict uses x v =
     (let eq = (let (e, ok) = equal x v in if \<not> ok then VNull else VBool e) in
      case v of
        VRange lo hi lc hc \<Rightarrow> inRange x lo hi lc hc
      | VList tv \<Rightarrow>
          (case x of
             VList xs \<Rightarrow> VBool (fst (equal x v))
           | _ \<Rightarrow> VBool (list_ex (\<lambda>item. equal x item = (True, True)) tv))
      | VBool b \<Rightarrow> if uses then VBool b else eq
      | _ \<Rightarrow> eq)"

subsection \<open>Evaluation\<close>

lemma result_bind_cong [fundef_cong]:
  "x = y \<Longrightarrow> (\<And>a. y = Inr a \<Longrightarrow> f a = g a) \<Longrightarrow> result_bind x f = result_bind y g"
  by (cases y) auto

fun is_test :: "node \<Rightarrow> bool" where
  "is_test (cmpTestNode _ _) = True"
| "is_test anyTestNode = True"
| "is_test _ = False"

definition pad_args :: "nat \<Rightarrow> fval list \<Rightarrow> fval list" where
  "pad_args n args = args @ replicate (n - length args) VNull"

text \<open>\<open>byPos[:used]\<close>: up to the last parameter that a named argument gives.\<close>

definition used_params :: "(string \<times> 'a) list \<Rightarrow> string list \<Rightarrow> nat" where
  "used_params named ps = length (dropWhile (\<lambda>p. map_of named p = None) (rev ps))"

text \<open>The parts of \<open>eval\<close> that are functions of their own, over the results of their subexpressions: a
  result that the code does not ask for is not looked at. \<open>cond\<close> evaluates the condition of a filter in a
  scope.\<close>

definition evalBinary :: "golib \<Rightarrow> string \<Rightarrow> feel_result \<Rightarrow> feel_result \<Rightarrow> feel_result" where
  "evalBinary go op l r =
     result_bind l (\<lambda>a.
       if op = ''and'' \<and> a = VBool False then Inr (VBool False)
       else if op = ''or'' \<and> a = VBool True then Inr (VBool True)
       else result_bind r (\<lambda>b. Inr (
         if op = ''and'' then and3 a b
         else if op = ''or'' then or3 a b
         else if op \<in> {''='', ''!='', ''<'', ''<='', ''>'', ''>=''} then compareOp op a b
         else arithmetic go op a b)))"

definition keep_items :: "(scopes \<Rightarrow> feel_result) \<Rightarrow> scopes \<Rightarrow> fval list \<Rightarrow> feel_result" where
  "keep_items cond s l =
     result_bind (run_calls (map (\<lambda>item. cond (child s (item_vars item))) l))
       (\<lambda>ks. Inr (VList (map fst (filter (\<lambda>(item, k). k = VBool True) (zip l ks)))))"

definition evalFilter :: "(scopes \<Rightarrow> feel_result) \<Rightarrow> scopes \<Rightarrow> feel_result \<Rightarrow> feel_result" where
  "evalFilter cond s x =
     result_bind x (\<lambda>v.
       if v = VNull then Inr VNull
       else
         (let l = (case v of VList l \<Rightarrow> l | _ \<Rightarrow> [v]) in
          case cond s of
            Inl e \<Rightarrow> if fatal e then Inl e else keep_items cond s l
          | Inr (VNum r _) \<Rightarrow> index_value r l
          | Inr _ \<Rightarrow> keep_items cond s l))"

definition named_args :: "string \<Rightarrow> string list \<Rightarrow> (string \<times> feel_result) list \<Rightarrow> feel_error + fval list" where
  "named_args f ps named =
     result_bind (run_calls (map (\<lambda>p. case map_of named p of Some r \<Rightarrow> r | None \<Rightarrow> Inr VNull) ps))
       (\<lambda>byPos. if length named \<noteq> countPresent named ps then Inl (UnknownNamedArgument f)
          else Inr (take (used_params named ps) byPos))"

definition evalCall :: "golib \<Rightarrow> string \<Rightarrow> feel_result list \<Rightarrow> (string \<times> feel_result) list \<Rightarrow> feel_result" where
  "evalCall go f args named =
     (case map_of (builtins go) f of
        None \<Rightarrow> Inl (UnknownFunction f)
      | Some b \<Rightarrow>
          result_bind (run_calls args) (\<lambda>vs.
            result_bind
              (if named = [] then Inr vs
               else if vs \<noteq> [] then Inl (MixedArguments f)
               else named_args f (params b) named)
              (\<lambda>as. fn b (pad_args (length (params b)) as))))"

text \<open>The measure of the recursion: a test node used as an expression goes through the tests back to its
  operand.\<close>

definition eval_weight :: "node \<Rightarrow> nat" where
  "eval_weight n = 4 * size n + (if is_test n then 3 else 0)"

definition tests_weight :: "node list \<Rightarrow> nat" where
  "tests_weight ts = sum_list (map (\<lambda>t. 4 * size t + 1) ts) + 1"

definition iters_weight :: "(string \<times> node) list \<Rightarrow> nat" where
  "iters_weight is = 4 * size_list (size_prod (\<lambda>_. 0) size) is"

lemma tests_weight_less: "4 * size_list size ts + 1 < k \<Longrightarrow> tests_weight ts < k"
proof -
  have "tests_weight ts \<le> 4 * size_list size ts + 1" by (induction ts) (auto simp: tests_weight_def)
  then show "4 * size_list size ts + 1 < k \<Longrightarrow> tests_weight ts < k" by linarith
qed

lemma unary_weight: "t \<in> set ts \<Longrightarrow> 4 * size t + 1 < tests_weight ts"
  by (induction ts) (auto simp: tests_weight_def)

lemma list_weight: "n \<in> set ns \<Longrightarrow> 4 * size n + 3 < 4 * size_list size ns" for n :: node
  by (induction ns) auto

lemma named_weight: "(k, n) \<in> set named \<Longrightarrow> 4 * size n + 3 < 4 * size_list (size_prod (\<lambda>_. 0) size) named" for n :: node
  by (induction named) auto

lemma test_weight: "tests_weight [n] = 4 * size n + 2"
  by (simp add: tests_weight_def)

function eval :: "golib \<Rightarrow> node \<Rightarrow> scopes \<Rightarrow> feel_result"
  and eval_entries :: "golib \<Rightarrow> (string \<times> fval) list \<Rightarrow> (string \<times> node) list \<Rightarrow> scopes \<Rightarrow> feel_error + (string \<times> fval) list"
  and iterate :: "golib \<Rightarrow> (string \<times> node) list \<Rightarrow> scopes \<Rightarrow> (feel_error + scopes) list"
  and anyTest :: "golib \<Rightarrow> node list \<Rightarrow> fval \<Rightarrow> scopes \<Rightarrow> feel_result"
  and unaryTest :: "golib \<Rightarrow> node \<Rightarrow> fval \<Rightarrow> scopes \<Rightarrow> feel_result" where
  "eval go (litNode v) s = Inr v"
| "eval go (nameNode name) s = Inr (lookup s name)"
| "eval go (negNode x) s =
     result_bind (eval go x s) (\<lambda>v. Inr (case v of
        VNum r _ \<Rightarrow> num (- r)
      | VDT d \<Rightarrow> VDT (wrap64 (- d))
      | VYM m \<Rightarrow> VYM (wrap64 (- m))
      | _ \<Rightarrow> VNull))"
| "eval go (binNode op l r) s = evalBinary go op (eval go l s) (eval go r s)"
| "eval go (betweenNode x lo hi) s =
     result_bind (eval go x s) (\<lambda>v.
     result_bind (eval go lo s) (\<lambda>l.
     result_bind (eval go hi s) (\<lambda>h.
       Inr (and3 (compareOp ''>='' v l) (compareOp ''<='' v h)))))"
| "eval go (inNode x tests) s = result_bind (eval go x s) (\<lambda>v. anyTest go tests v s)"
| "eval go (ifNode c t e) s =
     result_bind (eval go c s) (\<lambda>b. if b = VBool True then eval go t s else eval go e s)"
| "eval go (forNode iters body) s =
     result_bind (run_calls (map (\<lambda>r. result_bind r (\<lambda>inner. eval go body inner)) (iterate go iters s)))
       (\<lambda>out. Inr (VList out))"
| "eval go (quantNode every iters c) s =
     result_bind (run_calls (map (\<lambda>r. result_bind r (\<lambda>inner. eval go c inner)) (iterate go iters s)))
       (\<lambda>vs. Inr (foldl (if every then and3 else or3) (VBool every) vs))"
| "eval go (listNode items) s =
     result_bind (run_calls (map (\<lambda>i. eval go i s) items)) (\<lambda>vs. Inr (VList vs))"
| "eval go (contextNode entries) s =
     result_bind (eval_entries go [] entries s) (\<lambda>m. Inr (VCtx m))"
| "eval go (rangeNode lo hi lc hc) s =
     result_bind (eval go lo s) (\<lambda>l. result_bind (eval go hi s) (\<lambda>h. Inr (VRange l h lc hc)))"
| "eval go (pathNode x name) s = result_bind (eval go x s) (\<lambda>v. Inr (path v name))"
| "eval go (filterNode x c) s = evalFilter (\<lambda>t. eval go c t) s (eval go x s)"
| "eval go (callNode f args named) s =
     evalCall go f (map (\<lambda>a. eval go a s) args) (map (\<lambda>(k, a). (k, eval go a s)) named)"
| "eval go (cmpTestNode op x) s = anyTest go [cmpTestNode op x] (lookup s ''?'') s"
| "eval go anyTestNode s = anyTest go [anyTestNode] (lookup s ''?'') s"
| "eval go (notTestNode tests) s =
     (if hasInput (hd s) then result_bind (anyTest go tests (input (hd s)) s) (\<lambda>ok. Inr (not3 ok))
      else case tests of
        [t] \<Rightarrow> result_bind (eval go t s) (\<lambda>v. Inr (not3 v))
      | _ \<Rightarrow> Inl (NotArity (length tests)))"
| "eval_entries go ctx [] s = Inr ctx"
| "eval_entries go ctx ((k, n) # rest) s =
     result_bind (eval go n (child s ctx)) (\<lambda>v. eval_entries go (AList.update k v ctx) rest s)"
| "iterate go [] s = [Inr s]"
| "iterate go ((name, coll) # rest) s =
     (case result_bind (eval go coll s) iterationValues of
        Inl e \<Rightarrow> [Inl e]
      | Inr items \<Rightarrow> concat (map (\<lambda>item. iterate go rest (child s [(name, item)])) items))"
| "anyTest go tests x s = any_verdict (VBool False) (map (\<lambda>t. unaryTest go t x s) tests)"
| "unaryTest go t x s =
     (case t of
        anyTestNode \<Rightarrow> Inr (VBool True)
      | cmpTestNode op y \<Rightarrow> result_bind (eval go y (testing s x)) (\<lambda>r. Inr (compareOp op x r))
      | notTestNode tests \<Rightarrow> result_bind (anyTest go tests x (testing s x)) (\<lambda>ok. Inr (not3 ok))
      | _ \<Rightarrow> result_bind (eval go t (testing s x)) (\<lambda>v. Inr (test_verdict (usesInput t) x v)))"
  by pat_completeness auto
termination
  by (relation "measure (\<lambda>x. case x of
      Inl (Inl (go, n, s)) \<Rightarrow> eval_weight n
    | Inl (Inr (go, ctx, es, s)) \<Rightarrow> iters_weight es
    | Inr (Inl (go, is, s)) \<Rightarrow> iters_weight is
    | Inr (Inr (Inl (go, ts, x, s))) \<Rightarrow> tests_weight ts
    | Inr (Inr (Inr (go, t, x, s))) \<Rightarrow> 4 * size t + 1)";
    simp add: eval_weight_def iters_weight_def test_weight;
    auto dest!: list_weight named_weight simp: unary_weight [simplified] intro!: tests_weight_less)

declare anyTest.simps [simp del] unaryTest.simps [simp del]

text \<open>\<open>rootScope\<close> of \<open>api.go\<close>: the process variables as FEEL values.\<close>

definition rootScope :: "golib \<Rightarrow> vars \<Rightarrow> scopes" where
  "rootScope go vs = [\<lparr>vars_of = map (\<lambda>(k, v). (k, ToFEEL go (json_goval v))) vs, input = VNull, hasInput = False\<rparr>]"

subsection \<open>An expression depends on the names it mentions\<close>

fun names :: "node \<Rightarrow> string list" where
  "names (litNode v) = []"
| "names (nameNode name) = [name]"
| "names (negNode x) = names x"
| "names (binNode op l r) = names l @ names r"
| "names (betweenNode x lo hi) = names x @ names lo @ names hi"
| "names (inNode x tests) = names x @ concat (map names tests)"
| "names (ifNode c t e) = names c @ names t @ names e"
| "names (forNode iters body) = concat (map (\<lambda>(_, i). names i) iters) @ names body"
| "names (quantNode every iters c) = concat (map (\<lambda>(_, i). names i) iters) @ names c"
| "names (listNode items) = concat (map names items)"
| "names (contextNode entries) = concat (map (\<lambda>(_, v). names v) entries)"
| "names (rangeNode lo hi _ _) = names lo @ names hi"
| "names (pathNode x _) = names x"
| "names (filterNode x c) = names x @ names c"
| "names (callNode _ args named) = concat (map names args) @ concat (map (\<lambda>(_, a). names a) named)"
| "names (cmpTestNode _ x) = ''?'' # names x"
| "names anyTestNode = [''?'']"
| "names (notTestNode tests) = concat (map names tests)"

abbreviation iter_names :: "(string \<times> node) list \<Rightarrow> string list" where
  "iter_names iters \<equiv> concat (map (\<lambda>(_, i). names i) iters)"

definition agree :: "string set \<Rightarrow> scopes \<Rightarrow> scopes \<Rightarrow> bool" where
  "agree N s s' \<longleftrightarrow> hasInput (hd s) = hasInput (hd s') \<and> input (hd s) = input (hd s') \<and>
     (\<forall>x \<in> N. lookup s x = lookup s' x)"

lemma agree_subset: "agree N s s' \<Longrightarrow> M \<subseteq> N \<Longrightarrow> agree M s s'"
  by (auto simp: agree_def)

lemma agree_child: "agree N s s' \<Longrightarrow> agree N (child s vs) (child s' vs)"
  by (auto simp: agree_def child_def split: option.splits)

lemma agree_testing: "agree N s s' \<Longrightarrow> agree N (testing s x) (testing s' x)"
  by (auto simp: agree_def testing_def)

lemma agree_Un: "agree (M \<union> N) s s' \<longleftrightarrow> agree M s s' \<and> agree N s s'"
  by (auto simp: agree_def)

lemma agree_UN: "agree (\<Union>x \<in> A. f x) s s' \<Longrightarrow> x \<in> A \<Longrightarrow> agree (f x) s s'"
  by (auto simp: agree_def)

lemma agree_lookup: "agree N s s' \<Longrightarrow> x \<in> N \<Longrightarrow> lookup s x = lookup s' x"
  by (simp add: agree_def)

lemma map_calls_agree:
  assumes "list_all2 (rel_sum (=) (agree N)) rs rs'"
    and "\<And>t t'. Inr t \<in> set rs \<Longrightarrow> agree N t t' \<Longrightarrow> f t = f t'"
  shows "map (\<lambda>r. result_bind r f) rs = map (\<lambda>r. result_bind r f) rs'"
  using assms by (induction rs rs' rule: list_all2_induct) (auto elim!: rel_sum.cases)

lemma concat_list_all2:
  "(\<And>x. x \<in> set xs \<Longrightarrow> list_all2 P (f x) (g x)) \<Longrightarrow> list_all2 P (concat (map f xs)) (concat (map g xs))"
  by (induction xs) (auto intro: list_all2_appendI)

text \<open>A unary test is a test node, or an expression whose value decides.\<close>

fun plain_expr :: "node \<Rightarrow> bool" where
  "plain_expr (cmpTestNode _ _) = False"
| "plain_expr anyTestNode = False"
| "plain_expr (notTestNode _) = False"
| "plain_expr _ = True"

lemma test_cases [case_names plain cmp neg anything]:
  obtains "plain_expr t" | op y where "t = cmpTestNode op y" | ts where "t = notTestNode ts" | "t = anyTestNode"
  by (cases t) auto

lemma unaryTest_plain:
  "plain_expr t \<Longrightarrow> unaryTest go t x s = result_bind (eval go t (testing s x)) (\<lambda>v. Inr (test_verdict (usesInput t) x v))"
  by (cases t) (simp_all only: unaryTest.simps node.case plain_expr.simps)

lemma unaryTest_tests:
  "unaryTest go anyTestNode x s = Inr (VBool True)"
  "unaryTest go (cmpTestNode op y) x s = result_bind (eval go y (testing s x)) (\<lambda>r. Inr (compareOp op x r))"
  "unaryTest go (notTestNode ts) x s = result_bind (anyTest go ts x (testing s x)) (\<lambda>ok. Inr (not3 ok))"
  by (simp_all add: unaryTest.simps)

lemma evalFilter_agree:
  assumes "f s = f s'" and "\<And>vs. f (child s vs) = f (child s' vs)"
  shows "evalFilter f s x = evalFilter f s' x"
proof -
  have keep: "keep_items f s = keep_items f s'" by (rule ext) (simp add: keep_items_def assms(2))
  show ?thesis unfolding evalFilter_def assms(1) keep ..
qed

lemma eval_agree:
  "agree (set (names n)) s s' \<Longrightarrow> eval go n s = eval go n s'"
  and "agree (set (iter_names es)) s s' \<Longrightarrow> eval_entries go ctx es s = eval_entries go ctx es s'"
  and "agree (set (iter_names iters) \<union> N) s s' \<Longrightarrow> list_all2 (rel_sum (=) (agree N)) (iterate go iters s) (iterate go iters s')"
  and "agree (set (concat (map names ts))) s s' \<Longrightarrow> anyTest go ts x s = anyTest go ts x s'"
  and "agree (set (names t)) s s' \<Longrightarrow> unaryTest go t x s = unaryTest go t x s'"
proof (induction go n s and go ctx es s and go iters s and go ts x s and go t x s
    arbitrary: s' and s' and N s' and s' and s'
    rule: eval_eval_entries_iterate_anyTest_unaryTest.induct)
  case (3 go x s)
  then show ?case by simp
next
  case (4 go op l r s)
  then have "eval go l s = eval go l s'" "eval go r s = eval go r s'" by (simp_all add: agree_Un)
  then show ?case by simp
next
  case (5 go x lo hi s)
  then show ?case by (auto simp: agree_Un intro!: result_bind_cong)
next
  case (6 go x tests s)
  then show ?case by (auto simp: agree_Un intro!: result_bind_cong)
next
  case (7 go c t e s)
  then show ?case by (auto simp: agree_Un intro!: result_bind_cong)
next
  case (8 go iters body s)
  have "map (\<lambda>r. result_bind r (eval go body)) (iterate go iters s) = map (\<lambda>r. result_bind r (eval go body)) (iterate go iters s')"
    by (rule map_calls_agree [of "set (names body)"]) (use 8 in \<open>auto simp: agree_Un\<close>)
  then show ?case by simp
next
  case (9 go every iters c s)
  have "map (\<lambda>r. result_bind r (eval go c)) (iterate go iters s) = map (\<lambda>r. result_bind r (eval go c)) (iterate go iters s')"
    by (rule map_calls_agree [of "set (names c)"]) (use 9 in \<open>auto simp: agree_Un\<close>)
  then show ?case by simp
next
  case (10 go items s)
  then have "map (\<lambda>i. eval go i s) items = map (\<lambda>i. eval go i s') items" by (auto dest: agree_UN)
  then show ?case by (simp only: eval.simps)
next
  case (12 go lo hi lc hc s)
  then show ?case by (auto simp: agree_Un intro!: result_bind_cong)
next
  case (14 go x c s)
  then have "eval go x s = eval go x s'" "eval go c s = eval go c s'"
    "eval go c (child s vs) = eval go c (child s' vs)" for vs
    using agree_child [of "set (names c)" s s'] by (auto simp: agree_Un)
  then show ?case unfolding eval.simps using evalFilter_agree [of "eval go c" s s'] by simp
next
  case (15 go f args named s)
  have "map (\<lambda>a. eval go a s) args = map (\<lambda>a. eval go a s') args"
    using "15.IH"(1) "15.prems" by (auto simp: agree_Un dest: agree_UN)
  moreover have "map (\<lambda>(k, a). (k, eval go a s)) named = map (\<lambda>(k, a). (k, eval go a s')) named"
  proof (rule map_cong [OF refl], clarsimp)
    fix k a assume a: "(k, a) \<in> set named"
    then have "agree (set (names a)) s s'" using "15.prems" by (auto simp: agree_Un dest: agree_UN)
    then show "eval go a s = eval go a s'" using "15.IH"(2) [OF a refl] by simp
  qed
  ultimately show ?case by (simp only: eval.simps)
next
  case (18 go tests s)
  have h: "hasInput (hd s) = hasInput (hd s')" "input (hd s) = input (hd s')" using 18 by (auto simp: agree_def)
  show ?case
  proof (cases "hasInput (hd s)")
    case True
    then show ?thesis using 18 h by simp
  next
    case False
    have "eval go t s = eval go t s'" if "tests = [t]" for t using "18.IH"(2) [OF False that] "18.prems" that by simp
    then show ?thesis using False h by (simp split: list.split)
  qed
next
  case (20 go ctx k n rest s)
  have n: "eval go n (child s ctx) = eval go n (child s' ctx)"
    using 20 agree_child by (auto simp: agree_Un)
  have "agree (set (iter_names rest)) s s'" using "20.prems" by (simp add: agree_Un)
  then show ?case unfolding eval_entries.simps n using "20.IH"(2) n by (auto intro!: result_bind_cong)
next
  case (22 go name coll rest s)
  have c: "eval go coll s = eval go coll s'" using 22 by (simp add: agree_Un)
  have "list_all2 (rel_sum (=) (agree N)) (iterate go rest (child s [(name, item)])) (iterate go rest (child s' [(name, item)]))"
    if "result_bind (eval go coll s) iterationValues = Inr items" "item \<in> set items" for items item
    using "22.IH"(2) [OF that] "22.prems" agree_child by (auto simp: agree_Un)
  then show ?case unfolding iterate.simps c by (auto intro: concat_list_all2 simp: c split: sum.split)
next
  case (23 go tests x s)
  have "map (\<lambda>t. unaryTest go t x s) tests = map (\<lambda>t. unaryTest go t x s') tests"
    using "23.IH" "23.prems" by (auto dest: agree_UN)
  then show ?case by (simp only: anyTest.simps)
next
  case (24 go t x s)
  have ag: "agree (set (names t)) (testing s x) (testing s' x)" using "24.prems" by (rule agree_testing)
  show ?case
  proof (cases t rule: test_cases)
    case plain
    have "eval go t (testing s x) = eval go t (testing s' x)"
      using "24.IH" ag plain by (cases t; simp only: plain_expr.simps)
    then show ?thesis by (simp only: unaryTest_plain [OF plain])
  next
    case (cmp op y)
    have "agree (set (names y)) (testing s x) (testing s' x)" by (rule agree_subset [OF ag]) (auto simp: cmp)
    from "24.IH"(16) [OF cmp this] show ?thesis by (simp add: unaryTest.simps cmp)
  next
    case (neg ts)
    then show ?thesis using "24.IH"(17) [OF neg] ag by (simp add: unaryTest.simps)
  qed (simp add: unaryTest.simps)
qed (auto simp: agree_Un agree_lookup)

end
