(* ===== verification/Feel_Types.thy ===== *)
theory Feel_Types
  imports Feel_Eval
begin

text \<open>
  The type invariant of FEEL values: contexts have distinct keys, durations are 64-bit integers and a
  recorded scale is wider than its number needs. Every operation, every built-in and evaluation itself
  keep it.
\<close>

named_theorems feel_wf \<open>operations that keep values well-formed\<close>

subsection \<open>The invariant\<close>

fun value_wf :: "fval \<Rightarrow> bool" where
  "value_wf (VNum r s) = scale_ok r s"
| "value_wf (VList vs) = list_all value_wf vs"
| "value_wf (VCtx m) = (distinct (map fst m) \<and> list_all (\<lambda>(_, v). value_wf v) m)"
| "value_wf (VDT n) = is_int64 n"
| "value_wf (VYM n) = is_int64 n"
| "value_wf (VRange lo hi _ _) = (value_wf lo \<and> value_wf hi)"
| "value_wf _ = True"

definition ctx_wf :: "(string \<times> fval) list \<Rightarrow> bool" where
  "ctx_wf m \<longleftrightarrow> distinct (map fst m) \<and> list_all (\<lambda>(_, v). value_wf v) m"

lemma value_wf_VCtx [simp]: "value_wf (VCtx m) \<longleftrightarrow> ctx_wf m"
  by (simp add: ctx_wf_def)

declare value_wf.simps(3) [simp del]

lemma ctx_wf_Nil [simp]: "ctx_wf []"
  by (simp add: ctx_wf_def)

lemma ctx_wf_single [simp]: "ctx_wf [(k, v)] \<longleftrightarrow> value_wf v"
  by (simp add: ctx_wf_def)

text \<open>A conversion to \<open>int64\<close> gives an \<open>int64\<close>.\<close>

definition golib_ok :: "golib \<Rightarrow> bool" where
  "golib_ok go \<longleftrightarrow> (\<forall>f. is_int64 (float_int64 go f))"

definition result_wf :: "feel_result \<Rightarrow> bool" where
  "result_wf r \<longleftrightarrow> (case r of Inl _ \<Rightarrow> True | Inr v \<Rightarrow> value_wf v)"

lemma result_wf_simps [simp]: "result_wf (Inl e)" "result_wf (Inr v) \<longleftrightarrow> value_wf v"
  by (simp_all add: result_wf_def)

lemma result_wf_bind: "(\<And>a. r = Inr a \<Longrightarrow> result_wf (f a)) \<Longrightarrow> result_wf (result_bind r f)"
  by (cases r) auto

subsection \<open>Values\<close>

lemma withScale_wf [feel_wf]: "value_wf (withScale r n)"
  using withScale_ok [of r n] by (cases "withScale r n") (auto simp: withScale_def Let_def split: if_splits)

lemma scaleArithmetic_wf [feel_wf]: "value_wf (scaleArithmetic op a b r)"
  by (simp add: scaleArithmetic_def Let_def feel_wf)

lemma ratFromFloat_wf [feel_wf]: "value_wf (ratFromFloat go f)"
  by (auto simp: ratFromFloat_def split: float64.splits option.splits)

lemma power_wf [feel_wf]: "value_wf (power go b e)"
  by (auto simp: power_def Let_def feel_wf)

lemma ratTimesInt64_int64: "golib_ok go \<Longrightarrow> is_int64 (ratTimesInt64 go r n)"
  by (simp add: golib_ok_def ratTimesInt64_def)

lemma time_Sub_int64 [simp]: "is_int64 (time_Sub t u)"
  by (auto simp: time_Sub_def is_int64_def MinInt64_def MaxInt64_def)

lemma temporalArithmetic_wf [feel_wf]: "value_wf (temporalArithmetic op t r b)"
  by (auto simp: temporalArithmetic_def Let_def split: fval.splits)

lemma arithmetic_wf [feel_wf]: "golib_ok go \<Longrightarrow> value_wf (arithmetic go op l r)"
  by (auto simp: arithmetic_def feel_wf ratTimesInt64_int64 split: fval.splits)

lemma logic_wf [feel_wf]: "value_wf (and3 a b)" "value_wf (or3 a b)" "value_wf (not3 a)"
  by (auto simp: and3_def or3_def not3_def Let_def split: option.splits)

lemma compareOp_wf [feel_wf]: "value_wf (compareOp op l r)"
  by (auto simp: compareOp_def split: prod.splits)

lemma inRange_wf [feel_wf]: "value_wf (inRange x lo hi lc hc)"
  by (simp add: feel_wf)

lemma ctx_lookup_wf: "ctx_wf m \<Longrightarrow> map_of m k = Some v \<Longrightarrow> value_wf v"
  by (auto simp: ctx_wf_def list_all_iff dest: map_of_SomeD)

lemma list_all_update: "list_all P m \<Longrightarrow> P (k, v) \<Longrightarrow> list_all P (AList.update k v m)"
  by (induction m) auto

lemma ctx_update_wf [feel_wf]: "ctx_wf m \<Longrightarrow> value_wf v \<Longrightarrow> ctx_wf (AList.update k v m)"
  by (simp add: ctx_wf_def distinct_update list_all_update)

lemma ctx_updates_wf: "ctx_wf m \<Longrightarrow> ctx_wf new \<Longrightarrow> ctx_wf (fold (\<lambda>(k, v) acc. AList.update k v acc) new m)"
proof (induction new arbitrary: m)
  case (Cons p new)
  obtain k v where p: "p = (k, v)" by (cases p)
  have "value_wf v" "ctx_wf new" using Cons.prems(2) p by (auto simp: ctx_wf_def)
  then show ?case using Cons.IH [of "AList.update k v m"] Cons.prems(1) p by (simp add: ctx_update_wf)
qed simp

lemma temporalComponent_wf [feel_wf]: "value_wf (temporalComponent t name)"
  by (auto simp: temporalComponent_def split: prod.splits)

lemma path_wf [feel_wf]: "value_wf v \<Longrightarrow> value_wf (path v name)"
  by (induction v name rule: path.induct) (auto simp: feel_wf list_all_iff dest: ctx_lookup_wf split: option.splits)

lemma toString_wf [feel_wf]: "value_wf (toString go v)"
  by (auto simp: toString_def split: fval.splits option.splits)

lemma read_units_int64:
  assumes "read_units go us n cs s = Some s'" and "is_int64 (months s)" "is_int64 (nanos s)"
    and "\<And>c step f t. map_of us c = Some step \<Longrightarrow> is_int64 (months t) \<Longrightarrow> is_int64 (nanos t) \<Longrightarrow>
      is_int64 (months (step f t)) \<and> is_int64 (nanos (step f t))"
  shows "is_int64 (months s') \<and> is_int64 (nanos s')"
  using assms by (induction go us n cs s rule: read_units.induct) (auto split: if_splits option.splits)

lemma duration_units_int64:
  "map_of (date_units go) c = Some step \<or> map_of (time_units go) c = Some step \<Longrightarrow> is_int64 (months t) \<Longrightarrow>
   is_int64 (nanos t) \<Longrightarrow> is_int64 (months (step f t)) \<and> is_int64 (nanos (step f t))"
  by (auto simp: date_units_def time_units_def add_months_def add_nanos_def split: if_splits)

lemma parseDuration_wf [feel_wf]: "parseDuration go s = Some v \<Longrightarrow> value_wf v"
proof -
  assume v: "parseDuration go s = Some v"
  let ?s0 = "\<lparr>months = 0, nanos = 0, has_ym = False, has_dt = False\<rparr>"
  have zero: "is_int64 (months ?s0)" "is_int64 (nanos ?s0)" by (simp_all add: is_int64_def MinInt64_def MaxInt64_def)
  from v obtain ds ts s1 s2 where "read_units go (date_units go) [] ds ?s0 = Some s1"
    and s2: "s2 = s1 \<or> read_units go (time_units go) [] ts s1 = Some s2"
    and "v = VYM (wrap64 (- months s2)) \<or> v = VYM (months s2) \<or> v = VDT (wrap64 (- nanos s2)) \<or> v = VDT (nanos s2)"
    by (auto simp: parseDuration_def Let_def bind_eq_Some_conv split: if_splits option.splits)
  moreover from this(1) have "is_int64 (months s1) \<and> is_int64 (nanos s1)"
    by (rule read_units_int64 [OF _ zero]) (use duration_units_int64 in blast)
  with s2 have "is_int64 (months s2) \<and> is_int64 (nanos s2)"
    using read_units_int64 [of go "time_units go" "[]" ts s1 s2] duration_units_int64 by blast
  ultimately show ?thesis by auto
qed

subsection \<open>Built-ins\<close>

abbreviation args_wf :: "fval list \<Rightarrow> bool" where
  "args_wf a \<equiv> list_all value_wf a"

lemma arg_wf: "args_wf a \<Longrightarrow> value_wf (arg a i)"
  by (simp add: arg_def list_all_length)

lemma arg_cases_wf:
  "args_wf a \<Longrightarrow> arg a i = VList l \<Longrightarrow> args_wf l"
  "args_wf a \<Longrightarrow> arg a i = VCtx m \<Longrightarrow> ctx_wf m"
  "args_wf a \<Longrightarrow> arg a i = VNum r s \<Longrightarrow> scale_ok r s"
  by (metis arg_wf value_wf.simps(1,2) value_wf_VCtx)+

lemma listArgs_wf: "args_wf a \<Longrightarrow> args_wf (listArgs a)"
  by (auto simp: listArgs_def split: list.splits fval.splits)

lemma fn_wf [feel_wf]:
  "(\<And>s. value_wf (f s)) \<Longrightarrow> result_wf (strFn f a)"
  "(\<And>s t. value_wf (f2 s t)) \<Longrightarrow> result_wf (str2 f2 a)"
  "(\<And>r. value_wf (g r)) \<Longrightarrow> result_wf (numFn g a)"
  "args_wf a \<Longrightarrow> (\<And>l. args_wf l \<Longrightarrow> result_wf (h l)) \<Longrightarrow> result_wf (listFn h a)"
  by (auto simp: strFn_def str2_def numFn_def listFn_def dest: arg_cases_wf split: fval.splits)

lemma conversion_wf [feel_wf]:
  "args_wf a \<Longrightarrow> result_wf (bi_number go a)"
  "result_wf (bi_date go a)"
  "result_wf (bi_date_and_time go a)"
  "result_wf (bi_duration go a)"
  "result_wf (bi_now go a)" "result_wf (bi_today go a)"
  by (auto simp: bi_number_def bi_date_def bi_date_and_time_def bi_duration_def bi_now_def bi_today_def
      feel_wf dest: arg_cases_wf split: fval.splits option.splits prod.splits)

lemma string_wf [feel_wf]:
  "result_wf (bi_substring_before a)" "result_wf (bi_substring_after a)"
  "result_wf (bi_substring a)" "result_wf (bi_matches go a)" "result_wf (bi_replace go a)"
  by (auto simp: bi_substring_before_def bi_substring_after_def bi_substring_def bi_matches_def bi_replace_def
      str2_def Let_def split: fval.splits option.splits)

lemma string_list_wf [feel_wf]: "result_wf (bi_split go a)" "result_wf (bi_string_join a)"
  by (auto simp: bi_split_def bi_string_join_def listFn_def list_all_iff split: fval.splits option.splits)

lemma total_wf [feel_wf]:
  "result_wf (bi_sum a)" "result_wf (bi_product a)" "result_wf (bi_mean a)" "result_wf (bi_count a)"
  by (auto simp: bi_sum_def bi_product_def bi_mean_def bi_count_def split: option.splits)

lemma foldl_logic_wf: "value_wf v \<Longrightarrow> value_wf (foldl and3 v vs)" "value_wf v \<Longrightarrow> value_wf (foldl or3 v vs)"
  by (induction vs arbitrary: v) (auto simp: feel_wf)

lemma verdict_wf [feel_wf]:
  "result_wf (bi_all a)" "result_wf (bi_any a)" "result_wf (bi_is_empty a)" "result_wf (bi_list_contains a)"
  by (auto simp: bi_all_def bi_any_def bi_is_empty_def bi_list_contains_def listFn_def foldl_logic_wf split: fval.splits)

lemma extreme_wf [feel_wf]: "args_wf vs \<Longrightarrow> value_wf (extreme vs sign)"
proof -
  have "value_wf (extreme_loop sign b ws)" if "value_wf b" "args_wf ws" for b ws
    using that by (induction sign b ws rule: extreme_loop.induct) (auto split: prod.splits)
  then show "args_wf vs \<Longrightarrow> value_wf (extreme vs sign)" by (auto simp: extreme_def split: list.splits)
qed

lemma concat_lists_wf: "args_wf a \<Longrightarrow> concat_lists a = Some l \<Longrightarrow> args_wf l"
  by (induction a arbitrary: l rule: concat_lists.induct) auto

lemma flatten_val_wf: "value_wf v \<Longrightarrow> args_wf (flatten_val v)"
  by (induction v rule: flatten_val.induct) (auto simp: list_all_iff)

lemma flatten_wf: "args_wf l \<Longrightarrow> args_wf (flatten l)"
  using flatten_val_wf by (fastforce simp: flatten_def list_all_iff)

lemma distinct_loop_wf: "args_wf out \<Longrightarrow> args_wf l \<Longrightarrow> args_wf (distinct_loop out l)"
  by (induction out l rule: distinct_loop.induct) auto

lemma go_slice_wf: "list_all P l \<Longrightarrow> go_slice l lo hi = Some part \<Longrightarrow> list_all P part"
  by (auto simp: go_slice_def list_all_iff dest!: in_set_takeD in_set_dropD split: if_splits)

lemma sortValues_wf: "args_wf l \<Longrightarrow> args_wf (fst (sortValues l))"
proof -
  have "set (foldl (\<lambda>ys x. insert_by order x ys) ys l) = set ys \<union> set l" for ys
    by (induction l arbitrary: ys) (auto simp: feel_order.set_insert_by)
  then show "args_wf l \<Longrightarrow> args_wf (fst (sortValues l))" by (simp add: sortValues_def list_all_iff)
qed

lemma list_wf [feel_wf]:
  "args_wf a \<Longrightarrow> result_wf (bi_append a)"
  "args_wf a \<Longrightarrow> result_wf (bi_concatenate a)"
  "result_wf (bi_index_of a)"
  "args_wf a \<Longrightarrow> result_wf (bi_distinct_values a)"
  "args_wf a \<Longrightarrow> result_wf (bi_sort a)"
  "args_wf a \<Longrightarrow> result_wf (bi_sublist a)"
  "args_wf a \<Longrightarrow> result_wf (bi_remove a)"
  subgoal using arg_cases_wf(1) [of a 0] by (cases a) (auto simp: bi_append_def listFn_def split: fval.splits)
  subgoal by (auto simp: bi_concatenate_def dest: concat_lists_wf split: option.splits)
  subgoal by (auto simp: bi_index_of_def listFn_def list_all_iff split: fval.splits)
  subgoal by (auto simp: bi_distinct_values_def listFn_def distinct_loop_wf dest: arg_cases_wf split: fval.splits)
  subgoal using arg_cases_wf(1) [of a 0] sortValues_wf by (auto simp: bi_sort_def listFn_def Let_def case_prod_unfold split: fval.splits)
  subgoal by (auto simp: bi_sublist_def Let_def dest: arg_cases_wf go_slice_wf split: fval.splits option.splits)
  subgoal by (auto simp: bi_remove_def Let_def dest: arg_cases_wf go_slice_wf split: fval.splits option.splits)
  done

lemma number_wf [feel_wf]:
  "result_wf (bi_decimal a)" "result_wf (bi_ceiling a)" "result_wf (bi_modulo a)" "result_wf (bi_sqrt go a)"
  by (auto simp: bi_decimal_def bi_ceiling_def bi_modulo_def bi_sqrt_def numFn_def Let_def feel_wf
      split: fval.splits option.splits)

lemma contextPut_wf: "ctx_wf m \<Longrightarrow> value_wf v \<Longrightarrow> ctx_wf (contextPut m ks v)"
proof (induction m ks v rule: contextPut.induct)
  case (3 m k k' ks v)
  have "ctx_wf (case map_of m k of Some (VCtx inner) \<Rightarrow> inner | _ \<Rightarrow> [])"
    using ctx_lookup_wf [OF 3(2), of k] by (auto split: option.splits fval.splits)
  with 3 show ?case unfolding contextPut.simps by (intro ctx_update_wf) auto
qed (auto simp: feel_wf)

lemma merge_contexts_wf: "ctx_wf out \<Longrightarrow> args_wf l \<Longrightarrow> merge_contexts out l = Some m \<Longrightarrow> ctx_wf m"
  by (induction out l rule: merge_contexts.induct) (auto simp: ctx_updates_wf)

lemma get_value_wf: "ctx_wf m \<Longrightarrow> value_wf (case map_of m k of Some v \<Rightarrow> v | None \<Rightarrow> VNull)"
  using ctx_lookup_wf by (auto split: option.splits)

lemma context_wf [feel_wf]:
  "args_wf a \<Longrightarrow> result_wf (bi_get_value a)"
  "args_wf a \<Longrightarrow> result_wf (bi_context_put a)"
  "args_wf a \<Longrightarrow> result_wf (bi_context_merge a)"
  "args_wf a \<Longrightarrow> result_wf (bi_get_entries a)"
  subgoal using arg_cases_wf(2) [of a 0] get_value_wf by (auto simp: bi_get_value_def split: fval.split)
  subgoal using contextPut_wf arg_wf [of a 2] arg_cases_wf(2) [of a 0]
    by (auto simp: bi_context_put_def split: fval.split option.split list.split)
  subgoal using merge_contexts_wf [of "[]"] arg_cases_wf(1) [of a 0]
    by (auto simp: bi_context_merge_def listFn_def split: fval.split option.split)
  subgoal using arg_cases_wf(2) [of a 0] get_value_wf
    by (auto simp: bi_get_entries_def list_all_iff ctx_wf_def [of "[_, _]"] split: fval.split)
  done

lemma builtins_wf:
  "list_all (\<lambda>(name, b). \<forall>a. args_wf a \<longrightarrow> result_wf (fn b a)) (builtins go)"
  by (simp add: builtins_def feel_wf listArgs_wf flatten_wf)

lemma builtin_wf: "map_of (builtins go) f = Some b \<Longrightarrow> args_wf a \<Longrightarrow> result_wf (fn b a)"
  using builtins_wf [of go] map_of_SomeD [of "builtins go" f b] unfolding list_all_iff [of _ "builtins go"] by fastforce

subsection \<open>Evaluation\<close>

text \<open>The literals of an expression.\<close>

fun lits :: "node \<Rightarrow> fval list" where
  "lits (litNode v) = [v]"
| "lits (nameNode name) = []"
| "lits (negNode x) = lits x"
| "lits (binNode op l r) = lits l @ lits r"
| "lits (betweenNode x lo hi) = lits x @ lits lo @ lits hi"
| "lits (inNode x tests) = lits x @ concat (map lits tests)"
| "lits (ifNode c t e) = lits c @ lits t @ lits e"
| "lits (forNode iters body) = concat (map (\<lambda>(_, i). lits i) iters) @ lits body"
| "lits (quantNode every iters c) = concat (map (\<lambda>(_, i). lits i) iters) @ lits c"
| "lits (listNode items) = concat (map lits items)"
| "lits (contextNode entries) = concat (map (\<lambda>(_, v). lits v) entries)"
| "lits (rangeNode lo hi _ _) = lits lo @ lits hi"
| "lits (pathNode x _) = lits x"
| "lits (filterNode x c) = lits x @ lits c"
| "lits (callNode _ args named) = concat (map lits args) @ concat (map (\<lambda>(_, a). lits a) named)"
| "lits (cmpTestNode _ x) = lits x"
| "lits anyTestNode = []"
| "lits (notTestNode tests) = concat (map lits tests)"

abbreviation node_wf :: "node \<Rightarrow> bool" where
  "node_wf n \<equiv> args_wf (lits n)"

definition entries_wf :: "(string \<times> node) list \<Rightarrow> bool" where
  "entries_wf es \<longleftrightarrow> list_all (\<lambda>(_, n). node_wf n) es"

definition scopes_wf :: "scopes \<Rightarrow> bool" where
  "scopes_wf s \<longleftrightarrow> s \<noteq> [] \<and> list_all (\<lambda>c. ctx_wf (vars_of c) \<and> value_wf (input c)) s"

lemma list_all_concat: "list_all P (concat (map f xs)) \<longleftrightarrow> list_all (\<lambda>x. list_all P (f x)) xs"
  by (induction xs) auto

lemma entries_wf_iff [simp]: "list_all (\<lambda>x. args_wf (case x of (_, n) \<Rightarrow> lits n)) es \<longleftrightarrow> entries_wf es"
  by (auto simp: entries_wf_def list_all_iff)

lemma entries_wf_Cons [simp]: "entries_wf ((k, n) # es) \<longleftrightarrow> node_wf n \<and> entries_wf es"
  by (simp add: entries_wf_def)

lemma lookup_wf: "scopes_wf s \<Longrightarrow> value_wf (lookup s name)"
proof -
  have "list_all (\<lambda>c. ctx_wf (vars_of c) \<and> value_wf (input c)) s \<Longrightarrow> value_wf (lookup s name)"
    by (induction s name rule: lookup.induct) (auto dest: ctx_lookup_wf split: option.split)
  then show "scopes_wf s \<Longrightarrow> value_wf (lookup s name)" by (simp add: scopes_wf_def)
qed

lemma scope_wf:
  assumes "scopes_wf s"
  shows "ctx_wf vs \<Longrightarrow> scopes_wf (child s vs)" "value_wf x \<Longrightarrow> scopes_wf (testing s x)" "value_wf (input (hd s))"
  using assms by (cases s; auto simp: scopes_wf_def child_def testing_def)+

lemma item_vars_wf: "value_wf item \<Longrightarrow> ctx_wf (item_vars item)"
  by (auto simp: item_vars_def split: fval.split intro!: ctx_update_wf ctx_updates_wf)

lemma iterationValues_wf: "value_wf c \<Longrightarrow> iterationValues c = Inr items \<Longrightarrow> args_wf items"
  by (auto simp: iterationValues_def Let_def list_all_iff split: fval.splits if_splits option.splits)

lemma run_calls_wf: "list_all (\<lambda>r. case r of Inl _ \<Rightarrow> True | Inr a \<Rightarrow> P a) rs \<Longrightarrow> run_calls rs = Inr vs \<Longrightarrow> list_all P vs"
  by (induction rs arbitrary: vs rule: run_calls.induct) (auto simp: result_bind_Inr_iff)

lemma run_calls_args_wf: "(\<And>x. x \<in> set xs \<Longrightarrow> result_wf (f x)) \<Longrightarrow> run_calls (map f xs) = Inr vs \<Longrightarrow> args_wf vs"
  by (rule run_calls_wf) (auto simp: list_all_iff result_wf_def)

lemma any_verdict_wf: "value_wf v \<Longrightarrow> result_wf (any_verdict v rs)"
  by (induction v rs rule: any_verdict.induct) (auto simp: Let_def feel_wf)

lemma index_value_wf: "args_wf l \<Longrightarrow> result_wf (index_value r l)"
  by (auto simp: index_value_def Let_def list_all_length)

lemma test_verdict_wf: "value_wf (test_verdict u x v)"
  by (auto simp: test_verdict_def Let_def feel_wf split: fval.split prod.split simp del: inRange.simps)

lemma pad_args_wf: "args_wf a \<Longrightarrow> args_wf (pad_args n a)"
  by (auto simp: pad_args_def list_all_iff)

lemma evalBinary_wf: "golib_ok go \<Longrightarrow> result_wf (evalBinary go op l r)"
  unfolding evalBinary_def by (auto intro!: result_wf_bind simp: feel_wf)

lemma evalFilter_wf: "result_wf x \<Longrightarrow> result_wf (evalFilter cond s x)"
proof (unfold evalFilter_def, rule result_wf_bind)
  fix v assume x: "result_wf x" "x = Inr v"
  define l where "l = (case v of VList l \<Rightarrow> l | _ \<Rightarrow> [v])"
  have l: "args_wf l" using x by (auto simp: l_def split: fval.split)
  have "result_wf (keep_items cond s l)"
    using l by (auto intro!: result_wf_bind simp: keep_items_def list_all_iff dest!: set_zip_leftD)
  then show "result_wf (if v = VNull then Inr VNull else
      let l = case v of VList l \<Rightarrow> l | _ \<Rightarrow> [v] in
      case cond s of Inl e \<Rightarrow> if fatal e then Inl e else keep_items cond s l
      | Inr (VNum r _) \<Rightarrow> index_value r l | Inr _ \<Rightarrow> keep_items cond s l)"
    using index_value_wf [OF l] unfolding Let_def l_def by (auto split: sum.split fval.split)
qed

lemma named_args_wf:
  assumes "list_all (\<lambda>(_, r). result_wf r) named" and "named_args f ps named = Inr vs"
  shows "args_wf vs"
proof -
  obtain us where "run_calls (map (\<lambda>p. case map_of named p of Some r \<Rightarrow> r | None \<Rightarrow> Inr VNull) ps) = Inr us"
    and vs: "vs = take (used_params named ps) us"
    using assms(2) by (auto simp: named_args_def result_bind_Inr_iff split: if_splits)
  then have "args_wf us"
    by (rule_tac run_calls_args_wf) (use assms(1) in \<open>auto simp: list_all_iff dest!: map_of_SomeD split: option.split\<close>)
  then show ?thesis by (auto simp: vs list_all_iff dest: in_set_takeD)
qed

lemma evalCall_wf:
  assumes "golib_ok go" and "list_all result_wf args" and "list_all (\<lambda>(_, r). result_wf r) named"
  shows "result_wf (evalCall go f args named)"
proof (cases "map_of (builtins go) f")
  case None
  then show ?thesis by (simp add: evalCall_def)
next
  case (Some b)
  have "args_wf vs" if "run_calls args = Inr vs" for vs
    using run_calls_args_wf [of args id] assms(2) that by (auto simp: list_all_iff)
  then show ?thesis unfolding evalCall_def Some option.case using named_args_wf [OF assms(3)]
    by (auto intro!: result_wf_bind builtin_wf [OF Some] pad_args_wf split: if_splits)
qed

lemma eval_wf:
  shows "golib_ok go \<Longrightarrow> node_wf n \<Longrightarrow> scopes_wf s \<Longrightarrow> result_wf (eval go n s)"
    and "golib_ok go \<Longrightarrow> ctx_wf ctx \<Longrightarrow> entries_wf es \<Longrightarrow> scopes_wf s \<Longrightarrow> eval_entries go ctx es s = Inr m \<Longrightarrow> ctx_wf m"
    and "golib_ok go \<Longrightarrow> entries_wf iters \<Longrightarrow> scopes_wf s \<Longrightarrow> Inr t \<in> set (iterate go iters s) \<Longrightarrow> scopes_wf t"
    and "golib_ok go \<Longrightarrow> list_all node_wf ts \<Longrightarrow> value_wf x \<Longrightarrow> scopes_wf s \<Longrightarrow> result_wf (anyTest go ts x s)"
    and "golib_ok go \<Longrightarrow> node_wf t' \<Longrightarrow> value_wf x \<Longrightarrow> scopes_wf s \<Longrightarrow> result_wf (unaryTest go t' x s)"
proof (induction go n s and go ctx es s and go iters s and go ts x s and go t' x s
    arbitrary: and m and t and and
    rule: eval_eval_entries_iterate_anyTest_unaryTest.induct)
  case (2 go name s)
  then show ?case by (simp add: lookup_wf)
next
  case (3 go x s)
  then show ?case by (auto intro!: result_wf_bind split: fval.split)
next
  case (4 go op l r s)
  then show ?case by (auto intro!: evalBinary_wf)
next
  case (5 go x lo hi s)
  then show ?case by (auto intro!: result_wf_bind simp: feel_wf)
next
  case (6 go x tests s)
  then show ?case by (auto intro!: result_wf_bind simp: list_all_concat)
next
  case (7 go c t e s)
  then show ?case by (auto intro!: result_wf_bind)
next
  case (8 go iters body s)
  have "entries_wf iters" "node_wf body" using "8.prems"(2) by (simp_all add: list_all_concat)
  note IH = "8.IH"(1) [OF "8.prems"(1) this(1) "8.prems"(3)] "8.IH"(2) [OF _ _ "8.prems"(1) this(2)]
  have "result_wf (result_bind r (eval go body))" if "r \<in> set (iterate go iters s)" for r
    using IH that by (auto intro!: result_wf_bind)
  then show ?case by (auto intro!: result_wf_bind run_calls_args_wf simp del: result_wf_simps(1))
next
  case (9 go every iters c s)
  then show ?case by (auto intro!: result_wf_bind simp: foldl_logic_wf)
next
  case (10 go items s)
  then have "result_wf (eval go i s)" if "i \<in> set items" for i
    using that by (auto simp: list_all_concat list_all_iff)
  note args = run_calls_args_wf [of items "\<lambda>i. eval go i s", OF this]
  show ?case by (auto intro!: result_wf_bind args)
next
  case (11 go es s)
  then show ?case by (auto intro!: result_wf_bind simp: list_all_concat)
next
  case (12 go lo hi lc hc s)
  then show ?case by (auto intro!: result_wf_bind)
next
  case (13 go x name s)
  then show ?case by (auto intro!: result_wf_bind simp: feel_wf)
next
  case (14 go x c s)
  then show ?case by (auto intro!: evalFilter_wf)
next
  case (15 go f args named s)
  have "entries_wf named" "list_all node_wf args" using "15.prems"(2) by (simp_all add: list_all_concat)
  then have "list_all result_wf (map (\<lambda>a. eval go a s) args)" "list_all (\<lambda>(_, r). result_wf r) (map (\<lambda>(k, a). (k, eval go a s)) named)"
    using "15.IH" "15.prems"(1,3) by (auto simp: list_all_iff entries_wf_def)
  then show ?case using "15.prems"(1) by (simp only: eval.simps evalCall_wf)
next
  case (16 go op x s)
  then show ?case by (simp add: lookup_wf)
next
  case (17 go s)
  then show ?case by (simp add: lookup_wf)
next
  case (18 go tests s)
  then show ?case by (auto intro!: result_wf_bind simp: list_all_concat scope_wf feel_wf split: list.split)
next
  case (20 go ctx k n rest s)
  then obtain v where v: "eval go n (child s ctx) = Inr v" "eval_entries go (AList.update k v ctx) rest s = Inr m"
    by (auto simp: result_bind_Inr_iff)
  have "result_wf (eval go n (child s ctx))"
    using "20.IH"(1) [OF "20.prems"(1)] "20.prems"(3) scope_wf(1) [OF "20.prems"(4,2)] by simp
  then have "value_wf v" by (simp add: v(1))
  then have "ctx_wf (AList.update k v ctx)" using "20.prems"(2) by (simp add: ctx_update_wf)
  moreover have "entries_wf rest" using "20.prems"(3) by simp
  ultimately show ?case using "20.IH"(2) [OF v(1) "20.prems"(1) _ _ "20.prems"(4) v(2)] by blast
next
  case (21 go s)
  then show ?case by simp
next
  case (22 go name coll rest s)
  have c: "result_wf (eval go coll s)" using 22 by auto
  obtain items item where i: "result_bind (eval go coll s) iterationValues = Inr items" "item \<in> set items"
    "Inr t \<in> set (iterate go rest (child s [(name, item)]))"
    using "22.prems"(4) by (auto split: sum.splits)
  obtain v where v: "eval go coll s = Inr v" "iterationValues v = Inr items" using i(1) by (auto simp: result_bind_Inr_iff)
  have "args_wf items" using c v iterationValues_wf by simp
  then have "value_wf item" using i(2) by (simp add: list_all_iff)
  then have "scopes_wf (child s [(name, item)])" using scope_wf(1) [OF "22.prems"(3)] by simp
  then show ?case using "22.IH"(2) [OF i(1,2) "22.prems"(1) _ _ i(3)] "22.prems"(2) by simp
next
  case (23 go tests x s)
  then show ?case by (simp add: anyTest.simps any_verdict_wf)
next
  case (24 go t x s)
  show ?case
    by (cases t rule: test_cases) (auto simp: unaryTest_plain unaryTest_tests test_verdict_wf feel_wf intro!: result_wf_bind)
qed simp_all

text \<open>C34: Evaluation keeps values well-formed: with well-formed variables and literals, an expression evaluates
  to a well-formed value or to an error.\<close>

theorem eval_type_safe:
  assumes "golib_ok go" and "list_all value_wf (lits n)" and "scopes_wf s" and "eval go n s = Inr v"
  shows "value_wf v"
  using eval_wf(1) [OF assms(1-3)] assms(4) by simp

lemma plain_go_ok: "golib_ok plain_go"
proof -
  have "is_int64 0" by code_simp
  then show ?thesis by (simp add: golib_ok_def plain_go_def is_int64_wrap64 split: float64.split)
qed

theorem eval_type_safe_witness:
  "\<exists>v. eval plain_go (listNode [litNode (num 1), nameNode ''x'']) (rootScope plain_go [(''x'', JStr ''a'')]) = Inr v \<and> value_wf v"
proof -
  let ?n = "listNode [litNode (num 1), nameNode ''x'']" and ?s = "rootScope plain_go [(''x'', JStr ''a'')]"
  have v: "eval plain_go ?n ?s = Inr (VList [num 1, VStr ''a''])" by (simp add: rootScope_def)
  moreover have "list_all value_wf (lits ?n)" by (simp add: scale_ok_def)
  moreover have "scopes_wf ?s" by (simp add: scopes_wf_def rootScope_def)
  ultimately show ?thesis using eval_type_safe [OF plain_go_ok] by blast
qed

end
