(* ===== verification/Feel_Semantics.thy ===== *)
theory Feel_Semantics
  imports Feel_Types
begin

text \<open>
  What FEEL expressions mean, over the evaluator's own definitions: iteration over ranges with its limits,
  three-valued logic, unary tests, filters, and the independence of an expression from the variables it
  does not name.
\<close>

subsection \<open>Ranges\<close>

lemma IsInt_of_int [simp]: "IsInt (of_int n)" "Num (of_int n) = n"
  by (simp_all add: IsInt_def Num_def)

lemma count_up_returns:
  "is_int64 i \<Longrightarrow> is_int64 b \<Longrightarrow> b < MaxInt64 \<Longrightarrow> max 0 (b - i + 1) < int f \<Longrightarrow> count_up f i b = Some [i..b]"
proof (induction f arbitrary: i)
  case (Suc f)
  show ?case
  proof (cases "i \<le> b")
    case True
    then have i: "is_int64 (i + 1)" using Suc.prems by (simp add: is_int64_def)
    then have "count_up f (i + 1) b = Some [i + 1..b]"
      using Suc True by (intro Suc.IH) auto
    then show ?thesis using True i by (simp add: upto_rec1)
  qed simp
qed simp

lemma count_up_forever: "is_int64 i \<Longrightarrow> count_up f i MaxInt64 = None"
proof (induction f arbitrary: i)
  case (Suc f)
  then have "i \<le> MaxInt64" by (simp add: is_int64_def)
  then show ?case using Suc.IH [OF is_int64_wrap64, of "i + 1"] by simp
qed simp

lemma count_up_short: "is_int64 i \<Longrightarrow> is_int64 b \<Longrightarrow> int f \<le> b - i + 1 \<Longrightarrow> count_up f i b = None"
proof (induction f arbitrary: i)
  case (Suc f)
  then have i: "i \<le> b" by simp
  show ?case
  proof (cases "f = 0")
    case False
    then have "is_int64 (i + 1)" using Suc.prems by (simp add: is_int64_def)
    then show ?thesis using Suc i by simp
  qed (simp add: i)
qed simp

lemma count_down_returns:
  "is_int64 i \<Longrightarrow> is_int64 b \<Longrightarrow> MinInt64 < b \<Longrightarrow> max 0 (i - b + 1) < int f \<Longrightarrow> count_down f i b = Some (rev [b..i])"
proof (induction f arbitrary: i)
  case (Suc f)
  show ?case
  proof (cases "b \<le> i")
    case True
    then have i: "is_int64 (i - 1)" using Suc.prems by (simp add: is_int64_def)
    then have "count_down f (i - 1) b = Some (rev [b..i - 1])" using Suc True by (intro Suc.IH) auto
    then show ?thesis using True i by (simp add: upto_rec2)
  qed simp
qed simp

lemma count_down_forever: "is_int64 i \<Longrightarrow> count_down f i MinInt64 = None"
proof (induction f arbitrary: i)
  case (Suc f)
  then have "MinInt64 \<le> i" by (simp add: is_int64_def)
  then show ?case using Suc.IH [OF is_int64_wrap64, of "i - 1"] by simp
qed simp

lemma count_down_short: "is_int64 i \<Longrightarrow> is_int64 b \<Longrightarrow> int f \<le> i - b + 1 \<Longrightarrow> count_down f i b = None"
proof (induction f arbitrary: i)
  case (Suc f)
  then have i: "b \<le> i" by simp
  show ?case
  proof (cases "f = 0")
    case False
    then have "is_int64 (i - 1)" using Suc.prems by (simp add: is_int64_def)
    then show ?thesis using Suc i by simp
  qed (simp add: i)
qed simp

text \<open>The size test of a range: the two differences wrap, so a range of nearly all integers, or of half of them, passes it.\<close>

lemma wrap64_diff:
  assumes "is_int64 a" "is_int64 b"
  shows "(wrap64 (b - a) > 100000 \<or> wrap64 (a - b) > 100000) \<longleftrightarrow> 100000 < \<bar>b - a\<bar> \<and> \<bar>b - a\<bar> < 2 ^ 64 - 100000 \<and> \<bar>b - a\<bar> \<noteq> 2 ^ 63"
proof -
  have big: "wrap64 n = n - 2 ^ 64" if "2 ^ 63 \<le> n" "n < 2 ^ 64" for n
  proof -
    have "n + 2 ^ 63 = 2 ^ 64 * 1 + (n - 2 ^ 63)" by simp
    then have "(n + 2 ^ 63) mod 2 ^ 64 = n - 2 ^ 63" using that by (intro int_mod_pos_eq) auto
    then show ?thesis by (simp add: wrap64_def)
  qed
  have small: "wrap64 n = n + 2 ^ 64" if "- (2 ^ 64) < n" "n < - (2 ^ 63)" for n
  proof -
    have "n + 2 ^ 63 = 2 ^ 64 * (- 1) + (n + 2 ^ 63 + 2 ^ 64)" by simp
    from int_mod_pos_eq [OF this] have "(n + 2 ^ 63) mod 2 ^ 64 = n + 2 ^ 63 + 2 ^ 64" using that by simp
    then show ?thesis by (simp add: wrap64_def)
  qed
  define d where "d = b - a"
  have d: "- (2 ^ 64) < d" "d < 2 ^ 64" and e: "a - b = - d"
    using assms by (auto simp: is_int64_def MinInt64_def MaxInt64_def d_def)
  consider "d < - (2 ^ 63)" | "d = - (2 ^ 63)" | "- (2 ^ 63) < d" "d < 2 ^ 63" | "d = 2 ^ 63" | "2 ^ 63 < d" by linarith
  then show ?thesis unfolding e d_def [symmetric]
    by cases (use big [of d] big [of "- d"] small [of d] small [of "- d"] d in
      \<open>auto simp: is_int64_def MinInt64_def MaxInt64_def\<close>)
qed



subsection \<open>Logic\<close>

lemma truth_False [simp]: "truth_of v = F3 \<longleftrightarrow> v = VBool False"
  and truth_True [simp]: "truth_of v = T3 \<longleftrightarrow> v = VBool True"
  by (cases v; simp)+

lemma F3_least [simp]: "min F3 t = F3" "max F3 t = t" "min t F3 = F3" "max t F3 = t"
  "min T3 t = t" "max T3 t = T3" "min t T3 = t" "max t T3 = T3"
  by (cases t; simp add: min_def max_def)+

text \<open>Conditions follow Kleene's three-valued logic, with false below null below true: where the operands have
  values, conjunction is their minimum and disjunction their maximum, in spite of the short cuts, and
  \<open>every\<close> and \<open>some\<close> are the minimum and maximum over all combinations.\<close>

theorem eval_logic:
  assumes "eval go l s = Inr a" and "eval go r s = Inr b"
    and "run_calls (map (\<lambda>r. result_bind r (eval go c)) (iterate go iters s)) = Inr vs"
  shows "eval go (binNode ''and'' l r) s = Inr (of_truth (min (truth_of a) (truth_of b))) \<and>
    eval go (binNode ''or'' l r) s = Inr (of_truth (max (truth_of a) (truth_of b))) \<and>
    eval go (quantNode True iters c) s = Inr (of_truth (foldr min (map truth_of vs) T3)) \<and>
    eval go (quantNode False iters c) s = Inr (of_truth (foldr max (map truth_of vs) F3))"
  using assms foldl_and3 [of T3 vs] foldl_or3 [of F3 vs] by (auto simp: evalBinary_def and3_min or3_max)

theorem eval_logic_witness:
  "eval plain_go (binNode ''and'' (litNode VNull) (litNode (VBool False))) [] = Inr (VBool False) \<and>
   eval plain_go (quantNode False [] (litNode VNull)) [] = Inr VNull"
  using eval_logic [of plain_go "litNode VNull" "[]" VNull "litNode (VBool False)" "VBool False" "litNode VNull" "[]" "[VNull]"]
  by simp

subsection \<open>Unary tests\<close>

lemma any_verdict_values:
  "run_calls rs = Inr vs \<Longrightarrow> any_verdict (of_truth t) rs = Inr (of_truth (foldr max (map truth_of vs) t))"
proof (induction "of_truth t" rs arbitrary: t vs rule: any_verdict.induct)
  case (3 v rs)
  then obtain ws where vs: "vs = v # ws" "run_calls rs = Inr ws" by (auto simp: result_bind_Inr_iff)
  have or: "or3 (of_truth t) v = of_truth (max t (truth_of v))" by (simp add: or3_max)
  have comm: "foldr max ts (max t u) = max u (foldr max ts t)" for ts and t u :: truth
    by (induction ts) (auto simp: max.left_commute max.commute)
  show ?case
  proof (cases "max t (truth_of v) = T3")
    case True
    have "foldr max ts T3 = T3" for ts by (induction ts) simp_all
    then have "foldr max (map truth_of vs) t = T3"
      using comm [of "map truth_of ws" t "truth_of v"] True by (simp add: vs(1))
    then show ?thesis using or True by (simp add: Let_def)
  next
    case False
    then have "of_truth (max t (truth_of v)) \<noteq> VBool True" by (cases "max t (truth_of v)") auto
    then show ?thesis using 3(1) [OF or [symmetric] _ vs(2)] or vs(1) comm [of "map truth_of ws" t "truth_of v"] by (simp add: Let_def)
  qed
qed simp_all

text \<open>Unary tests: the verdict of a list of tests is the best of theirs, a dash always passes, \<open>not\<close> reverses,
  and an interval test compares with both ends, an end that is null leaving that side open.\<close>

theorem unary_tests:
  assumes "run_calls (map (\<lambda>t. unaryTest go t x s) ts) = Inr vs"
    and "eval go lo (testing s x) = Inr l" and "eval go hi (testing s x) = Inr h"
  shows "anyTest go ts x s = Inr (of_truth (foldr max (map truth_of vs) F3)) \<and>
    anyTest go (anyTestNode # ts) x s = Inr (VBool True) \<and>
    (\<forall>v. anyTest go ts x (testing s x) = Inr v \<longrightarrow> unaryTest go (notTestNode ts) x s = Inr (not3 v)) \<and>
    unaryTest go (rangeNode lo hi lc hc) x s =
      Inr (and3 (if l = VNull then VBool True else compareOp (if lc then ''>='' else ''>'') x l)
        (if h = VNull then VBool True else compareOp (if hc then ''<='' else ''<'') x h))"
  using any_verdict_values [OF assms(1), of F3] assms(2,3)
  by (auto simp: anyTest.simps unaryTest_tests unaryTest_plain test_verdict_def or3_max Let_def split: prod.split)

theorem unary_tests_witness:
  "anyTest plain_go [anyTestNode, litNode VNull] (VStr ''a'') (rootScope plain_go []) = Inr (VBool True)"
proof -
  let ?s = "rootScope plain_go []"
  have "equal (VStr ''a'') VNull = (False, True)" by code_simp
  then have "run_calls (map (\<lambda>t. unaryTest plain_go t (VStr ''a'') ?s) [litNode VNull]) = Inr [VBool False]"
    by (simp add: unaryTest_plain test_verdict_def)
  then show ?thesis
    using unary_tests [of plain_go "VStr ''a''" ?s "[litNode VNull]" "[VBool False]" "litNode VNull" VNull "litNode VNull" VNull]
    by simp
qed

subsection \<open>Filters\<close>

text \<open>A list filtered by a number is indexed, from 1 at its start or -1 at its end, and gives null past
  either; filtered by a condition, it keeps in order the items for which the condition is true.\<close>

theorem eval_filter:
  assumes "eval go x s = Inr (VList l)"
  shows "(\<forall>i sc. eval go c s = Inr (VNum (of_int i) sc) \<and> is_int64 i \<and> i \<noteq> MinInt64 \<longrightarrow>
      eval go (filterNode x c) s = Inr (if 1 \<le> i \<and> i \<le> int (length l) then l ! nat (i - 1)
        else if i \<le> - 1 \<and> - i \<le> int (length l) then l ! nat (int (length l) + i) else VNull)) \<and>
    (\<forall>v. eval go c s = Inr v \<and> (\<nexists>r sc. v = VNum r sc) \<and>
      (\<forall>item \<in> set l. eval go c (child s (item_vars item)) = Inr (VBool (keep item))) \<longrightarrow>
      eval go (filterNode x c) s = Inr (VList (filter keep l)))"
proof (intro conjI allI impI)
  fix i sc
  assume *: "eval go c s = Inr (VNum (of_int i) sc) \<and> is_int64 i \<and> i \<noteq> MinInt64"
  then have "wrap64 i = i" "wrap64 (- i) = - i" by (simp_all add: is_int64_def MinInt64_def MaxInt64_def wrap64_def)
  then show "eval go (filterNode x c) s = Inr (if 1 \<le> i \<and> i \<le> int (length l) then l ! nat (i - 1)
      else if i \<le> - 1 \<and> - i \<le> int (length l) then l ! nat (int (length l) + i) else VNull)"
    using assms * by (auto simp: evalFilter_def index_value_def Let_def)
next
  fix v
  assume *: "eval go c s = Inr v \<and> (\<nexists>r sc. v = VNum r sc) \<and>
    (\<forall>item \<in> set l. eval go c (child s (item_vars item)) = Inr (VBool (keep item)))"
  have calls: "run_calls (map (\<lambda>i. eval go c (child s (item_vars i))) l) = Inr (map (\<lambda>i. VBool (keep i)) l)"
    using * by (induction l) auto
  have "map fst (filter (\<lambda>(i, k). k = VBool True) (zip l (map (\<lambda>i. VBool (keep i)) l))) = filter keep l"
    by (induction l) auto
  then show "eval go (filterNode x c) s = Inr (VList (filter keep l))"
    using assms * calls by (auto simp: evalFilter_def keep_items_def Let_def split: fval.split)
qed

theorem eval_filter_witness:
  "eval plain_go (filterNode (listNode [litNode (VStr ''a''), litNode (VStr ''b'')]) (litNode (VNum (of_int (- 1)) None))) [] =
   Inr (VStr ''b'')"
proof -
  let ?x = "listNode [litNode (VStr ''a''), litNode (VStr ''b'')]" and ?c = "litNode (VNum (of_int (- 1)) None)"
  have i: "is_int64 (- 1)" "- 1 \<noteq> MinInt64" by code_simp+
  have "eval plain_go ?x [] = Inr (VList [VStr ''a'', VStr ''b''])" by simp
  from conjunct1 [OF eval_filter [OF this, of ?c]]
  have "eval plain_go ?c [] = Inr (VNum (of_int (- 1)) None) \<and> is_int64 (- 1) \<and> - 1 \<noteq> MinInt64 \<longrightarrow>
      eval plain_go (filterNode ?x ?c) [] = Inr (VStr ''b'')" by (elim allE [of _ "- 1"]) simp
  then show ?thesis using i by simp
qed

subsection \<open>Names\<close>

text \<open>An expression's value depends on the process variables it names only: two sets of variables that agree on
  them give the same result.\<close>

theorem eval_names:
  assumes "\<forall>x \<in> set (names n). map_of vs x = map_of ws x"
  shows "eval go n (rootScope go vs) = eval go n (rootScope go ws)"
proof (rule eval_agree(1))
  have m: "map_of (map (\<lambda>(k, v). (k, ToFEEL go (json_goval v))) us) x = map_option (ToFEEL go \<circ> json_goval) (map_of us x)" for us x
    by (induction us) auto
  have "lookup (rootScope go us) x = (case map_of us x of Some v \<Rightarrow> ToFEEL go (json_goval v) | None \<Rightarrow> VNull)" for us x
    by (simp add: rootScope_def m split: option.split)
  with assms show "agree (set (names n)) (rootScope go vs) (rootScope go ws)"
    unfolding agree_def by (simp add: rootScope_def)
qed

theorem eval_names_witness:
  "eval plain_go (nameNode ''x'') (rootScope plain_go [(''x'', JStr ''a'')]) =
   eval plain_go (nameNode ''x'') (rootScope plain_go [(''y'', JNull), (''x'', JStr ''a'')])"
  by (rule eval_names) simp

end
