(* ===== verification/Feel_Lexer.thy ===== *)
theory Feel_Lexer
  imports Feel_Builtins
begin

text \<open>
  The lexer of the FEEL interpreter (\<open>internal/feel/lexer.go\<close>). The source is a list of runes, each
  the bytes of its encoding; the position of a token is the number of runes before it. The classes of runes
  outside ASCII, and the reading of a \<open>\u\<close> escape with \<open>fmt.Sscanf\<close>, are library functions.

  The lexer always ends; its tokens end with one end-of-file token and no other, which is what the parser
  relies on to stay within the tokens.
\<close>

subsection \<open>Tokens\<close>

datatype tokenKind = tokEOF | tokNumber | tokString | tokName | tokTemporal | tokPunct

record token =
  kind :: tokenKind
  text_of :: string
  pos :: nat

definition tok :: "tokenKind \<Rightarrow> string \<Rightarrow> nat \<Rightarrow> token" where
  "tok k t p = \<lparr>kind = k, text_of = t, pos = p\<rparr>"

definition is_tok :: "token \<Rightarrow> tokenKind \<Rightarrow> string \<Rightarrow> bool" where
  "is_tok t k s \<longleftrightarrow> kind t = k \<and> text_of t = s"

definition punctuation :: "string list" where
  "punctuation = [''..'', ''**'', ''!='', ''<='', ''>='', ''('', '')'', ''['', '']'', ''{'', ''}'', '','', '':'', ''.'',
     ''+'', ''-'', ''*'', ''/'', ''='', ''<'', ''>'']"

subsection \<open>Classes of runes\<close>

type_synonym rune = string

definition IsSpace :: "golib \<Rightarrow> rune \<Rightarrow> bool" where
  "IsSpace go r = (case r of [c] \<Rightarrow> is_space c | _ \<Rightarrow> unicode_IsSpace go r)"

definition IsDigit :: "golib \<Rightarrow> rune \<Rightarrow> bool" where
  "IsDigit go r = (case r of [c] \<Rightarrow> is_digit c | _ \<Rightarrow> unicode_IsDigit go r)"

definition IsLetter :: "golib \<Rightarrow> rune \<Rightarrow> bool" where
  "IsLetter go r = (case r of [c] \<Rightarrow> in_bytes 65 90 c \<or> in_bytes 97 122 c | _ \<Rightarrow> unicode_IsLetter go r)"

definition name_start :: "golib \<Rightarrow> rune \<Rightarrow> bool" where
  "name_start go r \<longleftrightarrow> IsLetter go r \<or> r = ''_'' \<or> r = ''?'' \<or> r = ''$''"

definition name_part :: "golib \<Rightarrow> rune \<Rightarrow> bool" where
  "name_part go r \<longleftrightarrow> IsLetter go r \<or> IsDigit go r \<or> r = ''_'' \<or> r = ''$''"

subsection \<open>Strings\<close>

text \<open>The loop of \<open>lexString\<close> after the opening quote: the text and the runes after the closing quote.\<close>

definition newline :: rune where "newline = [char_of (10 :: nat)]"
definition tabulator :: rune where "tabulator = [char_of (9 :: nat)]"
definition carriage_return :: rune where "carriage_return = [char_of (13 :: nat)]"
definition backslash :: rune where "backslash = [char_of (92 :: nat)]"
definition quote1 :: rune where "quote1 = [char_of (39 :: nat)]"
definition quote2 :: rune where "quote2 = [char_of (34 :: nat)]"

function lexString :: "golib \<Rightarrow> rune \<Rightarrow> string \<Rightarrow> rune list \<Rightarrow> (string \<times> rune list) option" where
  "lexString go q acc [] = None"
| "lexString go q acc (c # cs) =
     (if c = q then Some (acc, cs)
      else if c = backslash \<and> cs \<noteq> [] then
        (let d = hd cs; ds = tl cs in
         if d = ''n'' then lexString go q (acc @ newline) ds
         else if d = ''t'' then lexString go q (acc @ tabulator) ds
         else if d = ''r'' then lexString go q (acc @ carriage_return) ds
         else if d = ''u'' then
           (case (if length ds \<ge> 4 then Sscanf_rune go (concat (take 4 ds)) else None) of
              Some r \<Rightarrow> lexString go q (acc @ r) (drop 4 ds)
            | None \<Rightarrow> lexString go q (acc @ ''u'') ds)
         else lexString go q (acc @ d) ds)
      else lexString go q (acc @ c) cs)"
  by pat_completeness auto
termination by (relation "measure (\<lambda>(go, q, acc, cs). length cs)") (auto simp: less_Suc_eq_le)

lemma lexString_shorter: "lexString go q acc cs = Some (s, rest) \<Longrightarrow> length rest < length cs"
proof (induction go q acc cs rule: lexString.induct)
  case (2 go q acc c cs)
  then show ?case by (auto simp: Let_def split: if_splits option.splits; fastforce)
qed simp

subsection \<open>Comments and numbers\<close>

text \<open>The runes after the end of a comment.\<close>

fun skip_comment :: "rune list \<Rightarrow> rune list option" where
  "skip_comment (a # b # cs) = (if a = ''*'' \<and> b = ''/'' then Some cs else skip_comment (b # cs))"
| "skip_comment _ = None"

lemma skip_comment_shorter: "skip_comment cs = Some rest \<Longrightarrow> length rest < length cs"
  by (induction cs rule: skip_comment.induct) (auto split: if_splits)

text \<open>The text of a number and the runes after it: digits, then a fraction if a digit follows the point.\<close>

definition lex_number :: "golib \<Rightarrow> rune list \<Rightarrow> string \<times> rune list" where
  "lex_number go r =
     (let ds = takeWhile (IsDigit go) r; rest = dropWhile (IsDigit go) r in
      case rest of
        p # d # _ \<Rightarrow>
          if p = ''.'' \<and> IsDigit go d then
            (concat ds @ ''.'' @ concat (takeWhile (IsDigit go) (tl rest)), dropWhile (IsDigit go) (tl rest))
          else (concat ds, rest)
      | _ \<Rightarrow> (concat ds, rest))"

definition number_starts :: "golib \<Rightarrow> rune option \<Rightarrow> rune list \<Rightarrow> bool" where
  "number_starts go prev r =
     (case r of
        c # cs \<Rightarrow> IsDigit go c \<or> (c = ''.'' \<and> (case cs of d # _ \<Rightarrow> IsDigit go d | [] \<Rightarrow> False) \<and> prev \<noteq> Some ''.'')
      | [] \<Rightarrow> False)"

lemma lex_number_shorter:
  assumes "number_starts go prev r"
  shows "length (snd (lex_number go r)) < length r"
proof (cases r)
  case Nil
  then show ?thesis using assms by (simp add: number_starts_def)
next
  case (Cons c cs)
  have le: "length (dropWhile P xs) \<le> length xs" for P and xs :: "rune list" by (rule length_dropWhile_le)
  show ?thesis
  proof (cases "IsDigit go c")
    case True
    then have "dropWhile (IsDigit go) r = dropWhile (IsDigit go) cs" using Cons by simp
    then show ?thesis using Cons le [of "IsDigit go" cs] le [of "IsDigit go" "tl (dropWhile (IsDigit go) cs)"]
      by (auto simp: lex_number_def Let_def split: list.split)
  next
    case False
    then obtain d ds where "c = ''.''" "cs = d # ds" "IsDigit go d"
      using assms Cons by (auto simp: number_starts_def split: list.splits)
    then show ?thesis using Cons False le [of "IsDigit go" ds] by (auto simp: lex_number_def Let_def less_Suc_eq_le)
  qed
qed

lemma punct_shorter: "find (has_prefix s) punctuation = Some q \<Longrightarrow> \<exists>m. length q = Suc m"
  by (auto simp: find_Some_iff punctuation_def nth_Cons' split: if_splits)

lemma length_dropWhile_tl: "length (dropWhile P (tl cs)) < Suc (length cs)"
  using length_dropWhile_le [of P "tl cs"] by (simp add: less_Suc_eq_le)

lemma skip_comment_tl: "skip_comment (tl cs) = Some rest \<Longrightarrow> length rest < Suc (length cs)"
  using skip_comment_shorter [of "tl cs" rest] by simp

lemma lexString_tl: "lexString go q acc (tl cs) = Some (s, rest) \<Longrightarrow> length rest < Suc (length cs)"
  using lexString_shorter [of go q acc "tl cs" s rest] by simp

lemma lex_number_pair: "(t, rest) = lex_number go r \<Longrightarrow> number_starts go prev r \<Longrightarrow> length rest < length r"
  using lex_number_shorter [of go prev r] by (metis snd_conv)

subsection \<open>The lexer\<close>

text \<open>The rune before \<open>rest\<close>, a proper suffix of \<open>r\<close>.\<close>

definition rune_before :: "rune list \<Rightarrow> rune list \<Rightarrow> rune option" where
  "rune_before r rest = Some (r ! (length r - length rest - 1))"

text \<open>One round of the loop of \<open>lex\<close> on the runes that are left: the token it appends, if any, and the
  runes after it.\<close>

definition lex_step :: "golib \<Rightarrow> nat \<Rightarrow> rune option \<Rightarrow> rune \<Rightarrow> rune list \<Rightarrow> feel_error + token option \<times> rune list" where
  "lex_step go i prev c cs =
     (if IsSpace go c then Inr (None, cs)
      else if c = ''/'' \<and> cs \<noteq> [] \<and> hd cs = ''/'' then Inr (None, dropWhile (\<lambda>x. x \<noteq> newline) (tl cs))
      else if c = ''/'' \<and> cs \<noteq> [] \<and> hd cs = ''*'' then
        (case skip_comment (tl cs) of
           None \<Rightarrow> Inl (SyntaxError ''unterminated comment'')
         | Some rest \<Rightarrow> Inr (None, rest))
      else if number_starts go prev (c # cs) then
        (case lex_number go (c # cs) of (t, rest) \<Rightarrow> Inr (Some (tok tokNumber t i), rest))
      else if c = quote2 \<or> c = quote1 then
        (case lexString go c '''' cs of
           None \<Rightarrow> Inl (SyntaxError ''unterminated string'')
         | Some (s, rest) \<Rightarrow> Inr (Some (tok tokString s i), rest))
      else if c = ''@'' \<and> cs \<noteq> [] \<and> hd cs = quote2 then
        (case lexString go quote2 '''' (tl cs) of
           None \<Rightarrow> Inl (SyntaxError ''unterminated string'')
         | Some (s, rest) \<Rightarrow> Inr (Some (tok tokTemporal s i), rest))
      else if name_start go c then
        Inr (Some (tok tokName (c @ concat (takeWhile (name_part go) cs)) i), dropWhile (name_part go) cs)
      else
        (case find (has_prefix (concat (c # cs))) punctuation of
           None \<Rightarrow> Inl (SyntaxError ''unexpected character'')
         | Some q \<Rightarrow> Inr (Some (tok tokPunct q i), drop (length q) (c # cs))))"

lemma lex_step_shorter: "lex_step go i prev c cs = Inr (t, rest) \<Longrightarrow> length rest < length (c # cs)"
  using length_dropWhile_tl [of "\<lambda>x. x \<noteq> newline" cs] length_dropWhile_le [of "name_part go" cs]
  by (auto simp: lex_step_def less_Suc_eq_le split: if_splits option.splits prod.splits
      dest!: punct_shorter dest: skip_comment_tl lexString_tl lex_number_pair [OF sym] lexString_shorter)

function lex_loop :: "golib \<Rightarrow> nat \<Rightarrow> rune option \<Rightarrow> rune list \<Rightarrow> feel_error + token list" where
  "lex_loop go n prev [] = Inr [tok tokEOF '''' n]"
| "lex_loop go n prev (c # cs) =
     (case lex_step go (n - length (c # cs)) prev c cs of
        Inl e \<Rightarrow> Inl e
      | Inr (t, rest) \<Rightarrow>
          result_bind (lex_loop go n (rune_before (c # cs) rest) rest)
            (\<lambda>ts. Inr (case t of Some x \<Rightarrow> x # ts | None \<Rightarrow> ts)))"
  by pat_completeness auto
termination
  by (relation "measure (\<lambda>(go, n, prev, r). length r)") (use lex_step_shorter in \<open>force+\<close>)

definition lex :: "golib \<Rightarrow> string \<Rightarrow> feel_error + token list" where
  "lex go src = lex_loop go (length (runes src)) None (runes src)"

text \<open>One end-of-file token, at the end.\<close>

fun toks_wf :: "token list \<Rightarrow> bool" where
  "toks_wf [] = False"
| "toks_wf [t] = (kind t = tokEOF)"
| "toks_wf (t # u # ts) = (kind t \<noteq> tokEOF \<and> toks_wf (u # ts))"

lemma toks_wf_Cons: "toks_wf ts \<Longrightarrow> kind t \<noteq> tokEOF \<Longrightarrow> toks_wf (t # ts)"
  by (cases ts) simp_all

lemma lex_step_kind: "lex_step go i prev c cs = Inr (Some t, rest) \<Longrightarrow> kind t \<noteq> tokEOF"
  by (auto simp: lex_step_def tok_def split: if_splits option.splits prod.splits)

lemma lex_loop_toks: "lex_loop go n prev r = Inr ts \<Longrightarrow> toks_wf ts"
  by (induction go n prev r arbitrary: ts rule: lex_loop.induct)
     (fastforce simp: tok_def result_bind_Inr_iff intro: toks_wf_Cons dest: lex_step_kind
       split: sum.splits prod.splits option.splits)+

end
