(* ===== verification/Feel_Parser.thy ===== *)
theory Feel_Parser
  imports Feel_Lexer Feel_Eval
begin

text \<open>
  The recursive-descent parser of the FEEL interpreter (\<open>internal/feel/parser.go\<close>). The state of the
  Go parser is its position in the tokens; here a parser takes the tokens that are left and returns its
  result with the tokens left after it. Reading past the last token is an index out of range, the error
  \<open>FeelPanic\<close>.

  Every parsing function of the source is a definition that takes the parsers of nested expressions
  (\<open>ex\<close>) and of nested operands of a range (\<open>ad\<close>) as arguments; \<open>expr\<close> and \<open>additive_at\<close> tie
  the knot. Nesting takes one unit of fuel per level and each loop one per round; running out of fuel is
  the error \<open>NoReturn\<close>. A nested parser starts after at least one token, so as much fuel as there are
  tokens is enough: the parser is total, and never reads past the last token.
\<close>

type_synonym 'a parser = "token list \<Rightarrow> feel_error + 'a \<times> token list"

subsection \<open>Reading tokens\<close>

definition peekAt :: "nat \<Rightarrow> token list \<Rightarrow> token" where
  "peekAt n ts = (if n < length ts then ts ! n else last ts)"

definition next_tok :: "token parser" where
  "next_tok ts = (case ts of [] \<Rightarrow> Inl FeelPanic | t # rest \<Rightarrow> Inr (t, rest))"

definition accept :: "tokenKind \<Rightarrow> string \<Rightarrow> bool parser" where
  "accept k s ts = (case ts of
     [] \<Rightarrow> Inl FeelPanic
   | t # rest \<Rightarrow> Inr (if is_tok t k s then (True, rest) else (False, ts)))"

definition expect :: "tokenKind \<Rightarrow> string \<Rightarrow> unit parser" where
  "expect k s ts = result_bind (accept k s ts) (\<lambda>(ok, rest).
     if ok then Inr ((), rest) else Inl (SyntaxError (''expected '' @ s)))"

text \<open>Items separated by commas up to a closing bracket.\<close>

fun sep_loop :: "nat \<Rightarrow> 'a parser \<Rightarrow> string \<Rightarrow> 'a list \<Rightarrow> 'a list parser" where
  "sep_loop 0 item close acc ts = Inl NoReturn"
| "sep_loop (Suc f) item close acc ts =
     result_bind (item ts) (\<lambda>(x, ts1).
     result_bind (accept tokPunct close ts1) (\<lambda>(done, ts2).
       if done then Inr (acc @ [x], ts2)
       else result_bind (expect tokPunct '','' ts2) (\<lambda>(_, ts3). sep_loop f item close (acc @ [x]) ts3)))"

definition separated :: "'a parser \<Rightarrow> string \<Rightarrow> 'a list parser" where
  "separated item close ts = sep_loop (length ts) item close [] ts"

text \<open>The loop of a left-associative binary operator.\<close>

fun chain :: "nat \<Rightarrow> (token \<Rightarrow> bool) \<Rightarrow> node parser \<Rightarrow> node \<Rightarrow> node parser" where
  "chain 0 op p l ts = Inl NoReturn"
| "chain (Suc f) op p l ts =
     (case ts of
        [] \<Rightarrow> Inl FeelPanic
      | t # rest \<Rightarrow>
          if op t then result_bind (p rest) (\<lambda>(r, ts1). chain f op p (binNode (text_of t) l r) ts1)
          else Inr (l, ts))"

definition left_assoc :: "(token \<Rightarrow> bool) \<Rightarrow> node parser \<Rightarrow> node parser" where
  "left_assoc op p ts = result_bind (p ts) (\<lambda>(l, ts1). chain (length ts1) op p l ts1)"

subsection \<open>Looking ahead\<close>

fun range_scan :: "int \<Rightarrow> token list \<Rightarrow> bool" where
  "range_scan depth [] = False"
| "range_scan depth (t # ts) =
     (if kind t = tokPunct \<and> text_of t \<in> {''('', ''['', ''{''} then range_scan (depth + 1) ts
      else if kind t = tokPunct \<and> text_of t \<in> {'')'', '']'', ''}''} then
        if depth - 1 \<le> 0 then False else range_scan (depth - 1) ts
      else if is_tok t tokPunct ''..'' \<and> depth = 1 then True
      else if is_tok t tokPunct '','' \<and> depth = 1 then False
      else if kind t = tokEOF then False
      else range_scan depth ts)"

definition looksLikeRange :: "token list \<Rightarrow> bool" where
  "looksLikeRange ts = range_scan 0 ts"

fun name_loop :: "golib \<Rightarrow> nat \<Rightarrow> nat \<Rightarrow> string list \<Rightarrow> string \<times> nat \<Rightarrow> token list \<Rightarrow> string \<times> nat" where
  "name_loop go 0 i words best ts = best"
| "name_loop go (Suc f) i words best ts =
     (let t = peekAt i ts in
      if kind t \<noteq> tokName then best
      else
        (let words' = words @ [text_of t]; name = str_join words' '' '';
             best' = (if is_tok (peekAt (i + 1) ts) tokPunct ''('' \<and> (i = 0 \<or> name \<in> set (multiWordFunctions go))
                      then (name, i + 1) else best)
         in name_loop go f (i + 1) words' best' ts))"

definition functionName :: "golib \<Rightarrow> token list \<Rightarrow> string \<times> nat" where
  "functionName go ts = name_loop go 5 0 [] ('''', 0) ts"

fun words_loop :: "nat \<Rightarrow> nat \<Rightarrow> token list \<Rightarrow> nat" where
  "words_loop 0 i ts = 0"
| "words_loop (Suc f) i ts =
     (let t = peekAt i ts in
      if is_tok t tokPunct '':'' then i else if kind t \<noteq> tokName then 0 else words_loop f (i + 1) ts)"

definition namedArgumentWords :: "token list \<Rightarrow> nat" where
  "namedArgumentWords ts = words_loop 4 0 ts"

definition comparisonOps :: "string list" where
  "comparisonOps = [''='', ''!='', ''<'', ''<='', ''>'', ''>='']"

subsection \<open>Primary expressions\<close>

definition rangeLiteral :: "node parser \<Rightarrow> node parser" where
  "rangeLiteral ad ts =
     result_bind (next_tok ts) (\<lambda>(opening, ts1).
     result_bind (ad ts1) (\<lambda>(lo, ts2).
     result_bind (expect tokPunct ''..'' ts2) (\<lambda>(_, ts3).
     result_bind (ad ts3) (\<lambda>(hi, ts4).
     result_bind (next_tok ts4) (\<lambda>(closing, ts5).
       if kind closing \<noteq> tokPunct \<or> text_of closing \<notin> {'']'', '')'', ''[''} then Inl (SyntaxError ''expected range end'')
       else Inr (rangeNode lo hi (text_of opening = ''['') (text_of closing = '']''), ts5))))))"

text \<open>A context key: a name or string and the names after it.\<close>

definition context_key :: "string parser" where
  "context_key ts =
     result_bind (next_tok ts) (\<lambda>(k, ts1).
       if kind k \<noteq> tokName \<and> kind k \<noteq> tokString then Inl (SyntaxError ''expected a context key'')
       else Inr (text_of k @ concat (map (\<lambda>t. '' '' @ text_of t) (takeWhile (\<lambda>t. kind t = tokName) ts1)),
                 dropWhile (\<lambda>t. kind t = tokName) ts1))"

definition context_entry :: "node parser \<Rightarrow> (string \<times> node) parser" where
  "context_entry ex ts =
     result_bind (context_key ts) (\<lambda>(key, ts1).
     result_bind (expect tokPunct '':'' ts1) (\<lambda>(_, ts2).
     result_bind (ex ts2) (\<lambda>(v, ts3). Inr ((key, v), ts3))))"

definition context_literal :: "node parser \<Rightarrow> node parser" where
  "context_literal ex ts =
     result_bind (expect tokPunct ''{'' ts) (\<lambda>(_, ts1).
     result_bind (accept tokPunct ''}'' ts1) (\<lambda>(done, ts2).
       if done then Inr (contextNode [], ts2)
       else result_bind (separated (context_entry ex) ''}'' ts2) (\<lambda>(es, ts3). Inr (contextNode es, ts3))))"

definition call_arg :: "node parser \<Rightarrow> (string option \<times> node) parser" where
  "call_arg ex ts =
     (let w = namedArgumentWords ts in
      if w > 0 then
        result_bind (next_tok (drop w ts)) (\<lambda>(_, ts1).
        result_bind (ex ts1) (\<lambda>(v, ts2). Inr ((Some (str_join (map text_of (take w ts)) '' ''), v), ts2)))
      else result_bind (ex ts) (\<lambda>(v, ts1). Inr ((None, v), ts1)))"

definition call_node :: "string \<Rightarrow> (string option \<times> node) list \<Rightarrow> node" where
  "call_node name as =
     callNode name (map snd (filter (\<lambda>(k, _). k = None) as))
       (fold (\<lambda>(k, v) m. case k of Some n \<Rightarrow> AList.update n v m | None \<Rightarrow> m) as [])"

definition call :: "node parser \<Rightarrow> string \<Rightarrow> node parser" where
  "call ex name ts =
     result_bind (expect tokPunct ''('' ts) (\<lambda>(_, ts1).
     result_bind (accept tokPunct '')'' ts1) (\<lambda>(done, ts2).
       if done then Inr (callNode name [] [], ts2)
       else result_bind (separated (call_arg ex) '')'' ts2) (\<lambda>(as, ts3). Inr (call_node name as, ts3))))"

text \<open>\<open>utest\<close> parses a unary test.\<close>

definition primary_name :: "golib \<Rightarrow> node parser \<Rightarrow> node parser \<Rightarrow> token \<Rightarrow> node parser" where
  "primary_name go ex utest t ts =
     (if text_of t = ''true'' \<or> text_of t = ''false'' then Inr (litNode (VBool (text_of t = ''true'')), tl ts)
      else if text_of t = ''null'' then Inr (litNode VNull, tl ts)
      else if text_of t = ''not'' \<and> is_tok (peekAt 1 ts) tokPunct ''('' then
        result_bind (separated utest '')'' (drop 2 ts)) (\<lambda>(tests, ts1). Inr (notTestNode tests, ts1))
      else
        (case functionName go ts of (name, n) \<Rightarrow>
           if n > 0 then call ex name (drop n ts) else Inr (nameNode (text_of t), tl ts)))"

definition primary :: "golib \<Rightarrow> node parser \<Rightarrow> node parser \<Rightarrow> node parser \<Rightarrow> node parser" where
  "primary go ex ad utest ts =
     (case ts of
        [] \<Rightarrow> Inl FeelPanic
      | t # rest \<Rightarrow>
          (case kind t of
             tokNumber \<Rightarrow>
               (case Rat_SetString go (text_of t) of
                  None \<Rightarrow> Inl (SyntaxError ''invalid number'')
                | Some r \<Rightarrow> Inr (litNode (withScale r (literalScale (text_of t))), rest))
           | tokString \<Rightarrow> Inr (litNode (VStr (text_of t)), rest)
           | tokTemporal \<Rightarrow>
               (case parseTemporal go (text_of t) of
                  None \<Rightarrow> Inl (SyntaxError ''invalid temporal literal'')
                | Some v \<Rightarrow> Inr (litNode v, rest))
           | tokName \<Rightarrow> primary_name go ex utest t ts
           | tokPunct \<Rightarrow>
               if text_of t = ''('' then
                 if looksLikeRange ts then rangeLiteral ad ts
                 else result_bind (ex rest) (\<lambda>(x, ts1).
                   result_bind (expect tokPunct '')'' ts1) (\<lambda>(_, ts2). Inr (x, ts2)))
               else if text_of t = ''['' then
                 if looksLikeRange ts then rangeLiteral ad ts
                 else result_bind (accept tokPunct '']'' rest) (\<lambda>(done, ts1).
                   if done then Inr (listNode [], ts1)
                   else result_bind (separated ex '']'' ts1) (\<lambda>(items, ts2). Inr (listNode items, ts2)))
               else if text_of t = '']'' then rangeLiteral ad ts
               else if text_of t = ''{'' then context_literal ex ts
               else Inl (SyntaxError ''unexpected token'')
           | tokEOF \<Rightarrow> Inl (SyntaxError ''unexpected end of expression'')))"

subsection \<open>Operators\<close>

fun post_loop :: "nat \<Rightarrow> node parser \<Rightarrow> node \<Rightarrow> node parser" where
  "post_loop 0 ex x ts = Inl NoReturn"
| "post_loop (Suc f) ex x ts =
     (case ts of
        [] \<Rightarrow> Inl FeelPanic
      | t # rest \<Rightarrow>
          if is_tok t tokPunct ''.'' then
            result_bind (next_tok rest) (\<lambda>(name, ts1).
              if kind name \<noteq> tokName \<and> kind name \<noteq> tokString then Inl (SyntaxError ''expected a name after .'')
              else post_loop f ex (pathNode x (text_of name)) ts1)
          else if is_tok t tokPunct ''['' then
            result_bind (ex rest) (\<lambda>(cond, ts1).
            result_bind (expect tokPunct '']'' ts1) (\<lambda>(_, ts2). post_loop f ex (filterNode x cond) ts2))
          else Inr (x, ts))"

definition parse_unaryTest :: "node parser \<Rightarrow> node parser \<Rightarrow> node parser" where
  "parse_unaryTest ex ad ts =
     (case ts of
        [] \<Rightarrow> Inl FeelPanic
      | t # rest \<Rightarrow>
          if is_tok t tokPunct ''-'' \<and>
             (kind (peekAt 1 ts) = tokEOF \<or> is_tok (peekAt 1 ts) tokPunct '','' \<or> is_tok (peekAt 1 ts) tokPunct '')'') then
            Inr (anyTestNode, rest)
          else if kind t = tokPunct \<and> text_of t \<in> set comparisonOps \<and> text_of t \<noteq> ''='' then
            result_bind (ad rest) (\<lambda>(x, ts1). Inr (cmpTestNode (text_of t) x, ts1))
          else if is_tok t tokPunct ''='' then
            result_bind (ad rest) (\<lambda>(x, ts1). Inr (cmpTestNode ''='' x, ts1))
          else ex ts)"

definition postfix :: "golib \<Rightarrow> node parser \<Rightarrow> node parser \<Rightarrow> node parser" where
  "postfix go ex ad ts =
     result_bind (primary go ex ad (parse_unaryTest ex ad) ts) (\<lambda>(x, ts1). post_loop (length ts1) ex x ts1)"

fun unary :: "golib \<Rightarrow> node parser \<Rightarrow> node parser \<Rightarrow> node parser" where
  "unary go ex ad [] = Inl FeelPanic"
| "unary go ex ad (t # rest) =
     (if is_tok t tokPunct ''-'' then result_bind (unary go ex ad rest) (\<lambda>(x, ts1). Inr (negNode x, ts1))
      else postfix go ex ad (t # rest))"

definition exponent :: "golib \<Rightarrow> node parser \<Rightarrow> node parser \<Rightarrow> node parser" where
  "exponent go ex ad = left_assoc (\<lambda>t. is_tok t tokPunct ''**'') (unary go ex ad)"

definition multiplicative :: "golib \<Rightarrow> node parser \<Rightarrow> node parser \<Rightarrow> node parser" where
  "multiplicative go ex ad =
     left_assoc (\<lambda>t. is_tok t tokPunct ''*'' \<or> is_tok t tokPunct ''/'') (exponent go ex ad)"

definition additive :: "golib \<Rightarrow> node parser \<Rightarrow> node parser \<Rightarrow> node parser" where
  "additive go ex ad =
     left_assoc (\<lambda>t. is_tok t tokPunct ''+'' \<or> is_tok t tokPunct ''-'') (multiplicative go ex ad)"

definition positiveUnaryTests :: "node parser \<Rightarrow> node list parser" where
  "positiveUnaryTests utest ts =
     (case ts of
        [] \<Rightarrow> Inl FeelPanic
      | t # rest \<Rightarrow>
          if is_tok t tokPunct ''('' \<and> \<not> looksLikeRange ts then separated utest '')'' rest
          else result_bind (utest ts) (\<lambda>(x, ts1). Inr ([x], ts1)))"

definition comparison_rest :: "node parser \<Rightarrow> node parser \<Rightarrow> node \<Rightarrow> node parser" where
  "comparison_rest add utest l ts =
     (case ts of
        [] \<Rightarrow> Inl FeelPanic
      | t # rest \<Rightarrow>
          if kind t = tokPunct \<and> text_of t \<in> set comparisonOps then
            result_bind (add rest) (\<lambda>(r, ts1). Inr (binNode (text_of t) l r, ts1))
          else if is_tok t tokName ''between'' then
            result_bind (add rest) (\<lambda>(lo, ts1).
            result_bind (expect tokName ''and'' ts1) (\<lambda>(_, ts2).
            result_bind (add ts2) (\<lambda>(hi, ts3). Inr (betweenNode l lo hi, ts3))))
          else if is_tok t tokName ''in'' then
            result_bind (positiveUnaryTests utest rest) (\<lambda>(tests, ts1). Inr (inNode l tests, ts1))
          else Inr (l, ts))"

definition comparison :: "golib \<Rightarrow> node parser \<Rightarrow> node parser \<Rightarrow> node parser" where
  "comparison go ex ad ts =
     result_bind (additive go ex ad ts)
       (\<lambda>(l, ts1). comparison_rest (additive go ex ad) (parse_unaryTest ex ad) l ts1)"

definition conjunction :: "golib \<Rightarrow> node parser \<Rightarrow> node parser \<Rightarrow> node parser" where
  "conjunction go ex ad = left_assoc (\<lambda>t. is_tok t tokName ''and'') (comparison go ex ad)"

definition disjunction :: "golib \<Rightarrow> node parser \<Rightarrow> node parser \<Rightarrow> node parser" where
  "disjunction go ex ad = left_assoc (\<lambda>t. is_tok t tokName ''or'') (conjunction go ex ad)"

subsection \<open>Expressions\<close>

text \<open>\<open>dj\<close> parses a disjunction.\<close>

definition one_iterator :: "node parser \<Rightarrow> (string \<times> node) parser" where
  "one_iterator dj ts =
     result_bind (next_tok ts) (\<lambda>(name, ts1).
       if kind name \<noteq> tokName then Inl (SyntaxError ''expected a variable name'')
       else
         result_bind (expect tokName ''in'' ts1) (\<lambda>(_, ts2).
         result_bind (dj ts2) (\<lambda>(coll, ts3).
         result_bind (accept tokPunct ''..'' ts3) (\<lambda>(range, ts4).
           if range then
             result_bind (dj ts4) (\<lambda>(hi, ts5). Inr ((text_of name, rangeNode coll hi True True), ts5))
           else Inr ((text_of name, coll), ts4)))))"

fun iter_loop :: "nat \<Rightarrow> node parser \<Rightarrow> (string \<times> node) list \<Rightarrow> (string \<times> node) list parser" where
  "iter_loop 0 dj acc ts = Inl NoReturn"
| "iter_loop (Suc f) dj acc ts =
     result_bind (one_iterator dj ts) (\<lambda>(it, ts1).
     result_bind (accept tokPunct '','' ts1) (\<lambda>(more, ts2).
       if more then iter_loop f dj (acc @ [it]) ts2 else Inr (acc @ [it], ts2)))"

definition iterators :: "node parser \<Rightarrow> (string \<times> node) list parser" where
  "iterators dj ts = iter_loop (length ts) dj [] ts"

definition expr_body :: "golib \<Rightarrow> node parser \<Rightarrow> node parser \<Rightarrow> node parser" where
  "expr_body go ex ad ts =
     (case ts of
        [] \<Rightarrow> Inl FeelPanic
      | t # rest \<Rightarrow>
          if is_tok t tokName ''if'' then
            result_bind (ex rest) (\<lambda>(cond, ts1).
            result_bind (expect tokName ''then'' ts1) (\<lambda>(_, ts2).
            result_bind (ex ts2) (\<lambda>(th, ts3).
            result_bind (expect tokName ''else'' ts3) (\<lambda>(_, ts4).
            result_bind (ex ts4) (\<lambda>(el, ts5). Inr (ifNode cond th el, ts5))))))
          else if is_tok t tokName ''for'' then
            result_bind (iterators (disjunction go ex ad) rest) (\<lambda>(iters, ts1).
            result_bind (expect tokName ''return'' ts1) (\<lambda>(_, ts2).
            result_bind (ex ts2) (\<lambda>(body, ts3). Inr (forNode iters body, ts3))))
          else if is_tok t tokName ''some'' \<or> is_tok t tokName ''every'' then
            result_bind (iterators (disjunction go ex ad) rest) (\<lambda>(iters, ts1).
            result_bind (expect tokName ''satisfies'' ts1) (\<lambda>(_, ts2).
            result_bind (ex ts2) (\<lambda>(cond, ts3). Inr (quantNode (text_of t = ''every'') iters cond, ts3))))
          else disjunction go ex ad ts)"

fun expr :: "golib \<Rightarrow> nat \<Rightarrow> node parser"
  and additive_at :: "golib \<Rightarrow> nat \<Rightarrow> node parser" where
  "expr go 0 ts = Inl NoReturn"
| "expr go (Suc f) ts = expr_body go (expr go f) (additive_at go f) ts"
| "additive_at go 0 ts = Inl NoReturn"
| "additive_at go (Suc f) ts = additive go (expr go f) (additive_at go f) ts"

definition parse_tokens :: "golib \<Rightarrow> token list \<Rightarrow> feel_error + node" where
  "parse_tokens go toks =
     result_bind (expr go (length toks) toks) (\<lambda>(n, rest).
       case rest of
         [] \<Rightarrow> Inl FeelPanic
       | t # _ \<Rightarrow> if kind t \<noteq> tokEOF then Inl (SyntaxError ''unexpected token'') else Inr n)"

definition parseExpression :: "golib \<Rightarrow> string \<Rightarrow> feel_error + node" where
  "parseExpression go src = result_bind (lex go src) (parse_tokens go)"

fun tests_loop :: "nat \<Rightarrow> node parser \<Rightarrow> node list \<Rightarrow> token list \<Rightarrow> feel_error + node list" where
  "tests_loop 0 utest acc ts = Inl NoReturn"
| "tests_loop (Suc f) utest acc ts =
     result_bind (utest ts) (\<lambda>(t, ts1).
       case ts1 of
         [] \<Rightarrow> Inl FeelPanic
       | u # _ \<Rightarrow>
           if kind u = tokEOF then Inr (acc @ [t])
           else result_bind (expect tokPunct '','' ts1) (\<lambda>(_, ts2). tests_loop f utest (acc @ [t]) ts2))"

definition parseUnaryTests :: "golib \<Rightarrow> string \<Rightarrow> feel_error + node list" where
  "parseUnaryTests go src =
     result_bind (lex go src) (\<lambda>toks.
       tests_loop (length toks)
         (parse_unaryTest (expr go (length toks)) (additive_at go (length toks))) [] toks)"

end
