(* ===== verification/Feel_Syntax.thy ===== *)
theory Feel_Syntax
  imports Feel_Parser Feel_Types
begin

text \<open>
  The parser of FEEL is total: on the tokens of a lexed source it ends with a tree or a syntax error, never
  reads past the last token, and takes no more fuel than there are tokens. The literals of its trees are
  well-formed values.

  \<open>parsed Q n r\<close> says this of one result: an error is a syntax error; a success has a result with
  \<open>Q\<close> and leaves at most \<open>n\<close> tokens, the end-of-file token among them. \<open>total_on Q n p\<close> says
  it of a parser, on at most \<open>n\<close> tokens, of which it takes at least one.
\<close>

definition parsed :: "('a \<Rightarrow> bool) \<Rightarrow> nat \<Rightarrow> feel_error + 'a \<times> token list \<Rightarrow> bool" where
  "parsed Q n r = (case r of
     Inl e \<Rightarrow> (\<exists>m. e = SyntaxError m)
   | Inr (x, rest) \<Rightarrow> Q x \<and> toks_wf rest \<and> length rest \<le> n)"

definition total_on :: "('a \<Rightarrow> bool) \<Rightarrow> nat \<Rightarrow> 'a parser \<Rightarrow> bool" where
  "total_on Q n p \<longleftrightarrow> (\<forall>ts. toks_wf ts \<longrightarrow> length ts \<le> n \<longrightarrow> parsed Q (length ts - 1) (p ts))"

subsection \<open>Rules\<close>

lemma parsed_simps [simp]:
  "parsed Q n (Inl e) \<longleftrightarrow> (\<exists>m. e = SyntaxError m)"
  "parsed Q n (Inr (x, rest)) \<longleftrightarrow> Q x \<and> toks_wf rest \<and> length rest \<le> n"
  by (simp_all add: parsed_def)

lemma parsed_bind:
  assumes "parsed Q n r" and "\<And>x rest. Q x \<Longrightarrow> toks_wf rest \<Longrightarrow> length rest \<le> n \<Longrightarrow> parsed R k (f (x, rest))"
  shows "parsed R k (result_bind r f)"
  using assms by (cases r) (auto simp: parsed_def)

lemma parsed_mono: "parsed Q n r \<Longrightarrow> n \<le> k \<Longrightarrow> parsed Q k r"
  by (auto simp: parsed_def split: sum.splits)

lemma total_onD: "total_on Q n p \<Longrightarrow> toks_wf ts \<Longrightarrow> length ts \<le> n \<Longrightarrow> length ts - 1 \<le> k \<Longrightarrow> parsed Q k (p ts)"
  by (auto simp: total_on_def intro: parsed_mono)

lemma total_onI: "(\<And>ts. toks_wf ts \<Longrightarrow> length ts \<le> n \<Longrightarrow> parsed Q (length ts - 1) (p ts)) \<Longrightarrow> total_on Q n p"
  by (simp add: total_on_def)

lemma toks_wf_tl: "toks_wf (t # ts) \<Longrightarrow> kind t \<noteq> tokEOF \<Longrightarrow> toks_wf ts"
  by (cases ts) simp_all

lemma toks_wf_cases:
  assumes "toks_wf ts"
  obtains (eof) t where "ts = [t]" "kind t = tokEOF" | (more) t rest where "ts = t # rest" "kind t \<noteq> tokEOF" "toks_wf rest"
  using assms by (cases ts rule: toks_wf.cases) auto

lemma toks_wf_drop: "toks_wf ts \<Longrightarrow> list_all (\<lambda>t. kind t \<noteq> tokEOF) (take n ts) \<Longrightarrow> toks_wf (drop n ts)"
proof (induction n arbitrary: ts)
  case (Suc n)
  then show ?case by (cases rule: toks_wf_cases [OF Suc.prems(1)]) auto
qed simp

lemma toks_wf_dropWhile: "toks_wf ts \<Longrightarrow> \<not> P (last ts) \<Longrightarrow> toks_wf (dropWhile P ts)"
  by (induction ts rule: toks_wf.induct) auto

lemma toks_wf_last: "toks_wf ts \<Longrightarrow> kind (last ts) = tokEOF"
  by (induction ts rule: toks_wf.induct) auto

lemma parsed_if: "(b \<Longrightarrow> parsed Q n x) \<Longrightarrow> (\<not> b \<Longrightarrow> parsed Q n y) \<Longrightarrow> parsed Q n (if b then x else y)"
  by simp

lemma bind_accept:
  assumes "toks_wf ts" "k \<noteq> tokEOF"
    and "\<And>rest. toks_wf rest \<Longrightarrow> length rest < length ts \<Longrightarrow> parsed R m (f (True, rest))" and "parsed R m (f (False, ts))"
  shows "parsed R m (result_bind (accept k s ts) f)"
  using assms by (auto simp: accept_def is_tok_def elim: toks_wf_cases)

lemma bind_expect:
  assumes "toks_wf ts" "k \<noteq> tokEOF"
    and "\<And>rest. toks_wf rest \<Longrightarrow> length rest < length ts \<Longrightarrow> parsed R m (f ((), rest))"
  shows "parsed R m (result_bind (expect k s ts) f)"
  using assms by (auto simp: expect_def accept_def is_tok_def elim: toks_wf_cases)

lemma bind_next:
  assumes "toks_wf ts"
    and "\<And>t rest. toks_wf rest \<Longrightarrow> length rest < length ts \<Longrightarrow> kind t \<noteq> tokEOF \<Longrightarrow> parsed R m (f (t, rest))"
    and "\<And>t. kind t = tokEOF \<Longrightarrow> parsed R m (f (t, []))"
  shows "parsed R m (result_bind (next_tok ts) f)"
  using assms by (auto simp: next_tok_def elim: toks_wf_cases)

lemma bind_total:
  assumes "total_on Q n p" "toks_wf ts" "length ts \<le> n"
    and "\<And>x rest. Q x \<Longrightarrow> toks_wf rest \<Longrightarrow> length rest < length ts \<Longrightarrow> parsed R m (f (x, rest))"
  shows "parsed R m (result_bind (p ts) f)"
proof -
  have "ts \<noteq> []" using assms(2) by auto
  then show ?thesis using assms by (intro parsed_bind [OF total_onD [OF assms(1-3) order_refl]]) (cases ts, auto)
qed

lemmas parse_steps = bind_accept bind_expect bind_next

subsection \<open>Loops\<close>

lemma sep_loop_parsed:
  assumes "total_on Q n item"
  shows "toks_wf ts \<Longrightarrow> length ts \<le> n \<Longrightarrow> length ts \<le> f \<Longrightarrow> length ts \<le> Suc m \<Longrightarrow> list_all Q acc \<Longrightarrow>
    parsed (list_all Q) m (sep_loop f item close acc ts)"
proof (induction f arbitrary: acc ts)
  case (Suc f)
  then show ?case by (auto intro!: bind_total [OF assms] parse_steps)
qed (auto elim: toks_wf_cases)

lemma separated_total: "total_on Q n item \<Longrightarrow> total_on (list_all Q) n (separated item close)"
  by (rule total_onI) (simp add: separated_def sep_loop_parsed)

lemma chain_parsed:
  assumes "total_on Q n p" and "\<And>t. op t \<Longrightarrow> kind t \<noteq> tokEOF" and "\<And>s l r. Q l \<Longrightarrow> Q r \<Longrightarrow> Q (binNode s l r)"
  shows "toks_wf ts \<Longrightarrow> length ts \<le> n \<Longrightarrow> length ts \<le> f \<Longrightarrow> length ts \<le> m \<Longrightarrow> Q l \<Longrightarrow> parsed Q m (chain f op p l ts)"
proof (induction f arbitrary: l ts)
  case (Suc f)
  from Suc.prems(1) show ?case
  proof (cases rule: toks_wf_cases)
    case (more t rest)
    then show ?thesis using Suc assms(3) by (auto intro!: bind_total [OF assms(1)] simp: toks_wf_Cons)
  qed (use Suc.prems assms(2) in auto)
qed (auto elim: toks_wf_cases)

lemma left_assoc_total:
  assumes "total_on Q n p" and "\<And>t. op t \<Longrightarrow> kind t \<noteq> tokEOF" and "\<And>s l r. Q l \<Longrightarrow> Q r \<Longrightarrow> Q (binNode s l r)"
  shows "total_on Q n (left_assoc op p)"
  by (rule total_onI) (auto simp: left_assoc_def intro!: bind_total [OF assms(1)] chain_parsed [OF assms])


subsection \<open>Looking ahead\<close>

text \<open>A token before the end of file that \<open>peekAt\<close> shows is one of the tokens.\<close>

lemma peekAt_inside: "toks_wf ts \<Longrightarrow> kind (peekAt i ts) \<noteq> tokEOF \<Longrightarrow> i < length ts \<and> peekAt i ts = ts ! i"
  using toks_wf_last by (auto simp: peekAt_def split: if_splits)

definition names_before :: "nat \<Rightarrow> token list \<Rightarrow> bool" where
  "names_before i ts \<longleftrightarrow> i \<le> length ts \<and> (\<forall>j < i. kind (ts ! j) = tokName)"

lemma names_before_Suc:
  "toks_wf ts \<Longrightarrow> names_before i ts \<Longrightarrow> kind (peekAt i ts) = tokName \<Longrightarrow> names_before (Suc i) ts"
  using peekAt_inside [of ts i] by (auto simp: names_before_def less_Suc_eq)

lemma names_before_drop: "toks_wf ts \<Longrightarrow> names_before i ts \<Longrightarrow> toks_wf (drop i ts)"
  by (rule toks_wf_drop) (auto simp: names_before_def list_all_length)

lemma words_loop_names:
  "toks_wf ts \<Longrightarrow> names_before i ts \<Longrightarrow> words_loop f i ts = w \<Longrightarrow> 0 < w \<Longrightarrow>
     names_before w ts \<and> w < length ts \<and> is_tok (ts ! w) tokPunct '':''"
proof (induction f arbitrary: i)
  case (Suc f)
  then show ?case using peekAt_inside [of ts i] names_before_Suc [of ts i]
    by (auto simp: Let_def is_tok_def split: if_splits)
qed simp

lemma name_loop_names:
  "toks_wf ts \<Longrightarrow> names_before i ts \<Longrightarrow> names_before (snd best) ts \<Longrightarrow>
     names_before (snd (name_loop go f i words best ts)) ts"
proof (induction f arbitrary: i words best)
  case (Suc f)
  then show ?case using names_before_Suc [of ts i] by (auto simp: Let_def split: if_splits)
qed simp

lemma namedArgument_next:
  assumes "toks_wf ts" and "namedArgumentWords ts = w" and "0 < w"
  obtains t rest where "drop w ts = t # rest" "toks_wf rest" "length rest < length ts"
proof -
  have w: "names_before w ts" "w < length ts" "is_tok (ts ! w) tokPunct '':''"
    using words_loop_names [of ts 0 4 w] assms by (auto simp: namedArgumentWords_def names_before_def)
  then have "drop w ts = ts ! w # drop (Suc w) ts" by (simp add: Cons_nth_drop_Suc)
  moreover have "toks_wf (drop (Suc w) ts)"
    using names_before_drop [OF assms(1) w(1)] w(3) calculation toks_wf_tl by (auto simp: is_tok_def)
  ultimately show thesis using that w(2) by auto
qed

lemma functionName_drop:
  assumes "toks_wf ts" and "functionName go ts = (name, n)"
  shows "toks_wf (drop n ts)"
  using name_loop_names [of ts 0 "('''', 0)" go 5 "[]"] assms names_before_drop
  by (auto simp: functionName_def names_before_def)

subsection \<open>Primary expressions\<close>

lemma rangeLiteral_parsed:
  assumes "total_on node_wf n ad" and "kind t \<noteq> tokEOF" and "toks_wf rest" and "length rest \<le> n"
  shows "parsed node_wf (length rest) (rangeLiteral ad (t # rest))"
  using assms(2-) toks_wf_Cons [OF assms(3,2)] unfolding rangeLiteral_def
  by (auto intro!: bind_total [OF assms(1)] parse_steps simp: next_tok_def [of "t # rest"])

lemma dropWhile_parsed:
  "toks_wf ts \<Longrightarrow> length ts \<le> n \<Longrightarrow> parsed (\<lambda>_. True) n (Inr (x, dropWhile (\<lambda>t. kind t = tokName) ts))"
  using toks_wf_last [of ts] length_dropWhile_le [of "\<lambda>t. kind t = tokName" ts] by (auto intro: toks_wf_dropWhile)

lemma context_key_total: "total_on (\<lambda>_. True) n context_key"
  by (rule total_onI) (auto simp: context_key_def simp del: parsed_simps(2) intro!: bind_next dropWhile_parsed)

lemma context_entry_total:
  assumes "total_on node_wf n ex"
  shows "total_on (\<lambda>(_, v). node_wf v) n (context_entry ex)"
  by (rule total_onI)
     (auto simp: context_entry_def intro!: bind_total [OF assms] bind_total [OF context_key_total [of n]] parse_steps)

lemma context_literal_total: "total_on node_wf n ex \<Longrightarrow> total_on node_wf (Suc n) (context_literal ex)"
  by (rule total_onI)
     (auto simp: context_literal_def list_all_concat entries_wf_def case_prod_unfold
       intro!: parse_steps bind_total [OF separated_total [OF context_entry_total]])

lemma call_arg_total:
  assumes "total_on node_wf n ex"
  shows "total_on (\<lambda>(_, v). node_wf v) n (call_arg ex)"
proof (rule total_onI)
  fix ts assume ts: "toks_wf ts" "length ts \<le> n"
  show "parsed (\<lambda>(_, v). node_wf v) (length ts - 1) (call_arg ex ts)"
  proof (cases "namedArgumentWords ts > 0")
    case True
    then obtain t rest where "drop (namedArgumentWords ts) ts = t # rest" "toks_wf rest" "length rest < length ts"
      using namedArgument_next [OF ts(1) refl] by blast
    then show ?thesis using True ts
      by (auto simp: call_arg_def next_tok_def intro!: bind_total [OF assms])
  qed (use ts in \<open>auto simp: call_arg_def intro!: bind_total [OF assms]\<close>)
qed

lemma call_node_wf: "list_all (\<lambda>(_, v). node_wf v) as \<Longrightarrow> node_wf (call_node name as)"
proof -
  assume as: "list_all (\<lambda>(_, v). node_wf v) as"
  have upd: "entries_wf m \<Longrightarrow> node_wf v \<Longrightarrow> entries_wf (AList.update k v m)" for k v m
    by (induction m) auto
  have "entries_wf m \<Longrightarrow> list_all (\<lambda>(_, v). node_wf v) bs \<Longrightarrow>
      entries_wf (fold (\<lambda>(k, v) m. case k of Some n \<Rightarrow> AList.update n v m | None \<Rightarrow> m) bs m)" for m bs
    by (induction bs arbitrary: m) (auto simp: upd split: option.split)
  from this [of "[]" as] as have
    "entries_wf (fold (\<lambda>(k, v) m. case k of Some n \<Rightarrow> AList.update n v m | None \<Rightarrow> m) as [])"
    by (simp add: entries_wf_def)
  moreover have "list_all (\<lambda>x. node_wf (snd x)) (filter (\<lambda>(k, _). k = None) as)"
    using as by (auto simp: list_all_iff)
  ultimately show ?thesis by (simp add: call_node_def list_all_concat comp_def)
qed

lemma call_parsed:
  assumes "total_on node_wf n ex" and "toks_wf ts" and "length ts \<le> Suc n"
  shows "parsed node_wf (length ts - 1) (call ex name ts)"
  using assms(2-) unfolding call_def
  by (auto intro!: parse_steps bind_total [OF separated_total [OF call_arg_total [OF assms(1)]]] call_node_wf;
      linarith)

lemma parseTemporal_wf: "parseTemporal go s = Some v \<Longrightarrow> value_wf v"
  by (auto simp: parseTemporal_def dest: parseDuration_wf split: option.splits)

text \<open>A primary expression, on one token more than its nested parsers.\<close>

locale nested =
  fixes go :: golib and n :: nat and ex ad :: "node parser"
  assumes ex: "total_on node_wf n ex" and ad: "total_on node_wf n ad"
begin

lemma utest: "total_on node_wf n (parse_unaryTest ex ad)"
proof (rule total_onI)
  fix ts assume ts: "toks_wf ts" "length ts \<le> n"
  then show "parsed node_wf (length ts - 1) (parse_unaryTest ex ad ts)"
    using total_onD [OF ex ts order_refl]
    by (cases rule: toks_wf_cases [OF ts(1)])
       (simp_all add: parse_unaryTest_def is_tok_def; auto intro!: bind_total [OF ad])+
qed

lemma primary_name_parsed:
  assumes "toks_wf (t # rest)" and "kind t = tokName" and "length rest \<le> n"
  shows "parsed node_wf (length rest) (primary_name go ex (parse_unaryTest ex ad) t (t # rest))"
proof -
  have rest: "toks_wf rest" using assms toks_wf_tl by auto
  have tests: "parsed node_wf (length rest)
      (result_bind (separated (parse_unaryTest ex ad) '')'' (tl rest)) (\<lambda>(tests, ts1). Inr (notTestNode tests, ts1)))"
    if "is_tok (peekAt 1 (t # rest)) tokPunct ''(''"
  proof -
    have "is_tok (hd rest) tokPunct ''(''" using that rest peekAt_inside [OF assms(1), of 1] by (cases rest) (auto simp: is_tok_def)
    then have "toks_wf (tl rest)" using rest toks_wf_tl by (cases rest) (auto simp: is_tok_def)
    then show ?thesis using assms(3) by (auto intro!: bind_total [OF separated_total [OF utest]] simp: list_all_concat)
  qed
  show ?thesis
  proof (cases "functionName go (t # rest)")
    case (Pair name k)
    have "0 < k \<Longrightarrow> parsed node_wf (length rest) (call ex name (drop k (t # rest)))"
      using call_parsed [OF ex functionName_drop [OF assms(1) Pair], of name] assms(3) parsed_mono [of node_wf "length rest - k"]
      by auto
    then show ?thesis using Pair rest tests by (auto simp: primary_name_def drop_Suc)
  qed
qed

lemma listNode_parsed:
  assumes "toks_wf ts" and "length ts \<le> n" and "length ts \<le> m"
  shows "parsed node_wf m (result_bind (separated ex close ts) (\<lambda>(items, ts1). Inr (listNode items, ts1)))"
  using assms by (auto intro!: bind_total [OF separated_total [OF ex]] simp: list_all_concat)

lemma primary: "total_on node_wf (Suc n) (primary go ex ad (parse_unaryTest ex ad))"
proof (rule total_onI)
  fix ts assume ts: "toks_wf ts" "length ts \<le> Suc n"
  show "parsed node_wf (length ts - 1) (primary go ex ad (parse_unaryTest ex ad) ts)"
    using ts(1)
  proof (cases rule: toks_wf_cases)
    case (more t rest)
    have "kind t = tokName \<Longrightarrow> parsed node_wf (length rest) (primary_name go ex (parse_unaryTest ex ad) t ts)"
      and "parsed node_wf (length rest) (rangeLiteral ad ts)" and "parsed node_wf (length rest) (context_literal ex ts)"
      using more ts primary_name_parsed [of t rest] rangeLiteral_parsed [OF ad more(2,3)]
        total_onD [OF context_literal_total [OF ex] ts order_refl] by auto
    then show ?thesis using more ts
      by (cases "kind t")
         (auto simp: primary_def feel_wf parseTemporal_wf intro!: parsed_if bind_total [OF ex] listNode_parsed parse_steps
           split: option.split)
  qed (simp add: primary_def)
qed

lemma post_loop_parsed:
  "toks_wf ts \<Longrightarrow> length ts \<le> f \<Longrightarrow> length ts \<le> Suc n \<Longrightarrow> length ts \<le> m \<Longrightarrow> node_wf x \<Longrightarrow>
     parsed node_wf m (post_loop f ex x ts)"
proof (induction f arbitrary: x ts)
  case (Suc f)
  from Suc.prems(1) show ?case
  proof (cases rule: toks_wf_cases)
    case (more t rest)
    then show ?thesis using Suc by (auto intro!: parsed_if bind_total [OF ex] parse_steps)
  qed (use Suc.prems in \<open>auto simp: is_tok_def\<close>)
qed (auto elim: toks_wf_cases)

lemma postfix: "total_on node_wf (Suc n) (postfix go ex ad)"
  by (rule total_onI) (auto simp: postfix_def intro!: bind_total [OF primary] post_loop_parsed)

lemma unary: "total_on node_wf (Suc n) (unary go ex ad)"
proof (rule total_onI)
  fix ts show "toks_wf ts \<Longrightarrow> length ts \<le> Suc n \<Longrightarrow> parsed node_wf (length ts - 1) (unary go ex ad ts)"
  proof (induction ts)
    case (Cons t rest)
    have "parsed node_wf (length rest) (postfix go ex ad (t # rest))"
      using total_onD [OF postfix Cons.prems order_refl] by simp
    moreover have "is_tok t tokPunct ''-'' \<Longrightarrow> parsed node_wf (length rest - 1) (unary go ex ad rest)"
      using Cons toks_wf_tl by (auto simp: is_tok_def)
    ultimately show ?case by (auto intro!: parsed_if elim!: parsed_bind)
  qed simp
qed

lemmas left_assoc_node = left_assoc_total [where Q = node_wf, simplified]

lemma operators:
  "total_on node_wf (Suc n) (exponent go ex ad)" "total_on node_wf (Suc n) (multiplicative go ex ad)"
  "total_on node_wf (Suc n) (additive go ex ad)"
proof -
  show exp: "total_on node_wf (Suc n) (exponent go ex ad)"
    unfolding exponent_def by (rule left_assoc_node [OF unary]) (simp_all add: is_tok_def)
  show mul: "total_on node_wf (Suc n) (multiplicative go ex ad)"
    unfolding multiplicative_def by (rule left_assoc_node [OF exp]) (auto simp: is_tok_def)
  show "total_on node_wf (Suc n) (additive go ex ad)"
    unfolding additive_def by (rule left_assoc_node [OF mul]) (auto simp: is_tok_def)
qed

lemma positiveUnaryTests: "total_on (list_all node_wf) n (positiveUnaryTests (parse_unaryTest ex ad))"
proof (rule total_onI)
  fix ts assume ts: "toks_wf ts" "length ts \<le> n"
  show "parsed (list_all node_wf) (length ts - 1) (positiveUnaryTests (parse_unaryTest ex ad) ts)"
    using ts(1)
  proof (cases rule: toks_wf_cases)
    case (more t rest)
    then show ?thesis using ts
      by (auto simp: positiveUnaryTests_def intro!: parsed_if bind_total [OF utest] total_onD [OF separated_total [OF utest]])
  qed (use ts in \<open>auto simp: positiveUnaryTests_def is_tok_def intro!: bind_total [OF utest]\<close>)
qed

lemma comparison: "total_on node_wf (Suc n) (comparison go ex ad)"
proof -
  have "parsed node_wf m (comparison_rest (additive go ex ad) (parse_unaryTest ex ad) l ts)"
    if "node_wf l" "toks_wf ts" "length ts \<le> m" "length ts \<le> n" for l ts m
    using that(2)
  proof (cases rule: toks_wf_cases)
    case (more t rest)
    then show ?thesis using that unfolding comparison_rest_def
      by (auto simp: list_all_concat intro!: parsed_if bind_total [OF operators(3)] bind_total [OF positiveUnaryTests] parse_steps)
  qed (use that in \<open>auto simp: comparison_rest_def is_tok_def\<close>)
  then show ?thesis by (intro total_onI) (auto simp: comparison_def intro!: bind_total [OF operators(3)])
qed

lemma logic: "total_on node_wf (Suc n) (conjunction go ex ad)" "total_on node_wf (Suc n) (disjunction go ex ad)"
proof -
  show con: "total_on node_wf (Suc n) (conjunction go ex ad)"
    unfolding conjunction_def by (rule left_assoc_node [OF comparison]) (simp_all add: is_tok_def)
  show "total_on node_wf (Suc n) (disjunction go ex ad)"
    unfolding disjunction_def by (rule left_assoc_node [OF con]) (simp_all add: is_tok_def)
qed

lemma iterators: "total_on entries_wf (Suc n) (iterators (disjunction go ex ad))"
proof (rule total_onI)
  have one: "total_on (\<lambda>(_, v). node_wf v) (Suc n) (one_iterator (disjunction go ex ad))"
    by (rule total_onI) (auto simp: one_iterator_def intro!: parsed_if bind_total [OF logic(2)] parse_steps)
  have "parsed entries_wf m (iter_loop f (disjunction go ex ad) acc ts)"
    if "toks_wf ts" "length ts \<le> f" "length ts \<le> Suc n" "length ts \<le> Suc m" "entries_wf acc" for f m acc ts
    using that
  proof (induction f arbitrary: acc ts)
    case (Suc f)
    then show ?case by (auto simp: entries_wf_def intro!: bind_total [OF one] parse_steps)
  qed (auto elim: toks_wf_cases)
  then show "toks_wf ts \<Longrightarrow> length ts \<le> Suc n \<Longrightarrow> parsed entries_wf (length ts - 1) (iterators (disjunction go ex ad) ts)" for ts
    by (simp add: iterators_def entries_wf_def)
qed

lemma expr_body: "total_on node_wf (Suc n) (expr_body go ex ad)"
proof (rule total_onI)
  fix ts assume ts: "toks_wf ts" "length ts \<le> Suc n"
  have dj: "parsed node_wf (length ts - 1) (disjunction go ex ad ts)" by (rule total_onD [OF logic(2) ts order_refl])
  from ts(1) show "parsed node_wf (length ts - 1) (expr_body go ex ad ts)"
  proof (cases rule: toks_wf_cases)
    case (more t rest)
    then show ?thesis using ts dj unfolding expr_body_def
      by (auto simp: list_all_concat intro!: parsed_if bind_total [OF ex] bind_total [OF iterators] parse_steps)
  qed (use dj in \<open>auto simp: expr_body_def is_tok_def\<close>)
qed

end

subsection \<open>The parser\<close>

lemma expr_total: "total_on node_wf n (expr go n) \<and> total_on node_wf n (additive_at go n)"
proof (induction n)
  case 0
  show ?case by (auto simp: total_on_def)
next
  case (Suc n)
  then have "nested n (expr go n) (additive_at go n)" by (simp add: nested.intro)
  then show ?case using nested.expr_body nested.operators(3) by (simp add: total_on_def)
qed

interpretation level: nested go n "expr go n" "additive_at go n" for go n
  by unfold_locales (simp_all add: expr_total)

lemma lex_step_syntax: "lex_step go i prev c cs = Inl e \<Longrightarrow> \<exists>m. e = SyntaxError m"
  by (auto simp: lex_step_def split: if_splits option.splits prod.splits)

lemma lex_loop_syntax: "lex_loop go n prev r = Inl e \<Longrightarrow> \<exists>m. e = SyntaxError m"
  by (induction go n prev r arbitrary: e rule: lex_loop.induct)
     (fastforce simp: result_bind_Inl_iff dest: lex_step_syntax split: sum.splits prod.splits)+

lemma lex_total: "case lex go src of Inl e \<Rightarrow> \<exists>m. e = SyntaxError m | Inr toks \<Rightarrow> toks_wf toks"
  by (auto simp: lex_def dest: lex_loop_syntax lex_loop_toks split: sum.split)

lemma parse_tokens_total:
  assumes "toks_wf toks"
  shows "case parse_tokens go toks of Inl e \<Rightarrow> \<exists>m. e = SyntaxError m | Inr n \<Rightarrow> node_wf n"
proof -
  have "parsed node_wf (length toks - 1) (expr go (length toks) toks)"
    using total_onD [OF conjunct1 [OF expr_total] assms order_refl order_refl] .
  then show ?thesis by (auto simp: parse_tokens_def parsed_def split: sum.splits list.splits if_splits)
qed

lemma tests_loop_total:
  assumes "total_on node_wf n utest"
  shows "toks_wf ts \<Longrightarrow> length ts \<le> f \<Longrightarrow> length ts \<le> n \<Longrightarrow> list_all node_wf acc \<Longrightarrow>
    case tests_loop f utest acc ts of Inl e \<Rightarrow> \<exists>m. e = SyntaxError m | Inr tests \<Rightarrow> list_all node_wf tests"
proof (induction f arbitrary: acc ts)
  case (Suc f)
  have "parsed node_wf (length ts - 1) (utest ts)" by (rule total_onD [OF assms Suc.prems(1,3) order_refl])
  then show ?case using Suc
    by (cases "utest ts") (auto simp: parsed_def expect_def accept_def is_tok_def elim: toks_wf_cases split: list.split)
qed (auto elim: toks_wf_cases)

text \<open>C32: The parser of FEEL is total on every source text: it ends with a syntax error or with a tree (or
  unary tests) whose literals are well-formed values. It never reads past the last token and never runs out of
  the fuel it starts with, the number of tokens.\<close>

theorem parse_total:
  "(case parseExpression go src of Inl e \<Rightarrow> \<exists>m. e = SyntaxError m | Inr n \<Rightarrow> list_all value_wf (lits n)) \<and>
   (case parseUnaryTests go src of Inl e \<Rightarrow> \<exists>m. e = SyntaxError m | Inr tests \<Rightarrow> list_all (\<lambda>n. list_all value_wf (lits n)) tests)"
proof (cases "lex go src")
  case (Inl e)
  then show ?thesis using lex_total [of go src] by (simp add: parseExpression_def parseUnaryTests_def)
next
  case (Inr toks)
  then have "toks_wf toks" using lex_total [of go src] by simp
  then show ?thesis using Inr parse_tokens_total [of toks go] tests_loop_total [OF level.utest [of "length toks" go], of toks]
    by (simp add: parseExpression_def parseUnaryTests_def)
qed

end
