(* ===== verification/Feel_Api.thy ===== *)
theory Feel_Api
  imports Feel_Syntax
begin

text \<open>
  The entry points of the FEEL interpreter (\<open>internal/feel/api.go\<close>): the cache of parsed
  expressions, and the evaluation of expressions, conditions and unary tests.

  The cache is shared. \<open>parseCached\<close> is the function of one caller; \<open>cache_step\<close> interleaves the
  callers: the lookup and the store each happen under the lock, the parsing between them does not.
\<close>

subsection \<open>The cache of parsed expressions\<close>

type_synonym expr_cache = "(string \<times> node) list"

definition maxCachedExpressions :: nat where "maxCachedExpressions = 5000"

definition cache_store :: "expr_cache \<Rightarrow> string \<Rightarrow> node \<Rightarrow> expr_cache" where
  "cache_store c e n = AList.update e n (if length c \<ge> maxCachedExpressions then [] else c)"

definition parseCached :: "golib \<Rightarrow> expr_cache \<Rightarrow> string \<Rightarrow> (feel_error + node) \<times> expr_cache" where
  "parseCached go c e =
     (case map_of c e of
        Some n \<Rightarrow> (Inr n, c)
      | None \<Rightarrow>
          (case parseExpression go e of
             Inl err \<Rightarrow> (Inl err, c)
           | Inr n \<Rightarrow> (Inr n, cache_store c e n)))"

subsection \<open>Evaluation\<close>

text \<open>The errors of the entry points. A panic is recovered; \<open>Diverges\<close> is a call that does not
  return.\<close>

datatype api_error =
    SyntaxFailed feel_error
  | EvaluationFailed feel_error
  | Panicked
  | ConditionNotBoolean goval
  | Diverges

definition recovered :: "(feel_error \<Rightarrow> api_error) \<Rightarrow> feel_error \<Rightarrow> api_error" where
  "recovered wrap e = (if e = FeelPanic then Panicked else if e = NoReturn then Diverges else wrap e)"

definition Evaluate :: "golib \<Rightarrow> expr_cache \<Rightarrow> string \<Rightarrow> vars \<Rightarrow> (api_error + goval) \<times> expr_cache" where
  "Evaluate go c e vs =
     (case parseCached go c e of
        (Inl err, c') \<Rightarrow> (Inl (recovered SyntaxFailed err), c')
      | (Inr n, c') \<Rightarrow>
          (case eval go n (rootScope go vs) of
             Inl err \<Rightarrow> (Inl (recovered EvaluationFailed err), c')
           | Inr v \<Rightarrow> (Inr (FromFEEL go v), c')))"

definition EvaluateBool :: "golib \<Rightarrow> expr_cache \<Rightarrow> string \<Rightarrow> vars \<Rightarrow> (api_error + bool) \<times> expr_cache" where
  "EvaluateBool go c e vs =
     (case Evaluate go c e vs of
        (Inl err, c') \<Rightarrow> (Inl err, c')
      | (Inr v, c') \<Rightarrow> ((case v of GBool b \<Rightarrow> Inr b | _ \<Rightarrow> Inl (ConditionNotBoolean v)), c'))"

definition EvaluateUnaryTests :: "golib \<Rightarrow> string \<Rightarrow> goval \<Rightarrow> vars \<Rightarrow> api_error + bool" where
  "EvaluateUnaryTests go tests inp vs =
     (case parseUnaryTests go tests of
        Inl err \<Rightarrow> Inl (recovered SyntaxFailed err)
      | Inr ts \<Rightarrow>
          (case anyTest go ts (ToFEEL go inp) (rootScope go vs) of
             Inl err \<Rightarrow> Inl (recovered EvaluationFailed err)
           | Inr v \<Rightarrow> Inr (v = VBool True)))"

subsection \<open>The cache under concurrent callers\<close>

datatype caller = Asking string | Missed string | Answered string "feel_error + node"

inductive cache_step :: "golib \<Rightarrow> expr_cache \<times> caller list \<Rightarrow> expr_cache \<times> caller list \<Rightarrow> bool" for go where
  hit: "i < length cs \<Longrightarrow> cs ! i = Asking e \<Longrightarrow> map_of c e = Some n \<Longrightarrow>
    cache_step go (c, cs) (c, cs[i := Answered e (Inr n)])"
| miss: "i < length cs \<Longrightarrow> cs ! i = Asking e \<Longrightarrow> map_of c e = None \<Longrightarrow>
    cache_step go (c, cs) (c, cs[i := Missed e])"
| reject: "i < length cs \<Longrightarrow> cs ! i = Missed e \<Longrightarrow> parseExpression go e = Inl err \<Longrightarrow>
    cache_step go (c, cs) (c, cs[i := Answered e (Inl err)])"
| store: "i < length cs \<Longrightarrow> cs ! i = Missed e \<Longrightarrow> parseExpression go e = Inr n \<Longrightarrow>
    cache_step go (c, cs) (cache_store c e n, cs[i := Answered e (Inr n)])"

definition coherent :: "golib \<Rightarrow> expr_cache \<Rightarrow> bool" where
  "coherent go c \<longleftrightarrow> (\<forall>e n. map_of c e = Some n \<longrightarrow> parseExpression go e = Inr n)"

definition cache_ok :: "golib \<Rightarrow> expr_cache \<Rightarrow> bool" where
  "cache_ok go c \<longleftrightarrow> coherent go c \<and> length c \<le> maxCachedExpressions"

fun caller_expr :: "caller \<Rightarrow> string" where
  "caller_expr (Asking e) = e"
| "caller_expr (Missed e) = e"
| "caller_expr (Answered e r) = e"

fun caller_ok :: "golib \<Rightarrow> caller \<Rightarrow> bool" where
  "caller_ok go (Answered e r) \<longleftrightarrow> r = parseExpression go e"
| "caller_ok go _ = True"

lemma length_update_le: "length (AList.update k v m) \<le> Suc (length m)"
  by (induction m) auto

lemma cache_store_ok: "cache_ok go c \<Longrightarrow> parseExpression go e = Inr n \<Longrightarrow> cache_ok go (cache_store c e n)"
  using length_update_le [of e n c]
  by (auto simp: cache_ok_def coherent_def cache_store_def update_conv' maxCachedExpressions_def)

lemma cache_step_inv:
  assumes "cache_step go s t" and "cache_ok go (fst s)" and "list_all (caller_ok go) (snd s)"
  shows "cache_ok go (fst t) \<and> list_all (caller_ok go) (snd t) \<and> map caller_expr (snd t) = map caller_expr (snd s)"
  using assms
proof (induction rule: cache_step.induct)
  case (hit i cs e c n)
  then show ?case by (auto simp: cache_ok_def coherent_def list_all_length nth_list_update map_update intro!: list_update_same_conv [THEN iffD2])
next
  case (store i cs e n c)
  then show ?case by (auto simp: cache_store_ok list_all_length nth_list_update map_update intro!: list_update_same_conv [THEN iffD2])
qed (auto simp: list_all_length nth_list_update map_update intro!: list_update_same_conv [THEN iffD2])

lemma cache_reachable_inv:
  assumes "(cache_step go)\<^sup>*\<^sup>* ([], map Asking es) s"
  shows "cache_ok go (fst s) \<and> list_all (caller_ok go) (snd s) \<and> map caller_expr (snd s) = es"
  using assms
proof (induction rule: rtranclp_induct)
  case base
  show ?case by (auto simp: cache_ok_def coherent_def list_all_iff comp_def)
next
  case (step s t)
  then show ?case using cache_step_inv [of go s t] by simp
qed

fun todo :: "caller \<Rightarrow> nat" where
  "todo (Asking e) = 2"
| "todo (Missed e) = 1"
| "todo (Answered e r) = 0"

lemma sum_list_update_less:
  "i < length cs \<Longrightarrow> f x < f (cs ! i) \<Longrightarrow> sum_list (map f (cs[i := x])) < (sum_list (map f cs) :: nat)"
proof (induction cs arbitrary: i)
  case (Cons c cs)
  then show ?case by (cases i) auto
qed simp

lemma cache_step_todo: "cache_step go s t \<Longrightarrow> sum_list (map todo (snd t)) < sum_list (map todo (snd s))"
  by (induction rule: cache_step.induct) (auto intro!: sum_list_update_less)

lemma cache_steps_bounded:
  "(cache_step go ^^ k) s t \<Longrightarrow> k + sum_list (map todo (snd t)) \<le> sum_list (map todo (snd s))"
proof (induction k arbitrary: t)
  case (Suc k)
  then obtain u where "(cache_step go ^^ k) s u" "cache_step go u t" by auto
  then show ?case using Suc.IH [of u] cache_step_todo [of go u t] by linarith
qed simp

lemma cache_step_enabled:
  "i < length cs \<Longrightarrow> todo (cs ! i) \<noteq> 0 \<Longrightarrow> \<exists>t. cache_step go (c, cs) t"
proof (cases "cs ! i")
  case (Asking e)
  then show "i < length cs \<Longrightarrow> ?thesis" by (cases "map_of c e") (blast intro: cache_step.intros)+
next
  case (Missed e)
  then show "i < length cs \<Longrightarrow> ?thesis" by (cases "parseExpression go e") (blast intro: cache_step.intros)+
qed simp

text \<open>One caller alone takes these steps to the result of \<open>parseCached\<close>.\<close>

lemma parseCached_steps:
  "(cache_step go)\<^sup>*\<^sup>* (c, [Asking e]) (snd (parseCached go c e), [Answered e (fst (parseCached go c e))])"
proof (cases "map_of c e")
  case None
  then have miss: "cache_step go (c, [Asking e]) (c, [Missed e])" using cache_step.miss [of 0 "[Asking e]" e c go] by simp
  show ?thesis
  proof (cases "parseExpression go e")
    case (Inl err)
    then have "cache_step go (c, [Missed e]) (c, [Answered e (Inl err)])" using cache_step.reject [of 0 "[Missed e]" e go err c] by simp
    then show ?thesis using miss None Inl by (simp add: parseCached_def)
  next
    case (Inr n)
    then have "cache_step go (c, [Missed e]) (cache_store c e n, [Answered e (Inr n)])"
      using cache_step.store [of 0 "[Missed e]" e go n c] by simp
    then show ?thesis using miss None Inr by (simp add: parseCached_def)
  qed
next
  case (Some n)
  then show ?thesis using cache_step.hit [of 0 "[Asking e]" e c n go] by (auto simp: parseCached_def)
qed

text \<open>C35: The cache of parsed expressions under any interleaving of its callers: it never holds more than 5000
  expressions, every caller that has its answer has what parsing its expression gives, no caller can be
  blocked, and all callers are served after at most two steps each.\<close>

theorem cache_interleavings:
  assumes "(cache_step go ^^ k) ([], map Asking es) (c, cs)"
  shows "length c \<le> 5000 \<and> k \<le> 2 * length es \<and> length cs = length es \<and>
    (\<forall>i < length es. (\<exists>r. cs ! i = Answered (es ! i) r \<and> r = parseExpression go (es ! i)) \<or> (\<exists>t. cache_step go (c, cs) t))"
proof -
  have inv: "cache_ok go c" "list_all (caller_ok go) cs" and es: "map caller_expr cs = es"
    using cache_reachable_inv [of go es "(c, cs)"] relpowp_imp_rtranclp [OF assms] by auto
  have "sum_list (map todo (map Asking es)) = 2 * length es" by (induction es) auto
  then have "k \<le> 2 * length es" using cache_steps_bounded [OF assms] by simp
  moreover have "(\<exists>r. cs ! i = Answered (es ! i) r \<and> r = parseExpression go (es ! i)) \<or> (\<exists>t. cache_step go (c, cs) t)"
    if i: "i < length es" for i
  proof (cases "cs ! i")
    case (Answered e r)
    then show ?thesis using i inv(2) es by (auto simp: list_all_length)
  qed (use i es cache_step_enabled [of i cs go c] in auto)
  ultimately show ?thesis using inv(1) es by (auto simp: cache_ok_def maxCachedExpressions_def)
qed

theorem cache_interleavings_witness:
  "length [Missed ''x'', Missed ''x''] = length [''x'', ''x''] \<and> (\<exists>t. cache_step plain_go ([], [Missed ''x'', Missed ''x'']) t)"
proof -
  have "cache_step plain_go ([], [Asking ''x'', Asking ''x'']) ([], [Missed ''x'', Asking ''x''])"
    and "cache_step plain_go ([], [Missed ''x'', Asking ''x'']) ([], [Missed ''x'', Missed ''x''])"
    using cache_step.miss [of 0 "[Asking ''x'', Asking ''x'']" "''x''" "[]" plain_go]
      cache_step.miss [of 1 "[Missed ''x'', Asking ''x'']" "''x''" "[]" plain_go] by simp_all
  then have "(cache_step plain_go ^^ 2) ([], map Asking [''x'', ''x'']) ([], [Missed ''x'', Missed ''x''])"
    by (auto simp: numeral_2_eq_2)
  from cache_interleavings [OF this] show ?thesis by force
qed

subsection \<open>The result of a call does not depend on the cache\<close>

lemma parseCached_transparent:
  "cache_ok go c \<Longrightarrow> fst (parseCached go c e) = parseExpression go e \<and> cache_ok go (snd (parseCached go c e))"
  by (auto simp: parseCached_def cache_store_ok cache_ok_def [of go c] coherent_def split: option.split sum.split)

lemma Evaluate_cases:
  assumes "cache_ok go c"
  shows "fst (Evaluate go c e vs) =
    (case result_bind (parseExpression go e) (\<lambda>n. eval go n (rootScope go vs)) of
       Inr v \<Rightarrow> Inr (FromFEEL go v)
     | Inl err \<Rightarrow> Inl (recovered (if parseExpression go e = Inl err then SyntaxFailed else EvaluationFailed) err))"
  using parseCached_transparent [OF assms, of e]
  by (cases "parseCached go c e") (auto simp: Evaluate_def split: sum.splits)

subsection \<open>Reading a process variable\<close>

text \<open>The numbers in a JSON document.\<close>

fun json_nums :: "json \<Rightarrow> rat list" where
  "json_nums (JNum x) = [x]"
| "json_nums (JList xs) = concat (map json_nums xs)"
| "json_nums (JObj m) = concat (map (\<lambda>(k, v). json_nums v) m)"
| "json_nums _ = []"

text \<open>What \<open>strconv.FormatFloat\<close> documents with precision -1: the shortest decimal that reads back as the same
  float64.\<close>

definition shortest_decimal :: "golib \<Rightarrow> rat \<Rightarrow> bool" where
  "shortest_decimal go x \<longleftrightarrow> (\<exists>r. Rat_SetString go (FormatFloat go (Fin x)) = Some r \<and> Rat_Float64 go r = Fin x)"

lemma FromFEEL_ToFEEL: "list_all (shortest_decimal go) (json_nums j) \<Longrightarrow> FromFEEL go (ToFEEL go (json_goval j)) = json_goval j"
proof (induction j)
  case (JNum x)
  then show ?case by (auto simp: ratFromFloat_def shortest_decimal_def)
qed (auto simp: list_all_iff)

definition ascii_letter :: "char \<Rightarrow> bool" where
  "ascii_letter c \<longleftrightarrow> in_bytes 65 90 c \<or> in_bytes 97 122 c"

definition feel_keywords :: "string list" where
  "feel_keywords = [''if'', ''for'', ''some'', ''every'', ''true'', ''false'', ''null'']"

definition plain_name :: "string \<Rightarrow> bool" where
  "plain_name s \<longleftrightarrow> s \<noteq> [] \<and> ascii_letter (hd s) \<and> list_all (\<lambda>c. ascii_letter c \<or> is_digit c) s \<and> s \<notin> set feel_keywords"

lemma runes_ascii: "list_all (in_bytes 0 127) s \<Longrightarrow> runes s = map (\<lambda>c. [c]) s"
  by (induction s) (auto simp: rune_width_def)

lemma concat_singles: "concat (map (\<lambda>c. [c]) cs) = cs"
  by (induction cs) auto

lemma ascii_letter_class:
  assumes "ascii_letter c"
  shows "name_start go [c]" "\<not> IsSpace go [c]" "\<not> IsDigit go [c]"
    "[c] \<noteq> ''/''" "[c] \<noteq> ''.''" "[c] \<noteq> ''@''" "[c] \<noteq> quote1" "[c] \<noteq> quote2"
  using assms
  by (auto simp: ascii_letter_def in_bytes_def name_start_def IsLetter_def IsSpace_def IsDigit_def is_space_def is_digit_def
      quote1_def quote2_def)

lemma name_part_ascii: "name_part go [c] \<longleftrightarrow> ascii_letter c \<or> is_digit c \<or> c = CHR ''_'' \<or> c = CHR ''$''"
  by (auto simp: name_part_def IsLetter_def IsDigit_def ascii_letter_def)

lemma lex_name:
  assumes "plain_name s"
  shows "lex go s = Inr [tok tokName s 0, tok tokEOF '''' (length s)]"
proof -
  obtain c cs where s: "s = c # cs" "ascii_letter c" "list_all (\<lambda>c. ascii_letter c \<or> is_digit c) cs"
    using assms by (cases s) (auto simp: plain_name_def)
  have all: "list_all (name_part go) (map (\<lambda>c. [c]) cs)" using s(3) by (auto simp: list_all_iff name_part_ascii)
  then have rest: "takeWhile (name_part go) (map (\<lambda>c. [c]) cs) = map (\<lambda>c. [c]) cs"
      "dropWhile (name_part go) (map (\<lambda>c. [c]) cs) = []"
    by (auto simp: list_all_iff takeWhile_eq_all_conv dropWhile_eq_Nil_conv)
  have "lex_step go 0 None [c] (map (\<lambda>c. [c]) cs) = Inr (Some (tok tokName s 0), [])"
    using ascii_letter_class [OF s(2)] by (simp add: lex_step_def number_starts_def rest concat_singles s(1))
  moreover have "runes s = [c] # map (\<lambda>c. [c]) cs" using s by (subst runes_ascii) (auto simp: list_all_iff in_bytes_def ascii_letter_def is_digit_def)
  ultimately show ?thesis by (simp add: lex_def s(1))
qed

lemma parse_name:
  assumes "s \<notin> set feel_keywords"
  shows "parse_tokens go [tok tokName s i, tok tokEOF '''' j] = Inr (nameNode s)"
proof -
  have "kind (tok k t p) = k" "text_of (tok k t p) = t" for k t p by (simp_all add: tok_def)
  moreover have "functionName go [tok tokName s i, tok tokEOF '''' j] = ('''', 0)"
    by (simp add: functionName_def eval_nat_numeral peekAt_def is_tok_def tok_def)
  ultimately show ?thesis using assms
    by (simp add: parse_tokens_def expr_body_def feel_keywords_def is_tok_def disjunction_def conjunction_def left_assoc_def comparison_def
        additive_def multiplicative_def exponent_def postfix_def primary_def primary_name_def peekAt_def
        comparison_rest_def eval_nat_numeral)
qed

lemma Evaluate_name:
  assumes "plain_name x" and "cache_ok go c" and "list_all (shortest_decimal go) (concat (map (json_nums \<circ> snd) vs))"
  shows "fst (Evaluate go c x vs) = Inr (case map_of vs x of Some v \<Rightarrow> json_goval v | None \<Rightarrow> GNil)"
proof -
  have "parseExpression go x = Inr (nameNode x)"
    using lex_name [OF assms(1)] parse_name assms(1) by (simp add: parseExpression_def plain_name_def)
  moreover have "x \<noteq> ''?''" using assms(1) by (auto simp: plain_name_def ascii_letter_def in_bytes_def)
  moreover have "FromFEEL go (ToFEEL go (json_goval v)) = json_goval v" if "map_of vs x = Some v" for v
    using assms(3) map_of_SomeD [OF that] by (intro FromFEEL_ToFEEL) (force simp: list_all_iff)
  moreover have "map_of (map (\<lambda>(k, v). (k, ToFEEL go (json_goval v))) vs) x = map_option (ToFEEL go \<circ> json_goval) (map_of vs x)"
    by (induction vs) auto
  ultimately show ?thesis by (auto simp: Evaluate_cases [OF assms(2)] rootScope_def split: option.split)
qed

text \<open>C36: An expression that is a name, other than a keyword, reads the process variable of that name: it gives
  back the variable's JSON value, through both conversions, whatever the cache holds; it is null where there
  is no such variable.\<close>

theorem Evaluate_variable:
  assumes "plain_name x" and "cache_ok go c" and "list_all (shortest_decimal go) (concat (map (json_nums \<circ> snd) vs))"
  shows "fst (Evaluate go c x vs) = Inr (case map_of vs x of Some v \<Rightarrow> json_goval v | None \<Rightarrow> GNil)"
  by (rule Evaluate_name [OF assms])

theorem Evaluate_variable_witness:
  "fst (Evaluate plain_go [] ''total'' [(''total'', JList [JNum 7, JNull])]) = Inr (GList [GFloat (Fin 7), GNil])"
proof -
  have "plain_name ''total''" by code_simp
  moreover have "cache_ok plain_go []" by (simp add: cache_ok_def coherent_def)
  moreover have "shortest_decimal plain_go 7"
  proof -
    have "digits_value 0 (int_dec 7) = Some 7" by code_simp
    then show ?thesis by (simp add: shortest_decimal_def plain_go_def)
  qed
  ultimately show ?thesis using Evaluate_variable [of "''total''" plain_go "[]" "[(''total'', JList [JNum 7, JNull])]"] by simp
qed

subsection \<open>A string literal as a unary test\<close>

definition plain_char :: "char \<Rightarrow> bool" where
  "plain_char c \<longleftrightarrow> in_bytes 32 126 c \<and> [c] \<noteq> quote2 \<and> [c] \<noteq> backslash"

definition literal :: "string \<Rightarrow> string" where
  "literal s = concat [quote2, s, quote2]"

lemma lexString_plain:
  "list_all plain_char s \<Longrightarrow> lexString go quote2 acc (map (\<lambda>c. [c]) s @ [quote2]) = Some (acc @ s, [])"
  by (induction s arbitrary: acc) (auto simp: plain_char_def)

lemma lex_literal:
  assumes "list_all plain_char s"
  shows "lex go (literal s) = Inr [tok tokString s 0, tok tokEOF [] (length s + 2)]"
proof -
  have "list_all (in_bytes 0 127) (literal s)"
    using assms by (auto simp: literal_def list_all_iff plain_char_def in_bytes_def quote2_def)
  then have r: "runes (literal s) = quote2 # map (\<lambda>c. [c]) s @ [quote2]"
    by (subst runes_ascii) (auto simp: literal_def quote2_def)
  have "lex_step go 0 None quote2 (map (\<lambda>c. [c]) s @ [quote2]) = Inr (Some (tok tokString s 0), [])"
  proof -
    have "\<not> is_space (char_of (34 :: nat))" "\<not> is_digit (char_of (34 :: nat))" "quote2 \<noteq> ''/''" "quote2 \<noteq> ''.''"
      by code_simp+
    moreover from this have "\<not> IsSpace go quote2" "\<not> IsDigit go quote2" by (simp_all add: IsSpace_def IsDigit_def quote2_def)
    ultimately show ?thesis by (simp add: lex_step_def number_starts_def lexString_plain [OF assms])
  qed
  then show ?thesis by (simp add: lex_def r)
qed

lemma parse_literal_test:
  "parse_unaryTest (expr go 2) (additive_at go 2) [tok tokString s i, tok tokEOF [] j] =
     Inr (litNode (VStr s), [tok tokEOF [] j])"
proof -
  have "kind (tok k t p) = k" "text_of (tok k t p) = t" for k t p by (simp_all add: tok_def)
  then show ?thesis
    by (simp add: parse_unaryTest_def expr_body_def is_tok_def disjunction_def conjunction_def left_assoc_def comparison_def
        additive_def multiplicative_def exponent_def postfix_def primary_def peekAt_def comparison_rest_def eval_nat_numeral)
qed

lemma equal_string: "equal x (VStr s) = (True, True) \<longleftrightarrow> x = VStr s"
  by (cases x) (auto simp: equal.simps order.simps cmp_def split: if_splits)

lemma ToFEEL_string: "ToFEEL go v = VStr s \<longleftrightarrow> v = GStr s"
  by (cases v) (auto simp: ratFromFloat_def split: float64.split option.split)

lemma EvaluateUnaryTests_literal:
  assumes "list_all plain_char s"
  shows "EvaluateUnaryTests go (literal s) v vs = Inr (v = GStr s)"
proof -
  have "parseUnaryTests go (literal s) = Inr [litNode (VStr s)]"
    using parse_literal_test [of go s 0 "length s + 2"]
    by (simp add: parseUnaryTests_def lex_literal [OF assms] eval_nat_numeral tok_def)
  moreover have "test_verdict False x (VStr s) = VBool True \<longleftrightarrow> x = VStr s" for x
    using equal_string [of x s] by (cases "equal x (VStr s)") (auto simp: test_verdict_def)
  moreover have "of_truth (truth_of x) = VBool True \<longleftrightarrow> x = VBool True" for x by (cases x) simp_all
  ultimately show ?thesis
    by (simp add: EvaluateUnaryTests_def anyTest.simps unaryTest_plain Let_def or3_max ToFEEL_string)
qed

end
