(* ===== verification/Decision_Table.thy ===== *)
theory Decision_Table
  imports Flow_Resolution Feel_Api
begin

text \<open>
  DMN decision tables (\<open>internal/dmn\<close>): the table, the historical matcher of unary tests, and the
  evaluation of a table by its hit policy.

  The two evaluators a table calls, \<open>common.EvaluateValue\<close> on a text with the FEEL prefix and
  \<open>common.EvaluateUnaryTests\<close>, are arguments at fixed variables (\<open>val\<close> and \<open>ut\<close>); at the end they
  are instantiated with the FEEL interpreter, as in FEEL mode. Values are Go values (\<^typ>\<open>goval\<close>):
  \<open>strconv.ParseFloat\<close> also gives infinities and NaN.
\<close>

subsection \<open>Tables\<close>

record Input =
  in_Label :: string
  InputExpression :: string

record Output =
  out_Label :: string
  out_Name :: string
  OutputValues :: "string option"

record Rule =
  rule_ID :: string
  InputEntries :: "string list"
  OutputEntries :: "string list"

record DecisionTable =
  HitPolicy :: string
  Aggregation :: string
  Inputs :: "Input list"
  Outputs :: "Output list"
  Rules :: "Rule list"

datatype dmn_error =
    NilTable
  | InputFailed string string
  | RuleFailed string string
  | SeveralMatch "string list"
  | OutputsDiffer string string
  | NoOutputValues string
  | UnsupportedHitPolicy string
  | UnsupportedAggregation string
  | NeedsNumbers goval
  | DmnPanic

text \<open>The error of an evaluator, wrapped; a panic passes through.\<close>

definition failed :: "(string \<Rightarrow> dmn_error) \<Rightarrow> eval_error \<Rightarrow> dmn_error" where
  "failed wrap e = (case e of EvalPanic \<Rightarrow> DmnPanic | EvalFailed m \<Rightarrow> wrap m)"

subsection \<open>Values\<close>

fun float_less :: "float64 \<Rightarrow> float64 \<Rightarrow> bool" where
  "float_less (Fin a) (Fin b) = (a < b)"
| "float_less NegInf (Fin b) = True"
| "float_less NegInf PosInf = True"
| "float_less (Fin a) PosInf = True"
| "float_less _ _ = False"

fun toFloat :: "goval \<Rightarrow> float64 option" where
  "toFloat (GFloat x) = Some x"
| "toFloat _ = None"

definition dmn_compare :: "golib \<Rightarrow> goval \<Rightarrow> goval \<Rightarrow> int" where
  "dmn_compare go a b =
     (case (toFloat a, toFloat b) of
        (Some x, Some y) \<Rightarrow> if float_less x y then - 1 else if float_less y x then 1 else 0
      | _ \<Rightarrow> cmp (Sprintv go a) (Sprintv go b))"

definition dquote :: char where "dquote = char_of (34 :: nat)"
definition squote :: char where "squote = char_of (39 :: nat)"

definition quoted :: "char \<Rightarrow> string \<Rightarrow> bool" where
  "quoted q s \<longleftrightarrow> has_prefix s [q] \<and> has_suffix s [q]"

definition parseLiteral :: "golib \<Rightarrow> string \<Rightarrow> goval" where
  "parseLiteral go s0 =
     (let s = trim_space s0 in
      if length s \<ge> 2 \<and> (quoted dquote s \<or> quoted squote s) then GStr (butlast (tl s))
      else case ParseFloat go s of Some n \<Rightarrow> GFloat n | None \<Rightarrow> GStr s)"

text \<open>The loop of \<open>splitTopLevel\<close>: the open quote and the text read so far.\<close>

fun split_loop :: "char \<Rightarrow> char option \<Rightarrow> string \<Rightarrow> string \<Rightarrow> string list" where
  "split_loop sep q buf [] = [buf]"
| "split_loop sep q buf (c # cs) =
     (case q of
        Some qc \<Rightarrow> split_loop sep (if c = qc then None else q) (buf @ [c]) cs
      | None \<Rightarrow>
          if c = dquote \<or> c = squote then split_loop sep (Some c) (buf @ [c]) cs
          else if c = sep then buf # split_loop sep None [] cs
          else split_loop sep None (buf @ [c]) cs)"

definition splitTopLevel :: "string \<Rightarrow> char \<Rightarrow> string list" where
  "splitTopLevel s sep = split_loop sep None [] s"

subsection \<open>The historical matcher\<close>

text \<open>The pattern of a range. Its operands are the shortest text before a \<open>..\<close> and the rest; white space
  around them, which \<open>parseLiteral\<close> drops, is kept here. A dot of the pattern matches no newline.\<close>

definition re_space :: "char \<Rightarrow> bool" where
  "re_space c \<longleftrightarrow> (of_char c :: nat) \<in> {9, 10, 12, 13, 32}"

definition operand_ok :: "string \<Rightarrow> bool" where
  "operand_ok s =
     (let core = dropWhile re_space (rev (dropWhile re_space s)); nl = char_of (10 :: nat) in
      if core = [] then \<exists>c \<in> set s. c \<noteq> nl else nl \<notin> set core)"

fun range_split :: "string \<Rightarrow> string \<Rightarrow> (string \<times> string) option" where
  "range_split lo (a # b # cs) =
     (if a = CHR ''.'' \<and> b = CHR ''.'' \<and> operand_ok lo \<and> operand_ok cs then Some (lo, cs)
      else range_split (lo @ [a]) (b # cs))"
| "range_split lo _ = None"

definition rangeRe :: "string \<Rightarrow> (bool \<times> string \<times> string \<times> bool) option" where
  "rangeRe s =
     (if length s \<ge> 2 \<and> hd s \<in> {CHR ''['', CHR ''(''} \<and> last s \<in> {CHR '']'', CHR '')''} then
        map_option (\<lambda>(lo, hi). (hd s = CHR ''['', lo, hi, last s = CHR '']'')) (range_split [] (butlast (tl s)))
      else None)"

definition matchesSingleUnaryTest :: "golib \<Rightarrow> string \<Rightarrow> goval \<Rightarrow> bool" where
  "matchesSingleUnaryTest go test v =
     (case rangeRe test of
        Some (lowIncl, low, high, highIncl) \<Rightarrow>
          (let cmpLow = dmn_compare go v (parseLiteral go low); cmpHigh = dmn_compare go v (parseLiteral go high) in
           (cmpLow > 0 \<or> lowIncl \<and> cmpLow = 0) \<and> (cmpHigh < 0 \<or> highIncl \<and> cmpHigh = 0))
      | None \<Rightarrow>
          (let against = (\<lambda>n. dmn_compare go v (parseLiteral go (trim_space (drop n test)))) in
           if has_prefix test ''<='' then against 2 \<le> 0
           else if has_prefix test ''>='' then against 2 \<ge> 0
           else if has_prefix test ''<'' then against 1 < 0
           else if has_prefix test ''>'' then against 1 > 0
           else dmn_compare go v (parseLiteral go test) = 0))"

definition matchesUnaryTest :: "golib \<Rightarrow> string \<Rightarrow> goval \<Rightarrow> bool" where
  "matchesUnaryTest go test0 v =
     (let test = trim_space test0 in
      if test = [] \<or> test = ''-'' then True
      else list_ex (\<lambda>part. matchesSingleUnaryTest go (trim_space part) v) (splitTopLevel test CHR '',''))"

subsection \<open>Outputs\<close>

definition outputKey :: "Output \<Rightarrow> nat \<Rightarrow> string" where
  "outputKey out i =
     (if out_Name out \<noteq> [] then out_Name out
      else if out_Label out \<noteq> [] then out_Label out
      else ''output'' @ nat_dec (i + 1))"

definition singleOrMap :: "Output list \<Rightarrow> (string \<times> goval) list \<Rightarrow> goval" where
  "singleOrMap outs values =
     (case outs of
        [out] \<Rightarrow> (case map_of values (outputKey out 0) of Some v \<Rightarrow> v | None \<Rightarrow> GNil)
      | _ \<Rightarrow> GMap values)"

definition evaluateOutputEntry :: "golib \<Rightarrow> (string \<Rightarrow> eval_error + goval) \<Rightarrow> string \<Rightarrow> eval_error + goval" where
  "evaluateOutputEntry go val text =
     (if text = [] then Inr GNil
      else if text = ''true'' then Inr (GBool True)
      else if text = ''false'' then Inr (GBool False)
      else case ParseFloat go text of
        Some n \<Rightarrow> Inr (GFloat n)
      | None \<Rightarrow>
          if length text \<ge> 2 \<and> quoted dquote text then Inr (GStr (butlast (tl text)))
          else val (''='' @ text))"

definition entry_text :: "string list \<Rightarrow> nat \<Rightarrow> string" where
  "entry_text es i = (if i < length es then es ! i else [])"

fun outputs_loop :: "golib \<Rightarrow> (string \<Rightarrow> eval_error + goval) \<Rightarrow> string list \<Rightarrow> nat \<Rightarrow> Output list \<Rightarrow> (string \<times> goval) list
    \<Rightarrow> eval_error + (string \<times> goval) list" where
  "outputs_loop go val es i [] acc = Inr acc"
| "outputs_loop go val es i (out # outs) acc =
     result_bind (evaluateOutputEntry go val (trim_space (entry_text es i)))
       (\<lambda>v. outputs_loop go val es (i + 1) outs (AList.update (outputKey out i) v acc))"

definition evaluateOutputs :: "golib \<Rightarrow> (string \<Rightarrow> eval_error + goval) \<Rightarrow> Output list \<Rightarrow> string list
    \<Rightarrow> eval_error + (string \<times> goval) list" where
  "evaluateOutputs go val outs es = outputs_loop go val es 0 outs []"

subsection \<open>Matching rules\<close>

fun tests_hold :: "(string \<Rightarrow> goval \<Rightarrow> eval_error + bool) \<Rightarrow> string list \<Rightarrow> nat \<Rightarrow> goval list \<Rightarrow> eval_error + bool" where
  "tests_hold ut es i [] = Inr True"
| "tests_hold ut es i (v # vs) =
     result_bind (ut (entry_text es i) v) (\<lambda>ok. if ok then tests_hold ut es (i + 1) vs else Inr False)"

text \<open>The loop over the rules: the matches with their outputs, the first one only when \<open>first\<close>.\<close>

fun rules_loop :: "(Rule \<Rightarrow> eval_error + bool) \<Rightarrow> (Rule \<Rightarrow> eval_error + (string \<times> goval) list) \<Rightarrow> bool \<Rightarrow> Rule list
    \<Rightarrow> dmn_error + (string \<times> (string \<times> goval) list) list" where
  "rules_loop verdict outp first [] = Inr []"
| "rules_loop verdict outp first (r # rs) =
     (case verdict r of
        Inl e \<Rightarrow> Inl (failed (RuleFailed (rule_ID r)) e)
      | Inr False \<Rightarrow> rules_loop verdict outp first rs
      | Inr True \<Rightarrow>
          (case outp r of
             Inl e \<Rightarrow> Inl (failed (RuleFailed (rule_ID r)) e)
           | Inr m \<Rightarrow>
               if first then Inr [(rule_ID r, m)]
               else result_bind (rules_loop verdict outp first rs) (\<lambda>ms. Inr ((rule_ID r, m) # ms))))"

fun input_values :: "(string \<Rightarrow> eval_error + goval) \<Rightarrow> Input list \<Rightarrow> dmn_error + goval list" where
  "input_values val [] = Inr []"
| "input_values val (c # cs) =
     (case val (''='' @ trim_space (InputExpression c)) of
        Inl e \<Rightarrow> Inl (failed (InputFailed (in_Label c)) e)
      | Inr v \<Rightarrow> result_bind (input_values val cs) (\<lambda>vs. Inr (v # vs)))"

subsection \<open>Hit policies\<close>

text \<open>\<open>reflect.DeepEqual\<close>: a NaN is different from itself.\<close>

fun float_eq :: "float64 \<Rightarrow> float64 \<Rightarrow> bool" where
  "float_eq NaN y = False"
| "float_eq x y = (x = y)"

lemma goval_item_size: "i < length xs \<Longrightarrow> size (xs ! i) < Suc (size_list size xs)" for xs :: "goval list"
  using size_list_estimation' [of "xs ! i" xs "size (xs ! i)" size] by simp

lemma goval_entry_size: "(k, v) \<in> set m \<Longrightarrow> size v < Suc (size_list (size_prod (\<lambda>_. 0) size) m)" for m :: "(string \<times> goval) list"
  by (induction m) auto

function deep_equal :: "goval \<Rightarrow> goval \<Rightarrow> bool" where
  "deep_equal GNil b = (b = GNil)"
| "deep_equal (GBool x) b = (b = GBool x)"
| "deep_equal (GStr x) b = (b = GStr x)"
| "deep_equal (GFloat x) b = (case b of GFloat y \<Rightarrow> float_eq x y | _ \<Rightarrow> False)"
| "deep_equal (GList xs) b =
     (case b of GList ys \<Rightarrow> length xs = length ys \<and> list_all (\<lambda>i. deep_equal (xs ! i) (ys ! i)) [0..<length xs] | _ \<Rightarrow> False)"
| "deep_equal (GMap m) b =
     (case b of
        GMap m' \<Rightarrow> length m = length m' \<and>
          list_all (\<lambda>(k, v). case map_of m' k of Some w \<Rightarrow> deep_equal v w | None \<Rightarrow> False) m
      | _ \<Rightarrow> False)"
  by pat_completeness auto
termination
  by (relation "measure (\<lambda>(a, b). size a)") (auto dest!: goval_item_size goval_entry_size)

definition rank :: "golib \<Rightarrow> goval list \<Rightarrow> goval \<Rightarrow> nat" where
  "rank go ranks v =
     (case find (\<lambda>i. dmn_compare go v (ranks ! i) = 0) [0..<length ranks] of Some i \<Rightarrow> i | None \<Rightarrow> length ranks)"

text \<open>The value of the first output of a match; the order is a stable sort of the indices. Naming the first
  output in the error of a table without outputs panics.\<close>

definition output_of :: "string \<Rightarrow> (string \<times> goval) list \<Rightarrow> goval" where
  "output_of k m = (case map_of m k of Some v \<Rightarrow> v | None \<Rightarrow> GNil)"

definition byPriority :: "golib \<Rightarrow> Output list \<Rightarrow> (string \<times> goval) list list \<Rightarrow> goval list \<Rightarrow> dmn_error + goval list" where
  "byPriority go outs ms results =
     (case outs of
        [] \<Rightarrow> Inl DmnPanic
      | out # _ \<Rightarrow>
          (let key = outputKey out 0 in
           case OutputValues out of
             None \<Rightarrow> Inl (NoOutputValues key)
           | Some t \<Rightarrow>
               if trim_space t = [] then Inl (NoOutputValues key)
               else
                 (let ranks = map (parseLiteral go) (splitTopLevel t CHR '','') in
                  Inr (map ((!) results) (sort_key (\<lambda>i. rank go ranks (output_of key (ms ! i))) [0..<length ms])))))"

fun collect_loop :: "golib \<Rightarrow> string \<Rightarrow> float64 \<Rightarrow> goval list \<Rightarrow> dmn_error + goval" where
  "collect_loop go agg acc [] = Inr (GFloat acc)"
| "collect_loop go agg acc (r # rs) =
     (case toFloat r of
        None \<Rightarrow> Inl (NeedsNumbers r)
      | Some n \<Rightarrow>
          collect_loop go agg
            (if agg = ''SUM'' then float_add go acc n
             else if agg = ''MIN'' \<and> float_less n acc \<or> agg = ''MAX'' \<and> float_less acc n then n
             else acc) rs)"

definition collect :: "golib \<Rightarrow> string \<Rightarrow> goval list \<Rightarrow> dmn_error + goval" where
  "collect go agg results =
     (if agg = [] then Inr (GList results)
      else if agg = ''COUNT'' then Inr (GFloat (Fin (of_nat (length results))))
      else if agg \<notin> {''SUM'', ''MIN'', ''MAX''} then Inl (UnsupportedAggregation agg)
      else case results of
        [] \<Rightarrow> Inr GNil
      | r # rs \<Rightarrow> (case toFloat r of None \<Rightarrow> Inl (NeedsNumbers r) | Some n \<Rightarrow> collect_loop go agg n rs))"

definition first_result :: "goval list \<Rightarrow> goval" where
  "first_result results = (case results of [] \<Rightarrow> GNil | r # _ \<Rightarrow> r)"

definition different :: "goval list \<Rightarrow> nat option" where
  "different results = find (\<lambda>i. \<not> deep_equal (results ! i) (results ! 0)) [1..<length results]"

definition apply_policy :: "golib \<Rightarrow> DecisionTable \<Rightarrow> string \<Rightarrow> (string \<times> (string \<times> goval) list) list \<Rightarrow> dmn_error + goval" where
  "apply_policy go table hitPolicy hits =
     (let ids = map fst hits; results = map (\<lambda>(_, m). singleOrMap (Outputs table) m) hits;
          ranked = byPriority go (Outputs table) (map snd hits) results in
      if hitPolicy = ''UNIQUE'' then if length results > 1 then Inl (SeveralMatch ids) else Inr (first_result results)
      else if hitPolicy = ''FIRST'' then Inr (first_result results)
      else if hitPolicy = ''ANY'' then
        (case different results of
           Some i \<Rightarrow> Inl (OutputsDiffer (ids ! 0) (ids ! i))
         | None \<Rightarrow> Inr (first_result results))
      else if hitPolicy = ''PRIORITY'' then result_bind ranked (\<lambda>rs. Inr (first_result rs))
      else if hitPolicy = ''OUTPUT ORDER'' then result_bind ranked (\<lambda>rs. Inr (GList rs))
      else if hitPolicy = ''RULE ORDER'' then Inr (GList results)
      else if hitPolicy = ''COLLECT'' then collect go (ToUpper go (trim_space (Aggregation table))) results
      else Inl (UnsupportedHitPolicy (HitPolicy table)))"

definition hit_policy :: "golib \<Rightarrow> DecisionTable \<Rightarrow> string" where
  "hit_policy go table = (let h = ToUpper go (trim_space (HitPolicy table)) in if h = [] then ''UNIQUE'' else h)"

definition EvaluateDecisionTable :: "golib \<Rightarrow> (string \<Rightarrow> eval_error + goval) \<Rightarrow> (string \<Rightarrow> goval \<Rightarrow> eval_error + bool)
    \<Rightarrow> DecisionTable option \<Rightarrow> dmn_error + goval" where
  "EvaluateDecisionTable go val ut table0 =
     (case table0 of
        None \<Rightarrow> Inl NilTable
      | Some table \<Rightarrow>
          result_bind (input_values val (Inputs table)) (\<lambda>vs.
          result_bind (rules_loop (\<lambda>r. tests_hold ut (InputEntries r) 0 vs)
              (\<lambda>r. evaluateOutputs go val (Outputs table) (OutputEntries r)) (hit_policy go table = ''FIRST'') (Rules table))
            (apply_policy go table (hit_policy go table))))"

subsection \<open>Evaluation in FEEL mode\<close>

definition engine_error_of :: "api_error + 'a \<Rightarrow> eval_error + 'a" where
  "engine_error_of r = (case r of
     Inl Diverges \<Rightarrow> Inl EvalPanic | Inl _ \<Rightarrow> Inl (EvalFailed ''FEEL'') | Inr x \<Rightarrow> Inr x)"

text \<open>\<open>EvaluateValue\<close> on a prefixed text and \<open>EvaluateUnaryTests\<close>, with the FEEL interpreter.\<close>

definition feel_value :: "golib \<Rightarrow> vars \<Rightarrow> string \<Rightarrow> eval_error + goval" where
  "feel_value go vs text =
     (case feelSource text of
        Some src \<Rightarrow> engine_error_of (fst (Evaluate go [] src vs))
      | None \<Rightarrow> Inr (GStr (trim_space text)))"

definition feel_unary :: "golib \<Rightarrow> vars \<Rightarrow> string \<Rightarrow> goval \<Rightarrow> eval_error + bool" where
  "feel_unary go vs tests v =
     Flow_Resolution.EvaluateUnaryTests FeelModeFEEL
       (\<lambda>t x ws. engine_error_of (Feel_Api.EvaluateUnaryTests go t x ws)) tests v vs (Inr (matchesUnaryTest go tests v))"

definition decide :: "golib \<Rightarrow> DecisionTable \<Rightarrow> vars \<Rightarrow> dmn_error + goval" where
  "decide go table vs = EvaluateDecisionTable go (feel_value go vs) (feel_unary go vs) (Some table)"

subsection \<open>Splitting a list of tests\<close>

lemma split_loop_Cons: "\<exists>p ps. split_loop sep q buf cs = p # ps"
  by (induction sep q buf cs rule: split_loop.induct) (auto split: option.splits)

text \<open>Splitting loses nothing: the parts joined again are the text.\<close>

lemma split_loop_join: "str_join (split_loop sep q buf cs) [sep] = buf @ cs"
proof (induction sep q buf cs rule: split_loop.induct)
  case (2 sep q buf c cs)
  obtain p ps where "split_loop sep None [] cs = p # ps" using split_loop_Cons by blast
  then show ?case using 2 by (auto split: option.splits)
qed simp

lemma splitTopLevel_join: "str_join (splitTopLevel s sep) [sep] = s"
  by (simp add: splitTopLevel_def split_loop_join)

subsection \<open>Rules and hit policies\<close>

lemma rules_loop_values:
  assumes "\<forall>r \<in> set rs. verdict r = Inr (hit r)" and "\<forall>r \<in> set rs. hit r \<longrightarrow> outp r = Inr (outs r)"
  shows "rules_loop verdict outp first rs =
    Inr (map (\<lambda>r. (rule_ID r, outs r)) ((if first then take 1 else id) (filter hit rs)))"
  using assms by (induction rs) auto

lemma sort_key_map: "sort_key f (map h xs) = map h (sort_key (f \<circ> h) xs)"
proof -
  have "insort_key f (h x) (map h ys) = map h (insort_key (f \<circ> h) x ys)" for x ys by (induction ys) auto
  then show ?thesis by (induction xs) (simp_all add: sort_key_def)
qed

lemma sort_key_cong': "(\<And>x. x \<in> set xs \<Longrightarrow> f x = g x) \<Longrightarrow> sort_key f xs = sort_key g xs"
proof (induction xs)
  case (Cons x xs)
  have "insort_key f x ys = insort_key g x ys" if "\<And>y. y \<in> set (x # ys) \<Longrightarrow> f y = g y" for ys
    using that by (induction ys) auto
  from this [of "sort_key g xs"] show ?case using Cons by simp
qed simp

lemma sort_key_nth: "map ((!) ys) (sort_key (\<lambda>i. f (xs ! i)) [0..<length xs]) = map g (sort_key f xs)"
  if "ys = map g xs" for f :: "'a \<Rightarrow> nat"
proof -
  have "sort_key f xs = map ((!) xs) (sort_key (\<lambda>i. f (xs ! i)) [0..<length xs])"
    using sort_key_map [of f "(!) xs" "[0..<length xs]"] by (simp add: map_nth comp_def)
  moreover have "set (sort_key (\<lambda>i. f (xs ! i)) [0..<length xs]) = {0..<length xs}" by simp
  ultimately show ?thesis using that by auto
qed

lemma different_iff:
  "different (map res (r # rs)) = None \<longleftrightarrow> (\<forall>s \<in> set rs. deep_equal (res s) (res r))"
proof -
  have "different (map res (r # rs)) = None \<longleftrightarrow> (\<forall>i \<in> set [1..<Suc (length rs)]. deep_equal (map res (r # rs) ! i) (res r))"
    unfolding different_def find_None_iff by simp blast
  also have "set [1..<Suc (length rs)] = Suc ` {0..<length rs}" by auto
  finally show ?thesis by (auto simp: all_set_conv_all_nth simp del: image_Suc_atLeastLessThan)
qed

lemma find_SomeD: "find P xs = Some x \<Longrightarrow> P x \<and> x \<in> set xs"
  by (induction xs) (auto split: if_splits)

lemma different_Some:
  assumes "different (map res (r # rs)) = Some i"
  shows "\<exists>s \<in> set rs. \<not> deep_equal (res s) (res r) \<and> map rule_ID (r # rs) ! i = rule_ID s"
proof -
  obtain j where "i = Suc j" "j < length rs" "\<not> deep_equal (res (rs ! j)) (res r)"
    using find_SomeD [OF assms [unfolded different_def]] by (cases i) auto
  then show ?thesis by auto
qed

text \<open>The matches of the rules \<open>rs\<close> with the outputs \<open>outs\<close>.\<close>

abbreviation hits_of :: "(Rule \<Rightarrow> (string \<times> goval) list) \<Rightarrow> Rule list \<Rightarrow> (string \<times> (string \<times> goval) list) list" where
  "hits_of outs rs \<equiv> map (\<lambda>r. (rule_ID r, outs r)) rs"

lemma hits_shape:
  "map (\<lambda>(_, m). singleOrMap os m) (hits_of outs rs) = map (\<lambda>r. singleOrMap os (outs r)) rs"
  "map fst (hits_of outs rs) = map rule_ID rs" "map snd (hits_of outs rs) = map outs rs"
  by (simp_all add: comp_def)

lemma apply_unique:
  "apply_policy go table ''UNIQUE'' (hits_of outs rs) =
     (case rs of [] \<Rightarrow> Inr GNil | [r] \<Rightarrow> Inr (singleOrMap (Outputs table) (outs r)) | _ \<Rightarrow> Inl (SeveralMatch (map rule_ID rs)))"
  unfolding apply_policy_def Let_def hits_shape by (simp add: first_result_def split: list.split)

lemma apply_any:
  assumes "res = (\<lambda>r. singleOrMap (Outputs table) (outs r))" and "decision = apply_policy go table ''ANY'' (hits_of outs rs)"
  shows "if \<forall>r \<in> set (tl rs). deep_equal (res r) (res (hd rs)) then decision = Inr (first_result (map res rs))
    else \<exists>s \<in> set (tl rs). \<not> deep_equal (res s) (res (hd rs)) \<and> decision = Inl (OutputsDiffer (rule_ID (hd rs)) (rule_ID s))"
proof (cases rs)
  case Nil
  then show ?thesis unfolding assms(2) apply_policy_def Let_def by (simp add: different_def)
next
  case (Cons r rs')
  have dec: "decision = (case different (map res rs) of
      Some i \<Rightarrow> Inl (OutputsDiffer (map rule_ID rs ! 0) (map rule_ID rs ! i)) | None \<Rightarrow> Inr (first_result (map res rs)))"
    unfolding assms apply_policy_def Let_def hits_shape by simp
  show ?thesis
  proof (cases "different (map res rs)")
    case None
    then show ?thesis using dec different_iff [of res r rs'] by (simp add: Cons)
  next
    case (Some i)
    then show ?thesis using dec different_iff [of res r rs'] different_Some [of res r rs' i] by (auto simp: Cons)
  qed
qed

lemma byPriority_sorts:
  assumes "Outputs table = out # others" and "OutputValues out = Some t" and "trim_space t \<noteq> []"
  shows "byPriority go (Outputs table) (map outs rs) (map res rs) = Inr (map res
    (sort_key (\<lambda>r. rank go (map (parseLiteral go) (splitTopLevel t CHR '','')) (output_of (outputKey out 0) (outs r))) rs))"
proof -
  let ?f = "\<lambda>r. rank go (map (parseLiteral go) (splitTopLevel t CHR '','')) (output_of (outputKey out 0) (outs r))"
  have "sort_key (\<lambda>i. rank go (map (parseLiteral go) (splitTopLevel t CHR '','')) (output_of (outputKey out 0) (map outs rs ! i)))
      [0..<length (map outs rs)] = sort_key (\<lambda>i. ?f (rs ! i)) [0..<length rs]"
    unfolding length_map by (rule sort_key_cong') simp
  then show ?thesis using assms sort_key_nth [of "map res rs" res rs ?f] by (simp add: byPriority_def Let_def)
qed

text \<open>C38: A decision table whose tests and outputs can be evaluated decides by its hit policy over the rules that match, in
  their order: \<open>UNIQUE\<close> gives the one match and reports several with their ids, \<open>FIRST\<close> the first, \<open>ANY\<close> the
  common output or an error, \<open>RULE ORDER\<close> and plain \<open>COLLECT\<close> all of them, \<open>OUTPUT ORDER\<close> all of them in a stable
  sort by the rank of their first output, and \<open>PRIORITY\<close> the first of those; no match is null.\<close>

theorem decision_hit_policies:
  assumes "input_values val (Inputs table) = Inr vs"
    and "\<forall>r \<in> set (Rules table). tests_hold ut (InputEntries r) 0 vs = Inr (hit r)"
    and "\<forall>r \<in> set (Rules table). hit r \<longrightarrow> evaluateOutputs go val (Outputs table) (OutputEntries r) = Inr (outs r)"
    and "ms = filter hit (Rules table)" and "res = (\<lambda>r. singleOrMap (Outputs table) (outs r))"
    and "decision = EvaluateDecisionTable go val ut (Some table)"
    and "by_rank = sort_key (\<lambda>r. rank go (map (parseLiteral go) (splitTopLevel t CHR '','')) (output_of (outputKey out 0) (outs r))) ms"
  shows "(hit_policy go table = ''UNIQUE'' \<longrightarrow>
      decision = (case ms of [] \<Rightarrow> Inr GNil | [r] \<Rightarrow> Inr (res r) | _ \<Rightarrow> Inl (SeveralMatch (map rule_ID ms)))) \<and>
    (hit_policy go table = ''FIRST'' \<longrightarrow> decision = Inr (first_result (map res ms))) \<and>
    (hit_policy go table = ''ANY'' \<longrightarrow>
      (if \<forall>r \<in> set (tl ms). deep_equal (res r) (res (hd ms)) then decision = Inr (first_result (map res ms))
       else \<exists>s \<in> set (tl ms). \<not> deep_equal (res s) (res (hd ms)) \<and> decision = Inl (OutputsDiffer (rule_ID (hd ms)) (rule_ID s)))) \<and>
    (hit_policy go table = ''RULE ORDER'' \<or> hit_policy go table = ''COLLECT'' \<and> ToUpper go (trim_space (Aggregation table)) = [] \<longrightarrow>
      decision = Inr (GList (map res ms))) \<and>
    (Outputs table = out # others \<longrightarrow> OutputValues out = Some t \<longrightarrow> trim_space t \<noteq> [] \<longrightarrow>
      (hit_policy go table = ''OUTPUT ORDER'' \<longrightarrow> decision = Inr (GList (map res by_rank))) \<and>
      (hit_policy go table = ''PRIORITY'' \<longrightarrow> decision = Inr (first_result (map res by_rank))))"
proof -
  let ?h = "hit_policy go table"
  have dec: "decision = apply_policy go table ?h (hits_of outs (if ?h = ''FIRST'' then take 1 ms else ms))"
    unfolding assms(6) EvaluateDecisionTable_def option.case assms(1) result_bind.simps
    by (subst rules_loop_values [OF assms(2,3)]) (simp add: assms(4))
  have first: "?h = ''FIRST'' \<Longrightarrow> decision = Inr (first_result (map res ms))"
    unfolding dec apply_policy_def Let_def hits_shape by (cases ms) (simp_all add: first_result_def assms(5))
  have all: "?h = ''RULE ORDER'' \<or> ?h = ''COLLECT'' \<and> ToUpper go (trim_space (Aggregation table)) = [] \<Longrightarrow>
      decision = Inr (GList (map res ms))"
    unfolding dec apply_policy_def Let_def hits_shape by (auto simp: collect_def assms(5))
  have ranked: "(?h = ''OUTPUT ORDER'' \<longrightarrow> decision = Inr (GList (map res by_rank))) \<and>
      (?h = ''PRIORITY'' \<longrightarrow> decision = Inr (first_result (map res by_rank)))"
    if "Outputs table = out # others" "OutputValues out = Some t" "trim_space t \<noteq> []"
    using byPriority_sorts [OF that, of go outs ms res] assms(7)
    unfolding dec apply_policy_def Let_def hits_shape by (simp add: assms(5))
  have unique: "?h = ''UNIQUE'' \<Longrightarrow> decision =
      (case ms of [] \<Rightarrow> Inr GNil | [r] \<Rightarrow> Inr (res r) | _ \<Rightarrow> Inl (SeveralMatch (map rule_ID ms)))"
    using apply_unique [of go table outs ms] by (simp add: dec assms(5) split: list.split)
  have any: "?h = ''ANY'' \<Longrightarrow> decision = apply_policy go table ''ANY'' (hits_of outs ms)" by (simp add: dec)
  show ?thesis by (intro conjI impI; (rule unique first all apply_any [OF assms(5) any]; assumption)?; insert ranked; blast)
qed

definition example_table :: "string \<Rightarrow> DecisionTable" where
  "example_table policy =
     \<lparr>HitPolicy = policy, Aggregation = [],
      Inputs = [\<lparr>in_Label = ''tier'', InputExpression = ''tier''\<rparr>],
      Outputs = [\<lparr>out_Label = [], out_Name = ''discount'', OutputValues = Some ''10,5''\<rparr>],
      Rules = [\<lparr>rule_ID = ''r1'', InputEntries = [''-''], OutputEntries = [''5'']\<rparr>,
               \<lparr>rule_ID = ''r2'', InputEntries = [literal ''gold''], OutputEntries = [''10'']\<rparr>,
               \<lparr>rule_ID = ''r3'', InputEntries = [literal ''iron''], OutputEntries = [''0'']\<rparr>]\<rparr>"

theorem decision_hit_policies_witness:
  "EvaluateDecisionTable plain_go (\<lambda>_. Inr (GStr ''gold'')) (\<lambda>t v. Inr (matchesUnaryTest plain_go t v)) (Some (example_table ''PRIORITY'')) =
     Inr (GFloat (Fin 10)) \<and>
   EvaluateDecisionTable plain_go (\<lambda>_. Inr (GStr ''gold'')) (\<lambda>t v. Inr (matchesUnaryTest plain_go t v)) (Some (example_table ''UNIQUE'')) =
     Inl (SeveralMatch [''r1'', ''r2''])"
proof -
  let ?val = "\<lambda>_. Inr (GStr ''gold'') :: eval_error + goval" and ?ut = "\<lambda>t v. Inr (matchesUnaryTest plain_go t v) :: eval_error + bool"
  let ?hit = "\<lambda>r. rule_ID r \<noteq> ''r3''"
  let ?outs = "\<lambda>r. [(''discount'', GFloat (Fin (if rule_ID r = ''r1'' then 5 else 10)))]"
  have m: "matchesUnaryTest plain_go ''-'' (GStr ''gold'')" "matchesUnaryTest plain_go (literal ''gold'') (GStr ''gold'')"
    "\<not> matchesUnaryTest plain_go (literal ''iron'') (GStr ''gold'')" by code_simp+
  have n: "ParseFloat plain_go ''5'' = Some (Fin 5)" "ParseFloat plain_go ''10'' = Some (Fin 10)" "trim_space ''5'' = ''5''" "trim_space ''10'' = ''10''"
    by code_simp+
  have p: "hit_policy plain_go (example_table ''PRIORITY'') = ''PRIORITY''" "hit_policy plain_go (example_table ''UNIQUE'') = ''UNIQUE''"
    by code_simp+
  note table = example_table_def entry_text_def evaluateOutputs_def evaluateOutputEntry_def outputKey_def m n
  have inputs: "input_values ?val (Inputs (example_table policy)) = Inr [GStr ''gold'']" for policy by (simp add: table)
  have hits: "\<forall>r \<in> set (Rules (example_table policy)). tests_hold ?ut (InputEntries r) 0 [GStr ''gold''] = Inr (?hit r)" for policy
    by (simp add: table)
  have outs: "\<forall>r \<in> set (Rules (example_table policy)). ?hit r \<longrightarrow>
      evaluateOutputs plain_go ?val (Outputs (example_table policy)) (OutputEntries r) = Inr (?outs r)" for policy
    by (simp add: table)
  note policies = decision_hit_policies [OF inputs hits outs refl refl refl refl, where t = "''10,5''" and out = "\<lparr>out_Label = [], out_Name = ''discount'', OutputValues = Some ''10,5''\<rparr>" and others = "[]"]
  have "rank plain_go (map (parseLiteral plain_go) (splitTopLevel ''10,5'' CHR '','')) (GFloat (Fin 5)) = 1"
    "rank plain_go (map (parseLiteral plain_go) (splitTopLevel ''10,5'' CHR '','')) (GFloat (Fin 10)) = 0"
    "trim_space ''10,5'' \<noteq> []" by code_simp+
  then show ?thesis using policies [of "''PRIORITY''"] policies [of "''UNIQUE''"] p
    by (simp add: example_table_def singleOrMap_def outputKey_def output_of_def first_result_def)
qed

subsection \<open>Aggregation\<close>

lemma collect_loop_MIN:
  "collect_loop go ''MIN'' (Fin x) (map (\<lambda>x. GFloat (Fin x)) xs) = Inr (GFloat (Fin (Min (set (x # xs)))))"
proof (induction xs arbitrary: x)
  case (Cons y ys)
  have "Min (set (x # y # ys)) = Min (set (min x y # ys))" by (cases "ys = []") (simp_all add: min.assoc)
  then show ?case using Cons.IH [of x] Cons.IH [of y] by (auto simp: min_def)
qed simp

lemma collect_loop_MAX:
  "collect_loop go ''MAX'' (Fin x) (map (\<lambda>x. GFloat (Fin x)) xs) = Inr (GFloat (Fin (Max (set (x # xs)))))"
proof (induction xs arbitrary: x)
  case (Cons y ys)
  have "Max (set (x # y # ys)) = Max (set (max x y # ys))" by (cases "ys = []") (simp_all add: max.assoc)
  then show ?case using Cons.IH [of x] Cons.IH [of y] by (auto simp: max_def)
qed simp

lemma collect_loop_SUM:
  "collect_loop go ''SUM'' f (map (\<lambda>x. GFloat (Fin x)) xs) = Inr (GFloat (foldl (float_add go) f (map Fin xs)))"
  by (induction xs arbitrary: f) simp_all

text \<open>The aggregations of \<open>COLLECT\<close> over finite numbers: the least, the greatest, the float64 sum from the left, and the count;
  over no match they are null, and the count is 0.\<close>

lemma collect_aggregates:
  assumes "results = map (\<lambda>x. GFloat (Fin x)) xs"
  shows "collect go ''MIN'' results = Inr (if xs = [] then GNil else GFloat (Fin (Min (set xs)))) \<and>
    collect go ''MAX'' results = Inr (if xs = [] then GNil else GFloat (Fin (Max (set xs)))) \<and>
    collect go ''SUM'' results = Inr (if xs = [] then GNil else GFloat (foldl (float_add go) (Fin (hd xs)) (map Fin (tl xs)))) \<and>
    collect go ''COUNT'' results = Inr (GFloat (Fin (of_nat (length xs))))"
  by (cases xs) (simp_all add: assms collect_def collect_loop_MIN collect_loop_MAX collect_loop_SUM del: set_simps)

subsection \<open>A table of string literals\<close>

text \<open>A table that looks up the text of a process variable: one rule per row, \<open>FIRST\<close> hit.\<close>

definition lookup_table :: "string \<Rightarrow> string \<Rightarrow> (string \<times> string) list \<Rightarrow> DecisionTable" where
  "lookup_table x out rows =
     \<lparr>HitPolicy = ''FIRST'', Aggregation = [], Inputs = [\<lparr>in_Label = x, InputExpression = x\<rparr>],
      Outputs = [\<lparr>out_Label = [], out_Name = out, OutputValues = None\<rparr>],
      Rules = map (\<lambda>(k, v). \<lparr>rule_ID = k, InputEntries = [literal k], OutputEntries = [literal v]\<rparr>) rows\<rparr>"

lemma trim_space_ends: "s \<noteq> [] \<Longrightarrow> \<not> is_space (hd s) \<Longrightarrow> \<not> is_space (last s) \<Longrightarrow> trim_space s = s"
proof -
  assume s: "s \<noteq> []" "\<not> is_space (hd s)" "\<not> is_space (last s)"
  have "dropWhile P xs = xs" if "xs \<noteq> []" "\<not> P (hd xs)" for P and xs :: string using that by (cases xs) auto
  then show ?thesis using s by (simp add: trim_space_def trim_left_def hd_rev)
qed

lemma literal_text: "hd (literal s) = dquote" "last (literal s) = dquote" "literal s \<noteq> []" "butlast (tl (literal s)) = s"
    "length (literal s) = length s + 2" "literal s = dquote # s @ [dquote]"
  by (simp_all add: literal_def quote2_def dquote_def butlast_append)

lemma literal_trim: "trim_space (literal s) = literal s"
proof -
  have "\<not> is_space dquote" by code_simp
  then show ?thesis by (intro trim_space_ends) (simp_all add: literal_text(1-3))
qed

lemma plain_name_trim: "plain_name x \<Longrightarrow> trim_space x = x"
  by (rule trim_space_ends)
     (auto simp: plain_name_def list_all_iff ascii_letter_def in_bytes_def is_digit_def is_space_def dest!: last_in_set)

lemma feel_unary_literal:
  assumes "list_all plain_char k"
  shows "feel_unary go vs (literal k) v = Inr (v = GStr k)"
  using EvaluateUnaryTests_literal [OF assms, of go v vs] literal_trim [of k]
  by (simp add: feel_unary_def Flow_Resolution.EvaluateUnaryTests_def engine_error_of_def literal_text)

lemma feel_value_name:
  assumes "plain_name x" and "list_all (shortest_decimal go) (concat (map (json_nums \<circ> snd) vs))"
  shows "feel_value go vs (''='' @ x) = Inr (case map_of vs x of Some v \<Rightarrow> json_goval v | None \<Rightarrow> GNil)"
proof -
  have "\<not> is_space (last x)" "x \<noteq> []"
    using assms(1) by (auto simp: plain_name_def list_all_iff ascii_letter_def in_bytes_def is_digit_def is_space_def dest!: last_in_set)
  then have "trim_space (''='' @ x) = ''='' @ x" by (intro trim_space_ends) (auto simp: is_space_def)
  then have "feelSource (''='' @ x) = Some x" using plain_name_trim [OF assms(1)] by (simp add: feelSource_def)
  moreover have "cache_ok go []" by (simp add: cache_ok_def coherent_def)
  ultimately show ?thesis using Evaluate_name [OF assms(1) _ assms(2), of "[]"] by (simp add: feel_value_def engine_error_of_def)
qed

lemma evaluateOutputEntry_literal:
  assumes "ParseFloat go (literal v) = None"
  shows "evaluateOutputEntry go val (literal v) = Inr (GStr v)"
proof -
  have "dquote \<noteq> CHR ''t''" "dquote \<noteq> CHR ''f''" by code_simp+
  then have "literal v \<noteq> ''true''" "literal v \<noteq> ''false''" using literal_text(1) [of v] by auto
  moreover have "quoted dquote (literal v)" by (simp add: quoted_def has_suffix_def literal_text(6))
  ultimately show ?thesis using assms by (simp add: evaluateOutputEntry_def literal_text(3-5))
qed

text \<open>C39: A decision table that looks up the text of a process variable, in FEEL mode, from the texts of its cells through the
  lexer, the parser and the evaluator: it gives the output of the first row whose literal is the variable's text,
  and null when there is none or the variable holds no text.\<close>

theorem decide_lookup:
  assumes "plain_name x" and "list_all (\<lambda>(k, v). list_all plain_char k \<and> list_all plain_char v) rows"
    and "list_all (shortest_decimal go) (concat (map (json_nums \<circ> snd) vs))"
    and "ToUpper go ''FIRST'' = ''FIRST''" and "list_all (\<lambda>(_, v). ParseFloat go (literal v) = None) rows" and "out \<noteq> []"
  shows "decide go (lookup_table x out rows) vs = Inr (case map_of vs x of
     Some (JStr s) \<Rightarrow> (case map_of rows s of Some v \<Rightarrow> GStr v | None \<Rightarrow> GNil)
   | _ \<Rightarrow> GNil)"
proof -
  let ?v = "case map_of vs x of Some v \<Rightarrow> json_goval v | None \<Rightarrow> GNil" and ?t = "lookup_table x out rows"
  let ?hit = "\<lambda>r. ?v = GStr (butlast (tl (hd (InputEntries r))))" and ?outs = "\<lambda>r. [(out, GStr (butlast (tl (hd (OutputEntries r)))))]"
  have inputs: "input_values (feel_value go vs) (Inputs ?t) = Inr [?v]"
    using feel_value_name [OF assms(1,3)] plain_name_trim [OF assms(1)] by (simp add: lookup_table_def)
  have hits: "\<forall>r \<in> set (Rules ?t). tests_hold (feel_unary go vs) (InputEntries r) 0 [?v] = Inr (?hit r)"
    using assms(2) by (auto simp: lookup_table_def list_all_iff entry_text_def feel_unary_literal literal_text(4))
  have outs: "\<forall>r \<in> set (Rules ?t). ?hit r \<longrightarrow> evaluateOutputs go (feel_value go vs) (Outputs ?t) (OutputEntries r) = Inr (?outs r)"
    using assms(5,6) by (auto simp: lookup_table_def list_all_iff entry_text_def evaluateOutputs_def evaluateOutputEntry_literal
        outputKey_def literal_trim literal_text(4))
  have policy: "hit_policy go ?t = ''FIRST''"
    using assms(4) trim_space_ends [of "''FIRST''"] by (simp add: hit_policy_def lookup_table_def is_space_def)
  have "decide go ?t vs = Inr (first_result (map (\<lambda>(_, m). singleOrMap (Outputs ?t) m) (hits_of ?outs (take 1 (filter ?hit (Rules ?t))))))"
    unfolding decide_def EvaluateDecisionTable_def option.case inputs result_bind.simps policy
    by (subst rules_loop_values [OF hits outs]) (simp add: apply_policy_def)
  also have "\<dots> = Inr (case ?v of GStr s \<Rightarrow> (case map_of rows s of Some v \<Rightarrow> GStr v | None \<Rightarrow> GNil) | _ \<Rightarrow> GNil)"
    using assms(6) by (induction rows) (auto simp: lookup_table_def literal_text(4) singleOrMap_def outputKey_def first_result_def
        split: goval.split option.split)
  also have "(case ?v of GStr s \<Rightarrow> (case map_of rows s of Some v \<Rightarrow> GStr v | None \<Rightarrow> GNil) | _ \<Rightarrow> GNil) = (case map_of vs x of
     Some (JStr s) \<Rightarrow> (case map_of rows s of Some v \<Rightarrow> GStr v | None \<Rightarrow> GNil) | _ \<Rightarrow> GNil)"
    by (cases "map_of vs x") (auto split: json.split)
  finally show ?thesis .
qed

theorem decide_lookup_witness:
  "decide plain_go (lookup_table ''tier'' ''level'' [(''gold'', ''high''), (''iron'', ''low'')]) [(''tier'', JStr ''iron'')] = Inr (GStr ''low'')"
proof -
  let ?rows = "[(''gold'', ''high''), (''iron'', ''low'')]"
  have "plain_name ''tier''" "list_all (\<lambda>(k, v). list_all plain_char k \<and> list_all plain_char v) ?rows"
    "ToUpper plain_go ''FIRST'' = ''FIRST''" "list_all (\<lambda>(_, v). ParseFloat plain_go (literal v) = None) ?rows" by code_simp+
  then show ?thesis using decide_lookup [of "''tier''" ?rows plain_go "[(''tier'', JStr ''iron'')]" "''level''"] by simp
qed

end
