(* ===== verification/Cron.thy ===== *)
theory Cron
  imports Go_Time Prelude "HOL-Library.Word"
begin

unbundle bit_operations_syntax

text \<open>
  Cron expressions (\<open>internal/timer/cron.go\<close>): parsing into bit sets and lists, matching a day, and the
  search for the next matching time.

  Bit sets are 64-bit words and the integers of the code wrap, so a huge step in an expression does here
  what it does in the code. The location of an expression is a fixed offset from UTC: zones that change
  their offset are outside the model. \<open>strings.ToUpper\<close> and \<open>strings.ToLower\<close> are arguments
  (\<open>upper\<close>, \<open>lower\<close>).
\<close>

subsection \<open>Numbers and texts\<close>

text \<open>\<open>strconv.Atoi\<close>: an optional sign and digits, within 64 bits.\<close>

definition dec_digit :: "char \<Rightarrow> bool" where
  "dec_digit c \<longleftrightarrow> 48 \<le> (of_char c :: nat) \<and> (of_char c :: nat) \<le> 57"

definition dec_value :: "string \<Rightarrow> int" where
  "dec_value s = foldl (\<lambda>n c. 10 * n + (of_char c - 48)) 0 s"

definition signed_value :: "string \<Rightarrow> int option" where
  "signed_value s =
     (let (neg, ds) = (case s of
        c # cs \<Rightarrow> if c = CHR ''-'' then (True, cs) else if c = CHR ''+'' then (False, cs) else (False, s)
      | [] \<Rightarrow> (False, [])) in
      if ds \<noteq> [] \<and> list_all dec_digit ds then Some (if neg then - dec_value ds else dec_value ds) else None)"

definition Atoi :: "string \<Rightarrow> int option" where
  "Atoi s = (case signed_value s of Some n \<Rightarrow> if is_int64 n then Some n else None | None \<Rightarrow> None)"

text \<open>\<open>strings.Fields\<close>.\<close>

fun fields_loop :: "string \<Rightarrow> string \<Rightarrow> string list" where
  "fields_loop buf [] = (if buf = [] then [] else [buf])"
| "fields_loop buf (c # cs) =
     (if is_space c then (if buf = [] then fields_loop [] cs else buf # fields_loop [] cs)
      else fields_loop (buf @ [c]) cs)"

definition Fields :: "string \<Rightarrow> string list" where
  "Fields s = fields_loop [] s"

text \<open>\<open>strings.SplitN(s, sep, 2)\<close> where \<open>s\<close> contains the separator.\<close>

definition cut_at :: "char \<Rightarrow> string \<Rightarrow> string \<times> string" where
  "cut_at c s = (takeWhile (\<lambda>x. x \<noteq> c) s, drop 1 (dropWhile (\<lambda>x. x \<noteq> c) s))"

subsection \<open>Bit sets\<close>

type_synonym bits = "64 word"

text \<open>\<open>1 << uint(v)\<close>: a count outside 0 to 63 shifts everything out.\<close>

definition shl1 :: "int \<Rightarrow> bits" where
  "shl1 v = (if 0 \<le> v \<and> v < 64 then push_bit (nat v) 1 else 0)"

definition has_bit :: "bits \<Rightarrow> int \<Rightarrow> bool" where
  "has_bit b v \<longleftrightarrow> b AND shl1 v \<noteq> 0"

subsection \<open>Expressions\<close>

record Cron =
  Raw :: string
  second :: bits
  minute :: bits
  hour :: bits
  month :: bits
  dom :: bits
  domAny :: bool
  domLast :: "int list"
  domWeekday :: "int list"
  domLastWeekday :: bool
  dow :: bits
  dowAny :: bool
  dowLast :: "int list"
  dowNth :: "(int \<times> int) list"
  loc :: int

datatype cron_error =
    WantFields nat
  | InvalidStep string
  | InvalidValue string
  | OutOfRange string int int
  | InvalidPart string

definition cronMacros :: "(string \<times> string) list" where
  "cronMacros =
     [(''@yearly'', ''0 0 0 1 1 *''), (''@annually'', ''0 0 0 1 1 *''), (''@monthly'', ''0 0 0 1 * *''),
      (''@weekly'', ''0 0 0 * * 0''), (''@daily'', ''0 0 0 * * *''), (''@midnight'', ''0 0 0 * * *''),
      (''@hourly'', ''0 0 * * * *'')]"

definition monthNames :: "(string \<times> int) list" where
  "monthNames =
     [(''JAN'', 1), (''FEB'', 2), (''MAR'', 3), (''APR'', 4), (''MAY'', 5), (''JUN'', 6), (''JUL'', 7),
      (''AUG'', 8), (''SEP'', 9), (''OCT'', 10), (''NOV'', 11), (''DEC'', 12)]"

definition dayNames :: "(string \<times> int) list" where
  "dayNames = [(''SUN'', 0), (''MON'', 1), (''TUE'', 2), (''WED'', 3), (''THU'', 4), (''FRI'', 5), (''SAT'', 6)]"

subsection \<open>Parsing\<close>

definition cronValue :: "string \<Rightarrow> (string \<times> int) list \<Rightarrow> cron_error + int" where
  "cronValue s names =
     (case map_of names s of
        Some v \<Rightarrow> Inr v
      | None \<Rightarrow> (case Atoi s of Some v \<Rightarrow> Inr v | None \<Rightarrow> Inl (InvalidValue s)))"

text \<open>The loop that sets the bits of a range with a step. Each round takes one unit of fuel; the addition
  wraps.\<close>

fun step_bits :: "nat \<Rightarrow> int \<Rightarrow> int \<Rightarrow> int \<Rightarrow> bits \<Rightarrow> bits option" where
  "step_bits 0 v hi step b = None"
| "step_bits (Suc f) v hi step b =
     (if v \<le> hi then step_bits f (wrap64 (v + step)) hi step (b OR shl1 v) else Some b)"

definition step_fuel :: nat where "step_fuel = 130"

definition part_step :: "string \<Rightarrow> cron_error + (int \<times> string)" where
  "part_step part =
     (if CHR ''/'' \<in> set part then
        (case Atoi (snd (cut_at CHR ''/'' part)) of
           Some n \<Rightarrow> if n \<le> 0 then Inl (InvalidStep part) else Inr (n, fst (cut_at CHR ''/'' part))
         | None \<Rightarrow> Inl (InvalidStep part))
      else Inr (1, part))"

definition part_range :: "string \<Rightarrow> int \<Rightarrow> int \<Rightarrow> (string \<times> int) list \<Rightarrow> int \<Rightarrow> cron_error + (int \<times> int)" where
  "part_range part mn mx names step =
     (if part = ''*'' \<or> part = ''?'' then Inr (mn, mx)
      else if CHR ''-'' \<in> set part then
        result_bind (cronValue (fst (cut_at CHR ''-'' part)) names) (\<lambda>lo.
        result_bind (cronValue (snd (cut_at CHR ''-'' part)) names) (\<lambda>hi. Inr (lo, hi)))
      else result_bind (cronValue part names) (\<lambda>v. Inr (v, if step = 1 then v else mx)))"

text \<open>\<open>None\<close> would be a loop that does not end; it does not happen (lemma \<open>step_bits_total\<close>).\<close>

definition parseCronPart :: "string \<Rightarrow> int \<Rightarrow> int \<Rightarrow> (string \<times> int) list \<Rightarrow> cron_error + bits" where
  "parseCronPart part mn mx names =
     result_bind (part_step part) (\<lambda>(step, p).
     result_bind (part_range p mn mx names step) (\<lambda>(lo, hi).
       if lo < mn \<or> hi > mx \<or> lo > hi then Inl (OutOfRange p mn mx)
       else case step_bits step_fuel lo hi step 0 of Some b \<Rightarrow> Inr b | None \<Rightarrow> Inl (OutOfRange p mn mx)))"

definition parseCronField :: "string \<Rightarrow> int \<Rightarrow> int \<Rightarrow> (string \<times> int) list \<Rightarrow> cron_error + bits" where
  "parseCronField field mn mx names =
     fold_result (\<lambda>part b. result_bind (parseCronPart part mn mx names) (\<lambda>x. Inr (b OR x))) (split_on CHR '','' field) 0"

definition valid_count :: "string \<Rightarrow> int option \<Rightarrow> int \<Rightarrow> int \<Rightarrow> cron_error + int" where
  "valid_count part n lo hi = (case n of Some k \<Rightarrow> if lo \<le> k \<and> k \<le> hi then Inr k else Inl (InvalidPart part) | None \<Rightarrow> Inl (InvalidPart part))"

definition dom_part :: "string \<Rightarrow> Cron \<Rightarrow> cron_error + Cron" where
  "dom_part part c =
     (if part = ''LW'' then Inr (c\<lparr>domLastWeekday := True\<rparr>)
      else if part = ''L'' then Inr (c\<lparr>domLast := domLast c @ [0]\<rparr>)
      else if has_prefix part ''L-'' then
        result_bind (valid_count part (Atoi (drop 2 part)) 0 30) (\<lambda>n. Inr (c\<lparr>domLast := domLast c @ [n]\<rparr>))
      else if has_suffix part ''W'' then
        result_bind (valid_count part (Atoi (butlast part)) 1 31) (\<lambda>n. Inr (c\<lparr>domWeekday := domWeekday c @ [n]\<rparr>))
      else result_bind (parseCronPart part 1 31 []) (\<lambda>b. Inr (c\<lparr>dom := dom c OR b\<rparr>)))"

definition parseDom :: "string \<Rightarrow> Cron \<Rightarrow> cron_error + Cron" where
  "parseDom field c =
     (if field = ''*'' \<or> field = ''?'' then Inr (c\<lparr>domAny := True\<rparr>)
      else fold_result dom_part (split_on CHR '','' field) c)"

definition day_value :: "string \<Rightarrow> int option" where
  "day_value s = (case cronValue s dayNames of Inr d \<Rightarrow> if 0 \<le> d \<and> d \<le> 7 then Some d else None | Inl _ \<Rightarrow> None)"

definition dow_part :: "string \<Rightarrow> Cron \<Rightarrow> cron_error + Cron" where
  "dow_part part c =
     (if CHR ''#'' \<in> set part then
        (case (day_value (fst (cut_at CHR ''#'' part)), Atoi (snd (cut_at CHR ''#'' part))) of
           (Some d, Some n) \<Rightarrow>
             if 1 \<le> n \<and> n \<le> 5 then Inr (c\<lparr>dowNth := dowNth c @ [(d mod 7, n)]\<rparr>) else Inl (InvalidPart part)
         | _ \<Rightarrow> Inl (InvalidPart part))
      else if length part > 1 \<and> has_suffix part ''L'' then
        (case day_value (butlast part) of
           Some d \<Rightarrow> Inr (c\<lparr>dowLast := dowLast c @ [d mod 7]\<rparr>)
         | None \<Rightarrow> Inl (InvalidPart part))
      else
        result_bind (parseCronPart part 0 7 dayNames) (\<lambda>b.
          Inr (c\<lparr>dow := dow c OR (if b AND shl1 7 \<noteq> 0 then (b AND NOT (shl1 7)) OR 1 else b)\<rparr>)))"

definition parseDow :: "string \<Rightarrow> Cron \<Rightarrow> cron_error + Cron" where
  "parseDow field c =
     (if field = ''*'' \<or> field = ''?'' then Inr (c\<lparr>dowAny := True\<rparr>)
      else fold_result dow_part (split_on CHR '','' field) c)"

definition new_cron :: "string \<Rightarrow> int \<Rightarrow> Cron" where
  "new_cron raw off = \<lparr>Raw = raw, second = 0, minute = 0, hour = 0, month = 0, dom = 0, domAny = False, domLast = [],
     domWeekday = [], domLastWeekday = False, dow = 0, dowAny = False, dowLast = [], dowNth = [], loc = off\<rparr>"

definition cron_fields :: "(string \<Rightarrow> string) \<Rightarrow> (string \<Rightarrow> string) \<Rightarrow> string \<Rightarrow> string list" where
  "cron_fields upper lower raw =
     (let s = (case map_of cronMacros (lower raw) of Some m \<Rightarrow> m | None \<Rightarrow> raw); f = Fields (upper s) in
      if length f = 5 then ''0'' # f else f)"

definition ParseCron :: "(string \<Rightarrow> string) \<Rightarrow> (string \<Rightarrow> string) \<Rightarrow> int \<Rightarrow> string \<Rightarrow> cron_error + Cron" where
  "ParseCron upper lower off expr =
     (let raw = trim_space expr; c = new_cron raw off in
      case cron_fields upper lower raw of
        [f0, f1, f2, f3, f4, f5] \<Rightarrow>
          result_bind (parseCronField f0 0 59 []) (\<lambda>s.
          result_bind (parseCronField f1 0 59 []) (\<lambda>mi.
          result_bind (parseCronField f2 0 23 []) (\<lambda>h.
          result_bind (parseDom f3 (c\<lparr>second := s, minute := mi, hour := h\<rparr>)) (\<lambda>c1.
          result_bind (parseCronField f4 1 12 monthNames) (\<lambda>mo.
            parseDow f5 (c1\<lparr>month := mo\<rparr>))))))
      | f \<Rightarrow> Inl (WantFields (length f)))"

subsection \<open>Matching a day\<close>

definition daysIn :: "int \<Rightarrow> int \<Rightarrow> int" where
  "daysIn y m = (case time_date (time_Date y (m + 1) 0 0 0 0 0 0) of (_, _, d) \<Rightarrow> d)"

text \<open>The weekday nearest to a day of the month of \<open>t\<close>, in the same month.\<close>

definition nearest_weekday :: "gotime \<Rightarrow> int \<Rightarrow> int \<Rightarrow> int" where
  "nearest_weekday t lastday target =
     (case time_date t of (y, m, _) \<Rightarrow>
        let wd = Weekday (time_Date y m target 0 0 0 0 (zone_offset t)) in
        if wd = 6 then if target = 1 then 3 else target - 1
        else if wd = 0 then if target = lastday then target - 2 else target + 1
        else target)"

definition dayMatches :: "Cron \<Rightarrow> gotime \<Rightarrow> bool" where
  "dayMatches c t =
     (case time_date t of (y, m, day) \<Rightarrow>
        let lastday = daysIn y m; wd = Weekday t;
            domOK = domAny c \<or> has_bit (dom c) day \<or> (\<exists>n \<in> set (domLast c). day = lastday - n) \<or>
              (\<exists>n \<in> set (domWeekday c). n \<le> lastday \<and> day = nearest_weekday t lastday n) \<or>
              domLastWeekday c \<and> day = nearest_weekday t lastday lastday;
            dowOK = dowAny c \<or> has_bit (dow c) wd \<or> (\<exists>d \<in> set (dowLast c). wd = d \<and> day + 7 > lastday) \<or>
              (\<exists>(d, n) \<in> set (dowNth c). wd = d \<and> (day - 1) div 7 + 1 = n)
        in domOK \<and> dowOK)"

subsection \<open>The next time\<close>

definition Month :: "gotime \<Rightarrow> int" where "Month t = (case time_date t of (_, m, _) \<Rightarrow> m)"

definition cron_matches :: "Cron \<Rightarrow> gotime \<Rightarrow> bool" where
  "cron_matches c t \<longleftrightarrow> has_bit (month c) (Month t) \<and> dayMatches c t \<and> has_bit (hour c) (Hour t) \<and>
     has_bit (minute c) (Minute t) \<and> has_bit (second c) (Second t)"

text \<open>One round of the loop of \<open>Next\<close>: the time it goes on with, \<open>None\<close> where the time matches.\<close>

definition cron_skip :: "Cron \<Rightarrow> gotime \<Rightarrow> gotime option" where
  "cron_skip c t =
     (case time_date t of (y, m, d) \<Rightarrow>
        if \<not> has_bit (month c) m then Some (time_Date y (m + 1) 1 0 0 0 0 (loc c))
        else if \<not> dayMatches c t then Some (time_Date y m (d + 1) 0 0 0 0 (loc c))
        else if \<not> has_bit (hour c) (Hour t) then Some (time_Date y m d (Hour t + 1) 0 0 0 (loc c))
        else if \<not> has_bit (minute c) (Minute t) then Some (time_Date y m d (Hour t) (Minute t + 1) 0 0 (loc c))
        else if \<not> has_bit (second c) (Second t) then Some (time_Add t 1000000000)
        else None)"

definition time_at :: "Cron \<Rightarrow> int \<Rightarrow> gotime" where
  "time_at c i = \<lparr>instant = i, zone_offset = loc c\<rparr>"

lemma local_split: "local_ns t = local_ns t div ns_per_day * ns_per_day + time_of_day t"
  by (simp add: time_of_day_def)

lemma time_date_number: "time_date t = (y, m, d) \<Longrightarrow> local_ns t div ns_per_day = day_number y m d \<and> valid_date y m d"
  using day_number_of_day [of "local_ns t div ns_per_day" y m d] by (auto simp: time_date_def)

lemma local_time_Date: "1 \<le> m \<Longrightarrow> m \<le> 12 \<Longrightarrow> local_ns (time_Date y m d h mi s ns off) =
    day_number y m d * ns_per_day + h * 3600000000000 + mi * 60000000000 + s * 1000000000 + ns"
  unfolding time_Date_def local_ns_def Let_def day_number_add by simp

lemma local_next_month: "1 \<le> m \<Longrightarrow> m \<le> 12 \<Longrightarrow> local_ns (time_Date y (m + 1) 1 0 0 0 0 off) =
    (day_number y m 1 + days_in_month y m) * ns_per_day"
proof -
  assume m: "1 \<le> m" "m \<le> 12"
  have "day_number (y + m div 12) (m mod 12 + 1) 1 = day_number y m (days_in_month y m) + 1"
    using day_before_next_month [OF m, of y] by (simp add: day_number_def)
  also have "\<dots> = day_number y m 1 + days_in_month y m" by (simp add: day_number_def)
  finally show ?thesis unfolding time_Date_def local_ns_def Let_def day_number_add by simp
qed

text \<open>What a round leaves behind: the times from \<open>t\<close> up to the time it goes on with.\<close>

lemma hour_minute_parts:
  "Hour t * 3600000000000 \<le> time_of_day t" "time_of_day t < (Hour t + 1) * 3600000000000"
  "Hour t * 3600000000000 + Minute t * 60000000000 \<le> time_of_day t"
  "time_of_day t < Hour t * 3600000000000 + (Minute t + 1) * 60000000000"
proof -
  have div: "x div k * k \<le> x" "x < (x div k + 1) * k" if "0 < k" for x k :: int
    using div_mult_mod_eq [of x k] pos_mod_sign [OF that, of x] pos_mod_bound [OF that, of x] by (simp_all only: distrib_right mult_1_left)
  have h: "Hour t * 3600000000000 + time_of_day t mod 3600000000000 = time_of_day t" unfolding Hour_def by (rule div_mult_mod_eq)
  show "Hour t * 3600000000000 \<le> time_of_day t" "time_of_day t < (Hour t + 1) * 3600000000000"
    unfolding Hour_def by (rule div; simp)+
  show "Hour t * 3600000000000 + Minute t * 60000000000 \<le> time_of_day t"
    "time_of_day t < Hour t * 3600000000000 + (Minute t + 1) * 60000000000"
    using h div [of 60000000000 "time_of_day t mod 3600000000000"] unfolding Minute_def by (simp_all del: minus_mod_eq_mult_div)
qed

lemma cron_skip_zone: "cron_skip c t = Some t' \<Longrightarrow> zone_offset t = loc c \<Longrightarrow> zone_offset t' = loc c"
  by (auto simp: cron_skip_def time_Date_def time_Add_def Let_def split: if_splits prod.splits)

lemma cron_skip_local:
  assumes "cron_skip c t = Some t'"
  shows "local_ns t < local_ns t'"
proof -
  obtain y m d where date: "time_date t = (y, m, d)" by (cases "time_date t")
  then have n: "local_ns t div ns_per_day = day_number y m d" and v: "valid_date y m d" using time_date_number by auto
  then have m: "1 \<le> m" "m \<le> 12" and d: "1 \<le> d" "d \<le> days_in_month y m" by (auto simp: valid_date_def)
  have t: "local_ns t = day_number y m d * ns_per_day + time_of_day t" using local_split [of t] n by simp
  have dn: "day_number y m d + 1 \<le> day_number y m 1 + days_in_month y m" "day_number y m (d + 1) = day_number y m d + 1"
    using d by (simp_all add: day_number_def)
  note tod = time_of_day_range [of t] hour_minute_parts [of t]
  have day: "(day_number y m d + 1) * ns_per_day \<le> (day_number y m 1 + days_in_month y m) * ns_per_day"
    using dn(1) by (intro mult_right_mono) (simp_all add: ns_per_day_def)
  show ?thesis using assms t tod day dn(2) unfolding cron_skip_def date
    by (auto simp: local_time_Date [OF m] local_next_month [OF m] distrib_right split: if_splits)
       (auto simp: local_ns_def time_Add_def)
qed

lemma cron_skip_later: "cron_skip c (time_at c i) = Some t' \<Longrightarrow> i < instant t'"
  using cron_skip_local [of c "time_at c i" t'] cron_skip_zone [of c "time_at c i" t'] by (simp add: time_at_def local_ns_def)

function next_loop :: "Cron \<Rightarrow> int \<Rightarrow> int \<Rightarrow> int option" where
  "next_loop c limit i =
     (if i < limit then
        case cron_skip c (time_at c i) of
          None \<Rightarrow> Some i
        | Some t \<Rightarrow> next_loop c limit (instant t)
      else None)"
  by pat_completeness auto
termination
  by (relation "measure (\<lambda>(c, limit, i). nat (limit - i))") (auto dest: cron_skip_later)

declare next_loop.simps [simp del]

text \<open>The first instant looked at, and the limit.\<close>

definition start_after :: "int \<Rightarrow> int" where
  "start_after i = i - i mod 1000000000 + 1000000000"

definition cron_limit :: "Cron \<Rightarrow> int \<Rightarrow> int" where
  "cron_limit c i = instant (AddDate (time_at c (start_after i)) 5 0 0)"

definition Cron_Next :: "Cron \<Rightarrow> gotime \<Rightarrow> gotime option" where
  "Cron_Next c t = map_option (time_at c) (next_loop c (cron_limit c (instant t)) (start_after (instant t)))"

subsection \<open>A round skips no matching time\<close>

lemma div_between: "k * c \<le> x \<Longrightarrow> x < (k + 1) * c \<Longrightarrow> 0 < c \<Longrightarrow> x div c = k" for k c x :: int
  by (rule int_div_pos_eq [of _ _ _ "x - k * c"]) (simp_all add: algebra_simps)

lemma div_less_int: "x < n * c \<Longrightarrow> 0 < c \<Longrightarrow> x div c < n" for x n c :: int
proof (rule ccontr)
  assume x: "x < n * c" "0 < c" "\<not> x div c < n"
  then have "n * c \<le> x div c * c" by (intro mult_right_mono) auto
  then show False using x div_mult_mod_eq [of x c] pos_mod_sign [of c x] by linarith
qed

lemma same_month:
  assumes "time_date t = (y, m, d)" and "local_ns t \<le> local_ns u" and "local_ns u < (day_number y m 1 + days_in_month y m) * ns_per_day"
  shows "Month u = m"
proof -
  let ?n = "local_ns u div ns_per_day"
  have t: "local_ns t div ns_per_day = day_number y m d" "valid_date y m d" using time_date_number [OF assms(1)] by auto
  have D: "0 < ns_per_day" by (simp add: ns_per_day_def)
  have "day_number y m d \<le> ?n" unfolding t(1) [symmetric] by (rule zdiv_mono1 [OF assms(2) D])
  moreover have "?n < day_number y m 1 + days_in_month y m"
    by (rule div_less_int [OF assms(3) D])
  moreover define k where "k = d + ?n - day_number y m d"
  ultimately have "valid_date y m k" "day_number y m k = ?n" using t(2) by (auto simp: valid_date_def day_number_def)
  then show ?thesis using date_of_day_number [of y m k] by (simp add: Month_def time_date_def)
qed

lemma same_day:
  assumes "local_ns t div ns_per_day * ns_per_day \<le> local_ns u" and "local_ns u < (local_ns t div ns_per_day + 1) * ns_per_day"
  shows "local_ns u div ns_per_day = local_ns t div ns_per_day" and "time_date u = time_date t"
proof -
  show eq: "local_ns u div ns_per_day = local_ns t div ns_per_day"
    by (rule div_between [OF assms]) (simp add: ns_per_day_def)
  show "time_date u = time_date t" by (simp add: time_date_def eq)
qed

lemma dayMatches_same_day:
  assumes "local_ns u div ns_per_day = local_ns t div ns_per_day" and "zone_offset u = zone_offset t"
  shows "dayMatches c u = dayMatches c t"
proof -
  have "time_date u = time_date t" "Weekday u = Weekday t" by (simp_all add: time_date_def Weekday_def assms(1))
  then show ?thesis by (simp add: dayMatches_def nearest_weekday_def assms(2))
qed

lemma same_hour:
  assumes "time_of_day t \<le> time_of_day u" and "time_of_day u < (Hour t + 1) * 3600000000000"
  shows "Hour u = Hour t"
  using hour_minute_parts(1) [of t] assms unfolding Hour_def [of u] by (intro div_between) auto

lemma same_minute:
  assumes "time_of_day t \<le> time_of_day u" and "time_of_day u < Hour t * 3600000000000 + (Minute t + 1) * 60000000000"
  shows "Minute u = Minute t"
proof -
  have "time_of_day t mod 3600000000000 div 60000000000 < 60" by (rule div_less_int) simp_all
  then have "Minute t \<le> 59" by (simp add: Minute_def)
  then have "time_of_day u < (Hour t + 1) * 3600000000000" using assms(2) by simp
  then have h: "Hour u = Hour t" by (rule same_hour [OF assms(1)])
  have r: "time_of_day u mod 3600000000000 = time_of_day u - Hour t * 3600000000000"
    using div_mult_mod_eq [of "time_of_day u" 3600000000000] h unfolding Hour_def [of u] by linarith
  show ?thesis unfolding Minute_def [of u] r using assms hour_minute_parts(3) [of t] by (intro div_between) auto
qed

lemma later_same_day:
  assumes "time_date t = (y, m, d)" and "local_ns t \<le> local_ns u" and "local_ns u < (day_number y m d + 1) * ns_per_day"
  shows "local_ns u div ns_per_day = local_ns t div ns_per_day" "time_of_day t \<le> time_of_day u"
    "time_of_day u = local_ns u - day_number y m d * ns_per_day"
proof -
  have n: "local_ns t div ns_per_day = day_number y m d" using time_date_number [OF assms(1)] by simp
  then have base: "local_ns t = day_number y m d * ns_per_day + time_of_day t" using local_split [of t] by simp
  have "local_ns t div ns_per_day * ns_per_day \<le> local_ns u" "local_ns u < (local_ns t div ns_per_day + 1) * ns_per_day"
    unfolding n using assms(2,3) base time_of_day_range(1) [of t] by simp_all
  from same_day(1) [OF this] show same: "local_ns u div ns_per_day = local_ns t div ns_per_day" .
  show u: "time_of_day u = local_ns u - day_number y m d * ns_per_day" using local_split [of u] same n by simp
  show "time_of_day t \<le> time_of_day u" using u base assms(2) by simp
qed

lemma parts_span:
  "(Hour t + 1) * 3600000000000 \<le> ns_per_day"
  "Hour t * 3600000000000 + (Minute t + 1) * 60000000000 \<le> (Hour t + 1) * 3600000000000"
proof -
  have "Hour t < 24" "Minute t < 60" unfolding Hour_def Minute_def
    using time_of_day_range(2) [of t] by (auto intro!: div_less_int simp: ns_per_day_def)
  then show "(Hour t + 1) * 3600000000000 \<le> ns_per_day"
    "Hour t * 3600000000000 + (Minute t + 1) * 60000000000 \<le> (Hour t + 1) * 3600000000000" by (simp_all add: ns_per_day_def)
qed

lemma same_second: "a mod k = 0 \<Longrightarrow> b mod k = 0 \<Longrightarrow> a \<le> b \<Longrightarrow> b < a + k \<Longrightarrow> a = b" for a b k :: int
proof -
  assume "a mod k = 0" "b mod k = 0" "a \<le> b" "b < a + k"
  then have "k dvd b - a" "0 \<le> b - a" "b - a < k" by (auto simp: mod_eq_0_iff_dvd)
  then show "a = b" using zdvd_not_zless [of "b - a" k] by (cases "b = a") auto
qed

lemma cron_skip_sound:
  assumes skip: "cron_skip c t = Some t'" and zones: "zone_offset t = loc c" "zone_offset u = loc c"
    and whole: "instant t mod 1000000000 = 0" "instant u mod 1000000000 = 0"
    and between: "instant t \<le> instant u" "instant u < instant t'"
  shows "\<not> cron_matches c u"
proof -
  obtain y m d where date: "time_date t = (y, m, d)" by (cases "time_date t")
  then have m: "1 \<le> m" "m \<le> 12" using time_date_number [OF date] by (auto simp: valid_date_def)
  have loc: "local_ns t \<le> local_ns u" "local_ns u < local_ns t'"
    using between zones cron_skip_zone [OF skip] by (auto simp: local_ns_def)
  note in_day = later_same_day [OF date loc(1)]
  consider (month) "\<not> has_bit (month c) m" "t' = time_Date y (m + 1) 1 0 0 0 0 (loc c)"
    | (day) "\<not> dayMatches c t" "t' = time_Date y m (d + 1) 0 0 0 0 (loc c)"
    | (hour) "\<not> has_bit (hour c) (Hour t)" "t' = time_Date y m d (Hour t + 1) 0 0 0 (loc c)"
    | (minute) "\<not> has_bit (minute c) (Minute t)" "t' = time_Date y m d (Hour t) (Minute t + 1) 0 0 (loc c)"
    | (second) "\<not> has_bit (second c) (Second t)" "t' = time_Add t 1000000000"
    using skip unfolding cron_skip_def date by (auto split: if_splits)
  then show ?thesis
  proof cases
    case month
    then show ?thesis using same_month [OF date loc(1)] loc(2) local_next_month [OF m] by (simp add: cron_matches_def)
  next
    case day
    then have "local_ns u < (day_number y m d + 1) * ns_per_day"
      using loc(2) by (simp add: local_time_Date [OF m] day_number_def add.assoc)
    then show ?thesis using day dayMatches_same_day [OF in_day(1)] zones by (simp add: cron_matches_def)
  next
    case hour
    then have u: "local_ns u < day_number y m d * ns_per_day + (Hour t + 1) * 3600000000000"
      using loc(2) by (simp add: local_time_Date [OF m])
    then have "local_ns u < (day_number y m d + 1) * ns_per_day" using parts_span(1) [of t] by (simp add: distrib_right)
    then show ?thesis using hour u in_day same_hour [of t u] by (simp add: cron_matches_def)
  next
    case minute
    then have u: "local_ns u < day_number y m d * ns_per_day + (Hour t * 3600000000000 + (Minute t + 1) * 60000000000)"
      using loc(2) by (simp add: local_time_Date [OF m])
    then have "local_ns u < (day_number y m d + 1) * ns_per_day" using parts_span [of t] by (simp add: distrib_right)
    then show ?thesis using minute u in_day same_minute [of t u] by (simp add: cron_matches_def)
  next
    case second
    then have "instant t = instant u" using same_second [OF whole between(1)] between(2) by (simp add: time_Add_def)
    then have "u = t" using zones by (intro gotime.equality) simp_all
    then show ?thesis using second by (simp add: cron_matches_def)
  qed
qed

lemma cron_skip_whole:
  assumes "cron_skip c t = Some t'" and "instant t mod 1000000000 = 0"
  shows "instant t' mod 1000000000 = 0"
proof -
  have D: "ns_per_day = 86400 * 1000000000" by (simp add: ns_per_day_def)
  have "(instant (time_Date y m d h mi s 0 off)) mod 1000000000 = 0" for y m d h mi s off
  proof -
    have "1000000000 dvd instant (time_Date y m d h mi s 0 off)"
      unfolding time_Date_def Let_def D gotime.select_convs
      by (intro dvd_add dvd_diff dvd_mult; simp)
    then show ?thesis by (simp add: mod_eq_0_iff_dvd)
  qed
  then show ?thesis using assms by (auto simp: cron_skip_def time_Add_def split: if_splits prod.splits)
qed

lemma cron_skip_None: "cron_skip c t = None \<longleftrightarrow> cron_matches c t"
  by (auto simp: cron_skip_def cron_matches_def Month_def split: prod.splits if_splits)

subsection \<open>The first matching time\<close>

definition whole :: "Cron \<Rightarrow> gotime \<Rightarrow> bool" where
  "whole c u \<longleftrightarrow> zone_offset u = loc c \<and> instant u mod 1000000000 = 0"

lemma next_loop_first:
  "i mod 1000000000 = 0 \<Longrightarrow>
   (case next_loop c limit i of
      Some j \<Rightarrow> i \<le> j \<and> j < limit \<and> j mod 1000000000 = 0 \<and> cron_matches c (time_at c j) \<and>
        (\<forall>u. whole c u \<longrightarrow> i \<le> instant u \<longrightarrow> instant u < j \<longrightarrow> \<not> cron_matches c u)
    | None \<Rightarrow> \<forall>u. whole c u \<longrightarrow> i \<le> instant u \<longrightarrow> instant u < limit \<longrightarrow> \<not> cron_matches c u)"
proof (induction c limit i rule: next_loop.induct)
  case (1 c limit i)
  show ?case
  proof (cases "i < limit")
    case False
    then show ?thesis by (auto simp: next_loop.simps [of c limit i])
  next
    case True
    show ?thesis
    proof (cases "cron_skip c (time_at c i)")
      case None
      then show ?thesis using True 1(2) cron_skip_None [of c "time_at c i"] by (simp add: next_loop.simps [of c limit i])
    next
      case (Some t)
      have skipped: "\<not> cron_matches c u" if "whole c u" "i \<le> instant u" "instant u < instant t" for u
        using cron_skip_sound [OF Some, of u] that 1(2) by (simp add: whole_def time_at_def)
      have "instant t mod 1000000000 = 0" using cron_skip_whole [OF Some] 1(2) by (simp add: time_at_def)
      from 1(1) [OF True Some this] skipped cron_skip_later [OF Some] True show ?thesis
        by (auto simp: next_loop.simps [of c limit i] Some split: option.splits)
    qed
  qed
qed

text \<open>C40: The next time of a cron expression is the first one: it matches, lies strictly after the given time, and no whole
  second in between matches; when there is none, no whole second within five years matches. The search
  always ends.\<close>

theorem Cron_Next_first:
  "case Cron_Next c t of
     Some r \<Rightarrow> whole c r \<and> cron_matches c r \<and> instant t < instant r \<and>
       (\<forall>u. whole c u \<and> instant t < instant u \<and> instant u < instant r \<longrightarrow> \<not> cron_matches c u)
   | None \<Rightarrow> \<forall>u. whole c u \<and> instant t < instant u \<and> instant u < cron_limit c (instant t) \<longrightarrow> \<not> cron_matches c u"
proof -
  let ?i = "start_after (instant t)"
  have mod: "?i mod 1000000000 = 0" "instant t < ?i"
    using pos_mod_bound [of 1000000000 "instant t"] by (simp_all add: start_after_def mod_eq_0_iff_dvd dvd_minus_mod)
  have start: "?i \<le> instant u" if "whole c u" "instant t < instant u" for u
  proof -
    have "instant u mod 1000000000 = 0" using that(1) by (simp add: whole_def)
    moreover have "?i - 1000000000 \<le> instant t" using pos_mod_sign [of 1000000000 "instant t"] by (simp add: start_after_def)
    moreover have "(?i - 1000000000) mod 1000000000 = 0" using mod(1) by simp
    ultimately show ?thesis using that(2) same_second [of "?i - 1000000000" 1000000000 "instant u"] by linarith
  qed
  show ?thesis using next_loop_first [OF mod(1), of c "cron_limit c (instant t)"] mod(2) start
    by (auto simp: Cron_Next_def time_at_def whole_def split: option.splits)
qed

definition every_second :: Cron where
  "every_second = new_cron [] 3600\<lparr>domAny := True, dowAny := True, month := - 1, hour := - 1, minute := - 1, second := - 1\<rparr>"

theorem Cron_Next_first_witness:
  "Cron_Next every_second \<lparr>instant = 5, zone_offset = 0\<rparr> = Some (time_at every_second 1000000000) \<and>
   cron_matches every_second (time_at every_second 1000000000)"
proof -
  have "cron_skip every_second (time_at every_second 1000000000) = None" "1000000000 < cron_limit every_second 5"
    "start_after 5 = 1000000000" by code_simp+
  then have "Cron_Next every_second \<lparr>instant = 5, zone_offset = 0\<rparr> = Some (time_at every_second 1000000000)"
    by (simp add: Cron_Next_def next_loop.simps)
  then show ?thesis using Cron_Next_first [of every_second "\<lparr>instant = 5, zone_offset = 0\<rparr>"] by simp
qed

subsection \<open>The bits of a part\<close>

lemma has_bit_iff: "has_bit b v \<longleftrightarrow> 0 \<le> v \<and> v < 64 \<and> bit b (nat v)"
proof (cases "0 \<le> v \<and> v < 64")
  case True
  have "b AND push_bit (nat v) 1 \<noteq> 0 \<longleftrightarrow> (\<exists>n. bit (b AND push_bit (nat v) 1) n)" using bit_eqI [of "b AND push_bit (nat v) 1" 0] by auto
  also have "\<dots> \<longleftrightarrow> bit b (nat v)" using True by (auto simp: bit_simps) (use nat_less_iff in force)?
  finally show ?thesis using True by (simp add: has_bit_def shl1_def)
qed (auto simp: has_bit_def shl1_def)

lemma has_bit_or: "has_bit (b OR c) v \<longleftrightarrow> has_bit b v \<or> has_bit c v"
  by (auto simp: has_bit_iff bit_simps)

lemma has_bit_shl1: "has_bit (shl1 v) x \<longleftrightarrow> 0 \<le> x \<and> x < 64 \<and> x = v"
  by (auto simp: has_bit_iff shl1_def bit_simps)

lemma step_bits_steps:
  "0 \<le> v \<Longrightarrow> hi < 64 \<Longrightarrow> 0 < step \<Longrightarrow> hi + step \<le> MaxInt64 \<Longrightarrow> max 0 (hi - v + 1) < int f \<Longrightarrow>
     \<exists>b'. step_bits f v hi step b = Some b' \<and>
       (\<forall>x. has_bit b' x \<longleftrightarrow> has_bit b x \<or> v \<le> x \<and> x \<le> hi \<and> step dvd x - v)"
proof (induction f arbitrary: v b)
  case (Suc f)
  show ?case
  proof (cases "v \<le> hi")
    case True
    have w: "wrap64 (v + step) = v + step" using Suc.prems True by (intro wrap64_id) (simp add: is_int64_def MinInt64_def)
    obtain b' where b': "step_bits f (v + step) hi step (b OR shl1 v) = Some b'"
      "\<And>x. has_bit b' x \<longleftrightarrow> has_bit (b OR shl1 v) x \<or> v + step \<le> x \<and> x \<le> hi \<and> step dvd x - (v + step)"
      using Suc.IH [of "v + step" "b OR shl1 v"] Suc.prems True by auto
    have "step dvd x - (v + step) \<longleftrightarrow> step dvd x - v" for x
      using dvd_add_right_iff [of step "- step" "x - v"] by (simp add: algebra_simps)
    moreover have "v \<le> x \<and> step dvd x - v \<longleftrightarrow> x = v \<or> v + step \<le> x \<and> step dvd x - v" for x
      using zdvd_imp_le [of step "x - v"] Suc.prems(3) by force
    ultimately have "has_bit b' x \<longleftrightarrow> has_bit b x \<or> v \<le> x \<and> x \<le> hi \<and> step dvd x - v" for x
      unfolding b'(2) has_bit_or has_bit_shl1 using Suc.prems(1,2) True by (metis dual_order.strict_trans2)
    then show ?thesis using b'(1) True w by auto
  qed auto
qed simp

text \<open>A huge step makes the counter wrap; the loop still ends.\<close>

lemma step_bits_wraps:
  assumes "hi < 64" and "0 \<le> j" and "j < 64" and "step = MaxInt64 - j"
  shows "- 64 \<le> v \<Longrightarrow> v \<le> hi \<Longrightarrow> max 2 (v + 4) \<le> int f \<Longrightarrow> \<exists>b'. step_bits f v hi step b = Some b'"
proof (induction f arbitrary: v b rule: less_induct)
  case (less f)
  then obtain g where f: "f = Suc (Suc g)" by (cases f; cases "f - 1") auto
  show ?case
  proof (cases "v \<le> j")
    case True
    then have w: "wrap64 (v + step) = v + step" using less.prems assms by (intro wrap64_id) (simp add: is_int64_def MinInt64_def MaxInt64_def)
    moreover have "\<not> v + step \<le> hi" using less.prems assms by (simp add: MaxInt64_def)
    ultimately show ?thesis by (simp add: f)
  next
    case False
    have "v + step + 2 ^ 63 = 2 ^ 64 * 1 + (v - j - 1)" by (simp add: assms(4) MaxInt64_def)
    from int_mod_pos_eq [OF this] have w1: "wrap64 (v + step) = v - j - 1 - 2 ^ 63"
      using False less.prems assms by (simp add: wrap64_def)
    have w2: "wrap64 (v - j - 1 - 2 ^ 63 + step) = v - 2 - 2 * j"
      using less.prems assms False by (subst wrap64_id) (simp_all add: is_int64_def MinInt64_def MaxInt64_def)
    have "\<exists>b'. step_bits g (v - 2 - 2 * j) hi step ((b OR shl1 v) OR shl1 (v - j - 1 - 2 ^ 63)) = Some b'"
      using less.prems assms False by (intro less.IH) (auto simp: f)
    moreover have "v - j - 1 - 2 ^ 63 \<le> hi" using less.prems assms by simp
    ultimately show ?thesis using less.prems by (simp add: f w1 w2 del: power_numeral)
  qed
qed

lemma step_bits_total:
  assumes "0 \<le> lo" "lo \<le> hi" "hi < 64" "0 < step" "step \<le> MaxInt64"
  shows "\<exists>b. step_bits step_fuel lo hi step 0 = Some b"
proof (cases "hi + step \<le> MaxInt64")
  case True
  then show ?thesis using step_bits_steps [of lo hi step step_fuel 0] assms by (auto simp: step_fuel_def)
next
  case False
  then show ?thesis using step_bits_wraps [of hi "MaxInt64 - step" step lo step_fuel 0] assms by (simp add: step_fuel_def)
qed

text \<open>The bits of one part of a field: a part whose range lies within the field is accepted, whatever its step, and sets
  the values from the start of the range to its end in steps; only where the step is so large that the
  counter wraps can other values be set.\<close>

theorem parseCronPart_bits:
  assumes "part_step part = Inr (step, p)" and "part_range p mn mx names step = Inr (lo, hi)"
    and "0 \<le> mn" and "mx < 64" and "mn \<le> lo" and "lo \<le> hi" and "hi \<le> mx"
  shows "\<exists>b. parseCronPart part mn mx names = Inr b \<and>
    (hi + step \<le> MaxInt64 \<longrightarrow> (\<forall>x. has_bit b x \<longleftrightarrow> lo \<le> x \<and> x \<le> hi \<and> step dvd x - lo))"
proof -
  have step: "0 < step" "step \<le> MaxInt64"
    using assms(1) by (auto simp: part_step_def Atoi_def is_int64_def MaxInt64_def split: if_splits option.splits)
  obtain b where b: "step_bits step_fuel lo hi step 0 = Some b" using step_bits_total [of lo hi step] assms step by auto
  have "has_bit b x \<longleftrightarrow> lo \<le> x \<and> x \<le> hi \<and> step dvd x - lo" if "hi + step \<le> MaxInt64" for x
    using step_bits_steps [of lo hi step step_fuel 0] that assms step b by (auto simp: step_fuel_def has_bit_def)
  then show ?thesis using assms b by (simp add: parseCronPart_def)
qed

theorem parseCronPart_bits_witness:
  "\<exists>b. parseCronPart ''10-30/5'' 0 59 [] = Inr b \<and> has_bit b 15 \<and> \<not> has_bit b 16"
proof -
  have "part_step ''10-30/5'' = Inr (5, ''10-30'')" "part_range ''10-30'' 0 59 [] 5 = Inr (10, 30)" by code_simp+
  from parseCronPart_bits [OF this] show ?thesis by (auto simp: MaxInt64_def)
qed

text \<open>With the largest step the counter wraps back into the range: this part of the seconds field sets second 57 as well.\<close>

lemma parseCronPart_wraps: "\<exists>b. parseCronPart ''59/9223372036854775807'' 0 59 [] = Inr b \<and> has_bit b 57"
proof -
  have "part_step ''59/9223372036854775807'' = Inr (MaxInt64, ''59'')" "part_range ''59'' 0 59 [] MaxInt64 = Inr (59, 59)" by code_simp+
  moreover have "step_bits step_fuel 59 59 MaxInt64 0 = Some 768614336404564650 \<and> has_bit 768614336404564650 57" by code_simp
  ultimately show ?thesis by (simp add: parseCronPart_def)
qed

end
