(* ===== verification/Timer.thy ===== *)
theory Timer
  imports Cron Feel_Value
begin

text \<open>
  BPMN timers (\<open>internal/timer/timer.go\<close>): ISO 8601 durations, dates and cycles, and when they fire.

  The library is an argument: time layouts, zones and the search for an element in the XML of a
  definition (\<open>timelib\<close>), upper case and float64 conversion (\<^typ>\<open>golib\<close>). The integers of a duration are 64-bit:
  \<open>atoi\<close> drops the error of \<open>strconv.Atoi\<close>, which saturates, and the products wrap.
\<close>

subsection \<open>Durations\<close>

record Duration =
  Years :: int
  Months :: int
  Days :: int
  Time :: int

definition atoi :: "string \<Rightarrow> int" where
  "atoi x = (case signed_value x of Some n \<Rightarrow> max MinInt64 (min MaxInt64 n) | None \<Rightarrow> 0)"

text \<open>The groups of the pattern, from the left: digits and their unit, if they come next.\<close>

definition unit_group :: "char \<Rightarrow> string \<Rightarrow> string \<times> string" where
  "unit_group u s =
     (let ds = takeWhile dec_digit s; rest = dropWhile dec_digit s in
      case rest of c # cs \<Rightarrow> if c = u \<and> ds \<noteq> [] then (ds, cs) else ([], s) | [] \<Rightarrow> ([], s))"

text \<open>The seconds may have a fraction, after a point or a comma; an incomplete one matches nothing.\<close>

definition seconds_group :: "string \<Rightarrow> string \<times> string" where
  "seconds_group s =
     (let ds = takeWhile dec_digit s; rest = dropWhile dec_digit s in
      if ds = [] then ([], s)
      else case rest of
        c # cs \<Rightarrow>
          if c = CHR ''S'' then (ds, cs)
          else if c = CHR ''.'' \<or> c = CHR '','' then
            (let fs = takeWhile dec_digit cs in
             case dropWhile dec_digit cs of
               e # es \<Rightarrow> if e = CHR ''S'' \<and> fs \<noteq> [] then (ds @ [c] @ fs, es) else ([], s)
             | [] \<Rightarrow> ([], s))
          else ([], s)
      | [] \<Rightarrow> ([], s))"

record duration_match =
  m_neg :: bool
  m_Y :: string
  m_Mo :: string
  m_W :: string
  m_D :: string
  m_H :: string
  m_Mi :: string
  m_S :: string

definition durationRe :: "string \<Rightarrow> duration_match option" where
  "durationRe s0 =
     (let neg = has_prefix s0 ''-''; s1 = (if neg then drop 1 s0 else s0) in
      if \<not> has_prefix s1 ''P'' then None
      else
        (let (y, s2) = unit_group CHR ''Y'' (drop 1 s1); (mo, s3) = unit_group CHR ''M'' s2;
             (w, s4) = unit_group CHR ''W'' s3; (d, s5) = unit_group CHR ''D'' s4 in
         if s5 = [] then Some \<lparr>m_neg = neg, m_Y = y, m_Mo = mo, m_W = w, m_D = d, m_H = [], m_Mi = [], m_S = []\<rparr>
         else if has_prefix s5 ''T'' then
           (let (h, s6) = unit_group CHR ''H'' (drop 1 s5); (mi, s7) = unit_group CHR ''M'' s6; (sec, s8) = seconds_group s7 in
            if s8 = [] then Some \<lparr>m_neg = neg, m_Y = y, m_Mo = mo, m_W = w, m_D = d, m_H = h, m_Mi = mi, m_S = sec\<rparr> else None)
         else None))"

fun replace_first :: "char \<Rightarrow> char \<Rightarrow> string \<Rightarrow> string" where
  "replace_first a b [] = []"
| "replace_first a b (c # cs) = (if c = a then b # cs else c # replace_first a b cs)"

definition seconds_ns :: "golib \<Rightarrow> string \<Rightarrow> int" where
  "seconds_ns go m =
     float_int64 go (math_Round go (float_mul go
       (case ParseFloat go (replace_first CHR '','' CHR ''.'' m) of Some f \<Rightarrow> f | None \<Rightarrow> Fin 0) (Fin 1000000000)))"

definition ParseDuration :: "golib \<Rightarrow> string \<Rightarrow> Duration option" where
  "ParseDuration go s0 =
     (let s = ToUpper go (trim_space s0) in
      case durationRe s of
        None \<Rightarrow> None
      | Some m \<Rightarrow>
          if s = ''P'' \<or> has_suffix s ''T'' then None
          else
            (let tm = wrap64 (wrap64 (atoi (m_H m) * 3600000000000) + wrap64 (atoi (m_Mi m) * 60000000000));
                 d = \<lparr>Years = atoi (m_Y m), Months = atoi (m_Mo m), Days = wrap64 (wrap64 (atoi (m_W m) * 7) + atoi (m_D m)),
                      Time = (if m_S m = [] then tm else wrap64 (tm + seconds_ns go (m_S m)))\<rparr> in
             Some (if m_neg m then \<lparr>Years = wrap64 (- Years d), Months = wrap64 (- Months d), Days = wrap64 (- Days d), Time = wrap64 (- Time d)\<rparr>
                   else d)))"

definition AddTo :: "Duration \<Rightarrow> gotime \<Rightarrow> gotime" where
  "AddTo d t = time_Add (AddDate t (Years d) (Months d) (Days d)) (Time d)"

definition zero_duration :: Duration where
  "zero_duration = \<lparr>Years = 0, Months = 0, Days = 0, Time = 0\<rparr>"

definition IsZero_duration :: "Duration \<Rightarrow> bool" where
  "IsZero_duration d \<longleftrightarrow> d = zero_duration"

subsection \<open>Dates\<close>

record timelib =
  LoadLocation :: "string \<Rightarrow> bool"
  ParseInLocation :: "string \<Rightarrow> string \<Rightarrow> string option \<Rightarrow> gotime option"
  Local_offset :: int
  xml_element :: "string \<Rightarrow> string \<Rightarrow> string option"

definition zone_char :: "char \<Rightarrow> bool" where
  "zone_char c \<longleftrightarrow> (let n = (of_char c :: nat) in 65 \<le> n \<and> n \<le> 90 \<or> 97 \<le> n \<and> n \<le> 122 \<or> c = CHR ''_'')"

definition zone_name :: "string \<Rightarrow> bool" where
  "zone_name s =
     (case split_on CHR ''/'' s of
        [] \<Rightarrow> False
      | p # ps \<Rightarrow> p \<noteq> [] \<and> list_all zone_char p \<and>
          list_all (\<lambda>q. q \<noteq> [] \<and> list_all (\<lambda>c. zone_char c \<or> dec_digit c \<or> c = CHR ''+'' \<or> c = CHR ''-'') q) ps)"

text \<open>The zone at the end of a date, after \<open>@\<close> or in brackets: the text before it and its name. The text is the
  shortest one; a dot of the pattern matches no newline.\<close>

fun zone_from :: "string \<Rightarrow> string \<Rightarrow> (string \<times> string) option" where
  "zone_from pre [] = None"
| "zone_from pre (c # cs) =
     (if c = CHR ''@'' \<and> zone_name cs then Some (pre, cs)
      else if c = CHR ''['' \<and> cs \<noteq> [] \<and> last cs = CHR '']'' \<and> zone_name (butlast cs) then Some (pre, butlast cs)
      else if c = char_of (10 :: nat) then None
      else zone_from (pre @ [c]) cs)"

fun first_some :: "('a \<Rightarrow> 'b option) \<Rightarrow> 'a list \<Rightarrow> 'b option" where
  "first_some f [] = None"
| "first_some f (x # xs) = (case f x of Some y \<Rightarrow> Some y | None \<Rightarrow> first_some f xs)"

definition parse_layouts :: "golib \<Rightarrow> timelib \<Rightarrow> string \<Rightarrow> string option \<Rightarrow> gotime option" where
  "parse_layouts go lib s zone =
     (case first_some (\<lambda>l. time_Parse go l s) [''2006-01-02T15:04:05.999999999Z07:00'', ''2006-01-02T15:04Z07:00''] of
        Some t \<Rightarrow> Some t
      | None \<Rightarrow> first_some (\<lambda>l. ParseInLocation lib l s zone) [''2006-01-02T15:04:05.999999999'', ''2006-01-02T15:04'', ''2006-01-02''])"

definition ParseDate :: "golib \<Rightarrow> timelib \<Rightarrow> string \<Rightarrow> gotime option" where
  "ParseDate go lib s0 =
     (let s = trim_space s0 in
      case zone_from [] s of
        Some (pre, name) \<Rightarrow> if LoadLocation lib name then parse_layouts go lib pre (Some name) else None
      | None \<Rightarrow> parse_layouts go lib s None)"

subsection \<open>Timers\<close>

definition KindDuration :: string where "KindDuration = ''duration''"
definition KindDate :: string where "KindDate = ''date''"
definition KindCycle :: string where "KindCycle = ''cycle''"

definition zero_time :: gotime where "zero_time = \<lparr>instant = 0, zone_offset = 0\<rparr>"

definition IsZero :: "gotime \<Rightarrow> bool" where "IsZero t \<longleftrightarrow> instant t = 0"

record Timer =
  Kind :: string
  tRaw :: string
  duration :: Duration
  date :: gotime
  end_date :: gotime
  Repetitions :: int
  cron :: "Cron option"

definition new_timer :: "string \<Rightarrow> string \<Rightarrow> Timer" where
  "new_timer kind v = \<lparr>Kind = kind, tRaw = v, duration = zero_duration, date = zero_time, end_date = zero_time, Repetitions = 1, cron = None\<rparr>"

text \<open>\<open>time.Unix(0, 0)\<close>, a local time.\<close>

definition unix_epoch :: "int \<Rightarrow> gotime" where
  "unix_epoch off = \<lparr>instant = 62135596800000000000, zone_offset = off\<rparr>"

definition repetitions :: "golib \<Rightarrow> string \<Rightarrow> int option" where
  "repetitions go part =
     (let n = trim_prefix (ToUpper go part) ''R'' in
      if n = [] then Some (- 1) else case Atoi n of Some r \<Rightarrow> if r < 0 then None else Some r | None \<Rightarrow> None)"

text \<open>The parts of a cycle after the repetitions: an interval, an interval and its end, or a start and an interval.\<close>

definition cycle_parts :: "golib \<Rightarrow> timelib \<Rightarrow> string list \<Rightarrow> Timer \<Rightarrow> Timer option" where
  "cycle_parts go lib ps t =
     (case ps of
        [p1] \<Rightarrow> map_option (\<lambda>d. t\<lparr>duration := d\<rparr>) (ParseDuration go p1)
      | [p1, p2] \<Rightarrow>
          if has_prefix (ToUpper go p1) ''P'' then
            Option.bind (ParseDuration go p1) (\<lambda>d. map_option (\<lambda>e. t\<lparr>duration := d, end_date := e\<rparr>) (ParseDate go lib p2))
          else
            Option.bind (ParseDate go lib p1) (\<lambda>st. map_option (\<lambda>d. t\<lparr>date := st, duration := d\<rparr>) (ParseDuration go p2))
      | _ \<Rightarrow> None)"

definition positive_interval :: "int \<Rightarrow> Duration \<Rightarrow> bool" where
  "positive_interval off d \<longleftrightarrow> time_Sub (AddTo d (unix_epoch off)) (unix_epoch off) > 0"

definition Parse :: "golib \<Rightarrow> timelib \<Rightarrow> string \<Rightarrow> string \<Rightarrow> Timer option" where
  "Parse go lib kind value0 =
     (let v = trim_space value0; t = new_timer kind v in
      if kind = KindDuration then map_option (\<lambda>d. t\<lparr>duration := d\<rparr>) (ParseDuration go v)
      else if kind = KindDate then map_option (\<lambda>d. t\<lparr>date := d\<rparr>) (ParseDate go lib v)
      else if kind = KindCycle then
        if \<not> has_prefix (ToUpper go v) ''R'' \<or> CHR ''/'' \<notin> set v then
          (case ParseCron (ToUpper go) (ToLower go) (Local_offset lib) v of
             Inl _ \<Rightarrow> None
           | Inr c \<Rightarrow> Some (t\<lparr>cron := Some c, Repetitions := - 1\<rparr>))
        else
          (case split_on CHR ''/'' v of
             r # ps \<Rightarrow>
               if length ps < 1 \<or> length ps > 2 then None
               else
                 Option.bind (repetitions go r) (\<lambda>n.
                 Option.bind (cycle_parts go lib ps (t\<lparr>Repetitions := n\<rparr>)) (\<lambda>t'.
                   if positive_interval (Local_offset lib) (duration t') then Some t' else None))
           | [] \<Rightarrow> None)
      else None)"

fun xmlUnescape :: "string \<Rightarrow> string" where
  "xmlUnescape [] = []"
| "xmlUnescape (c # cs) =
     (if has_prefix (c # cs) ''&lt;'' then CHR ''<'' # xmlUnescape (drop 3 cs)
      else if has_prefix (c # cs) ''&gt;'' then CHR ''>'' # xmlUnescape (drop 3 cs)
      else if has_prefix (c # cs) ''&quot;'' then char_of (34 :: nat) # xmlUnescape (drop 5 cs)
      else if has_prefix (c # cs) ''&apos;'' then char_of (39 :: nat) # xmlUnescape (drop 5 cs)
      else if has_prefix (c # cs) ''&amp;'' then CHR ''&'' # xmlUnescape (drop 4 cs)
      else c # xmlUnescape cs)"

text \<open>\<open>eval\<close> evaluates the FEEL expression of a value that starts with an equals sign.\<close>

definition timer_kinds :: "(string \<times> string) list" where
  "timer_kinds = [(''timeDuration'', KindDuration), (''timeDate'', KindDate), (''timeCycle'', KindCycle)]"

definition ParseXML :: "golib \<Rightarrow> timelib \<Rightarrow> string \<Rightarrow> (string \<Rightarrow> string option) option \<Rightarrow> Timer option" where
  "ParseXML go lib raw eval =
     (case first_some (\<lambda>(tag, kind). map_option (Pair kind) (xml_element lib tag raw)) timer_kinds of
        None \<Rightarrow> None
      | Some (kind, text) \<Rightarrow>
          (let v = trim_space (xmlUnescape text) in
           if has_prefix v ''='' then
             (case eval of
                None \<Rightarrow> None
              | Some f \<Rightarrow> Option.bind (f (trim_prefix v ''='')) (Parse go lib kind))
           else Parse go lib kind v))"

subsection \<open>When a timer fires\<close>

definition past_end :: "Timer \<Rightarrow> gotime \<Rightarrow> bool" where
  "past_end t due \<longleftrightarrow> \<not> IsZero (end_date t) \<and> instant (end_date t) < instant due"

definition Timer_First :: "Timer \<Rightarrow> gotime \<Rightarrow> gotime option" where
  "Timer_First t now =
     (if Kind t = KindDuration then Some (AddTo (duration t) now)
      else if Kind t = KindDate then Some (date t)
      else if Repetitions t = 0 then None
      else case cron t of
        Some c \<Rightarrow> Cron_Next c now
      | None \<Rightarrow>
          (let due = (if \<not> IsZero (date t) then date t else AddTo (duration t) now) in
           if past_end t due then None else Some due))"

definition Timer_Next :: "Timer \<Rightarrow> gotime \<Rightarrow> int \<Rightarrow> gotime option" where
  "Timer_Next t prev fired =
     (if Kind t \<noteq> KindCycle \<or> 0 \<le> Repetitions t \<and> Repetitions t \<le> fired then None
      else case cron t of
        Some c \<Rightarrow> Cron_Next c prev
      | None \<Rightarrow> (let due = AddTo (duration t) prev in if past_end t due then None else Some due))"

definition IsCycle :: "Timer \<Rightarrow> bool" where
  "IsCycle t \<longleftrightarrow> Kind t = KindCycle"

text \<open>The firings of a cycle in the order the engine asks for them, \<open>k\<close> at most: the first one from now, each
  next one from the one before and the number of firings so far.\<close>

fun fire_from :: "nat \<Rightarrow> Timer \<Rightarrow> gotime \<Rightarrow> int \<Rightarrow> gotime list" where
  "fire_from 0 t due fired = []"
| "fire_from (Suc k) t due fired =
     due # (case Timer_Next t due fired of None \<Rightarrow> [] | Some due' \<Rightarrow> fire_from k t due' (fired + 1))"

definition due_times :: "nat \<Rightarrow> Timer \<Rightarrow> gotime \<Rightarrow> gotime list" where
  "due_times k t now = (case Timer_First t now of None \<Rightarrow> [] | Some due \<Rightarrow> fire_from k t due 1)"

text \<open>An interval that goes forward: no part is negative and one is positive.\<close>

definition forward :: "Duration \<Rightarrow> bool" where
  "forward d \<longleftrightarrow> 0 \<le> Years d \<and> 0 \<le> Months d \<and> 0 \<le> Days d \<and> 0 \<le> Time d \<and> d \<noteq> zero_duration"

text \<open>The first day of a month, by the number of months since the start of year 0.\<close>

definition month_day :: "int \<Rightarrow> int" where
  "month_day i = day_number (i div 12) (i mod 12 + 1) 1"

lemma carry_12: "x = a + b * 12 \<Longrightarrow> x div 12 = b + a div 12" "x = a + b * 12 \<Longrightarrow> x mod 12 = a mod 12" for x a b :: int
  by (simp_all only: div_mult_self1_is_m mod_mult_self1 div_mult_self1 zero_neq_numeral not_False_eq_True)

lemma month_day_Suc: "month_day i < month_day (i + 1)"
proof -
  let ?m = "i mod 12 + 1" and ?y = "i div 12"
  have m: "1 \<le> ?m" "?m \<le> 12" by (simp, presburger)
  have d: "0 < days_in_month ?y ?m" by (simp add: days_in_month_def)
  have "i + 1 = ?m + ?y * 12" using div_mult_mod_eq [of i 12] by simp
  note i = carry_12 [OF this]
  have "month_day (i + 1) = day_number (?y + ?m div 12) (?m mod 12 + 1) 0 + 1"
    unfolding month_day_def i by (simp add: day_number_def)
  also have "\<dots> = day_number ?y ?m (days_in_month ?y ?m) + 1"
    by (simp only: day_before_next_month [OF m])
  also have "\<dots> = month_day i + days_in_month ?y ?m"
    unfolding month_day_def day_number_def by simp
  finally show ?thesis using d by simp
qed

lemma month_day_less: "i < j \<Longrightarrow> month_day i < month_day j"
proof (induction j rule: int_gr_induct)
  case base
  show ?case by (rule month_day_Suc)
next
  case (step j)
  then show ?case using month_day_Suc [of j] by simp
qed

lemma AddDate_local:
  assumes "time_date t = (y, m, d)"
  shows "instant (AddDate t dy dm dd) - instant t =
    (month_day (12 * y + m - 1 + 12 * dy + dm) - month_day (12 * y + m - 1) + dd) * ns_per_day"
proof -
  let ?i = "12 * y + m - 1 + 12 * dy + dm"
  have "?i = (m + dm - 1) + (y + dy) * 12" by simp
  note i = carry_12 [OF this]
  have t: "local_ns t div ns_per_day = day_number y m d" "valid_date y m d" using time_date_number [OF assms] by simp_all
  have "12 * y + m - 1 = (m - 1) + y * 12" by simp
  note m' = carry_12 [OF this]
  have m: "(12 * y + m - 1) div 12 = y" "(12 * y + m - 1) mod 12 + 1 = m" using t(2) unfolding m' by (simp_all add: valid_date_def)
  have day: "day_number y m d = month_day (12 * y + m - 1) + d - 1"
    unfolding month_day_def m by (simp add: day_number_def)
  have "instant t = day_number y m d * ns_per_day + time_of_day t - zone_offset t * 1000000000"
    using local_split [of t] t(1) by (simp add: local_ns_def)
  moreover have "instant (AddDate t dy dm dd) =
      (month_day ?i + (d + dd) - 1) * ns_per_day + time_of_day t - zone_offset t * 1000000000"
    using time_of_day_parts [of t] by (simp add: AddDate_def assms time_Date_def Let_def month_day_def i)
  ultimately show ?thesis unfolding day by (simp add: algebra_simps)
qed

lemma AddTo_later:
  assumes "forward d"
  shows "instant t < instant (AddTo d t)"
proof -
  obtain y m dd where t: "time_date t = (y, m, dd)" using prod_cases3 by blast
  let ?i = "12 * y + m - 1" and ?k = "12 * Years d + Months d"
  have nn: "0 \<le> Years d" "0 \<le> Months d" "0 \<le> Days d" "0 \<le> Time d" using assms by (simp_all add: forward_def)
  define x where "x = month_day (?i + ?k) - month_day ?i + Days d"
  have eq: "instant (AddTo d t) = instant t + x * ns_per_day + Time d"
    using AddDate_local [OF t, of "Years d" "Months d" "Days d"] by (simp add: AddTo_def time_Add_def x_def add.assoc)
  have "0 \<le> x" "0 < x \<or> 0 < Time d"
  proof -
    have "\<not> (Years d = 0 \<and> Months d = 0 \<and> Days d = 0 \<and> Time d = 0)"
      using assms by (auto simp: forward_def zero_duration_def intro: Duration.equality)
    then consider "0 < ?k" | "?k = 0" "0 < Days d \<or> 0 < Time d" using nn by linarith
    then show "0 \<le> x" "0 < x \<or> 0 < Time d"
      using month_day_less [of ?i "?i + ?k"] nn by (cases; simp add: x_def)+
  qed
  then show ?thesis unfolding eq using nn(4) by (auto simp: ns_per_day_def)
qed

lemma Timer_Next_interval:
  assumes "Kind t = KindCycle" "cron t = None" "IsZero (end_date t)"
  shows "Timer_Next t prev fired = (if 0 \<le> Repetitions t \<and> Repetitions t \<le> fired then None else Some (AddTo (duration t) prev))"
  using assms by (simp add: Timer_Next_def past_end_def)

lemma fire_from_increasing:
  assumes t: "Kind t = KindCycle" "cron t = None" "IsZero (end_date t)" and f: "forward (duration t)"
    and r: "Repetitions t < 0 \<or> fired \<le> Repetitions t" "0 < fired"
  shows "length (fire_from k t due fired) = (if Repetitions t < 0 then k else min k (nat (Repetitions t - fired + 1))) \<and>
    sorted_wrt (<) (map instant (fire_from k t due fired)) \<and> (\<forall>x \<in> set (fire_from k t due fired). instant due \<le> instant x)"
  using r
proof (induction k arbitrary: due fired)
  case 0
  then show ?case by simp
next
  case (Suc k)
  show ?case
  proof (cases "0 \<le> Repetitions t \<and> Repetitions t \<le> fired")
    case True
    then have "Repetitions t = fired" using Suc.prems by simp
    then show ?thesis using True Suc.prems by (simp add: Timer_Next_interval [OF t])
  next
    case False
    define due' where "due' = AddTo (duration t) due"
    have later: "instant due < instant due'" unfolding due'_def by (rule AddTo_later [OF f])
    have eq: "fire_from (Suc k) t due fired = due # fire_from k t due' (fired + 1)"
      using False by (auto simp: Timer_Next_interval [OF t] due'_def)
    have "Repetitions t < 0 \<or> fired + 1 \<le> Repetitions t" "0 < fired + 1" using False Suc.prems by auto
    note IH = Suc.IH [OF this, of due']
    have n: "nat (Repetitions t - fired + 1) = Suc (nat (Repetitions t - (fired + 1) + 1))" if "0 \<le> Repetitions t"
      using that False by simp
    show ?thesis
    proof (intro conjI)
      show "length (fire_from (Suc k) t due fired) = (if Repetitions t < 0 then Suc k else min (Suc k) (nat (Repetitions t - fired + 1)))"
        unfolding eq using IH n by simp
      show "sorted_wrt (<) (map instant (fire_from (Suc k) t due fired))" unfolding eq using IH later by fastforce
      show "\<forall>x \<in> set (fire_from (Suc k) t due fired). instant due \<le> instant x" unfolding eq using IH later by fastforce
    qed
  qed
qed

lemma due_times_first:
  assumes "Kind t = KindCycle" "cron t = None" "IsZero (end_date t)"
  shows "due_times k t now = (if Repetitions t = 0 then []
    else fire_from k t (if IsZero (date t) then AddTo (duration t) now else date t) 1)"
  using assms by (simp add: due_times_def Timer_First_def past_end_def KindCycle_def KindDuration_def KindDate_def)

text \<open>A cycle without cron expression and end, whose interval goes forward, fires exactly as often as its
  repetitions say (forever without a count), at strictly increasing instants; without a start of its own, all of
  them after it was armed.
\<close>

theorem timer_cycle_fires:
  assumes "Kind t = KindCycle" "cron t = None" "IsZero (end_date t)" "forward (duration t)" "- 1 \<le> Repetitions t"
  shows "length (due_times k t now) = (if Repetitions t = - 1 then k else min k (nat (Repetitions t))) \<and>
    sorted_wrt (<) (map instant (due_times k t now)) \<and>
    (\<forall>x \<in> set (due_times k t now). IsZero (date t) \<longrightarrow> instant now < instant x)"
proof (cases "Repetitions t = 0")
  case True
  then show ?thesis by (simp add: due_times_first [OF assms(1-3)])
next
  case False
  let ?due = "if IsZero (date t) then AddTo (duration t) now else date t"
  have "Repetitions t < 0 \<longleftrightarrow> Repetitions t = - 1" using assms(5) by auto
  moreover have "Repetitions t < 0 \<or> 1 \<le> Repetitions t" using False by auto
  note fire_from_increasing [OF assms(1-4) this zero_less_one, of k ?due]
  ultimately show ?thesis
    using False AddTo_later [OF assms(4), of now] by (auto simp: due_times_first [OF assms(1-3)] intro: less_le_trans)
qed

text \<open>Three times, a day apart, as parsed from its text.\<close>

definition plain_time :: timelib where
  "plain_time = \<lparr>LoadLocation = (\<lambda>_. False), ParseInLocation = (\<lambda>_ _ _. None), Local_offset = 0, xml_element = (\<lambda>_ _. None)\<rparr>"

definition daily :: Timer where
  "daily = (new_timer KindCycle ''R3/P1D'')\<lparr>duration := \<lparr>Years = 0, Months = 0, Days = 1, Time = 0\<rparr>, Repetitions := 3\<rparr>"

theorem timer_cycle_fires_witness:
  "Parse plain_go plain_time KindCycle '' R3/P1D'' = Some daily \<and> length (due_times 10 daily (unix_epoch 0)) = 3"
proof
  show "Parse plain_go plain_time KindCycle '' R3/P1D'' = Some daily" by code_simp
  have "forward (duration daily)" "Kind daily = KindCycle" "cron daily = None" "IsZero (end_date daily)" "- 1 \<le> Repetitions daily"
    by code_simp+
  then show "length (due_times 10 daily (unix_epoch 0)) = 3"
    using timer_cycle_fires [of daily 10 "unix_epoch 0"] by (simp add: daily_def)
qed

end
