(* ===== verification/Bpmn_Parser.thy ===== *)
theory Bpmn_Parser
  imports Graph
begin

text \<open>
  The parsed BPMN file (\<open>internal/parser/parser.go\<close>) and the pass that completes it after XML decoding: timers are made explicit,
  references to messages, signals, errors and escalations are replaced by their names and codes, boundary events are sorted by kind.

  \<open>xml.Unmarshal\<close> is library code and a parameter of \<open>ParseBPMN\<close>. A pointer to an event definition is an option of
  what it holds: its reference, its condition, its name. Attributes that the engine never reads are left out. A sub-process embeds the
  elements of a process, so both have a \<open>ProcessBody\<close>; the pass goes through every body (\<open>Scopes\<close>, \<open>allScopes\<close>).
\<close>

subsection \<open>Elements\<close>

record TimerEventDefinition =
  ted_TimeDuration :: "string option"
  ted_TimeDate :: "string option"
  ted_TimeCycle :: "string option"

record TimerDefinition =
  RawXML :: string
  td_TimeDuration :: string
  td_TimeDate :: string
  td_TimeCycle :: string

record ZeebeIOEntry =
  zio_Source :: string
  zio_Target :: string

record ZeebeIoMapping =
  Inputs :: "ZeebeIOEntry list"
  Outputs :: "ZeebeIOEntry list"

record ZeebeAssignmentDefinition =
  zad_Assignee :: string
  zad_CandidateGroups :: string

record ZeebeFormDefinition =
  zfd_FormId :: string
  zfd_FormKey :: string

record ZeebeCalledDecision =
  zcd_DecisionId :: string
  zcd_ResultVariable :: string

record ZeebeScript =
  zs_Expression :: string
  zs_ResultVariable :: string

text \<open>\<open>ZeebeTaskDefinition\<close> is the type of the job, \<open>ZeebeTaskHeaders\<close> the keys and values.\<close>

record ExtensionElements =
  ZeebeTaskDefinition :: "string option"
  ZeebeAssignment :: "ZeebeAssignmentDefinition option"
  ZeebeForm :: "ZeebeFormDefinition option"
  ZeebeTaskHeaders :: "(string \<times> string) list option"
  ZeebeIo :: "ZeebeIoMapping option"
  ZeebeCalled :: "ZeebeCalledDecision option"
  ZeebePriority :: "string option"
  ZeebeScripted :: "ZeebeScript option"

record Task =
  tk_ID :: string
  tk_Name :: string
  tk_Incoming :: "string list"
  tk_Outgoing :: "string list"

record UserTask =
  ut_ID :: string
  ut_Name :: string
  ut_Incoming :: "string list"
  ut_Outgoing :: "string list"
  CamundaAssignee :: string
  CamundaCandidateGroups :: string
  CamundaFormKey :: string
  ut_Ext :: "ExtensionElements option"

record ServiceTask =
  st_ID :: string
  st_Name :: string
  st_Incoming :: "string list"
  st_Outgoing :: "string list"
  st_Ext :: "ExtensionElements option"
  st_CamundaTopic :: string

record BusinessRuleTask =
  br_ID :: string
  br_Name :: string
  br_Ext :: "ExtensionElements option"

record ScriptTask =
  sc_ID :: string
  sc_Name :: string
  sc_ScriptFormat :: string
  sc_Script :: string
  sc_Ext :: "ExtensionElements option"
  CamundaResultVariable :: string

record StartEvent =
  se_ID :: string
  se_TimerEvent :: "TimerEventDefinition option"
  se_Message :: "string option"
  se_Timer :: "TimerDefinition option"
  se_MessageName :: string
  se_MessageCorrelationKey :: string
  se_Error :: "string option"
  se_Signal :: "string option"
  se_IsInterrupting :: string
  se_ErrorCode :: string
  se_SignalName :: string
  se_Escalation :: "string option"
  se_EscalationCode :: string
  se_Conditional :: "string option"

definition start_Interrupting :: "StartEvent \<Rightarrow> bool" where
  "start_Interrupting s \<longleftrightarrow> se_IsInterrupting s \<noteq> ''false''"

record EndEvent =
  ee_ID :: string
  ee_Name :: string
  ee_Terminate :: bool
  ee_Error :: "string option"
  ee_Signal :: "string option"
  ee_ErrorCode :: string
  ee_SignalName :: string
  ee_Escalation :: "string option"
  ee_EscalationCode :: string
  ee_Compensate :: "string option"
  ee_Message :: "string option"
  ee_Ext :: "ExtensionElements option"
  ee_CamundaTopic :: string

text \<open>Exclusive, parallel, inclusive and event-based gateways; only the first and the third have a default flow.\<close>

record Gateway =
  gt_ID :: string
  gt_Name :: string
  gt_Default :: string

record IntermediateCatchEvent =
  ce_ID :: string
  ce_Name :: string
  ce_Message :: "string option"
  ce_Signal :: "string option"
  ce_TimerEvent :: "TimerEventDefinition option"
  ce_Link :: "string option"
  ce_Conditional :: "string option"
  ce_Timer :: "TimerDefinition option"
  ce_MessageName :: string
  ce_MessageCorrelationKey :: string
  ce_SignalName :: string

record BoundaryEvent =
  be_ID :: string
  be_AttachedToRef :: string
  be_CancelActivityAttr :: string
  be_Name :: string
  be_TimerEvent :: "TimerEventDefinition option"
  be_Error :: "string option"
  be_Message :: "string option"
  be_Signal :: "string option"
  be_Timer :: "TimerDefinition option"
  be_Escalation :: "string option"
  be_EscalationCode :: string
  be_Conditional :: "string option"
  be_Compensate :: "string option"
  be_Ext :: "ExtensionElements option"

definition boundary_Interrupting :: "BoundaryEvent \<Rightarrow> bool" where
  "boundary_Interrupting b \<longleftrightarrow> be_CancelActivityAttr b \<noteq> ''false''"

definition boundary_ioMapping :: "BoundaryEvent \<Rightarrow> ZeebeIoMapping option" where
  "boundary_ioMapping b = (case be_Ext b of None \<Rightarrow> None | Some x \<Rightarrow> ZeebeIo x)"

record IntermediateTimerEvent =
  it_ID :: string
  it_Name :: string
  it_Timer :: "TimerDefinition option"

record BoundaryTimerEvent =
  bt_ID :: string
  bt_AttachedToRef :: string
  bt_CancelActivity :: bool
  bt_Timer :: "TimerDefinition option"

record BoundaryErrorEvent =
  bx_ID :: string
  bx_AttachedToRef :: string
  bx_CancelActivity :: bool
  bx_ErrorCode :: string
  bx_IoMapping :: "ZeebeIoMapping option"

record BoundaryMessageEvent =
  bm_ID :: string
  bm_AttachedToRef :: string
  bm_CancelActivity :: bool
  bm_MessageName :: string
  bm_MessageCorrelationKey :: string

record BoundarySignalEvent =
  bs_ID :: string
  bs_AttachedToRef :: string
  bs_CancelActivity :: bool
  bs_SignalName :: string

record ReceiveTask =
  rt_ID :: string
  rt_Name :: string
  rt_MessageRef :: string
  rt_MessageName :: string
  rt_MessageCorrelationKey :: string

record ThrowEvent =
  te_ID :: string
  te_Name :: string
  te_Signal :: "string option"
  te_Message :: "string option"
  te_Link :: "string option"
  te_Ext :: "ExtensionElements option"
  te_CamundaTopic :: string
  te_SignalName :: string
  te_Escalation :: "string option"
  te_EscalationCode :: string
  te_Compensate :: "string option"

record ZeebeCalledElement =
  zce_ProcessID :: string
  zce_PropagateAllChildVariables :: string
  zce_PropagateAllParentVariables :: string

record CamundaInOut =
  cio_Source :: string
  cio_SourceExpression :: string
  cio_Target :: string
  cio_Variables :: string

record CallActivityExtensions =
  cx_CalledElement :: "ZeebeCalledElement option"
  cx_IoMapping :: "ZeebeIoMapping option"
  cx_In :: "CamundaInOut list"
  cx_Out :: "CamundaInOut list"

record CallActivity =
  ca_ID :: string
  ca_Name :: string
  ca_CalledElement :: string
  ca_Ext :: "CallActivityExtensions option"

record SequenceFlow =
  sf_ID :: string
  sf_SourceRef :: string
  sf_TargetRef :: string
  sf_Condition :: string

record Association =
  as_SourceRef :: string
  as_TargetRef :: string

subsection \<open>Processes\<close>

record ProcessBody =
  b_ID :: string
  b_Name :: string
  StartEvents :: "StartEvent list"
  UserTasks :: "UserTask list"
  Tasks :: "Task list"
  ServiceTasks :: "ServiceTask list"
  EndEvents :: "EndEvent list"
  ExclusiveGateways :: "Gateway list"
  ParallelGateways :: "Gateway list"
  InclusiveGateways :: "Gateway list"
  IntermediateCatchEvents :: "IntermediateCatchEvent list"
  SequenceFlows :: "SequenceFlow list"
  ScriptTasks :: "ScriptTask list"
  BusinessRuleTasks :: "BusinessRuleTask list"
  CallActivities :: "CallActivity list"
  EventBasedGateways :: "Gateway list"
  IntermediateTimerEvents :: "IntermediateTimerEvent list"
  BoundaryTimerEvents :: "BoundaryTimerEvent list"
  BoundaryErrorEvents :: "BoundaryErrorEvent list"
  BoundaryMessageEvents :: "BoundaryMessageEvent list"
  BoundarySignalEvents :: "BoundarySignalEvent list"
  BoundaryEvents :: "BoundaryEvent list"
  ManualTasks :: "Task list"
  SendTasks :: "ServiceTask list"
  ReceiveTasks :: "ReceiveTask list"
  IntermediateThrowEvents :: "ThrowEvent list"
  Associations :: "Association list"

datatype SubProcess = SubProcess
  (sp_TriggeredByEvent: bool) (sp_Ext: "ExtensionElements option") (sp_Body: ProcessBody) (sp_SubProcesses: "SubProcess list")

datatype Process = Process (p_Body: ProcessBody) (p_SubProcesses: "SubProcess list")

record MessageDefinition =
  md_ID :: string
  md_Name :: string
  md_Subscription :: "string option"

definition message_CorrelationKey :: "MessageDefinition \<Rightarrow> string" where
  "message_CorrelationKey m = (case md_Subscription m of None \<Rightarrow> [] | Some k \<Rightarrow> k)"

text \<open>The errors, signals and escalations of a file: identifier and code, or identifier and name.\<close>

record Definitions =
  Processes :: "Process list"
  Errors :: "(string \<times> string) list"
  Messages :: "MessageDefinition list"
  Signals :: "(string \<times> string) list"
  Escalations :: "(string \<times> string) list"

text \<open>The bodies of a process and of the sub-processes in it, depth first.\<close>

fun sub_scopes :: "SubProcess list \<Rightarrow> ProcessBody list" where
  "sub_scopes [] = []"
| "sub_scopes (SubProcess ev ext b sps # rest) = b # sub_scopes sps @ sub_scopes rest"

definition Scopes :: "Process \<Rightarrow> ProcessBody list" where
  "Scopes p = p_Body p # sub_scopes (p_SubProcesses p)"

definition allScopes :: "Definitions \<Rightarrow> ProcessBody list" where
  "allScopes defs = concat (map Scopes (Processes defs))"

text \<open>A loop over \<open>allScopes\<close> works on pointers, so it changes every body in place.\<close>

fun on_sub_scopes :: "(ProcessBody \<Rightarrow> ProcessBody) \<Rightarrow> SubProcess list \<Rightarrow> SubProcess list" where
  "on_sub_scopes f [] = []"
| "on_sub_scopes f (SubProcess ev ext b sps # rest) = SubProcess ev ext (f b) (on_sub_scopes f sps) # on_sub_scopes f rest"

definition on_scopes :: "(ProcessBody \<Rightarrow> ProcessBody) \<Rightarrow> Definitions \<Rightarrow> Definitions" where
  "on_scopes f defs =
     defs\<lparr>Processes := map (\<lambda>p. Process (f (p_Body p)) (on_sub_scopes f (p_SubProcesses p))) (Processes defs)\<rparr>"

subsection \<open>Timers\<close>

definition getTimerRawXML :: "TimerEventDefinition option \<Rightarrow> string" where
  "getTimerRawXML d =
     (case d of None \<Rightarrow> [] | Some t \<Rightarrow>
      case ted_TimeDuration t of Some x \<Rightarrow> ''<timeDuration>'' @ x @ ''</timeDuration>'' | None \<Rightarrow>
     (case ted_TimeDate t of Some x \<Rightarrow> ''<timeDate>'' @ x @ ''</timeDate>'' | None \<Rightarrow>
     (case ted_TimeCycle t of Some x \<Rightarrow> ''<timeCycle>'' @ x @ ''</timeCycle>'' | None \<Rightarrow> [])))"

definition getStringValue :: "string option \<Rightarrow> string" where
  "getStringValue s = (case s of None \<Rightarrow> [] | Some x \<Rightarrow> x)"

definition timer_of :: "TimerEventDefinition option \<Rightarrow> TimerDefinition option \<Rightarrow> TimerDefinition option" where
  "timer_of d old =
     (case d of None \<Rightarrow> old
      | Some t \<Rightarrow> Some \<lparr>RawXML = getTimerRawXML d, td_TimeDuration = getStringValue (ted_TimeDuration t),
          td_TimeDate = getStringValue (ted_TimeDate t), td_TimeCycle = getStringValue (ted_TimeCycle t)\<rparr>)"

definition set_timers :: "ProcessBody \<Rightarrow> ProcessBody" where
  "set_timers b = b\<lparr>
     StartEvents := map (\<lambda>e. e\<lparr>se_Timer := timer_of (se_TimerEvent e) (se_Timer e)\<rparr>) (StartEvents b),
     IntermediateCatchEvents := map (\<lambda>e. e\<lparr>ce_Timer := timer_of (ce_TimerEvent e) (ce_Timer e)\<rparr>) (IntermediateCatchEvents b),
     BoundaryEvents := map (\<lambda>e. e\<lparr>be_Timer := timer_of (be_TimerEvent e) (be_Timer e)\<rparr>) (BoundaryEvents b)\<rparr>"

definition has_timer :: "TimerDefinition option \<Rightarrow> bool" where
  "has_timer t \<longleftrightarrow> (case t of None \<Rightarrow> False | Some x \<Rightarrow> RawXML x \<noteq> [])"

definition PopulateTimerEvents :: "ProcessBody \<Rightarrow> ProcessBody" where
  "PopulateTimerEvents b = b\<lparr>
     IntermediateTimerEvents := map (\<lambda>e. \<lparr>it_ID = ce_ID e, it_Name = ce_ID e, it_Timer = ce_Timer e\<rparr>)
       (filter (\<lambda>e. has_timer (ce_Timer e)) (IntermediateCatchEvents b)),
     BoundaryTimerEvents := map (\<lambda>e. \<lparr>bt_ID = be_ID e, bt_AttachedToRef = be_AttachedToRef e,
         bt_CancelActivity = boundary_Interrupting e, bt_Timer = be_Timer e\<rparr>)
       (filter (\<lambda>e. has_timer (be_Timer e)) (BoundaryEvents b))\<rparr>"

subsection \<open>References\<close>

text \<open>A table \<open>map[string]string\<close> filled by a loop: the last entry of a key counts, a missing key reads as the empty string.\<close>

definition by_id :: "(string \<times> string) list \<Rightarrow> string \<Rightarrow> string" where
  "by_id xs k = (case map_of (rev xs) k of None \<Rightarrow> [] | Some v \<Rightarrow> v)"

text \<open>The name behind a reference, or the reference itself.\<close>

definition resolve_ref :: "(string \<times> string) list \<Rightarrow> string \<Rightarrow> string" where
  "resolve_ref names ref = (let name = by_id names ref in if name \<noteq> [] then name else ref)"

definition PopulateErrorBoundaryEvents :: "(string \<times> string) list \<Rightarrow> ProcessBody \<Rightarrow> ProcessBody" where
  "PopulateErrorBoundaryEvents codes b = b\<lparr>
     BoundaryErrorEvents := map (\<lambda>e. \<lparr>bx_ID = be_ID e, bx_AttachedToRef = be_AttachedToRef e, bx_CancelActivity = boundary_Interrupting e,
         bx_ErrorCode = (case be_Error e of None \<Rightarrow> [] | Some ref \<Rightarrow> if ref \<noteq> [] then by_id codes ref else []),
         bx_IoMapping = boundary_ioMapping e\<rparr>)
       (filter (\<lambda>e. be_Error e \<noteq> None) (BoundaryEvents b))\<rparr>"

definition msg_names :: "MessageDefinition list \<Rightarrow> (string \<times> string) list" where
  "msg_names ms = map (\<lambda>m. (md_ID m, md_Name m)) ms"

definition msg_keys :: "MessageDefinition list \<Rightarrow> (string \<times> string) list" where
  "msg_keys ms = map (\<lambda>m. (md_ID m, message_CorrelationKey m)) ms"

definition PopulateMessageEvents :: "MessageDefinition list \<Rightarrow> ProcessBody \<Rightarrow> ProcessBody" where
  "PopulateMessageEvents ms b = b\<lparr>
     IntermediateCatchEvents := map (\<lambda>e. case ce_Message e of
         None \<Rightarrow> e
       | Some ref \<Rightarrow> if ref = [] then e
           else e\<lparr>ce_MessageName := resolve_ref (msg_names ms) ref, ce_MessageCorrelationKey := by_id (msg_keys ms) ref\<rparr>)
       (IntermediateCatchEvents b),
     StartEvents := map (\<lambda>e. case se_Message e of
         None \<Rightarrow> e
       | Some ref \<Rightarrow> if ref = [] then e
           else e\<lparr>se_MessageName := resolve_ref (msg_names ms) ref, se_MessageCorrelationKey := by_id (msg_keys ms) ref\<rparr>)
       (StartEvents b),
     BoundaryMessageEvents := map (\<lambda>e. let ref = getStringValue (be_Message e) in
         \<lparr>bm_ID = be_ID e, bm_AttachedToRef = be_AttachedToRef e, bm_CancelActivity = boundary_Interrupting e,
          bm_MessageName = (if ref \<noteq> [] then resolve_ref (msg_names ms) ref else []), bm_MessageCorrelationKey = by_id (msg_keys ms) ref\<rparr>)
       (filter (\<lambda>e. be_Message e \<noteq> None) (BoundaryEvents b))\<rparr>"

definition PopulateSignalEvents :: "(string \<times> string) list \<Rightarrow> ProcessBody \<Rightarrow> ProcessBody" where
  "PopulateSignalEvents names b = b\<lparr>
     IntermediateCatchEvents := map (\<lambda>e. case ce_Signal e of
         None \<Rightarrow> e
       | Some ref \<Rightarrow> if ref = [] then e else e\<lparr>ce_SignalName := resolve_ref names ref\<rparr>)
       (IntermediateCatchEvents b),
     BoundarySignalEvents := map (\<lambda>e. let ref = getStringValue (be_Signal e) in
         \<lparr>bs_ID = be_ID e, bs_AttachedToRef = be_AttachedToRef e, bs_CancelActivity = boundary_Interrupting e,
          bs_SignalName = (if ref \<noteq> [] then resolve_ref names ref else [])\<rparr>)
       (filter (\<lambda>e. be_Signal e \<noteq> None) (BoundaryEvents b))\<rparr>"

definition escalation_code :: "(string \<times> string) list \<Rightarrow> string option \<Rightarrow> string" where
  "escalation_code codes d = (case d of None \<Rightarrow> [] | Some ref \<Rightarrow> if ref = [] then [] else by_id codes ref)"

definition ref_or :: "string option \<Rightarrow> (string \<Rightarrow> string) \<Rightarrow> string \<Rightarrow> string" where
  "ref_or d f old = (case d of None \<Rightarrow> old | Some ref \<Rightarrow> if ref = [] then old else f ref)"

definition PopulateThrowAndEndEvents :: "Definitions \<Rightarrow> ProcessBody \<Rightarrow> ProcessBody" where
  "PopulateThrowAndEndEvents defs b = b\<lparr>
     StartEvents := map (\<lambda>e. e\<lparr>se_SignalName := ref_or (se_Signal e) (resolve_ref (Signals defs)) (se_SignalName e),
         se_ErrorCode := ref_or (se_Error e) (by_id (Errors defs)) (se_ErrorCode e),
         se_EscalationCode := escalation_code (Escalations defs) (se_Escalation e)\<rparr>) (StartEvents b),
     BoundaryEvents := map (\<lambda>e. e\<lparr>be_EscalationCode := escalation_code (Escalations defs) (be_Escalation e)\<rparr>) (BoundaryEvents b),
     ReceiveTasks := map (\<lambda>t. if rt_MessageRef t = [] then t
         else t\<lparr>rt_MessageName := resolve_ref (msg_names (Messages defs)) (rt_MessageRef t),
           rt_MessageCorrelationKey := fold (\<lambda>m k. if md_ID m = rt_MessageRef t then message_CorrelationKey m else k)
             (Messages defs) (rt_MessageCorrelationKey t)\<rparr>) (ReceiveTasks b),
     IntermediateThrowEvents := map (\<lambda>e. e\<lparr>te_SignalName := ref_or (te_Signal e) (resolve_ref (Signals defs)) (te_SignalName e),
         te_EscalationCode := escalation_code (Escalations defs) (te_Escalation e)\<rparr>) (IntermediateThrowEvents b),
     EndEvents := map (\<lambda>e. e\<lparr>ee_SignalName := ref_or (ee_Signal e) (resolve_ref (Signals defs)) (ee_SignalName e),
         ee_ErrorCode := ref_or (ee_Error e) (by_id (Errors defs)) (ee_ErrorCode e),
         ee_EscalationCode := escalation_code (Escalations defs) (ee_Escalation e)\<rparr>) (EndEvents b)\<rparr>"

text \<open>\<open>unmarshal\<close> is \<open>xml.Unmarshal\<close>; \<open>None\<close> is its error.\<close>

definition ParseBPMN :: "(string \<Rightarrow> Definitions option) \<Rightarrow> string \<Rightarrow> Definitions option" where
  "ParseBPMN unmarshal data =
     (case unmarshal data of
        None \<Rightarrow> None
      | Some defs \<Rightarrow>
          let d1 = on_scopes set_timers defs;
              d2 = on_scopes PopulateTimerEvents d1;
              d3 = on_scopes (PopulateErrorBoundaryEvents (Errors d2)) d2;
              d4 = on_scopes (PopulateMessageEvents (Messages d3)) d3;
              d5 = on_scopes (PopulateSignalEvents (Signals d4)) d4
          in Some (on_scopes (PopulateThrowAndEndEvents d5) d5))"

end
