(* ===== verification/Graph_Builder.thy ===== *)
theory Graph_Builder
  imports Bpmn_Parser
begin

text \<open>
  The graph of a deployed process (\<open>internal/engine/build.go\<close>, \<open>subprocess.go\<close>, \<open>multi_instance.go\<close>): the elements of the process and of all
  its sub-processes are put in one map of nodes, sequence flows become edges, sub-processes and compensation handlers are linked
  to their nodes.

  \<open>graph.Nodes\<close> and \<open>nodeMap\<close> hold the same pointers: one association list here. \<open>register\<close> is an assignment to the map,
  \<open>set_node\<close> an assignment through a pointer in it. A \<open>range\<close> over the map goes through the list; every property holds for every
  order, since none of them is about the order. \<open>strings.EqualFold\<close> is the parameter \<open>fold_eq\<close>; the token stream of
  the XML decoder is library code and a parameter, too.
\<close>

datatype build_error =
    SourceNotFound string string | TargetNotFound string string
  | ManyStarts string | NotPlainStart string string | NoStart string
  | EventStartCount string nat | NotInterrupting string | NoTriggerOf string
  | SharedLink string | NoLinkCatch string | LinkHasFlows string
  | NoHandler string | HandlerNotFound string | ActivityNotFound string | HandlerHasFlows string
  | SingleFlows string | InvalidGateway string | NotAttached string
  | NotBpmn | ProcessNotFound string | InvalidLoop
  | NilNode string

subsection \<open>Sub-processes flattened\<close>

record subProcessInfo =
  sub_ID :: string
  sub_Name :: string
  sub_ParentScope :: string
  sub_Event :: bool
  sub_EventStarts :: "StartEvent list"
  sub_IoMapping :: "ZeebeIoMapping option"

text \<open>The identifiers \<open>appendScope\<close> marks, in its order.\<close>

definition marked_ids :: "ProcessBody \<Rightarrow> string list" where
  "marked_ids b = map se_ID (StartEvents b) @ map ut_ID (UserTasks b) @ map tk_ID (Tasks b) @ map st_ID (ServiceTasks b) @
     map ee_ID (EndEvents b) @ map gt_ID (ExclusiveGateways b) @ map gt_ID (ParallelGateways b) @ map gt_ID (InclusiveGateways b) @
     map ce_ID (IntermediateCatchEvents b) @ map sc_ID (ScriptTasks b) @ map br_ID (BusinessRuleTasks b) @ map ca_ID (CallActivities b) @
     map gt_ID (EventBasedGateways b) @ map tk_ID (ManualTasks b) @ map st_ID (SendTasks b) @ map rt_ID (ReceiveTasks b) @
     map te_ID (IntermediateThrowEvents b) @ map be_ID (BoundaryEvents b)"

definition append_elements :: "ProcessBody \<Rightarrow> ProcessBody \<Rightarrow> ProcessBody" where
  "append_elements flat b = flat\<lparr>
     StartEvents := StartEvents flat @ StartEvents b, UserTasks := UserTasks flat @ UserTasks b, Tasks := Tasks flat @ Tasks b,
     ServiceTasks := ServiceTasks flat @ ServiceTasks b, EndEvents := EndEvents flat @ EndEvents b,
     ExclusiveGateways := ExclusiveGateways flat @ ExclusiveGateways b, ParallelGateways := ParallelGateways flat @ ParallelGateways b,
     InclusiveGateways := InclusiveGateways flat @ InclusiveGateways b,
     IntermediateCatchEvents := IntermediateCatchEvents flat @ IntermediateCatchEvents b,
     SequenceFlows := SequenceFlows flat @ SequenceFlows b, ScriptTasks := ScriptTasks flat @ ScriptTasks b,
     BusinessRuleTasks := BusinessRuleTasks flat @ BusinessRuleTasks b, CallActivities := CallActivities flat @ CallActivities b,
     EventBasedGateways := EventBasedGateways flat @ EventBasedGateways b,
     IntermediateTimerEvents := IntermediateTimerEvents flat @ IntermediateTimerEvents b,
     BoundaryTimerEvents := BoundaryTimerEvents flat @ BoundaryTimerEvents b,
     BoundaryErrorEvents := BoundaryErrorEvents flat @ BoundaryErrorEvents b,
     BoundaryMessageEvents := BoundaryMessageEvents flat @ BoundaryMessageEvents b,
     BoundarySignalEvents := BoundarySignalEvents flat @ BoundarySignalEvents b,
     BoundaryEvents := BoundaryEvents flat @ BoundaryEvents b, ManualTasks := ManualTasks flat @ ManualTasks b,
     SendTasks := SendTasks flat @ SendTasks b, ReceiveTasks := ReceiveTasks flat @ ReceiveTasks b,
     IntermediateThrowEvents := IntermediateThrowEvents flat @ IntermediateThrowEvents b,
     Associations := Associations flat @ Associations b\<rparr>"

type_synonym scope_map = "(string \<times> string) list"
type_synonym flattened = "ProcessBody \<times> scope_map \<times> subProcessInfo list"

definition appendScope :: "ProcessBody \<Rightarrow> string \<Rightarrow> ProcessBody \<times> scope_map \<Rightarrow> ProcessBody \<times> scope_map" where
  "appendScope b scope s = (append_elements (fst s) b, fold (\<lambda>i. AList.update i scope) (marked_ids b) (snd s))"

definition sub_info :: "bool \<Rightarrow> ExtensionElements option \<Rightarrow> ProcessBody \<Rightarrow> string \<Rightarrow> subProcessInfo" where
  "sub_info ev ext b parent = \<lparr>sub_ID = b_ID b, sub_Name = b_Name b, sub_ParentScope = parent, sub_Event = ev,
     sub_EventStarts = (if ev then StartEvents b else []), sub_IoMapping = (case ext of None \<Rightarrow> None | Some x \<Rightarrow> ZeebeIo x)\<rparr>"

fun walk_subs :: "SubProcess list \<Rightarrow> string \<Rightarrow> flattened \<Rightarrow> flattened" where
  "walk_subs [] parent s = s"
| "walk_subs (SubProcess ev ext b sps # rest) parent (flat, scopeOf, subs) =
     (let (flat', scopeOf') = appendScope b (b_ID b) (flat, if parent \<noteq> [] then AList.update (b_ID b) parent scopeOf else scopeOf)
      in walk_subs rest parent (walk_subs sps (b_ID b) (flat', scopeOf', subs @ [sub_info ev ext b parent])))"

definition flattenSubProcesses :: "Process \<Rightarrow> flattened" where
  "flattenSubProcesses p = walk_subs (p_SubProcesses p) [] (p_Body p, [], [])"

subsection \<open>Nodes\<close>

definition register :: "Node \<Rightarrow> graph \<Rightarrow> graph" where
  "register n g = AList.update (ID n) n g"

definition set_node :: "string \<Rightarrow> (Node \<Rightarrow> Node) \<Rightarrow> graph \<Rightarrow> graph" where
  "set_node i f g = map (\<lambda>(k, n). (k, if k = i then f n else n)) g"

definition io_of :: "ZeebeIOEntry \<Rightarrow> IOMapping" where
  "io_of x = \<lparr>Source = zio_Source x, Target = zio_Target x\<rparr>"

definition applyIoMapping :: "ZeebeIoMapping option \<Rightarrow> Node \<Rightarrow> Node" where
  "applyIoMapping io n =
     (case io of None \<Rightarrow> n
      | Some m \<Rightarrow> n\<lparr>InputMappings := InputMappings n @ map io_of (Inputs m), OutputMappings := OutputMappings n @ map io_of (Outputs m)\<rparr>)"

text \<open>\<open>if s != "" { p = &s }\<close>\<close>

definition or_text :: "string \<Rightarrow> string option \<Rightarrow> string option" where
  "or_text s old = (if s \<noteq> [] then Some s else old)"

definition named_node :: "string \<Rightarrow> string \<Rightarrow> NodeType \<Rightarrow> Node" where
  "named_node i name t = (new_node i t)\<lparr>Name := name\<rparr>"

definition start_node :: "StartEvent \<Rightarrow> Node" where
  "start_node s =
     (case se_Timer s of
        Some t \<Rightarrow> if RawXML t \<noteq> [] then (new_node (se_ID s) StartTimerEventType)\<lparr>TimerDefinition := RawXML t\<rparr> else new_node (se_ID s) StartEventType
      | None \<Rightarrow> new_node (se_ID s) StartEventType)"

definition task_node :: "Task \<Rightarrow> Node" where
  "task_node t = named_node (tk_ID t) (tk_Name t) ManualTaskType"

definition apply_assignment :: "ZeebeAssignmentDefinition option \<Rightarrow> Node \<Rightarrow> Node" where
  "apply_assignment a n =
     (case a of None \<Rightarrow> n
      | Some ad \<Rightarrow> n\<lparr>AssigneeExpr := or_text (zad_Assignee ad) (AssigneeExpr n),
          CandidateGroupExpr := or_text (zad_CandidateGroups ad) (CandidateGroupExpr n)\<rparr>)"

definition apply_form :: "ZeebeFormDefinition option \<Rightarrow> Node \<Rightarrow> Node" where
  "apply_form f n =
     (case f of None \<Rightarrow> n
      | Some fd \<Rightarrow> if zfd_FormKey fd \<noteq> [] then n\<lparr>FormKey := zfd_FormKey fd\<rparr>
          else if zfd_FormId fd \<noteq> [] then n\<lparr>FormKey := zfd_FormId fd\<rparr> else n)"

definition apply_priority :: "string option \<Rightarrow> Node \<Rightarrow> Node" where
  "apply_priority p n = (case p of None \<Rightarrow> n | Some x \<Rightarrow> n\<lparr>PriorityExpr := or_text x (PriorityExpr n)\<rparr>)"

definition user_node :: "UserTask \<Rightarrow> Node" where
  "user_node t =
     (let n = (named_node (ut_ID t) (ut_Name t) UserTaskType)\<lparr>AssigneeExpr := or_text (CamundaAssignee t) None,
                CandidateGroupExpr := or_text (CamundaCandidateGroups t) None, FormKey := CamundaFormKey t\<rparr>
      in case ut_Ext t of None \<Rightarrow> n
         | Some x \<Rightarrow> applyIoMapping (ZeebeIo x) (apply_priority (ZeebePriority x) (apply_form (ZeebeForm x) (apply_assignment (ZeebeAssignment x) n))))"

text \<open>The headers of a job: a map filled by a loop, when there is at least one.\<close>

definition apply_headers :: "(string \<times> string) list option \<Rightarrow> Node \<Rightarrow> Node" where
  "apply_headers h n =
     (case h of None \<Rightarrow> n | Some hs \<Rightarrow> if hs = [] then n else n\<lparr>TaskHeaders := fold (\<lambda>(k, v). AList.update k v) hs []\<rparr>)"

definition is_job :: "string option \<Rightarrow> bool" where
  "is_job td \<longleftrightarrow> td \<noteq> None \<and> td \<noteq> Some []"

definition service_node :: "ServiceTask \<Rightarrow> Node" where
  "service_node t =
     (let n = (named_node (st_ID t) (st_Name t) ServiceTaskType)\<lparr>JobType := or_text (st_CamundaTopic t) None\<rparr>
      in case st_Ext t of None \<Rightarrow> n
         | Some x \<Rightarrow> applyIoMapping (ZeebeIo x) (apply_headers (ZeebeTaskHeaders x)
             (if is_job (ZeebeTaskDefinition x) then n\<lparr>JobType := ZeebeTaskDefinition x\<rparr> else n)))"

definition apply_script :: "ZeebeScript option \<Rightarrow> Node \<Rightarrow> Node" where
  "apply_script s n =
     (case s of None \<Rightarrow> n
      | Some zs \<Rightarrow> if zs_Expression zs = [] then n
          else n\<lparr>Script := Some (zs_Expression zs), ScriptFormat := Some ''feel'', ResultVariable := zs_ResultVariable zs\<rparr>)"

definition script_node :: "ScriptTask \<Rightarrow> Node" where
  "script_node t =
     (let n = named_node (sc_ID t) (sc_Name t) ScriptTaskType;
          n1 = (if sc_Script t \<noteq> []
                then n\<lparr>Script := Some (sc_Script t), ScriptFormat := Some (sc_ScriptFormat t), ResultVariable := CamundaResultVariable t\<rparr> else n)
      in case sc_Ext t of None \<Rightarrow> n1
         | Some x \<Rightarrow>
             let n2 = apply_script (ZeebeScripted x) n1;
                 n3 = (if is_job (ZeebeTaskDefinition x)
                       then apply_headers (ZeebeTaskHeaders x)
                         (n2\<lparr>Type := ServiceTaskType, JobType := ZeebeTaskDefinition x, Script := None, ScriptFormat := None\<rparr>)
                       else n2)
             in applyIoMapping (ZeebeIo x) n3)"

definition rule_node :: "BusinessRuleTask \<Rightarrow> Node" where
  "rule_node t =
     (let n = named_node (br_ID t) (br_Name t) BusinessRuleTaskType
      in case br_Ext t of None \<Rightarrow> n
         | Some x \<Rightarrow>
             let n1 = (case ZeebeCalled x of None \<Rightarrow> n
                       | Some cd \<Rightarrow> n\<lparr>DecisionKey := zcd_DecisionId cd, ResultVariable := zcd_ResultVariable cd\<rparr>);
                 n2 = (if is_job (ZeebeTaskDefinition x) \<and> ZeebeCalled x = None
                       then n1\<lparr>Type := ServiceTaskType, JobType := ZeebeTaskDefinition x\<rparr> else n1)
             in applyIoMapping (ZeebeIo x) n2)"

text \<open>A message end event or message throw event is a job for a worker when it has a job type.\<close>

definition topic_job :: "string \<Rightarrow> Node \<Rightarrow> Node" where
  "topic_job topic n = (if topic \<noteq> [] then n\<lparr>Type := ServiceTaskType, JobType := Some topic\<rparr> else n)"

definition zeebe_job :: "string option \<Rightarrow> Node \<Rightarrow> Node" where
  "zeebe_job td n = (if is_job td then n\<lparr>Type := ServiceTaskType, JobType := td\<rparr> else n)"

definition end_node :: "EndEvent \<Rightarrow> Node" where
  "end_node e =
     (let n = named_node (ee_ID e) (ee_Name e) EndEventType
      in if ee_Terminate e then n\<lparr>Type := TerminateEndEventType\<rparr>
         else if ee_Error e \<noteq> None then n\<lparr>Type := ErrorEndEventType, ErrorCode := ee_ErrorCode e\<rparr>
         else if ee_Signal e \<noteq> None then n\<lparr>Type := SignalEndEventType, SignalRef := ee_SignalName e\<rparr>
         else if ee_Escalation e \<noteq> None then n\<lparr>Type := EscalationEndEventType, EscalationCode := ee_EscalationCode e\<rparr>
         else case ee_Compensate e of
           Some act \<Rightarrow> n\<lparr>Type := CompensationEndEventType, CompensateActivity := act\<rparr>
         | None \<Rightarrow>
             if ee_Message e \<noteq> None then
               let n1 = topic_job (ee_CamundaTopic e) n
               in case ee_Ext e of None \<Rightarrow> n1
                  | Some x \<Rightarrow> applyIoMapping (ZeebeIo x) (apply_headers (ZeebeTaskHeaders x) (zeebe_job (ZeebeTaskDefinition x) n1))
             else n)"

definition compensation_node :: "BoundaryEvent \<Rightarrow> Node" where
  "compensation_node b = (named_node (be_ID b) (be_Name b) CompensationBoundaryEventType)\<lparr>AttachedToRef := be_AttachedToRef b\<rparr>"

definition conditional_node :: "BoundaryEvent \<Rightarrow> Node" where
  "conditional_node b = (named_node (be_ID b) (be_Name b) ConditionalBoundaryEventType)\<lparr>AttachedToRef := be_AttachedToRef b,
     CancelActivity := boundary_Interrupting b, Condition := trim_space (getStringValue (be_Conditional b))\<rparr>"

definition escalation_node :: "BoundaryEvent \<Rightarrow> Node" where
  "escalation_node b = (named_node (be_ID b) (be_Name b) EscalationBoundaryEventType)\<lparr>AttachedToRef := be_AttachedToRef b,
     CancelActivity := boundary_Interrupting b, EscalationCode := be_EscalationCode b\<rparr>"

definition receive_node :: "ReceiveTask \<Rightarrow> Node" where
  "receive_node t = (named_node (rt_ID t) (rt_Name t) IntermediateMessageCatchEventType)\<lparr>MessageRef := rt_MessageName t,
     MessageCorrelationKey := rt_MessageCorrelationKey t\<rparr>"

definition throw_node :: "ThrowEvent \<Rightarrow> Node" where
  "throw_node e =
     (let n = named_node (te_ID e) (te_Name e) IntermediateThrowEventType
      in if te_Signal e \<noteq> None then n\<lparr>Type := IntermediateSignalThrowEventType, SignalRef := te_SignalName e\<rparr>
         else case te_Link e of Some l \<Rightarrow> n\<lparr>LinkName := l\<rparr> | None \<Rightarrow>
           if te_Escalation e \<noteq> None then n\<lparr>Type := IntermediateEscalationThrowEventType, EscalationCode := te_EscalationCode e\<rparr>
           else case te_Compensate e of
             Some act \<Rightarrow> n\<lparr>Type := IntermediateCompensationThrowEventType, CompensateActivity := act\<rparr>
           | None \<Rightarrow>
               if te_Message e \<noteq> None then
                 let n1 = topic_job (te_CamundaTopic e) n
                 in case te_Ext e of None \<Rightarrow> n1 | Some x \<Rightarrow> applyIoMapping (ZeebeIo x) (zeebe_job (ZeebeTaskDefinition x) n1)
               else n)"

definition gateway_node :: "NodeType \<Rightarrow> Gateway \<Rightarrow> Node" where
  "gateway_node t g = (new_node (gt_ID g) t)\<lparr>DefaultFlow := gt_Default g\<rparr>"

definition raw_timer :: "TimerDefinition option \<Rightarrow> string" where
  "raw_timer t = (case t of None \<Rightarrow> [] | Some x \<Rightarrow> RawXML x)"

definition timer_node :: "IntermediateTimerEvent \<Rightarrow> Node" where
  "timer_node t = (named_node (it_ID t) (it_Name t) IntermediateTimerEventType)\<lparr>TimerDefinition := raw_timer (it_Timer t)\<rparr>"

definition boundary_timer_node :: "BoundaryTimerEvent \<Rightarrow> Node" where
  "boundary_timer_node b = (new_node (bt_ID b) BoundaryTimerEventType)\<lparr>AttachedToRef := bt_AttachedToRef b,
     CancelActivity := bt_CancelActivity b, TimerDefinition := raw_timer (bt_Timer b)\<rparr>"

definition boundary_error_node :: "BoundaryErrorEvent \<Rightarrow> Node" where
  "boundary_error_node b = applyIoMapping (bx_IoMapping b) ((new_node (bx_ID b) ErrorBoundaryEventType)\<lparr>AttachedToRef := bx_AttachedToRef b,
     CancelActivity := bx_CancelActivity b, ErrorCode := bx_ErrorCode b\<rparr>)"

definition catch_node :: "IntermediateCatchEvent \<Rightarrow> Node option" where
  "catch_node e =
     (let n = named_node (ce_ID e) (ce_Name e)
      in if ce_Message e \<noteq> None then Some ((n IntermediateMessageCatchEventType)\<lparr>MessageRef := ce_MessageName e,
           MessageCorrelationKey := ce_MessageCorrelationKey e\<rparr>)
         else if ce_Signal e \<noteq> None then Some ((n IntermediateSignalCatchEventType)\<lparr>SignalRef := ce_SignalName e\<rparr>)
         else case ce_Link e of
           Some l \<Rightarrow> Some ((n LinkCatchEventType)\<lparr>LinkName := l\<rparr>)
         | None \<Rightarrow> (case ce_Conditional e of
             Some c \<Rightarrow> Some ((n IntermediateConditionalCatchEventType)\<lparr>Condition := trim_space c\<rparr>)
           | None \<Rightarrow> None))"

definition boundary_message_node :: "BoundaryMessageEvent \<Rightarrow> Node" where
  "boundary_message_node b = (new_node (bm_ID b) MessageBoundaryEventType)\<lparr>AttachedToRef := bm_AttachedToRef b,
     CancelActivity := bm_CancelActivity b, MessageRef := bm_MessageName b, MessageCorrelationKey := bm_MessageCorrelationKey b\<rparr>"

definition boundary_signal_node :: "BoundarySignalEvent \<Rightarrow> Node" where
  "boundary_signal_node b = (new_node (bs_ID b) SignalBoundaryEventType)\<lparr>AttachedToRef := bs_AttachedToRef b,
     CancelActivity := bs_CancelActivity b, SignalRef := bs_SignalName b\<rparr>"

text \<open>The expression of a Camunda 7 \<open>${...}\<close>.\<close>

definition stripJUEL :: "string \<Rightarrow> string" where
  "stripJUEL s0 = (let s = trim_space s0 in if has_prefix s ''${'' \<and> has_suffix s ''}'' then trim_space (butlast (drop 2 s)) else s)"

definition camundaMapping :: "CamundaInOut \<Rightarrow> IOMapping option" where
  "camundaMapping m =
     (let source = (if trim_space (cio_Source m) = [] then stripJUEL (cio_SourceExpression m) else trim_space (cio_Source m))
      in if source = [] \<or> trim_space (cio_Target m) = [] then None
         else Some \<lparr>Source = ''='' @ source, Target = trim_space (cio_Target m)\<rparr>)"

definition camunda_out :: "(string \<Rightarrow> string \<Rightarrow> bool) \<Rightarrow> CamundaInOut \<Rightarrow> Node \<Rightarrow> Node" where
  "camunda_out fold_eq m n =
     (if fold_eq (trim_space (cio_Variables m)) ''all'' then n\<lparr>PropagateAllChildVariables := True\<rparr>
      else case camundaMapping m of None \<Rightarrow> n | Some x \<Rightarrow> n\<lparr>OutputMappings := OutputMappings n @ [x]\<rparr>)"

definition applyCallActivityExtensions :: "(string \<Rightarrow> string \<Rightarrow> bool) \<Rightarrow> CallActivityExtensions option \<Rightarrow> Node \<Rightarrow> Node" where
  "applyCallActivityExtensions fold_eq ext n =
     (case ext of None \<Rightarrow> n
      | Some x \<Rightarrow>
          let n1 = (case cx_CalledElement x of None \<Rightarrow> n
                    | Some ce \<Rightarrow> n\<lparr>CalledElement := trim_space (zce_ProcessID ce),
                        PropagateAllChildVariables := \<not> fold_eq (trim_space (zce_PropagateAllChildVariables ce)) ''false'',
                        NoParentVariables := fold_eq (trim_space (zce_PropagateAllParentVariables ce)) ''false''\<rparr>);
              n2 = applyIoMapping (cx_IoMapping x) n1;
              n3 = n2\<lparr>InputMappings := InputMappings n2 @ List.map_filter camundaMapping (cx_In x)\<rparr>
          in fold (camunda_out fold_eq) (cx_Out x) n3)"

definition call_activity_node :: "(string \<Rightarrow> string \<Rightarrow> bool) \<Rightarrow> CallActivity \<Rightarrow> Node" where
  "call_activity_node fold_eq c = applyCallActivityExtensions fold_eq (ca_Ext c)
     ((named_node (ca_ID c) (ca_Name c) CallActivityType)\<lparr>CalledElement := ca_CalledElement c\<rparr>)"

definition sub_node :: "subProcessInfo \<Rightarrow> Node" where
  "sub_node s = applyIoMapping (sub_IoMapping s) (named_node (sub_ID s) (sub_Name s) (if sub_Event s then EventSubProcessType else SubProcessType))"

definition start_trigger :: "StartEvent \<Rightarrow> graph \<Rightarrow> graph" where
  "start_trigger s g =
     (if se_Message s \<noteq> None then set_node (se_ID s) (\<lambda>n. n\<lparr>Type := MessageStartEventType, MessageRef := se_MessageName s,
        MessageCorrelationKey := se_MessageCorrelationKey s\<rparr>) g
      else if se_Signal s \<noteq> None then set_node (se_ID s) (\<lambda>n. n\<lparr>Type := SignalStartEventType, SignalRef := se_SignalName s\<rparr>) g
      else g)"

text \<open>The nodes of a flattened process, in the order they are registered, up to the message starts and after them.\<close>

definition nodes_before :: "ProcessBody \<Rightarrow> Node list" where
  "nodes_before p = map start_node (StartEvents p) @ map task_node (Tasks p) @ map user_node (UserTasks p) @
     map service_node (ServiceTasks p) @ map script_node (ScriptTasks p) @ map rule_node (BusinessRuleTasks p) @ map end_node (EndEvents p) @
     map compensation_node (filter (\<lambda>b. be_Compensate b \<noteq> None) (BoundaryEvents p)) @
     map conditional_node (filter (\<lambda>b. be_Conditional b \<noteq> None) (BoundaryEvents p)) @
     map escalation_node (filter (\<lambda>b. be_Escalation b \<noteq> None) (BoundaryEvents p)) @
     map task_node (ManualTasks p) @ map receive_node (ReceiveTasks p) @ map throw_node (IntermediateThrowEvents p) @
     map (gateway_node ExclusiveGatewayType) (ExclusiveGateways p) @
     map (\<lambda>g. new_node (gt_ID g) ParallelGatewayType) (ParallelGateways p) @
     map (gateway_node InclusiveGatewayType) (InclusiveGateways p) @ map timer_node (IntermediateTimerEvents p) @
     map boundary_timer_node (BoundaryTimerEvents p) @ map boundary_error_node (BoundaryErrorEvents p) @
     List.map_filter catch_node (IntermediateCatchEvents p)"

definition nodes_after :: "(string \<Rightarrow> string \<Rightarrow> bool) \<Rightarrow> ProcessBody \<Rightarrow> subProcessInfo list \<Rightarrow> Node list" where
  "nodes_after fold_eq p subs = map boundary_message_node (BoundaryMessageEvents p) @ map boundary_signal_node (BoundarySignalEvents p) @
     map (\<lambda>g. named_node (gt_ID g) (gt_Name g) EventBasedGatewayType) (EventBasedGateways p) @
     map (call_activity_node fold_eq) (CallActivities p) @ map sub_node subs"

definition register_nodes :: "(string \<Rightarrow> string \<Rightarrow> bool) \<Rightarrow> ProcessBody \<Rightarrow> subProcessInfo list \<Rightarrow> graph" where
  "register_nodes fold_eq p subs =
     fold register (nodes_after fold_eq p subs) (fold start_trigger (StartEvents p) (fold register (nodes_before p) []))"

subsection \<open>Edges\<close>

definition plain_edge :: "string \<Rightarrow> string \<Rightarrow> string \<Rightarrow> string \<Rightarrow> Flow" where
  "plain_edge i src tgt cond = \<lparr>flow_ID = i, SourceRef = src, TargetRef = tgt, flow_Condition = cond, IsBoundary = False\<rparr>"

definition add_out :: "string \<Rightarrow> Flow \<Rightarrow> graph \<Rightarrow> graph" where
  "add_out i f = set_node i (\<lambda>n. n\<lparr>Outgoing := Outgoing n @ [f]\<rparr>)"

definition add_in :: "string \<Rightarrow> string \<Rightarrow> graph \<Rightarrow> graph" where
  "add_in i src = set_node i (\<lambda>n. n\<lparr>Incoming := Incoming n @ [src]\<rparr>)"

definition add_flow :: "SequenceFlow \<Rightarrow> graph \<Rightarrow> build_error + graph" where
  "add_flow f g =
     (if map_of g (sf_SourceRef f) = None then Inl (SourceNotFound (sf_SourceRef f) (sf_ID f))
      else if map_of g (sf_TargetRef f) = None then Inl (TargetNotFound (sf_TargetRef f) (sf_ID f))
      else Inr (add_in (sf_TargetRef f) (sf_SourceRef f)
        (add_out (sf_SourceRef f) (plain_edge (sf_ID f) (sf_SourceRef f) (sf_TargetRef f) (sf_Condition f)) g)))"

definition leads_to :: "Node \<Rightarrow> string \<Rightarrow> bool" where
  "leads_to n i \<longleftrightarrow> (\<exists>f \<in> set (Outgoing n). TargetRef f = i)"

text \<open>The edges that the \<open>incoming\<close> and \<open>outgoing\<close> lists of a task name, where they are identifiers of nodes and the edge is not
  there yet.\<close>

definition in_edge :: "string \<Rightarrow> string \<Rightarrow> graph \<Rightarrow> graph" where
  "in_edge i inc g =
     (case map_of g inc of
        None \<Rightarrow> g
      | Some src \<Rightarrow> if leads_to src i then g else add_out inc (plain_edge (inc @ ''_to_'' @ i) inc i []) g)"

definition note_in :: "string \<Rightarrow> string \<Rightarrow> graph \<Rightarrow> graph" where
  "note_in i inc g =
     (case map_of g i of None \<Rightarrow> g | Some n \<Rightarrow> if inc \<in> set (Incoming n) then g else add_in i inc g)"

definition out_edge :: "string \<Rightarrow> string \<Rightarrow> graph \<Rightarrow> graph" where
  "out_edge i out g =
     (case map_of g out of
        None \<Rightarrow> g
      | Some tgt \<Rightarrow> if i \<in> set (Incoming tgt) then g else add_in out i (add_out i (plain_edge (i @ ''_to_'' @ out) i out []) g))"

definition generic_edges :: "Task \<Rightarrow> graph \<Rightarrow> graph" where
  "generic_edges t g = fold (out_edge (tk_ID t)) (tk_Outgoing t)
     (fold (\<lambda>inc g. note_in (tk_ID t) inc (in_edge (tk_ID t) inc g)) (tk_Incoming t) g)"

definition task_edges :: "string \<Rightarrow> string list \<Rightarrow> string list \<Rightarrow> graph \<Rightarrow> graph" where
  "task_edges i incs outs g = fold (out_edge i) outs (fold (in_edge i) incs g)"

definition user_edges :: "UserTask \<Rightarrow> graph \<Rightarrow> graph" where
  "user_edges t = task_edges (ut_ID t) (ut_Incoming t) (ut_Outgoing t)"

definition service_edges :: "ServiceTask \<Rightarrow> graph \<Rightarrow> graph" where
  "service_edges t = task_edges (st_ID t) (st_Incoming t) (st_Outgoing t)"

text \<open>The sequence flows out of a boundary event, again.\<close>

definition boundary_flow :: "string \<Rightarrow> SequenceFlow \<Rightarrow> graph \<Rightarrow> graph" where
  "boundary_flow i f g =
     (if sf_SourceRef f \<noteq> i then g
      else case (map_of g i, map_of g (sf_TargetRef f)) of
        (Some b, Some _) \<Rightarrow>
          if leads_to b (sf_TargetRef f) then g
          else add_in (sf_TargetRef f) i (add_out i (plain_edge (sf_ID f) i (sf_TargetRef f) (sf_Condition f)) g)
      | _ \<Rightarrow> g)"

definition attach_timer :: "BoundaryTimerEvent \<Rightarrow> graph \<Rightarrow> graph" where
  "attach_timer b g =
     (if bt_AttachedToRef b = [] then g
      else case map_of g (bt_AttachedToRef b) of
        None \<Rightarrow> g
      | Some act \<Rightarrow>
          if leads_to act (bt_ID b) then g
          else add_in (bt_ID b) (bt_AttachedToRef b) (add_out (bt_AttachedToRef b)
            \<lparr>flow_ID = bt_ID b @ ''_boundary_flow'', SourceRef = bt_AttachedToRef b, TargetRef = bt_ID b, flow_Condition = [], IsBoundary = True\<rparr> g))"

definition boundary_timer_edges :: "SequenceFlow list \<Rightarrow> BoundaryTimerEvent \<Rightarrow> graph \<Rightarrow> graph" where
  "boundary_timer_edges fs b g =
     (if map_of g (bt_ID b) = None then g else fold (boundary_flow (bt_ID b)) fs (attach_timer b g))"

definition boundary_error_edges :: "SequenceFlow list \<Rightarrow> BoundaryErrorEvent \<Rightarrow> graph \<Rightarrow> graph" where
  "boundary_error_edges fs b g =
     (if map_of g (bx_ID b) = None then g
      else fold (boundary_flow (bx_ID b)) fs
        (if bx_AttachedToRef b = [] then g else set_node (bx_ID b) (\<lambda>n. n\<lparr>AttachedToRef := bx_AttachedToRef b\<rparr>) g))"

definition edges :: "ProcessBody \<Rightarrow> graph \<Rightarrow> build_error + graph" where
  "edges p g =
     (case fold_result add_flow (SequenceFlows p) g of
        Inl e \<Rightarrow> Inl e
      | Inr g1 \<Rightarrow> Inr (fold (boundary_error_edges (SequenceFlows p)) (BoundaryErrorEvents p)
          (fold (boundary_timer_edges (SequenceFlows p)) (BoundaryTimerEvents p)
          (fold service_edges (ServiceTasks p) (fold user_edges (UserTasks p) (fold generic_edges (Tasks p) g1))))))"

subsection \<open>Sub-processes, links and compensation handlers\<close>

definition finishEventSubProcess :: "subProcessInfo \<Rightarrow> Node \<Rightarrow> build_error + Node" where
  "finishEventSubProcess sp node =
     (case sub_EventStarts sp of
        [s] \<Rightarrow>
          let n = node\<lparr>StartNodeID := se_ID s, CancelActivity := start_Interrupting s\<rparr>
          in if has_timer (se_Timer s) then Inr (n\<lparr>TriggerType := TriggerTimer, TimerDefinition := raw_timer (se_Timer s)\<rparr>)
             else if se_Message s \<noteq> None then Inr (n\<lparr>TriggerType := TriggerMessage, MessageRef := se_MessageName s,
               MessageCorrelationKey := se_MessageCorrelationKey s\<rparr>)
             else if se_Signal s \<noteq> None then Inr (n\<lparr>TriggerType := TriggerSignal, SignalRef := se_SignalName s\<rparr>)
             else if se_Error s \<noteq> None then
               if \<not> CancelActivity n then Inl (NotInterrupting (sub_ID sp))
               else Inr (n\<lparr>TriggerType := TriggerError, ErrorCode := se_ErrorCode s\<rparr>)
             else if se_Escalation s \<noteq> None then Inr (n\<lparr>TriggerType := TriggerEscalation, EscalationCode := se_EscalationCode s\<rparr>)
             else case se_Conditional s of
               Some c \<Rightarrow> Inr (n\<lparr>TriggerType := TriggerConditional, Condition := trim_space c\<rparr>)
             | None \<Rightarrow> Inl (NoTriggerOf (sub_ID sp))
      | starts \<Rightarrow> Inl (EventStartCount (sub_ID sp) (length starts)))"

text \<open>The loop over all nodes that looks for the start event of a sub-process; the result is its identifier.\<close>

fun find_start :: "string \<Rightarrow> Node list \<Rightarrow> string \<Rightarrow> build_error + string" where
  "find_start sp [] start = Inr start"
| "find_start sp (n # ns) start =
     (if ParentScope n \<noteq> sp then find_start sp ns start
      else if Type n = StartEventType then
        if start \<noteq> [] then Inl (ManyStarts sp) else find_start sp ns (ID n)
      else if Type n \<in> {StartTimerEventType, MessageStartEventType, SignalStartEventType} then Inl (NotPlainStart sp (ID n))
      else find_start sp ns start)"

definition finish_one :: "subProcessInfo \<Rightarrow> graph \<Rightarrow> build_error + graph" where
  "finish_one sp g =
     (case map_of g (sub_ID sp) of
        None \<Rightarrow> Inl (NilNode (sub_ID sp))
      | Some node \<Rightarrow>
          if sub_Event sp then
            (case finishEventSubProcess sp node of Inl e \<Rightarrow> Inl e | Inr n \<Rightarrow> Inr (set_node (sub_ID sp) (\<lambda>_. n) g))
          else
            (case find_start (sub_ID sp) (map snd g) (StartNodeID node) of
               Inl e \<Rightarrow> Inl e
             | Inr start \<Rightarrow> if start = [] then Inl (NoStart (sub_ID sp)) else Inr (set_node (sub_ID sp) (\<lambda>n. n\<lparr>StartNodeID := start\<rparr>) g)))"

definition stamp_scopes :: "scope_map \<Rightarrow> graph \<Rightarrow> graph" where
  "stamp_scopes scopeOf g = fold (\<lambda>(i, scope). set_node i (\<lambda>n. n\<lparr>ParentScope := scope\<rparr>)) scopeOf g"

definition finishSubProcesses :: "scope_map \<Rightarrow> subProcessInfo list \<Rightarrow> graph \<Rightarrow> build_error + graph" where
  "finishSubProcesses scopeOf subs g = fold_result finish_one subs (stamp_scopes scopeOf g)"

text \<open>The catching link events of a graph by scope and name.\<close>

fun link_catches :: "Node list \<Rightarrow> ((string \<times> string) \<times> string) list \<Rightarrow> build_error + ((string \<times> string) \<times> string) list" where
  "link_catches [] m = Inr m"
| "link_catches (n # ns) m =
     (if Type n \<noteq> LinkCatchEventType then link_catches ns m
      else if map_of m (ParentScope n, LinkName n) \<noteq> None then Inl (SharedLink (LinkName n))
      else link_catches ns (((ParentScope n, LinkName n), ID n) # m))"

definition link_throw :: "((string \<times> string) \<times> string) list \<Rightarrow> string \<Rightarrow> graph \<Rightarrow> build_error + graph" where
  "link_throw catches i g =
     (case map_of g i of None \<Rightarrow> Inr g | Some n \<Rightarrow>
        if Type n \<noteq> IntermediateThrowEventType \<or> LinkName n = [] then Inr g
        else case map_of catches (ParentScope n, LinkName n) of
          None \<Rightarrow> Inl (NoLinkCatch i)
        | Some target \<Rightarrow>
            if Outgoing n \<noteq> [] then Inl (LinkHasFlows i)
            else Inr (add_in target (ID n) (add_out i (plain_edge (ID n @ ''_link'') (ID n) target []) g)))"

definition linkThrowEvents :: "graph \<Rightarrow> build_error + graph" where
  "linkThrowEvents g =
     (case link_catches (map snd g) [] of Inl e \<Rightarrow> Inl e | Inr catches \<Rightarrow> fold_result (link_throw catches) (map fst g) g)"

definition compensated_end :: "Node \<Rightarrow> Node" where
  "compensated_end h = (new_node (ID h @ ''__compensated'') CompensationHandlerEndType)\<lparr>ParentScope := ParentScope h\<rparr>"

definition link_handler :: "scope_map \<Rightarrow> string \<Rightarrow> graph \<Rightarrow> build_error + graph" where
  "link_handler handlerOf i g =
     (case map_of g i of None \<Rightarrow> Inr g | Some b \<Rightarrow>
        if Type b \<noteq> CompensationBoundaryEventType then Inr g
        else case map_of handlerOf (ID b) of
          None \<Rightarrow> Inl (NoHandler i)
        | Some hid \<Rightarrow>
        (case map_of g hid of
          None \<Rightarrow> Inl (HandlerNotFound hid)
        | Some h \<Rightarrow>
            if map_of g (AttachedToRef b) = None then Inl (ActivityNotFound (AttachedToRef b))
            else if Outgoing h \<noteq> [] then Inl (HandlerHasFlows hid)
            else
              let g1 = set_node (AttachedToRef b) (\<lambda>n. n\<lparr>CompensationHandler := ID h\<rparr>) g;
                  end = compensated_end h;
                  g2 = register end g1;
                  g3 = add_out hid (plain_edge (ID end @ ''_flow'') (ID h) (ID end) []) g2
              in Inr (add_in (ID end) (ID h) g3)))"

definition linkCompensationHandlers :: "Association list \<Rightarrow> graph \<Rightarrow> build_error + graph" where
  "linkCompensationHandlers assocs g =
     fold_result (link_handler (fold (\<lambda>a. AList.update (as_SourceRef a) (as_TargetRef a)) assocs [])) (map fst g) g"

subsection \<open>The whole builder\<close>

definition validateParallelGateway :: "Node \<Rightarrow> build_error option" where
  "validateParallelGateway n =
     (let i = length (Incoming n); out = length (Outgoing n)
      in if i = 1 \<and> out > 1 then None
         else if i > 1 \<and> out = 1 then None
         else if i = 1 \<and> out = 1 then Some (SingleFlows (ID n))
         else if i > 1 \<and> out > 1 then None
         else Some (InvalidGateway (ID n)))"

definition invalid_node :: "Node \<Rightarrow> build_error option" where
  "invalid_node n =
     (case (if Type n = ParallelGatewayType then validateParallelGateway n else None) of
        Some e \<Rightarrow> Some e
      | None \<Rightarrow> if Type n = BoundaryTimerEventType \<and> AttachedToRef n = [] then Some (NotAttached (ID n)) else None)"

definition validate :: "graph \<Rightarrow> build_error + graph" where
  "validate g = (case List.map_filter invalid_node (map snd g) of [] \<Rightarrow> Inr g | e # _ \<Rightarrow> Inl e)"

definition with_send_tasks :: "ProcessBody \<Rightarrow> ProcessBody" where
  "with_send_tasks p = p\<lparr>ServiceTasks := ServiceTasks p @ SendTasks p\<rparr>"

definition BuildGraphFromProcess :: "(string \<Rightarrow> string \<Rightarrow> bool) \<Rightarrow> Process \<Rightarrow> build_error + graph" where
  "BuildGraphFromProcess fold_eq process =
     (let (flat, scopeOf, subs) = flattenSubProcesses process; p = with_send_tasks flat
      in result_bind (edges p (register_nodes fold_eq p subs)) (\<lambda>g1.
         result_bind (finishSubProcesses scopeOf subs g1) (\<lambda>g2.
         result_bind (linkThrowEvents g2) (\<lambda>g3.
         result_bind (linkCompensationHandlers (Associations p) g3) validate))))"

subsection \<open>Multi-instance loops\<close>

record multiInstanceXML =
  x_IsSequential :: string
  x_LoopCardinality :: string
  x_CompletionCondition :: string
  x_InputDataItem :: string
  x_OutputDataItem :: string
  x_Collection :: string
  x_ElementVariable :: string
  x_Loop :: "(string \<times> string \<times> string \<times> string) option"

definition loop_config :: "(string \<Rightarrow> string \<Rightarrow> bool) \<Rightarrow> multiInstanceXML \<Rightarrow> MultiInstanceConfig" where
  "loop_config fold_eq x =
     (let (inC, inE, outC, outE) = (case x_Loop x of None \<Rightarrow> ([], [], [], []) | Some (a, b, c, d) \<Rightarrow> (trim_space a, trim_space b, trim_space c, trim_space d))
      in \<lparr>IsSequential = fold_eq (trim_space (x_IsSequential x)) ''true'',
          LoopCardinality = stripJUEL (x_LoopCardinality x), CompletionCondition = stripJUEL (x_CompletionCondition x),
          InputCollection = (if inC = [] \<and> x_Collection x \<noteq> [] then stripJUEL (x_Collection x) else inC),
          InputElement = inE, OutputCollection = outC, OutputElement = outE,
          InputDataItem = trim_space (x_InputDataItem x), OutputDataItem = trim_space (x_OutputDataItem x),
          ElementVariable = trim_space (x_ElementVariable x)\<rparr>)"

text \<open>A token of the decoder: the start of an element with its \<open>id\<close> attributes, a loop element with what \<open>DecodeElement\<close> makes of it, the end
  of an element, anything else. The stream ends at the end of the file or at a syntax error.\<close>

datatype xml_token = StartElement "string list" | LoopElement "multiInstanceXML option" | EndElement | OtherToken

fun apply_loops :: "(string \<Rightarrow> string \<Rightarrow> bool) \<Rightarrow> xml_token list \<Rightarrow> string list \<Rightarrow> graph \<Rightarrow> build_error + graph" where
  "apply_loops fold_eq [] ids g = Inr g"
| "apply_loops fold_eq (StartElement is # ts) ids g = apply_loops fold_eq ts ((if is = [] then [] else last is) # ids) g"
| "apply_loops fold_eq (LoopElement None # ts) ids g = Inl InvalidLoop"
| "apply_loops fold_eq (LoopElement (Some x) # ts) ids g =
     apply_loops fold_eq ts ids
       (case find (\<lambda>i. i \<noteq> []) ids of None \<Rightarrow> g | Some i \<Rightarrow> set_node i (\<lambda>n. n\<lparr>MultiInstance := Some (loop_config fold_eq x)\<rparr>) g)"
| "apply_loops fold_eq (EndElement # ts) ids g = apply_loops fold_eq ts (tl ids) g"
| "apply_loops fold_eq (OtherToken # ts) ids g = apply_loops fold_eq ts ids g"

definition applyMultiInstance :: "(string \<Rightarrow> string \<Rightarrow> bool) \<Rightarrow> (string \<Rightarrow> xml_token list) \<Rightarrow> string \<Rightarrow> graph \<Rightarrow> build_error + graph" where
  "applyMultiInstance fold_eq tokens bytes g = apply_loops fold_eq (tokens bytes) [] g"

definition BuildGraphForProcess :: "(string \<Rightarrow> string \<Rightarrow> bool) \<Rightarrow> (string \<Rightarrow> Definitions option) \<Rightarrow> (string \<Rightarrow> xml_token list)
    \<Rightarrow> string \<Rightarrow> string \<Rightarrow> build_error + graph" where
  "BuildGraphForProcess fold_eq unmarshal tokens bytes key =
     (case ParseBPMN unmarshal bytes of
        None \<Rightarrow> Inl NotBpmn
      | Some defs \<Rightarrow>
          (case find (\<lambda>p. b_ID (p_Body p) = key) (Processes defs) of
             None \<Rightarrow> Inl (ProcessNotFound key)
           | Some p \<Rightarrow> result_bind (BuildGraphFromProcess fold_eq p) (applyMultiInstance fold_eq tokens bytes)))"

end
