(* ===== verification/Builder_Props.thy ===== *)
theory Builder_Props
  imports Graph_Builder
begin

text \<open>
  What the graph builder guarantees. A locale holds what every stage after the registration of the nodes keeps: the stages
  only change fields of nodes through \<open>set_node\<close>, add edges and add the end nodes of compensation handlers, so a property
  that these three keep holds of the finished graph. It is interpreted for the well-formedness of the graph, for the nesting of scopes and
  for the presence of the sequence flows.
\<close>

subsection \<open>The map of nodes\<close>

definition node_keys :: "graph \<Rightarrow> string set" where
  "node_keys g = dom (map_of g)"

lemma map_fst_set_node [simp]: "map fst (set_node i f g) = map fst g"
  by (simp add: set_node_def case_prod_beta)

lemma map_of_set_node: "map_of (set_node i f g) k = map_option (if k = i then f else id) (map_of g k)"
  by (induction g) (auto simp: set_node_def)

lemma map_of_register: "map_of (register n g) = (map_of g)(ID n \<mapsto> n)"
  by (simp add: register_def update_conv')

lemma node_keys_simps [simp]:
  "node_keys (set_node i f g) = node_keys g" "node_keys (register n g) = insert (ID n) (node_keys g)"
  by (auto simp: node_keys_def map_of_set_node map_of_register dom_def)

lemma node_keys_add [simp]: "node_keys (add_out i e g) = node_keys g" "node_keys (add_in i src g) = node_keys g"
  by (simp_all add: add_out_def add_in_def)

lemma distinct_register: "distinct (map fst g) \<Longrightarrow> distinct (map fst (register n g))"
  unfolding register_def by (rule distinct_update)

text \<open>Every node is under its identifier, and its outgoing flows begin at it and end at a node.\<close>

definition node_ok :: "string set \<Rightarrow> string \<Rightarrow> Node \<Rightarrow> bool" where
  "node_ok K k n \<longleftrightarrow> ID n = k \<and> (\<forall>f \<in> set (Outgoing n). SourceRef f = k \<and> TargetRef f \<in> K)"

definition graph_wf :: "graph \<Rightarrow> bool" where
  "graph_wf g \<longleftrightarrow> distinct (map fst g) \<and> (\<forall>k n. map_of g k = Some n \<longrightarrow> node_ok (node_keys g) k n)"

lemma graph_wf_Nil [simp]: "graph_wf []"
  by (simp add: graph_wf_def)

lemma graph_wf_ID: "graph_wf g \<Longrightarrow> map_of g k = Some n \<Longrightarrow> ID n = k"
  by (simp add: graph_wf_def node_ok_def)

lemma graph_wf_node: "graph_wf g \<Longrightarrow> map_of g k = Some n \<Longrightarrow> node_ok (node_keys g) k n"
  unfolding graph_wf_def by blast

lemma graph_wf_set_node:
  "graph_wf g \<Longrightarrow> (\<And>n. map_of g i = Some n \<Longrightarrow> node_ok (node_keys g) i (f n)) \<Longrightarrow> graph_wf (set_node i f g)"
  by (auto simp: graph_wf_def map_of_set_node)

lemma graph_wf_register:
  assumes "graph_wf g" and "Outgoing n = []"
  shows "graph_wf (register n g)"
  using assms by (auto simp: graph_wf_def map_of_register node_ok_def distinct_register)

text \<open>Fields whose change no property below is about.\<close>

definition same_core :: "Node \<Rightarrow> Node \<Rightarrow> bool" where
  "same_core n n' \<longleftrightarrow> ID n' = ID n \<and> Type n' = Type n \<and> ParentScope n' = ParentScope n \<and> Outgoing n' = Outgoing n"

lemma graph_wf_core: "graph_wf g \<Longrightarrow> (\<And>n. map_of g i = Some n \<Longrightarrow> same_core n (f n)) \<Longrightarrow> graph_wf (set_node i f g)"
  by (rule graph_wf_set_node) (fastforce simp: same_core_def graph_wf_def node_ok_def)+

lemma graph_wf_add_out:
  "graph_wf g \<Longrightarrow> TargetRef e \<in> node_keys g \<Longrightarrow> SourceRef e = i \<Longrightarrow> graph_wf (add_out i e g)"
  unfolding add_out_def by (rule graph_wf_set_node) (auto simp: graph_wf_def node_ok_def)

lemma plain_edge_simps [simp]:
  "SourceRef (plain_edge i src tgt c) = src" "TargetRef (plain_edge i src tgt c) = tgt" "flow_ID (plain_edge i src tgt c) = i"
  "flow_Condition (plain_edge i src tgt c) = c"
  by (simp_all add: plain_edge_def)

lemma in_node_keys: "k \<in> node_keys g \<longleftrightarrow> map_of g k \<noteq> None" "map_of g k = Some n \<Longrightarrow> k \<in> node_keys g"
  by (auto simp: node_keys_def)

subsection \<open>What the stages of the builder keep\<close>

locale build_invariant =
  fixes I :: "graph \<Rightarrow> bool"
  assumes wf: "I g \<Longrightarrow> graph_wf g"
    and core: "I g \<Longrightarrow> (\<And>n. map_of g i = Some n \<Longrightarrow> same_core n (f n)) \<Longrightarrow> I (set_node i f g)"
    and out: "I g \<Longrightarrow> TargetRef e \<in> node_keys g \<Longrightarrow> SourceRef e = i \<Longrightarrow> I (add_out i e g)"
    and handler_end: "I g \<Longrightarrow> map_of g i = Some h \<Longrightarrow> I (register (compensated_end h) g)"
begin

lemma kept_add_in: "I g \<Longrightarrow> I (add_in i src g)"
  unfolding add_in_def by (rule core) (auto simp: same_core_def)

lemma kept_in_edge: "I g \<Longrightarrow> i \<in> node_keys g \<Longrightarrow> I (in_edge i inc g)"
  by (auto simp: in_edge_def out split: option.split)

lemma kept_note_in: "I g \<Longrightarrow> I (note_in i inc g)"
  by (auto simp: note_in_def kept_add_in split: option.split)

lemma kept_out_edge: "I g \<Longrightarrow> I (out_edge i dest g)"
  by (auto simp: out_edge_def in_node_keys intro!: kept_add_in out split: option.split)

lemma kept_boundary_flow: "I g \<Longrightarrow> I (boundary_flow i f g)"
  by (auto simp: boundary_flow_def in_node_keys intro!: kept_add_in out split: option.split)

lemma kept_attach_timer: "I g \<Longrightarrow> bt_ID b \<in> node_keys g \<Longrightarrow> I (attach_timer b g)"
  by (auto simp: attach_timer_def intro!: kept_add_in out split: option.split)

end

lemma node_keys_edges [simp]:
  "node_keys (in_edge i inc g) = node_keys g" "node_keys (note_in i inc g) = node_keys g" "node_keys (out_edge i dest g) = node_keys g"
  "node_keys (boundary_flow i f g) = node_keys g" "node_keys (attach_timer b g) = node_keys g"
  by (auto simp: in_edge_def note_in_def out_edge_def boundary_flow_def attach_timer_def split: option.split)

lemma node_keys_fold: "(\<And>x g. node_keys (f x g) = node_keys g) \<Longrightarrow> node_keys (fold f xs g) = node_keys g"
  by (induction xs arbitrary: g) simp_all

lemma node_keys_task_edges [simp]:
  "node_keys (generic_edges t g) = node_keys g" "node_keys (task_edges i incs outs g) = node_keys g"
  "node_keys (user_edges u g) = node_keys g" "node_keys (service_edges s g) = node_keys g"
  "node_keys (boundary_timer_edges fs b g) = node_keys g" "node_keys (boundary_error_edges fs x g) = node_keys g"
  by (simp_all add: generic_edges_def task_edges_def user_edges_def service_edges_def boundary_timer_edges_def boundary_error_edges_def
      node_keys_fold)

lemma fold_kept:
  "(\<And>x g. x \<in> set xs \<Longrightarrow> I g \<Longrightarrow> K \<subseteq> node_keys g \<Longrightarrow> I (f x g)) \<Longrightarrow> (\<And>x g. node_keys (f x g) = node_keys g) \<Longrightarrow> I g \<Longrightarrow>
     K \<subseteq> node_keys g \<Longrightarrow> I (fold f xs g)"
  by (induction xs arbitrary: g) simp_all

context build_invariant
begin

lemma kept_task_edges: "I g \<Longrightarrow> i \<in> node_keys g \<Longrightarrow> I (task_edges i incs outs g)"
proof -
  assume "I g" "i \<in> node_keys g"
  then have "I (fold (in_edge i) incs g)" by (intro fold_kept [where I = I and K = "{i}"] kept_in_edge) simp_all
  then show ?thesis unfolding task_edges_def by (rule fold_kept [where I = I and K = "{}", rotated 2]) (simp_all add: kept_out_edge)
qed

lemma kept_generic_edges: "I g \<Longrightarrow> tk_ID t \<in> node_keys g \<Longrightarrow> I (generic_edges t g)"
proof -
  assume "I g" "tk_ID t \<in> node_keys g"
  then have "I (fold (\<lambda>inc g. note_in (tk_ID t) inc (in_edge (tk_ID t) inc g)) (tk_Incoming t) g)"
    by (intro fold_kept [where I = I and K = "{tk_ID t}"] kept_note_in kept_in_edge) simp_all
  then show ?thesis unfolding generic_edges_def by (rule fold_kept [where I = I and K = "{}", rotated 2]) (simp_all add: kept_out_edge)
qed

lemma kept_boundary_timer_edges: "I g \<Longrightarrow> I (boundary_timer_edges fs b g)"
  unfolding boundary_timer_edges_def
  by (simp add: in_node_keys(1)) (intro impI fold_kept [where I = I and K = "{}"] kept_boundary_flow kept_attach_timer; simp add: in_node_keys(1))

lemma kept_boundary_error_edges: "I g \<Longrightarrow> I (boundary_error_edges fs b g)"
  unfolding boundary_error_edges_def
  by simp (intro conjI impI fold_kept [where I = I and K = "{}"] kept_boundary_flow core; simp add: same_core_def)

lemma kept_add_flow: "I g \<Longrightarrow> add_flow f g = Inr g' \<Longrightarrow> I g'"
  by (auto simp: add_flow_def in_node_keys split: if_splits intro!: kept_add_in out)

end

lemma finishEventSubProcess_core: "finishEventSubProcess sp n = Inr n' \<Longrightarrow> same_core n n'"
  by (auto simp: finishEventSubProcess_def same_core_def Let_def split: list.splits if_splits option.splits)

text \<open>The edges after the sequence flows.\<close>

definition late_edges :: "ProcessBody \<Rightarrow> graph \<Rightarrow> graph" where
  "late_edges p g = fold (boundary_error_edges (SequenceFlows p)) (BoundaryErrorEvents p)
     (fold (boundary_timer_edges (SequenceFlows p)) (BoundaryTimerEvents p)
     (fold service_edges (ServiceTasks p) (fold user_edges (UserTasks p) (fold generic_edges (Tasks p) g))))"

lemma edges_late: "edges p g = (case fold_result add_flow (SequenceFlows p) g of Inl e \<Rightarrow> Inl e | Inr g1 \<Rightarrow> Inr (late_edges p g1))"
  by (simp add: edges_def late_edges_def split: sum.split)

lemma node_keys_late_edges [simp]: "node_keys (late_edges p g) = node_keys g"
  by (simp add: late_edges_def node_keys_fold)

lemma node_keys_add_flow: "add_flow f g = Inr g' \<Longrightarrow> node_keys g' = node_keys g"
  by (auto simp: add_flow_def split: if_splits)

lemma node_keys_add_flows: "fold_result add_flow fs g = Inr g' \<Longrightarrow> node_keys g' = node_keys g"
  by (induction fs arbitrary: g) (auto simp: result_bind_Inr_iff dest: node_keys_add_flow)

lemma node_keys_register_edges: "edges p g = Inr g' \<Longrightarrow> node_keys g' = node_keys g"
  by (auto simp: edges_late node_keys_add_flows split: sum.splits)

context build_invariant
begin

lemma kept_late_edges:
  assumes "I g" and "tk_ID ` set (Tasks p) \<union> ut_ID ` set (UserTasks p) \<union> st_ID ` set (ServiceTasks p) \<subseteq> node_keys g"
  shows "I (late_edges p g)"
proof -
  let ?g2 = "fold generic_edges (Tasks p) g"
  let ?g3 = "fold user_edges (UserTasks p) ?g2"
  let ?g4 = "fold service_edges (ServiceTasks p) ?g3"
  let ?g5 = "fold (boundary_timer_edges (SequenceFlows p)) (BoundaryTimerEvents p) ?g4"
  have "I ?g2" using assms
    by (intro fold_kept [where I = I and K = "node_keys g"] kept_generic_edges) auto
  then have "I ?g3" using assms(2)
    by (intro fold_kept [where I = I and K = "node_keys g" and f = user_edges]) (auto simp: user_edges_def node_keys_fold intro!: kept_task_edges)
  then have "I ?g4" using assms(2)
    by (intro fold_kept [where I = I and K = "node_keys g" and f = service_edges])
      (auto simp: service_edges_def user_edges_def node_keys_fold intro!: kept_task_edges)
  then have "I ?g5" by (rule fold_kept [where I = I and K = "{}", rotated 2]) (simp_all add: kept_boundary_timer_edges)
  then show ?thesis
    unfolding late_edges_def by (rule fold_kept [where I = I and K = "{}", rotated 2]) (simp_all add: kept_boundary_error_edges)
qed

lemma kept_edges:
  assumes "I g" and "edges p g = Inr g'"
    and "tk_ID ` set (Tasks p) \<union> ut_ID ` set (UserTasks p) \<union> st_ID ` set (ServiceTasks p) \<subseteq> node_keys g"
  shows "I g'"
proof -
  obtain g1 where g1: "fold_result add_flow (SequenceFlows p) g = Inr g1" and g': "g' = late_edges p g1"
    using assms(2) by (auto simp: edges_late split: sum.splits)
  have "I g1" using fold_result_invariant [OF _ _ g1, where I = I] assms(1) kept_add_flow by blast
  then show ?thesis unfolding g' using assms(3) node_keys_add_flows [OF g1] by (intro kept_late_edges) simp_all
qed

lemma kept_finish_one: "I g \<Longrightarrow> finish_one sp g = Inr g' \<Longrightarrow> I g'"
  by (auto simp: finish_one_def same_core_def dest: finishEventSubProcess_core intro!: core split: option.splits if_splits sum.splits)

lemma kept_link_throw: "I g \<Longrightarrow> snd ` set catches \<subseteq> node_keys g \<Longrightarrow> link_throw catches i g = Inr g' \<Longrightarrow> I g'"
  unfolding link_throw_def
  by (auto simp: graph_wf_ID [OF wf] in_node_keys(2) dest!: map_of_SomeD intro!: kept_add_in out split: option.splits if_splits)

lemma kept_link_handler:
  assumes "I g" and "link_handler handlerOf i g = Inr g'"
  shows "I g'"
proof (cases "g' = g")
  case False
  then obtain b hid h where "map_of g i = Some b" "map_of g hid = Some h"
    and g': "g' = add_in (ID (compensated_end h)) (ID h) (add_out hid (plain_edge (ID (compensated_end h) @ ''_flow'') (ID h) (ID (compensated_end h)) [])
      (register (compensated_end h) (set_node (AttachedToRef b) (\<lambda>n. n\<lparr>CompensationHandler := ID h\<rparr>) g)))"
    using assms(2) by (auto simp: link_handler_def Let_def split: option.splits if_splits)
  moreover have "ID h = hid" using graph_wf_ID [OF wf [OF assms(1)]] \<open>map_of g hid = Some h\<close> .
  moreover have "I (set_node (AttachedToRef b) (\<lambda>n. n\<lparr>CompensationHandler := ID h\<rparr>) g)"
    using assms(1) by (rule core) (simp add: same_core_def)
  moreover obtain h' where "map_of (set_node (AttachedToRef b) (\<lambda>n. n\<lparr>CompensationHandler := ID h\<rparr>) g) hid = Some h'"
    "compensated_end h' = compensated_end h"
    using \<open>map_of g hid = Some h\<close> by (auto simp: map_of_set_node compensated_end_def)
  ultimately show ?thesis using handler_end unfolding g' by (metis (no_types, lifting) kept_add_in out node_keys_simps(2) insertI1 plain_edge_simps(1,2))
qed (use assms in simp)

lemma kept_linkThrowEvents:
  assumes "I g" and "linkThrowEvents g = Inr g'"
  shows "I g'"
proof -
  obtain catches where c: "link_catches (map snd g) [] = Inr catches" and g': "fold_result (link_throw catches) (map fst g) g = Inr g'"
    using assms(2) by (auto simp: linkThrowEvents_def split: sum.splits)
  have "snd ` set m' \<subseteq> snd ` set m \<union> ID ` set ns" if "link_catches ns m = Inr m'" for ns m m'
    using that by (induction ns m rule: link_catches.induct) (auto split: if_splits)
  from this [OF c] have "snd ` set catches \<subseteq> ID ` snd ` set g" by simp
  also have "\<dots> \<subseteq> node_keys g"
    using wf [OF assms(1)] by (force simp: graph_wf_def node_ok_def node_keys_def dom_map_of_conv_image_fst dest: map_of_is_SomeI)
  finally have t: "snd ` set catches \<subseteq> node_keys g" .
  have keys: "link_throw catches i x = Inr y \<Longrightarrow> node_keys y = node_keys x" for i x y
    by (auto simp: link_throw_def split: option.splits if_splits)
  have "I y \<and> node_keys y = node_keys g" if "I x \<and> node_keys x = node_keys g" "link_throw catches i x = Inr y" for i x y
    using that kept_link_throw [of x catches i y] keys [of i x y] t by simp
  then have "I g' \<and> node_keys g' = node_keys g"
    using fold_result_invariant [OF _ _ g', where I = "\<lambda>x. I x \<and> node_keys x = node_keys g"] assms(1) by blast
  then show ?thesis ..
qed

lemma kept_after_scopes:
  assumes "I g" and "fold_result finish_one subs g = Inr g2" and "linkThrowEvents g2 = Inr g3"
    and "linkCompensationHandlers as g3 = Inr g4"
  shows "I g4"
proof -
  have "I g2" by (rule fold_result_invariant [OF _ _ assms(2), where I = I]) (use assms(1) in \<open>auto intro: kept_finish_one\<close>)
  then have "I g3" using assms(3) by (rule kept_linkThrowEvents)
  then show ?thesis
    using fold_result_invariant [OF _ _ assms(4) [unfolded linkCompensationHandlers_def], where I = I] kept_link_handler by blast
qed

end

lemma BuildGraphFromProcess_stages:
  assumes "BuildGraphFromProcess fold_eq process = Inr g" and "flattenSubProcesses process = (flat, scopeOf, subs)"
  obtains g1 g2 g3 where "edges (with_send_tasks flat) (register_nodes fold_eq (with_send_tasks flat) subs) = Inr g1"
    and "fold_result finish_one subs (stamp_scopes scopeOf g1) = Inr g2" and "linkThrowEvents g2 = Inr g3"
    and "linkCompensationHandlers (Associations (with_send_tasks flat)) g3 = Inr g" and "\<forall>n \<in> set (map snd g). invalid_node n = None"
proof -
  have "validate x = Inr y \<Longrightarrow> x = y \<and> (\<forall>n \<in> set (map snd x). invalid_node n = None)" for x y
    by (auto simp: validate_def List.map_filter_def filter_empty_conv split: list.splits)
  then show ?thesis
    using assms that by (fastforce simp: BuildGraphFromProcess_def result_bind_Inr_iff Let_def finishSubProcesses_def)
qed

subsection \<open>The registered nodes\<close>

text \<open>A node as it is registered: without edges, scope and start.\<close>

definition unlinked :: "Node \<Rightarrow> bool" where
  "unlinked n \<longleftrightarrow> Outgoing n = [] \<and> ParentScope n = [] \<and> StartNodeID n = []"

lemma unlinked_new [simp]: "unlinked (new_node i t)"
  by (simp add: unlinked_def new_node_def)

lemma unlinked_updates [simp]:
  "unlinked (applyIoMapping io n) = unlinked n" "unlinked (apply_assignment a n) = unlinked n" "unlinked (apply_form f n) = unlinked n"
  "unlinked (apply_priority p n) = unlinked n" "unlinked (apply_headers h n) = unlinked n" "unlinked (apply_script sc n) = unlinked n"
  "unlinked (topic_job t n) = unlinked n" "unlinked (zeebe_job td n) = unlinked n" "unlinked (camunda_out fold_eq m n) = unlinked n"
  by (simp_all add: unlinked_def applyIoMapping_def apply_assignment_def apply_form_def apply_priority_def apply_headers_def apply_script_def
      topic_job_def zeebe_job_def camunda_out_def split: option.split)

lemma unlinked_update_fields [simp]:
  "unlinked (n\<lparr>Name := a\<rparr>) = unlinked n" "unlinked (n\<lparr>Type := b\<rparr>) = unlinked n" "unlinked (n\<lparr>TimerDefinition := a\<rparr>) = unlinked n"
  "unlinked (n\<lparr>AssigneeExpr := c\<rparr>) = unlinked n" "unlinked (n\<lparr>CandidateGroupExpr := c\<rparr>) = unlinked n" "unlinked (n\<lparr>FormKey := a\<rparr>) = unlinked n"
  "unlinked (n\<lparr>JobType := c\<rparr>) = unlinked n" "unlinked (n\<lparr>Script := c\<rparr>) = unlinked n" "unlinked (n\<lparr>ScriptFormat := c\<rparr>) = unlinked n"
  "unlinked (n\<lparr>ResultVariable := a\<rparr>) = unlinked n" "unlinked (n\<lparr>DecisionKey := a\<rparr>) = unlinked n" "unlinked (n\<lparr>ErrorCode := a\<rparr>) = unlinked n"
  "unlinked (n\<lparr>SignalRef := a\<rparr>) = unlinked n" "unlinked (n\<lparr>EscalationCode := a\<rparr>) = unlinked n" "unlinked (n\<lparr>CompensateActivity := a\<rparr>) = unlinked n"
  "unlinked (n\<lparr>AttachedToRef := a\<rparr>) = unlinked n" "unlinked (n\<lparr>CancelActivity := d\<rparr>) = unlinked n" "unlinked (n\<lparr>Condition := a\<rparr>) = unlinked n"
  "unlinked (n\<lparr>MessageRef := a\<rparr>) = unlinked n" "unlinked (n\<lparr>MessageCorrelationKey := a\<rparr>) = unlinked n" "unlinked (n\<lparr>LinkName := a\<rparr>) = unlinked n"
  "unlinked (n\<lparr>DefaultFlow := a\<rparr>) = unlinked n" "unlinked (n\<lparr>CalledElement := a\<rparr>) = unlinked n" "unlinked (n\<lparr>InputMappings := m\<rparr>) = unlinked n"
  "unlinked (n\<lparr>PropagateAllChildVariables := d\<rparr>) = unlinked n" "unlinked (n\<lparr>NoParentVariables := d\<rparr>) = unlinked n"
  by (simp_all add: unlinked_def)

lemma unlinked_fold: "(\<And>x n. unlinked (f x n) = unlinked n) \<Longrightarrow> unlinked (fold f xs n) = unlinked n"
  by (induction xs arbitrary: n) simp_all

lemmas node_defs = start_node_def task_node_def user_node_def service_node_def script_node_def rule_node_def end_node_def compensation_node_def
  conditional_node_def escalation_node_def receive_node_def throw_node_def gateway_node_def timer_node_def boundary_timer_node_def
  boundary_error_node_def boundary_message_node_def boundary_signal_node_def call_activity_node_def sub_node_def

lemma unlinked_elements [simp]:
  "unlinked (start_node a)" "unlinked (task_node b)" "unlinked (user_node c)" "unlinked (service_node d)" "unlinked (script_node e)"
  "unlinked (rule_node f)" "unlinked (end_node h)" "unlinked (compensation_node i)" "unlinked (conditional_node i)" "unlinked (escalation_node i)"
  "unlinked (receive_node j)" "unlinked (throw_node k)" "unlinked (gateway_node t l)" "unlinked (timer_node m)" "unlinked (boundary_timer_node n)"
  "unlinked (boundary_error_node p)" "unlinked (boundary_message_node q)" "unlinked (boundary_signal_node r)" "unlinked (call_activity_node fold_eq u)"
  "unlinked (sub_node v)" "unlinked (named_node x y t)"
  by (simp_all add: node_defs named_node_def applyCallActivityExtensions_def Let_def unlinked_fold split: option.split)

lemma unlinked_catch_node: "catch_node e = Some n \<Longrightarrow> unlinked n"
  by (auto simp: catch_node_def Let_def split: if_splits option.splits)

lemma unlinked_nodes: "n \<in> set (nodes_before p) \<union> set (nodes_after fold_eq p subs) \<Longrightarrow> unlinked n"
  by (auto simp: nodes_before_def nodes_after_def List.map_filter_def dest: unlinked_catch_node)

text \<open>The identifiers of the elements that later stages look up.\<close>

lemma ID_updates [simp]:
  "ID (applyIoMapping io n) = ID n" "ID (apply_assignment a n) = ID n" "ID (apply_form f n) = ID n" "ID (apply_priority p n) = ID n"
  "ID (apply_headers h n) = ID n" "ID (new_node i t) = i" "ID (named_node i name t) = i"
  by (simp_all add: applyIoMapping_def apply_assignment_def apply_form_def apply_priority_def apply_headers_def new_node_def named_node_def
      split: option.split)

lemma ID_elements [simp]: "ID (task_node b) = tk_ID b" "ID (user_node c) = ut_ID c" "ID (service_node d) = st_ID d" "ID (sub_node v) = sub_ID v"
  by (simp_all add: node_defs Let_def split: option.split)

lemma start_trigger_keys [simp]: "node_keys (start_trigger s g) = node_keys g"
  by (simp add: start_trigger_def)

lemma node_keys_registers: "node_keys (fold register ns g) = node_keys g \<union> ID ` set ns"
  by (induction ns arbitrary: g) auto

lemma register_nodes_keys:
  "tk_ID ` set (Tasks p) \<union> ut_ID ` set (UserTasks p) \<union> st_ID ` set (ServiceTasks p) \<subseteq> node_keys (register_nodes fold_eq p subs)"
  "sub_ID ` set subs \<subseteq> node_keys (register_nodes fold_eq p subs)"
  by (auto simp: register_nodes_def node_keys_registers node_keys_fold nodes_before_def nodes_after_def image_Un image_image)

definition unlinked_graph :: "graph \<Rightarrow> bool" where
  "unlinked_graph g \<longleftrightarrow> graph_wf g \<and> (\<forall>k n. map_of g k = Some n \<longrightarrow> unlinked n)"

lemma unlinked_registers: "unlinked_graph g \<Longrightarrow> (\<And>n. n \<in> set ns \<Longrightarrow> unlinked n) \<Longrightarrow> unlinked_graph (fold register ns g)"
proof (induction ns arbitrary: g)
  case (Cons n ns)
  have "unlinked_graph (register n g)"
    using Cons.prems by (auto simp: unlinked_graph_def map_of_register unlinked_def intro: graph_wf_register)
  then show ?case using Cons by simp
qed simp

lemma graph_wf_fields:
  "graph_wf g \<Longrightarrow> (\<And>n. ID (f n) = ID n \<and> Outgoing (f n) = Outgoing n) \<Longrightarrow> graph_wf (set_node i f g)"
  by (rule graph_wf_set_node) (fastforce simp: graph_wf_def node_ok_def)+

lemma unlinked_set_node:
  assumes "unlinked_graph g" and "\<And>n. ID (f n) = ID n \<and> Outgoing (f n) = Outgoing n \<and> unlinked (f n) = unlinked n"
  shows "unlinked_graph (set_node i f g)"
proof -
  have "graph_wf (set_node i f g)" using assms by (intro graph_wf_fields) (simp_all add: unlinked_graph_def)
  moreover have "unlinked n" if "map_of (set_node i f g) k = Some n" for k n
    using that assms by (auto simp: unlinked_graph_def map_of_set_node simp del: map_of_eq_Some_iff)
  ultimately show ?thesis by (simp add: unlinked_graph_def)
qed

lemma unlinked_start_trigger: "unlinked_graph g \<Longrightarrow> unlinked_graph (start_trigger s g)"
  by (simp add: start_trigger_def unlinked_set_node)

lemma register_nodes_unlinked: "unlinked_graph (register_nodes fold_eq p subs)"
proof -
  have "unlinked_graph (fold register (nodes_before p) [])"
    by (rule unlinked_registers) (auto simp: unlinked_graph_def intro: unlinked_nodes)
  then have "unlinked_graph (fold start_trigger (StartEvents p) (fold register (nodes_before p) []))"
    by (rule fold_kept [where I = unlinked_graph and K = "{}", rotated 2]) (simp_all add: unlinked_start_trigger)
  then show ?thesis unfolding register_nodes_def by (rule unlinked_registers) (auto intro: unlinked_nodes)
qed

subsection \<open>The graph is well-formed\<close>

interpretation wf_graphs: build_invariant graph_wf
proof
  show "graph_wf (register (compensated_end h) g)" if "graph_wf g" for g h
    using that by (rule graph_wf_register) (simp add: compensated_end_def new_node_def)
qed (auto intro: graph_wf_core graph_wf_add_out)

lemma stamp_scopes_wf: "graph_wf g \<Longrightarrow> graph_wf (stamp_scopes scopeOf g)"
  unfolding stamp_scopes_def
  by (rule fold_kept [where I = graph_wf and K = "{}"]) (auto intro: graph_wf_fields split: prod.splits)

lemma valid_gateway: "validateParallelGateway n = None \<Longrightarrow> length (Incoming n) > 0 \<and> length (Outgoing n) > 0 \<and> length (Incoming n) + length (Outgoing n) > 2"
  by (auto simp: validateParallelGateway_def Let_def split: if_splits)

lemma valid_node:
  "invalid_node n = None \<Longrightarrow>
     (Type n = ParallelGatewayType \<longrightarrow> length (Incoming n) > 0 \<and> length (Outgoing n) > 0 \<and> length (Incoming n) + length (Outgoing n) > 2) \<and>
     (Type n = BoundaryTimerEventType \<longrightarrow> AttachedToRef n \<noteq> [])"
  unfolding invalid_node_def using valid_gateway by (auto split: option.splits if_splits)

text \<open>C24: A graph that the builder accepts: nodes stand under their identifiers, every flow begins at the node that holds it and ends at a
  node of the graph, every parallel gateway forks or joins, every boundary timer is attached to something.\<close>

theorem build_graph_wf:
  assumes "BuildGraphFromProcess fold_eq process = Inr g"
  shows "graph_wf g \<and> (\<forall>(i, n) \<in> set g.
    (Type n = ParallelGatewayType \<longrightarrow> length (Incoming n) > 0 \<and> length (Outgoing n) > 0 \<and> length (Incoming n) + length (Outgoing n) > 2) \<and>
    (Type n = BoundaryTimerEventType \<longrightarrow> AttachedToRef n \<noteq> []))"
proof -
  obtain flat scopeOf subs where flat: "flattenSubProcesses process = (flat, scopeOf, subs)" by (metis prod_cases3)
  show ?thesis
  proof (rule BuildGraphFromProcess_stages [OF assms flat])
    fix g1 g2 g3
    assume g1: "edges (with_send_tasks flat) (register_nodes fold_eq (with_send_tasks flat) subs) = Inr g1"
      and g2: "fold_result finish_one subs (stamp_scopes scopeOf g1) = Inr g2" and g3: "linkThrowEvents g2 = Inr g3"
      and g: "linkCompensationHandlers (Associations (with_send_tasks flat)) g3 = Inr g"
      and valid: "\<forall>n \<in> set (map snd g). invalid_node n = None"
    have "graph_wf g1"
      using wf_graphs.kept_edges [OF _ g1] register_nodes_unlinked register_nodes_keys(1) by (auto simp: unlinked_graph_def)
    then have "graph_wf g" using wf_graphs.kept_after_scopes [OF stamp_scopes_wf g2 g3 g] by blast
    moreover have "\<forall>(i, n) \<in> set g. invalid_node n = None" using valid by auto
    ultimately show ?thesis using valid_node by blast
  qed
qed

end
