(* ===== verification/Builder_Scopes.thy ===== *)
theory Builder_Scopes
  imports Builder_Props
begin

text \<open>
  Flows and scopes of a built graph: every sequence flow of the file is an edge, and the scopes of the nodes nest, so the search for
  the catcher of an error ends on every graph the builder makes.
\<close>

subsection \<open>Every sequence flow is an edge\<close>

text \<open>The identifiers the builder makes up for the ends of compensation handlers.\<close>

definition made_up :: "string \<Rightarrow> bool" where
  "made_up i \<longleftrightarrow> has_suffix i ''__compensated''"

lemma made_up_end [simp]: "made_up (ID (compensated_end h))"
  unfolding made_up_def has_suffix_def compensated_end_def new_node_def by (simp del: rev_append add: rev_append [symmetric]) (simp add: has_prefix_iff)

definition holds_flows :: "(string \<times> Flow) set \<Rightarrow> graph \<Rightarrow> bool" where
  "holds_flows F g \<longleftrightarrow> graph_wf g \<and> (\<forall>(k, e) \<in> F. \<not> made_up k \<longrightarrow> (\<exists>n. map_of g k = Some n \<and> e \<in> set (Outgoing n)))"

lemma holds_flows_set_node:
  "holds_flows F g \<Longrightarrow> graph_wf (set_node i f g) \<Longrightarrow> (\<And>n. map_of g i = Some n \<Longrightarrow> set (Outgoing n) \<subseteq> set (Outgoing (f n))) \<Longrightarrow>
     holds_flows F (set_node i f g)"
  unfolding holds_flows_def map_of_set_node by fastforce

interpretation flows: build_invariant "holds_flows F" for F
proof
  show "graph_wf g" if "holds_flows F g" for g using that by (simp add: holds_flows_def)
  show "holds_flows F (set_node i f g)" if "holds_flows F g" "\<And>n. map_of g i = Some n \<Longrightarrow> same_core n (f n)" for g i f
    using that by (intro holds_flows_set_node graph_wf_core) (auto simp: holds_flows_def same_core_def)
  show "holds_flows F (add_out i e g)" if "holds_flows F g" "TargetRef e \<in> node_keys g" "SourceRef e = i" for g e i
    using that graph_wf_add_out [of g e i] unfolding add_out_def by (intro holds_flows_set_node) (auto simp: holds_flows_def)
  show "holds_flows F (register (compensated_end h) g)" if "holds_flows F g" "map_of g i = Some h" for g i h
  proof -
    have "graph_wf (register (compensated_end h) g)"
      using that(1) by (intro graph_wf_register) (auto simp: holds_flows_def compensated_end_def new_node_def)
    then show ?thesis using that(1) made_up_end [of h] unfolding holds_flows_def map_of_register by fastforce
  qed
qed

definition edge_of :: "SequenceFlow \<Rightarrow> string \<times> Flow" where
  "edge_of f = (sf_SourceRef f, plain_edge (sf_ID f) (sf_SourceRef f) (sf_TargetRef f) (sf_Condition f))"

lemma add_flow_holds: "graph_wf g \<Longrightarrow> add_flow f g = Inr g' \<Longrightarrow> holds_flows {edge_of f} g'"
proof -
  assume wf: "graph_wf g" and f: "add_flow f g = Inr g'"
  obtain n where "map_of g (sf_SourceRef f) = Some n" using f by (auto simp: add_flow_def split: if_splits)
  moreover have "graph_wf g'" using wf_graphs.kept_add_flow [OF wf f] .
  ultimately show ?thesis
    using f by (auto simp: holds_flows_def edge_of_def add_flow_def add_in_def add_out_def map_of_set_node split: if_splits)
qed

lemma holds_flows_Un: "holds_flows (F \<union> F') g \<longleftrightarrow> holds_flows F g \<and> holds_flows F' g"
  by (auto simp: holds_flows_def)

lemma add_flows_hold: "fold_result add_flow fs g = Inr g' \<Longrightarrow> graph_wf g \<Longrightarrow> holds_flows (edge_of ` set fs) g'"
proof (induction fs arbitrary: g)
  case Nil
  then show ?case by (simp add: holds_flows_def)
next
  case (Cons f fs)
  then obtain g1 where g1: "add_flow f g = Inr g1" and g': "fold_result add_flow fs g1 = Inr g'" by (auto simp: result_bind_Inr_iff)
  have "graph_wf g1" using wf_graphs.kept_add_flow [OF Cons.prems(2) g1] .
  then have "holds_flows (edge_of ` set fs) g'" using Cons.IH [OF g'] by blast
  moreover have "holds_flows {edge_of f} g'"
    by (rule fold_result_invariant [OF _ _ g']) (auto intro: flows.kept_add_flow add_flow_holds [OF Cons.prems(2) g1])
  moreover have "edge_of ` set (f # fs) = {edge_of f} \<union> edge_of ` set fs" by simp
  ultimately show ?case by (simp only: holds_flows_Un)
qed

lemma flattened_flows: "set (SequenceFlows (fst (walk_subs sps parent s))) = set (SequenceFlows (fst s)) \<union> (\<Union>b \<in> set (sub_scopes sps). set (SequenceFlows b))"
proof (induction sps parent s rule: walk_subs.induct)
  case (2 ev ext b sps rest parent flat scopeOf subs)
  then show ?case by (simp add: appendScope_def append_elements_def Un_assoc image_Un)
qed simp

lemma stamp_scopes_flows: "holds_flows F g \<Longrightarrow> holds_flows F (stamp_scopes scopeOf g)"
  unfolding stamp_scopes_def
proof (rule fold_kept [where I = "holds_flows F" and K = "{}"])
  fix x g'
  assume "holds_flows F g'"
  then show "holds_flows F ((case x of (i, scope) \<Rightarrow> set_node i (\<lambda>n. n\<lparr>ParentScope := scope\<rparr>)) g')"
    by (cases x) (simp add: holds_flows_set_node graph_wf_fields flows.wf)
qed (auto split: prod.splits)

text \<open>C25: Every sequence flow of the process and of its sub-processes is an outgoing flow of the node it starts from, with its identifier, target
  and condition, and its target is a node. (No element of the file may have the identifier of an end node made up for a
  compensation handler.)\<close>

theorem build_keeps_flows:
  assumes "BuildGraphFromProcess fold_eq process = Inr g" and "b \<in> set (Scopes process)" and "f \<in> set (SequenceFlows b)"
    and "\<not> made_up (sf_SourceRef f)"
  shows "\<exists>n. map_of g (sf_SourceRef f) = Some n \<and> plain_edge (sf_ID f) (sf_SourceRef f) (sf_TargetRef f) (sf_Condition f) \<in> set (Outgoing n) \<and>
    map_of g (sf_TargetRef f) \<noteq> None"
proof -
  obtain flat scopeOf subs where flat: "flattenSubProcesses process = (flat, scopeOf, subs)" by (metis prod_cases3)
  have f: "edge_of f \<in> edge_of ` set (SequenceFlows (with_send_tasks flat))"
    using assms(2,3) flattened_flows [of "p_SubProcesses process" "[]" "(p_Body process, [], [])"] flat
    by (auto simp: Scopes_def flattenSubProcesses_def with_send_tasks_def)
  show ?thesis
  proof (rule BuildGraphFromProcess_stages [OF assms(1) flat])
    fix g1 g2 g3
    assume g1: "edges (with_send_tasks flat) (register_nodes fold_eq (with_send_tasks flat) subs) = Inr g1"
      and g2: "fold_result finish_one subs (stamp_scopes scopeOf g1) = Inr g2" and g3: "linkThrowEvents g2 = Inr g3"
      and g: "linkCompensationHandlers (Associations (with_send_tasks flat)) g3 = Inr g"
    let ?F = "edge_of ` set (SequenceFlows (with_send_tasks flat))"
    obtain g0 where g0: "fold_result add_flow (SequenceFlows (with_send_tasks flat)) (register_nodes fold_eq (with_send_tasks flat) subs) = Inr g0"
      and late: "g1 = late_edges (with_send_tasks flat) g0" using g1 by (auto simp: edges_late split: sum.splits)
    have "holds_flows ?F g0" using add_flows_hold [OF g0] register_nodes_unlinked by (simp add: unlinked_graph_def)
    then have "holds_flows ?F g1"
      unfolding late using node_keys_add_flows [OF g0] register_nodes_keys(1) [of "with_send_tasks flat" fold_eq subs] by (intro flows.kept_late_edges) simp_all
    then have "holds_flows ?F g" using flows.kept_after_scopes [OF stamp_scopes_flows g2 g3 g] by blast
    then obtain n where "graph_wf g" "map_of g (sf_SourceRef f) = Some n" "snd (edge_of f) \<in> set (Outgoing n)"
      using f assms(4) unfolding holds_flows_def by (force simp: edge_of_def)
    moreover from this have "TargetRef (snd (edge_of f)) \<in> node_keys g" using graph_wf_node unfolding node_ok_def by blast
    ultimately show ?thesis by (auto simp: edge_of_def in_node_keys(1))
  qed
qed

subsection \<open>Scopes nest\<close>

text \<open>The sub-processes of a file, outermost first; the identifiers of elements are distinct from theirs, as BPMN requires.\<close>

definition sub_ids :: "Process \<Rightarrow> string list" where
  "sub_ids p = map b_ID (sub_scopes (p_SubProcesses p))"

definition ids_ok :: "Process \<Rightarrow> bool" where
  "ids_ok p \<longleftrightarrow> distinct (sub_ids p) \<and> (\<forall>b \<in> set (sub_scopes (p_SubProcesses p)). set (marked_ids b) \<inter> set (sub_ids p) = {}) \<and>
     (\<forall>i \<in> set (sub_ids p). \<not> made_up i)"

text \<open>\<open>sc\<close> comes before \<open>i\<close>.\<close>

definition before :: "string list \<Rightarrow> string \<Rightarrow> string \<Rightarrow> bool" where
  "before ids sc i \<longleftrightarrow> sc \<in> set (takeWhile (\<lambda>x. x \<noteq> i) ids)"

lemma before_append: "before ids sc i \<Longrightarrow> i \<in> set ids \<Longrightarrow> before (ids @ extra) sc i"
  by (simp add: before_def takeWhile_append1)

lemma before_depth: "before ids sc i \<Longrightarrow> length (takeWhile (\<lambda>x. x \<noteq> sc) ids) < length (takeWhile (\<lambda>x. x \<noteq> i) ids)"
  unfolding before_def by (induction ids) (auto split: if_splits)

text \<open>A scope map names sub-processes seen so far, and for a sub-process an earlier one.\<close>

definition nests :: "string list \<Rightarrow> string set \<Rightarrow> scope_map \<Rightarrow> bool" where
  "nests ids M so \<longleftrightarrow> (\<forall>i sc. map_of so i = Some sc \<longrightarrow> sc \<in> set ids \<and> (i \<in> set ids \<longrightarrow> before ids sc i) \<and> (i \<in> M \<or> i \<in> set ids))"

lemma nests_sub:
  assumes "nests ids M so" and "i \<notin> set ids" and "i \<notin> M" and "parent = [] \<or> parent \<in> set ids"
  shows "nests (ids @ [i]) M (if parent \<noteq> [] then AList.update i parent so else so)"
proof -
  have "before (ids @ [i]) sc i" if "sc \<in> set ids" for sc
    using that assms(2) unfolding before_def by (subst takeWhile_append2) auto
  then show ?thesis
    using assms unfolding nests_def by (auto simp: update_conv' intro: before_append split: if_splits)
qed

lemma nests_marks:
  "nests ids M so \<Longrightarrow> sc \<in> set ids \<Longrightarrow> set xs \<subseteq> M \<Longrightarrow> set xs \<inter> set ids = {} \<Longrightarrow> nests ids M (fold (\<lambda>i. AList.update i sc) xs so)"
proof (induction xs arbitrary: so)
  case (Cons x xs)
  have "nests ids M (AList.update x sc so)" using Cons.prems by (auto simp: nests_def update_conv')
  then show ?case using Cons by simp
qed simp

lemma sub_ID_info [simp]: "sub_ID (sub_info ev ext b parent) = b_ID b"
  by (simp add: sub_info_def)

lemma walk_subs_ids: "map sub_ID (snd (snd (walk_subs sps parent s))) = map sub_ID (snd (snd s)) @ map b_ID (sub_scopes sps)"
  by (induction sps parent s rule: walk_subs.induct) (simp_all add: appendScope_def)

lemma walk_subs_nests:
  assumes "nests (map sub_ID (snd (snd s))) M (fst (snd s))" and "parent = [] \<or> parent \<in> set (map sub_ID (snd (snd s)))"
    and "distinct (map sub_ID (snd (snd s)) @ map b_ID (sub_scopes sps))"
    and "\<forall>b \<in> set (sub_scopes sps). set (marked_ids b) \<subseteq> M" and "M \<inter> (set (map sub_ID (snd (snd s))) \<union> b_ID ` set (sub_scopes sps)) = {}"
  shows "nests (map sub_ID (snd (snd (walk_subs sps parent s)))) M (fst (snd (walk_subs sps parent s)))"
  using assms
proof (induction sps parent s rule: walk_subs.induct)
  case (2 ev ext b sps rest parent flat so subs)
  let ?ids = "map sub_ID subs" and ?so1 = "if parent \<noteq> [] then AList.update (b_ID b) parent so else so"
  let ?so2 = "fold (\<lambda>i. AList.update i (b_ID b)) (marked_ids b) ?so1"
  let ?s1 = "(append_elements flat b, ?so2, subs @ [sub_info ev ext b parent])"
  let ?s2 = "walk_subs sps (b_ID b) ?s1"
  have app: "(append_elements flat b, ?so2) = appendScope b (b_ID b) (flat, ?so1)" by (simp add: appendScope_def)
  have "nests (?ids @ [b_ID b]) M ?so1" using "2.prems" by (intro nests_sub) auto
  then have "nests (?ids @ [b_ID b]) M ?so2" using "2.prems" by (intro nests_marks) auto
  then have "nests (map sub_ID (snd (snd ?s2))) M (fst (snd ?s2))"
  proof (intro "2.IH"(1) [OF refl app])
    show "M \<inter> (set (map sub_ID (snd (snd ?s1))) \<union> b_ID ` set (sub_scopes sps)) = {}"
      "distinct (map sub_ID (snd (snd ?s1)) @ map b_ID (sub_scopes sps))"
      using "2.prems"(3,5) by auto
  qed (use "2.prems"(4) in simp_all)
  moreover have ids: "map sub_ID (snd (snd ?s2)) = ?ids @ b_ID b # map b_ID (sub_scopes sps)" by (simp add: walk_subs_ids)
  ultimately have "nests (map sub_ID (snd (snd (walk_subs rest parent ?s2)))) M (fst (snd (walk_subs rest parent ?s2)))"
  proof (intro "2.IH"(2) [OF refl app])
    show "parent = [] \<or> parent \<in> set (map sub_ID (snd (snd ?s2)))" "distinct (map sub_ID (snd (snd ?s2)) @ map b_ID (sub_scopes rest))"
      "M \<inter> (set (map sub_ID (snd (snd ?s2))) \<union> b_ID ` set (sub_scopes rest)) = {}"
      using "2.prems"(2,3,5) unfolding ids by auto
  qed (use "2.prems"(4) in simp_all)
  then show ?case by (simp add: app [symmetric])
qed simp

text \<open>The same for the nodes of a graph.\<close>

definition scoped :: "string list \<Rightarrow> graph \<Rightarrow> bool" where
  "scoped ids g \<longleftrightarrow> graph_wf g \<and> set ids \<subseteq> node_keys g \<and> (\<forall>i \<in> set ids. \<not> made_up i) \<and>
     (\<forall>k n. map_of g k = Some n \<longrightarrow> ParentScope n \<noteq> [] \<longrightarrow> ParentScope n \<in> set ids \<and> (k \<in> set ids \<longrightarrow> before ids (ParentScope n) k))"

lemma scoped_set_node:
  assumes "scoped ids g" and "graph_wf (set_node i f g)" and "\<And>n. map_of g i = Some n \<Longrightarrow> ParentScope (f n) = ParentScope n"
  shows "scoped ids (set_node i f g)"
proof -
  have "ParentScope n \<in> set ids \<and> (k \<in> set ids \<longrightarrow> before ids (ParentScope n) k)"
    if "map_of (set_node i f g) k = Some n" "ParentScope n \<noteq> []" for k n
    using that assms(1,3) unfolding scoped_def map_of_set_node by (cases "k = i") auto
  then show ?thesis using assms(1,2) unfolding scoped_def by simp
qed

interpretation scopes: build_invariant "scoped ids" for ids
proof
  show "graph_wf g" if "scoped ids g" for g using that by (simp add: scoped_def)
  show "scoped ids (set_node i f g)" if "scoped ids g" "\<And>n. map_of g i = Some n \<Longrightarrow> same_core n (f n)" for g i f
    using that by (intro scoped_set_node graph_wf_core) (auto simp: scoped_def same_core_def)
  show "scoped ids (add_out i e g)" if "scoped ids g" "TargetRef e \<in> node_keys g" "SourceRef e = i" for g e i
    using that graph_wf_add_out [of g e i] unfolding add_out_def by (intro scoped_set_node) (auto simp: scoped_def)
  show "scoped ids (register (compensated_end h) g)" if "scoped ids g" "map_of g i = Some h" for g i h
  proof -
    have "graph_wf (register (compensated_end h) g)"
      using that(1) by (intro graph_wf_register) (auto simp: scoped_def compensated_end_def new_node_def)
    moreover have "ParentScope (compensated_end h) = ParentScope h" by (simp add: compensated_end_def)
    ultimately show ?thesis using that made_up_end [of h] unfolding scoped_def map_of_register by auto
  qed
qed

text \<open>Before the scopes are stamped, no node has one.\<close>

definition unlinked_scopes :: "graph \<Rightarrow> bool" where
  "unlinked_scopes g \<longleftrightarrow> (\<forall>k n. map_of g k = Some n \<longrightarrow> ParentScope n = [])"

lemma map_of_stamp_scopes:
  "map_of (stamp_scopes so g) k = map_option (\<lambda>n. case map_of (rev so) k of None \<Rightarrow> n | Some sc \<Rightarrow> n\<lparr>ParentScope := sc\<rparr>) (map_of g k)"
proof (induction so arbitrary: g)
  case Nil
  then show ?case by (simp add: stamp_scopes_def option.map_ident)
next
  case (Cons x so)
  obtain i sc where x: "x = (i, sc)" by (cases x)
  have "stamp_scopes (x # so) g = stamp_scopes so (set_node i (\<lambda>n. n\<lparr>ParentScope := sc\<rparr>) g)" by (simp add: stamp_scopes_def x)
  then show ?case
    by (cases "map_of g k") (auto simp: Cons.IH x map_of_set_node map_of_append map_add_def split: option.split)
qed

lemma scoped_stamped:
  assumes "unlinked_scopes g" and "graph_wf g" and "distinct (map fst so)" and "nests ids M so" and "set ids \<subseteq> node_keys g" and "\<forall>i \<in> set ids. \<not> made_up i"
  shows "scoped ids (stamp_scopes so g)"
proof -
  have "map_of (rev so) = map_of so" using assms(3) by (rule map_of_rev_distinct)
  then have "ParentScope n \<in> set ids \<and> (k \<in> set ids \<longrightarrow> before ids (ParentScope n) k)"
    if "map_of (stamp_scopes so g) k = Some n" "ParentScope n \<noteq> []" for k n
    using that assms(1,4) unfolding nests_def unlinked_scopes_def map_of_stamp_scopes by (auto split: option.splits)
  moreover have "node_keys (stamp_scopes so g) = node_keys g"
    unfolding stamp_scopes_def by (rule node_keys_fold) (simp split: prod.split)
  ultimately show ?thesis using assms(2,5,6) stamp_scopes_wf unfolding scoped_def by blast
qed

lemma scoped_depth:
  assumes "scoped ids g" and "distinct ids"
  shows "scopes_ok g (\<lambda>i. length (takeWhile (\<lambda>x. x \<noteq> i) ids))"
proof -
  have d: "distinct (map fst g)" using assms(1) by (simp add: scoped_def graph_wf_def)
  have len: "length g = card (node_keys g)"
    using distinct_card [OF d] by (simp add: node_keys_def dom_map_of_conv_image_fst)
  have fin: "finite (node_keys g)" by (simp add: node_keys_def finite_dom_map_of)
  have ids: "set ids \<subseteq> node_keys g" using assms(1) by (simp add: scoped_def)
  show ?thesis
    unfolding scopes_ok_def
  proof (intro conjI ballI; clarify)
    fix i n
    assume n: "(i, n) \<in> set g" and scope: "ParentScope n \<noteq> []"
    have "map_of g i = Some n" using n d by simp
    then have in_ids: "ParentScope n \<in> set ids" and b: "i \<in> set ids \<longrightarrow> before ids (ParentScope n) i"
      using assms(1) scope unfolding scoped_def by blast+
    show "length (takeWhile (\<lambda>x. x \<noteq> ParentScope n) ids) < length (takeWhile (\<lambda>x. x \<noteq> i) ids)"
    proof (cases "i \<in> set ids")
      case True
      then show ?thesis using b before_depth by blast
    next
      case False
      then have "takeWhile (\<lambda>x. x \<noteq> i) ids = ids" by (subst takeWhile_eq_all_conv) blast
      then have "before ids (ParentScope n) i" using in_ids unfolding before_def by (simp only:)
      then show ?thesis by (rule before_depth)
    qed
  next
    fix i n
    assume n: "(i, n) \<in> set g"
    then have i: "i \<in> node_keys g" by (force simp: node_keys_def dom_map_of_conv_image_fst)
    show "length (takeWhile (\<lambda>x. x \<noteq> i) ids) < length g"
    proof (cases "i \<in> set ids")
      case True
      then have "length (takeWhile (\<lambda>x. x \<noteq> i) ids) < length ids" by (induction ids) auto
      also have "\<dots> \<le> length g" using card_mono [OF fin ids] distinct_card [OF assms(2)] len by simp
      finally show ?thesis .
    next
      case False
      have "length ids < card (insert i (set ids))" using False distinct_card [OF assms(2)] by simp
      also have "\<dots> \<le> length g" unfolding len using i ids by (intro card_mono [OF fin]) simp
      finally show ?thesis by (meson le_less_trans length_takeWhile_le)
    qed
  qed
qed

lemma distinct_scope_map: "distinct (map fst so) \<Longrightarrow> distinct (map fst (fold (\<lambda>i. AList.update i sc) xs so))"
  by (induction xs arbitrary: so) (simp_all add: distinct_update)

lemma walk_subs_distinct: "distinct (map fst (fst (snd s))) \<Longrightarrow> distinct (map fst (fst (snd (walk_subs sps parent s))))"
  by (induction sps parent s rule: walk_subs.induct) (simp_all add: appendScope_def distinct_scope_map distinct_update)

lemma flattened_scopes:
  assumes "flattenSubProcesses p = (flat, scopeOf, subs)" and "ids_ok p"
  shows "map sub_ID subs = sub_ids p" and "distinct (map fst scopeOf)"
    and "nests (sub_ids p) (\<Union>b \<in> set (sub_scopes (p_SubProcesses p)). set (marked_ids b)) scopeOf"
proof -
  let ?s = "(p_Body p, [], []) :: flattened" and ?M = "\<Union>b \<in> set (sub_scopes (p_SubProcesses p)). set (marked_ids b)"
  have w: "walk_subs (p_SubProcesses p) [] ?s = (flat, scopeOf, subs)" using assms(1) by (simp add: flattenSubProcesses_def)
  show ids: "map sub_ID subs = sub_ids p" using walk_subs_ids [of "p_SubProcesses p" "[]" ?s] by (simp add: w sub_ids_def)
  show "distinct (map fst scopeOf)" using walk_subs_distinct [of ?s "p_SubProcesses p" "[]"] by (simp add: w)
  have "nests (map sub_ID (snd (snd (walk_subs (p_SubProcesses p) [] ?s)))) ?M (fst (snd (walk_subs (p_SubProcesses p) [] ?s)))"
    by (rule walk_subs_nests) (use assms(2) in \<open>auto simp: nests_def ids_ok_def sub_ids_def\<close>)
  then show "nests (sub_ids p) ?M scopeOf" by (simp add: w ids)
qed

lemma built_scoped:
  assumes "BuildGraphFromProcess fold_eq process = Inr g" and "ids_ok process"
  shows "scoped (sub_ids process) g"
proof -
  obtain flat scopeOf subs where flat: "flattenSubProcesses process = (flat, scopeOf, subs)" by (metis prod_cases3)
  let ?p = "with_send_tasks flat"
  note f = flattened_scopes [OF flat assms(2)]
  show ?thesis
  proof (rule BuildGraphFromProcess_stages [OF assms(1) flat])
    fix g1 g2 g3
    assume g1: "edges ?p (register_nodes fold_eq ?p subs) = Inr g1"
      and g2: "fold_result finish_one subs (stamp_scopes scopeOf g1) = Inr g2" and g3: "linkThrowEvents g2 = Inr g3"
      and g: "linkCompensationHandlers (Associations ?p) g3 = Inr g"
    have "scoped [] (register_nodes fold_eq ?p subs)"
      using register_nodes_unlinked [of fold_eq ?p subs] unfolding unlinked_graph_def scoped_def unlinked_def by simp
    then have "scoped [] g1" by (rule scopes.kept_edges [OF _ g1 register_nodes_keys(1)])
    then have "unlinked_scopes g1" "graph_wf g1" unfolding scoped_def unlinked_scopes_def by auto
    moreover have "set (sub_ids process) \<subseteq> node_keys g1"
      using register_nodes_keys(2) [of subs fold_eq ?p] node_keys_register_edges [OF g1] by (simp flip: f(1))
    ultimately have "scoped (sub_ids process) (stamp_scopes scopeOf g1)"
      by (intro scoped_stamped [OF _ _ f(2,3)]) (use assms(2) in \<open>simp_all add: ids_ok_def\<close>)
    then show ?thesis by (rule scopes.kept_after_scopes [OF _ g2 g3 g])
  qed
qed

text \<open>C26: The scopes of a built graph nest, so the search for the catcher of an error and the search for the catcher of an escalation end on it,
  from every element and for every code.\<close>

theorem built_graph_searches_end:
  assumes "BuildGraphFromProcess fold_eq process = Inr g" and "ids_ok process"
  shows "(\<exists>depth. scopes_ok g depth) \<and> FindErrorCatcher g (Suc (Suc (length g))) el c \<noteq> None \<and>
    FindEscalationCatcher g (Suc (Suc (length g))) el c \<noteq> None"
proof -
  have ok: "scopes_ok g (\<lambda>i. length (takeWhile (\<lambda>x. x \<noteq> i) (sub_ids process)))"
    using scoped_depth [OF built_scoped [OF assms]] assms(2) by (simp add: ids_ok_def)
  then show ?thesis
    using err.search_total [OF ok, of c el] esc.search_total [OF ok, of c el]
    unfolding FindErrorCatcher_search FindEscalationCatcher_search by fastforce
qed

subsection \<open>The start events of sub-processes\<close>

definition place_of :: "graph \<Rightarrow> string \<Rightarrow> (NodeType \<times> string) option" where
  "place_of g k = map_option (\<lambda>n. (Type n, ParentScope n)) (map_of g k)"

definition only_start :: "graph \<Rightarrow> string \<Rightarrow> string \<Rightarrow> bool" where
  "only_start g sp st \<longleftrightarrow> place_of g st = Some (StartEventType, sp) \<and>
     (\<forall>k t. place_of g k = Some (t, sp) \<longrightarrow> t \<notin> {StartTimerEventType, MessageStartEventType, SignalStartEventType} \<and> (t = StartEventType \<longrightarrow> k = st))"

lemma only_start_places: "place_of g' = place_of g \<Longrightarrow> only_start g' sp st = only_start g sp st"
  by (simp add: only_start_def)

lemma find_start_rest:
  "find_start sp ns st = Inr st' \<Longrightarrow> st \<noteq> [] \<Longrightarrow>
     st' = st \<and> (\<forall>m \<in> set ns. ParentScope m = sp \<longrightarrow> Type m \<notin> {StartEventType, StartTimerEventType, MessageStartEventType, SignalStartEventType})"
  by (induction ns arbitrary: st) (auto split: if_splits)

lemma find_start_only:
  "find_start sp ns [] = Inr st \<Longrightarrow> st \<noteq> [] \<Longrightarrow> \<forall>m \<in> set ns. ID m \<noteq> [] \<Longrightarrow>
     (\<exists>n \<in> set ns. ID n = st \<and> Type n = StartEventType \<and> ParentScope n = sp) \<and>
     (\<forall>m \<in> set ns. ParentScope m = sp \<longrightarrow> Type m \<notin> {StartTimerEventType, MessageStartEventType, SignalStartEventType} \<and>
        (Type m = StartEventType \<longrightarrow> ID m = st))"
proof (induction ns)
  case (Cons n ns)
  show ?case
  proof (cases "ParentScope n = sp \<and> Type n = StartEventType")
    case True
    then have "find_start sp ns (ID n) = Inr st" "ID n \<noteq> []" using Cons.prems by simp_all
    from find_start_rest [OF this] show ?thesis using True by auto
  next
    case False
    then show ?thesis using Cons by (auto split: if_splits)
  qed
qed simp

lemma only_start_found:
  assumes "graph_wf g" and "[] \<notin> node_keys g" and "find_start sp (map snd g) [] = Inr st" and "st \<noteq> []"
  shows "only_start g sp st"
proof -
  have d: "distinct (map fst g)" using assms(1) by (simp add: graph_wf_def)
  have id: "(k, m) \<in> set g \<Longrightarrow> ID m = k \<and> k \<noteq> []" for k m
    using assms(1,2) d by (auto simp: in_node_keys(1) intro: graph_wf_ID)
  have "\<forall>m \<in> set (map snd g). ID m \<noteq> []" using id by force
  note found = find_start_only [OF assms(3,4) this]
  from found obtain n where "n \<in> set (map snd g)" "ID n = st" "Type n = StartEventType" "ParentScope n = sp" by blast
  moreover from this obtain k where "(k, n) \<in> set g" by auto
  moreover from this have "k = st" using id \<open>ID n = st\<close> by blast
  ultimately have "place_of g st = Some (StartEventType, sp)" using d by (simp add: place_of_def)
  moreover have "t \<notin> {StartTimerEventType, MessageStartEventType, SignalStartEventType} \<and> (t = StartEventType \<longrightarrow> k = st)"
    if k: "place_of g k = Some (t, sp)" for k t
  proof -
    obtain m where "map_of g k = Some m" and m: "Type m = t" "ParentScope m = sp" using k unfolding place_of_def by blast
    then have mem: "(k, m) \<in> set g" by (blast dest: map_of_SomeD)
    then have "m \<in> set (map snd g)" by force
    from found [THEN conjunct2, rule_format, OF this m(2)] show ?thesis unfolding m(1) using id [OF mem] by blast
  qed
  ultimately show ?thesis unfolding only_start_def by blast
qed

lemma finish_one_places:
  assumes "finish_one sp g = Inr g'"
  shows "place_of g' = place_of g" and "node_keys g' = node_keys g" and "\<forall>k. k \<noteq> sub_ID sp \<longrightarrow> map_of g' k = map_of g k"
proof -
  obtain f where g': "g' = set_node (sub_ID sp) f g" and f: "\<And>n. map_of g (sub_ID sp) = Some n \<Longrightarrow> same_core n (f n)"
    using assms by (auto simp: finish_one_def same_core_def dest: finishEventSubProcess_core split: option.splits if_splits sum.splits)
  show "place_of g' = place_of g"
    using f by (cases "map_of g (sub_ID sp)") (auto simp: g' place_of_def map_of_set_node same_core_def fun_eq_iff option.map_id)
  show "node_keys g' = node_keys g" "\<forall>k. k \<noteq> sub_ID sp \<longrightarrow> map_of g' k = map_of g k"
    by (auto simp: g' map_of_set_node option.map_id)
qed

lemma finish_others:
  "fold_result finish_one ys s = Inr t \<Longrightarrow> only_start s i st \<Longrightarrow> i \<notin> sub_ID ` set ys \<Longrightarrow> only_start t i st \<and> map_of t i = map_of s i"
proof (induction ys arbitrary: s)
  case (Cons y ys)
  then obtain s1 where s1: "finish_one y s = Inr s1" and t: "fold_result finish_one ys s1 = Inr t" by (auto simp: result_bind_Inr_iff)
  have "map_of s1 i = map_of s i" using finish_one_places(3) [OF s1] Cons.prems(3) by simp
  moreover have "only_start s1 i st" using Cons.prems(2) only_start_places [OF finish_one_places(1) [OF s1]] by simp
  ultimately show ?case using Cons.IH [OF t] Cons.prems(3) by simp
qed simp

text \<open>After the sub-processes are finished, every embedded one knows its start event: the only one in its scope, and a plain one. A sub-process
  without one, with several or with a timer, message or signal start is refused.\<close>

theorem finishSubProcesses_starts:
  assumes "finishSubProcesses scopeOf subs g = Inr g'" and "graph_wf g" and "[] \<notin> node_keys g"
    and "\<forall>k n. map_of g k = Some n \<longrightarrow> StartNodeID n = []" and "distinct (map sub_ID subs)"
    and "sp \<in> set subs" and "\<not> sub_Event sp"
  shows "\<exists>n. map_of g' (sub_ID sp) = Some n \<and> only_start g' (sub_ID sp) (StartNodeID n)"
proof -
  have "\<exists>n. map_of g' (sub_ID sp) = Some n \<and> only_start g' (sub_ID sp) (StartNodeID n)"
    if "fold_result finish_one subs h = Inr g'" "graph_wf h" "[] \<notin> node_keys h"
      "\<forall>x \<in> set subs. \<forall>n. map_of h (sub_ID x) = Some n \<longrightarrow> StartNodeID n = []" for h
    using that assms(5,6)
  proof (induction subs arbitrary: h)
    case (Cons x subs)
    then obtain h1 where h1: "finish_one x h = Inr h1" and rest: "fold_result finish_one subs h1 = Inr g'" by (auto simp: result_bind_Inr_iff)
    note places = finish_one_places [OF h1]
    have wf: "graph_wf h1" using wf_graphs.kept_finish_one [OF Cons.prems(2) h1] .
    show ?case
    proof (cases "x = sp")
      case False
      have "map_of h1 (sub_ID y) = map_of h (sub_ID y)" if "y \<in> set subs" for y
      proof -
        have "sub_ID y \<noteq> sub_ID x" using that Cons.prems(5) by (auto simp: image_iff)
        then show ?thesis using places(3) by blast
      qed
      then show ?thesis using Cons.IH [OF rest wf] Cons.prems(3-6) places(2) False by simp
    next
      case True
      obtain node st where "map_of h (sub_ID sp) = Some node" "find_start (sub_ID sp) (map snd h) (StartNodeID node) = Inr st" "st \<noteq> []"
        and h1': "h1 = set_node (sub_ID sp) (\<lambda>n. n\<lparr>StartNodeID := st\<rparr>) h"
        using h1 True assms(7) by (auto simp: finish_one_def split: option.splits if_splits sum.splits)
      then have "only_start h (sub_ID sp) st" using only_start_found [OF Cons.prems(2,3)] Cons.prems(4) True by simp
      then have start: "only_start h1 (sub_ID sp) st" using only_start_places [OF places(1)] by simp
      have n: "map_of h1 (sub_ID sp) = Some (node\<lparr>StartNodeID := st\<rparr>)" using \<open>map_of h (sub_ID sp) = Some node\<close> by (simp add: h1' map_of_set_node)
      from finish_others [OF rest start] show ?thesis using Cons.prems(5) True n by simp
    qed
  qed simp
  moreover have "\<forall>x \<in> set subs. \<forall>n. map_of (stamp_scopes scopeOf g) (sub_ID x) = Some n \<longrightarrow> StartNodeID n = []"
    using assms(4) by (auto simp: map_of_stamp_scopes split: option.splits)
  moreover have "node_keys (stamp_scopes scopeOf g) = node_keys g"
    unfolding stamp_scopes_def by (rule node_keys_fold) (simp split: prod.split)
  ultimately show ?thesis using assms(1-3) stamp_scopes_wf unfolding finishSubProcesses_def by simp
qed

subsection \<open>An example\<close>

definition empty_body :: ProcessBody where
  "empty_body = \<lparr>b_ID = [], b_Name = [], StartEvents = [], UserTasks = [], Tasks = [], ServiceTasks = [], EndEvents = [], ExclusiveGateways = [],
     ParallelGateways = [], InclusiveGateways = [], IntermediateCatchEvents = [], SequenceFlows = [], ScriptTasks = [], BusinessRuleTasks = [],
     CallActivities = [], EventBasedGateways = [], IntermediateTimerEvents = [], BoundaryTimerEvents = [], BoundaryErrorEvents = [],
     BoundaryMessageEvents = [], BoundarySignalEvents = [], BoundaryEvents = [], ManualTasks = [], SendTasks = [], ReceiveTasks = [],
     IntermediateThrowEvents = [], Associations = []\<rparr>"

definition plain_start :: "string \<Rightarrow> StartEvent" where
  "plain_start i = \<lparr>se_ID = i, se_TimerEvent = None, se_Message = None, se_Timer = None, se_MessageName = [], se_MessageCorrelationKey = [],
     se_Error = None, se_Signal = None, se_IsInterrupting = [], se_ErrorCode = [], se_SignalName = [], se_Escalation = None, se_EscalationCode = [],
     se_Conditional = None\<rparr>"

definition plain_end :: "string \<Rightarrow> EndEvent" where
  "plain_end i = \<lparr>ee_ID = i, ee_Name = [], ee_Terminate = False, ee_Error = None, ee_Signal = None, ee_ErrorCode = [], ee_SignalName = [],
     ee_Escalation = None, ee_EscalationCode = [], ee_Compensate = None, ee_Message = None, ee_Ext = None, ee_CamundaTopic = []\<rparr>"

definition seq_flow :: "string \<Rightarrow> string \<Rightarrow> string \<Rightarrow> SequenceFlow" where
  "seq_flow i src tgt = \<lparr>sf_ID = i, sf_SourceRef = src, sf_TargetRef = tgt, sf_Condition = []\<rparr>"

definition sub_body :: ProcessBody where
  "sub_body = empty_body\<lparr>b_ID := ''sub'', StartEvents := [plain_start ''in''], EndEvents := [plain_end ''out''],
     SequenceFlows := [seq_flow ''f3'' ''in'' ''out'']\<rparr>"

definition sub_example :: Process where
  "sub_example = Process (empty_body\<lparr>b_ID := ''p'', StartEvents := [plain_start ''start''], EndEvents := [plain_end ''end''],
     SequenceFlows := [seq_flow ''f1'' ''start'' ''sub'', seq_flow ''f2'' ''sub'' ''end'']\<rparr>) [SubProcess False None sub_body []]"

lemma sub_example_builds:
  "(case BuildGraphFromProcess (=) sub_example of Inr g \<Rightarrow> map fst g = [''start'', ''in'', ''end'', ''out'', ''sub''] | _ \<Rightarrow> False)"
  by code_simp

lemma sub_example_ok: "ids_ok sub_example"
  by code_simp

lemma sub_example_graph: obtains g where "BuildGraphFromProcess (=) sub_example = Inr g"
  using sub_example_builds by (cases "BuildGraphFromProcess (=) sub_example") auto

theorem build_graph_wf_witness: "\<exists>g. BuildGraphFromProcess (=) sub_example = Inr g \<and> graph_wf g"
  by (rule sub_example_graph) (use build_graph_wf in blast)

theorem build_keeps_flows_witness:
  "\<exists>g n. BuildGraphFromProcess (=) sub_example = Inr g \<and> map_of g ''in'' = Some n \<and> plain_edge ''f3'' ''in'' ''out'' [] \<in> set (Outgoing n)"
proof (rule sub_example_graph)
  fix g
  assume g: "BuildGraphFromProcess (=) sub_example = Inr g"
  have "sub_body \<in> set (Scopes sub_example)" "seq_flow ''f3'' ''in'' ''out'' \<in> set (SequenceFlows sub_body)"
    "\<not> made_up (sf_SourceRef (seq_flow ''f3'' ''in'' ''out''))"
    by (simp_all add: Scopes_def sub_example_def sub_body_def seq_flow_def made_up_def has_suffix_def)
  from build_keeps_flows [OF g this] g show ?thesis by (auto simp: seq_flow_def)
qed

theorem built_graph_searches_end_witness:
  "\<exists>g. BuildGraphFromProcess (=) sub_example = Inr g \<and> FindErrorCatcher g (Suc (Suc (length g))) ''in'' ''E'' \<noteq> None"
  by (rule sub_example_graph) (use built_graph_searches_end [OF _ sub_example_ok] in blast)

theorem finishSubProcesses_starts_witness:
  "\<exists>g n. finishSubProcesses [(''in'', ''sub''), (''out'', ''sub'')] [sub_info False None sub_body []]
     (register_nodes (=) (append_elements (p_Body sub_example) sub_body) [sub_info False None sub_body []]) = Inr g \<and>
     map_of g ''sub'' = Some n \<and> only_start g ''sub'' (StartNodeID n)"
proof -
  let ?s = "sub_info False None sub_body []" and ?so = "[(''in'', ''sub''), (''out'', ''sub'')]"
  let ?g = "register_nodes (=) (append_elements (p_Body sub_example) sub_body) [?s]"
  have "case finishSubProcesses ?so [?s] ?g of Inl _ \<Rightarrow> False | Inr _ \<Rightarrow> True" "map_of ?g [] = None" by code_simp+
  moreover have "\<forall>k n. map_of ?g k = Some n \<longrightarrow> StartNodeID n = []" "graph_wf ?g"
    using register_nodes_unlinked [of "(=)" "append_elements (p_Body sub_example) sub_body" "[?s]"] unfolding unlinked_graph_def unlinked_def by blast+
  ultimately obtain g where g: "finishSubProcesses ?so [?s] ?g = Inr g" and wf: "graph_wf ?g" and names: "[] \<notin> node_keys ?g"
    and fresh: "\<forall>k n. map_of ?g k = Some n \<longrightarrow> StartNodeID n = []"
    by (auto simp: in_node_keys(1) split: sum.splits)
  have "\<exists>n. map_of g (sub_ID ?s) = Some n \<and> only_start g (sub_ID ?s) (StartNodeID n)"
    by (rule finishSubProcesses_starts [OF g wf names fresh]) (simp_all add: sub_info_def)
  then show ?thesis using g by (auto simp: sub_body_def)
qed

end
