(* ===== verification/Runtime_Base.thy ===== *)
theory Runtime_Base
  imports Gateways Decision_Table Timer
begin

text \<open>
  The ground the element executors of \<open>internal/runtime\<close> stand on: the state a run works on, how it stops, and
  the operations the executors share.

  A run is a function on the \<open>world\<close>: the tables, the caches of graphs and the number of UUIDs drawn. It
  stops with an error of Go, with a panic (or without ever returning from an evaluation), or because the fuel
  of the interpreter is used up (\<open>OutOfFuel\<close>, a run that has not returned). A failed transaction
  puts the tables back; what was committed before stays. The texts that errors are wrapped in,
  the audit log, the event log, the notifications of listeners and the locks are left out: a run is alone on
  the database. Instances are archived in the background (the default \<open>ARCHIVE_MODE\<close>), so a run removes no
  execution.

  What is not in the repository or not in these tables is in the environment: \<open>uuid.New\<close> and \<open>uuid.Parse\<close>, the
  deployed processes and decisions, the clock, JSON text, the CEL library and the libraries of the FEEL
  interpreter. FEEL itself is the interpreter of \<^verbatim>\<open>Feel_Api\<close>; a result that is not finite has no JSON form and is an
  error. An expression of a timer or of a correlation key whose evaluation does not return is an error, too.
\<close>

subsection \<open>Runs\<close>

datatype stop = Error go_error | Panic | OutOfFuel

record world =
  tables :: db
  caches :: graph_cache
  drawn :: nat

type_synonym 'a eng = "world \<Rightarrow> (stop + 'a) \<times> world"

definition ret :: "'a \<Rightarrow> 'a eng" where
  "ret a = (\<lambda>w. (Inr a, w))"

definition halt :: "stop \<Rightarrow> 'a eng" where
  "halt s = (\<lambda>w. (Inl s, w))"

definition bindE :: "'a eng \<Rightarrow> ('a \<Rightarrow> 'b eng) \<Rightarrow> 'b eng" where
  "bindE m f = (\<lambda>w. case m w of (Inl s, w') \<Rightarrow> (Inl s, w') | (Inr a, w') \<Rightarrow> f a w')"

definition thenE :: "'a eng \<Rightarrow> 'b eng \<Rightarrow> 'b eng" where
  "thenE m k = bindE m (\<lambda>_. k)"

definition read :: "(db \<Rightarrow> 'a) \<Rightarrow> 'a eng" where
  "read f = (\<lambda>w. (Inr (f (tables w)), w))"

definition upd :: "(db \<Rightarrow> db) \<Rightarrow> unit eng" where
  "upd f = (\<lambda>w. (Inr (), w\<lparr>tables := f (tables w)\<rparr>))"

text \<open>The handlers of \<open>error\<close> values: an error of the engine's own is an error of the run; a nil pointer is a panic.\<close>

fun flow_stop :: "flow_error \<Rightarrow> stop" where
  "flow_stop (ConditionEvaluationFailed f EvalPanic) = Panic"
| "flow_stop e = Error (flow_go_error e)"

fun engine_stop :: "engine_error \<Rightarrow> stop" where
  "engine_stop NilDereference = Panic"
| "engine_stop (FlowFailed e) = flow_stop e"
| "engine_stop e = Error (GoError ''engine'')"

fun eval_stop :: "(go_error \<Rightarrow> go_error) \<Rightarrow> eval_error \<Rightarrow> stop" where
  "eval_stop wrap EvalPanic = Panic"
| "eval_stop wrap e = Error (wrap (eval_go_error e))"

definition lift :: "('e \<Rightarrow> stop) \<Rightarrow> 'e + 'a \<Rightarrow> 'a eng" where
  "lift f r = (case r of Inl e \<Rightarrow> halt (f e) | Inr a \<Rightarrow> ret a)"

definition fail :: "string \<Rightarrow> 'a eng" where
  "fail m = halt (Error (GoError m))"

definition try_upd :: "(db \<Rightarrow> engine_error + db) \<Rightarrow> unit eng" where
  "try_upd f = bindE (read f) (\<lambda>r. bindE (lift engine_stop r) (\<lambda>d. upd (\<lambda>_. d)))"

definition transaction :: "'a eng \<Rightarrow> 'a eng" where
  "transaction m = (\<lambda>w. case m w of (Inl s, w') \<Rightarrow> (Inl s, w'\<lparr>tables := tables w\<rparr>) | (Inr a, w') \<Rightarrow> (Inr a, w'))"

text \<open>\<open>err\<close> looked at by the caller: the error is a value.\<close>

definition attempt :: "'a eng \<Rightarrow> (go_error + 'a) eng" where
  "attempt m = (\<lambda>w. case m w of (Inl (Error e), w') \<Rightarrow> (Inr (Inl e), w') | (Inl s, w') \<Rightarrow> (Inl s, w') | (Inr a, w') \<Rightarrow> (Inr (Inr a), w'))"

fun each :: "('a \<Rightarrow> unit eng) \<Rightarrow> 'a list \<Rightarrow> unit eng" where
  "each f [] = ret ()"
| "each f (x # xs) = thenE (f x) (each f xs)"

text \<open>A walk over the execution tree that does not return.\<close>

definition returned :: "'a option \<Rightarrow> 'a eng" where
  "returned r = (case r of None \<Rightarrow> halt OutOfFuel | Some a \<Rightarrow> ret a)"

definition whenE :: "bool \<Rightarrow> unit eng \<Rightarrow> unit eng" where
  "whenE b m = (if b then m else ret ())"

subsection \<open>The environment\<close>

record env =
  e_fresh :: "nat \<Rightarrow> uuid"
  e_parse :: "string \<Rightarrow> uuid option"
  e_deployed :: "uuid \<Rightarrow> graph option"
  e_latest :: "string \<Rightarrow> string \<Rightarrow> (uuid \<times> graph option) option"
  e_signal_starts :: "string \<Rightarrow> (uuid \<times> graph \<times> string option \<times> string) list"
  e_decisions :: "string \<Rightarrow> DecisionTable option option"
  e_victims :: "graph_cache \<Rightarrow> uuid \<times> uuid"
  e_go :: golib
  e_time :: timelib
  e_now :: gotime
  e_now_text :: string
  e_mode :: FeelMode
  e_cel :: cel_engine
  e_marshal :: "vars \<Rightarrow> string"
  e_format :: "rat \<Rightarrow> string"
  e_equal_fold :: "string \<Rightarrow> string \<Rightarrow> bool"

definition draw :: "env \<Rightarrow> uuid eng" where
  "draw E = (\<lambda>w. (Inr (e_fresh E (drawn w)), w\<lparr>drawn := Suc (drawn w)\<rparr>))"

text \<open>A time as the tables hold it, in milliseconds.\<close>

definition millis :: "gotime \<Rightarrow> int" where
  "millis t = instant t div 1000000"

fun goval_json :: "goval \<Rightarrow> json option" where
  "goval_json GNil = Some JNull"
| "goval_json (GBool b) = Some (JBool b)"
| "goval_json (GFloat x) = (case x of Fin r \<Rightarrow> Some (JNum r) | _ \<Rightarrow> None)"
| "goval_json (GStr s) = Some (JStr s)"
| "goval_json (GList xs) = map_option JList (those (map goval_json xs))"
| "goval_json (GMap m) = map_option JObj (those (map (\<lambda>(k, v). map_option (Pair k) (goval_json v)) m))"

definition json_result :: "eval_error + goval \<Rightarrow> eval_error + json" where
  "json_result r = (case r of Inl e \<Rightarrow> Inl e
     | Inr v \<Rightarrow> (case goval_json v of None \<Rightarrow> Inl (EvalFailed ''not finite'') | Some j \<Rightarrow> Inr j))"

text \<open>\<open>feel.Evaluate\<close> and \<open>feel.EvaluateBool\<close>: the answer does not depend on the cache (\<open>cache_interleavings\<close>).\<close>

definition feel_Evaluate :: "env \<Rightarrow> string \<Rightarrow> vars \<Rightarrow> eval_error + json" where
  "feel_Evaluate E x vs = json_result (engine_error_of (fst (Evaluate (e_go E) [] x vs)))"

definition feel_EvaluateBool :: "env \<Rightarrow> string \<Rightarrow> vars \<Rightarrow> eval_error + bool" where
  "feel_EvaluateBool E x vs = engine_error_of (fst (EvaluateBool (e_go E) [] x vs))"

definition condition :: "env \<Rightarrow> evaluator" where
  "condition E = EvaluateCondition (e_mode E) (e_cel E) (feel_EvaluateBool E)"

definition value_of :: "env \<Rightarrow> string \<Rightarrow> vars \<Rightarrow> eval_error + json" where
  "value_of E = EvaluateValue (e_mode E) (e_cel E) (feel_Evaluate E)"

definition io_mappings :: "env \<Rightarrow> IOMapping list \<Rightarrow> vars \<Rightarrow> vars eng" where
  "io_mappings E ms vs = lift (eval_stop id) (EvaluateIOMappings (value_of E) vs ms [])"

definition resolve :: "env \<Rightarrow> Node \<Rightarrow> vars \<Rightarrow> string eng" where
  "resolve E node vs = lift flow_stop (ResolveNext (condition E) node vs)"

definition trimFEEL :: "string \<Rightarrow> string" where
  "trimFEEL s = trim_prefix (trim_space s) ''=''"

text \<open>\<open>resolveExpression\<close>: the text of a value, empty for an error.\<close>

definition resolveExpression :: "env \<Rightarrow> string \<Rightarrow> vars \<Rightarrow> string eng" where
  "resolveExpression E x vs =
     (case value_of E x vs of
        Inl EvalPanic \<Rightarrow> halt Panic
      | Inl _ \<Rightarrow> ret []
      | Inr JNull \<Rightarrow> ret []
      | Inr v \<Rightarrow> ret (Sprintv (e_go E) (json_goval v)))"

definition load_graph :: "env \<Rightarrow> db \<Rightarrow> uuid \<Rightarrow> (uuid \<times> graph) option" where
  "load_graph E d inst =
     Option.bind (find (\<lambda>p. pi_id p = inst) (process_instances d))
       (\<lambda>p. map_option (Pair (pi_definition p)) (e_deployed E (pi_definition p)))"

definition graph_of :: "env \<Rightarrow> uuid \<Rightarrow> graph eng" where
  "graph_of E inst = (\<lambda>w.
     case GetProcessGraphByInstanceID (load_graph E (tables w)) (e_victims E (caches w)) inst (caches w) of
       (None, c) \<Rightarrow> (Inl (Error (GoError ''graph'')), w\<lparr>caches := c\<rparr>)
     | (Some g, c) \<Rightarrow> (Inr g, w\<lparr>caches := c\<rparr>))"

definition scope_view :: "env \<Rightarrow> uuid \<Rightarrow> uuid \<Rightarrow> db \<Rightarrow> vars" where
  "scope_view E inst eid d = VariablesForExecution inst (VariableScopeOf (e_parse E) inst eid d) d"

definition finished :: "instance_status \<Rightarrow> bool" where
  "finished s \<longleftrightarrow> s = InstanceCompleted \<or> s = InstanceTerminated"

end
