(* ===== verification/Runtime_Ops.thy ===== *)
theory Runtime_Ops
  imports Runtime_Base
begin

text \<open>
  The operations the element executors share: arming timers and subscriptions (\<open>createTimerTx\<close>, \<open>messages.go\<close>,
  \<open>conditional.go\<close>), boundary events and event sub-processes (\<open>executor_boundary.go\<close>,
  \<open>executor_event_subprocess.go\<close>), moving on (\<open>advance\<close>), the variables an activity hands back
  (\<open>activity_output.go\<close>), incidents, the call activity behind an instance (\<open>call_activity_errors.go\<close>) and
  the end of an instance from outside (\<open>process_lifecycle_service.go\<close>).
\<close>

subsection \<open>Timers and subscriptions\<close>

definition resolveTimer :: "env \<Rightarrow> string \<Rightarrow> uuid \<Rightarrow> uuid \<Rightarrow> db \<Rightarrow> Timer option" where
  "resolveTimer E raw inst eid d =
     ParseXML (e_go E) (e_time E) raw (Some (\<lambda>x. case feel_Evaluate E x (scope_view E inst eid d) of Inr (JStr s) \<Rightarrow> Some s | _ \<Rightarrow> None))"

definition timer_row :: "env \<Rightarrow> Timer \<Rightarrow> string \<Rightarrow> string \<Rightarrow> string" where
  "timer_row E t target event = e_marshal E
     [(''target_node_id'', JStr target), (''event_type'', JStr event), (''is_cycle'', JBool (IsCycle t)),
      (''total_cycles'', JNum (of_int (Repetitions t))), (''current_cycle'', JNum 0), (''timer_kind'', JStr (Kind t)),
      (''timer_value'', JStr (tRaw t))]"

definition createTimerTx :: "env \<Rightarrow> uuid \<Rightarrow> uuid \<Rightarrow> string \<Rightarrow> string \<Rightarrow> string \<Rightarrow> unit eng" where
  "createTimerTx E inst eid raw target event =
     bindE (read (resolveTimer E raw inst eid)) (\<lambda>r. case r of
       None \<Rightarrow> fail ''timer''
     | Some t \<Rightarrow> (case Timer_First t (e_now E) of
         None \<Rightarrow> ret ()
       | Some due \<Rightarrow> bindE (draw E) (\<lambda>tid.
           try_upd (CreateTimerWithCycleTx tid inst (Some eid) (millis due) event (timer_row E t target event) 0 (Repetitions t) []))))"

definition add_subscription :: "EventSubscription \<Rightarrow> db \<Rightarrow> db" where
  "add_subscription s d = d\<lparr>event_subscriptions := event_subscriptions d @ [s]\<rparr>"

definition correlationKeyValue :: "env \<Rightarrow> json \<Rightarrow> string" where
  "correlationKeyValue E v =
     (case v of
        JNull \<Rightarrow> []
      | JStr s \<Rightarrow> s
      | JNum x \<Rightarrow> if x = of_int \<lfloor>x\<rfloor> \<and> \<bar>x\<bar> < 1000000000000000 then int_dec \<lfloor>x\<rfloor> else e_format E x
      | _ \<Rightarrow> Sprintv (e_go E) (json_goval v))"

definition messageCorrelationKey :: "env \<Rightarrow> Node \<Rightarrow> uuid \<Rightarrow> uuid \<Rightarrow> db \<Rightarrow> string" where
  "messageCorrelationKey E node inst eid d =
     (if trim_space (MessageCorrelationKey node) = [] then []
      else case feel_Evaluate E (trimFEEL (MessageCorrelationKey node)) (scope_view E inst eid d) of
        Inl _ \<Rightarrow> [] | Inr v \<Rightarrow> correlationKeyValue E v)"

definition insertMessageSubscriptionTx :: "env \<Rightarrow> uuid \<Rightarrow> uuid \<Rightarrow> string \<Rightarrow> string \<Rightarrow> string \<Rightarrow> unit eng" where
  "insertMessageSubscriptionTx E inst eid name key target =
     bindE (draw E) (\<lambda>sid. upd (add_subscription \<lparr>sub_id = sid, sub_instance = inst, sub_execution = Some eid, sub_type = ''message'',
       sub_name = name, sub_correlation = Some key, sub_target = (if target \<noteq> [] then Some target else None),
       sub_consumed = False, sub_last = None\<rparr>))"

text \<open>A message subscription of a node, with the correlation key evaluated in its scope.\<close>

definition subscribe_message :: "env \<Rightarrow> Node \<Rightarrow> uuid \<Rightarrow> uuid \<Rightarrow> string \<Rightarrow> unit eng" where
  "subscribe_message E node inst eid target =
     bindE (read (messageCorrelationKey E node inst eid)) (\<lambda>key. insertMessageSubscriptionTx E inst eid (MessageRef node) key target)"

definition insertSignalSubscriptionTx :: "env \<Rightarrow> uuid \<Rightarrow> uuid \<Rightarrow> string \<Rightarrow> string option \<Rightarrow> unit eng" where
  "insertSignalSubscriptionTx E inst eid name target =
     bindE (draw E) (\<lambda>sid. upd (add_subscription \<lparr>sub_id = sid, sub_instance = inst, sub_execution = Some eid, sub_type = ''signal'',
       sub_name = name, sub_correlation = None, sub_target = target, sub_consumed = False, sub_last = None\<rparr>))"

definition insertConditionalSubscriptionTx :: "env \<Rightarrow> uuid \<Rightarrow> uuid \<Rightarrow> string \<Rightarrow> string \<Rightarrow> bool \<Rightarrow> unit eng" where
  "insertConditionalSubscriptionTx E inst eid cond target lastTrue =
     bindE (draw E) (\<lambda>sid. upd (add_subscription \<lparr>sub_id = sid, sub_instance = inst, sub_execution = Some eid, sub_type = ''conditional'',
       sub_name = cond, sub_correlation = None, sub_target = Some target, sub_consumed = False,
       sub_last = (if lastTrue then Some True else None)\<rparr>))"

subsection \<open>Boundary events\<close>

definition isBoundaryTrigger :: "Node \<Rightarrow> bool" where
  "isBoundaryTrigger n \<longleftrightarrow> Type n \<in> {BoundaryTimerEventType, MessageBoundaryEventType, SignalBoundaryEventType, ConditionalBoundaryEventType}"

definition subscribeBoundaryTx :: "env \<Rightarrow> uuid \<Rightarrow> uuid \<Rightarrow> Node \<Rightarrow> unit eng" where
  "subscribeBoundaryTx E inst trig n =
     (if Type n = BoundaryTimerEventType then createTimerTx E inst trig (TimerDefinition n) (ID n) ''boundary''
      else if Type n = MessageBoundaryEventType then subscribe_message E n inst trig (ID n)
      else if Type n = SignalBoundaryEventType then insertSignalSubscriptionTx E inst trig (SignalRef n) (Some (ID n))
      else if Type n = ConditionalBoundaryEventType then insertConditionalSubscriptionTx E inst trig (Condition n) (ID n) False
      else ret ())"

definition new_execution :: "uuid \<Rightarrow> uuid \<Rightarrow> uuid option \<Rightarrow> string \<Rightarrow> exec_status \<Rightarrow> string \<Rightarrow> Execution" where
  "new_execution eid inst parent el st pid = \<lparr>exec_id = eid, exec_instance = inst, exec_element = el, exec_status = st,
     exec_parent = parent, exec_path = Some pid, exec_is_active = True\<rparr>"

text \<open>An inner instance of a multi-instance activity: its parent waits on the activity itself.\<close>

definition inner_of_body :: "Execution \<Rightarrow> Node \<Rightarrow> db \<Rightarrow> bool" where
  "inner_of_body e activity d =
     (case exec_parent e of
        None \<Rightarrow> False
      | Some p \<Rightarrow> (case find (exec_key (exec_instance e) p) (executions d) of None \<Rightarrow> False | Some x \<Rightarrow> exec_element x = ID activity))"

definition arm_boundary :: "env \<Rightarrow> Execution \<Rightarrow> Node \<Rightarrow> Node \<Rightarrow> unit eng" where
  "arm_boundary E e activity n =
     (if AttachedToRef n \<noteq> ID activity \<or> \<not> isBoundaryTrigger n then ret ()
      else bindE (draw E) (\<lambda>trig.
        thenE (try_upd (CreateExecutionTx (new_execution trig (exec_instance e) None (ID n) ExecWaiting (BoundaryTriggerPathID (ID n) (exec_id e)))))
          (subscribeBoundaryTx E (exec_instance e) trig n)))"

definition armBoundaryEventsTx :: "env \<Rightarrow> graph \<Rightarrow> Execution \<Rightarrow> Node \<Rightarrow> unit eng" where
  "armBoundaryEventsTx E g e activity =
     bindE (read (inner_of_body e activity)) (\<lambda>inner.
       if MultiInstance activity \<noteq> None \<and> inner then ret () else each (arm_boundary E e activity) (map snd g))"

subsection \<open>Event sub-processes\<close>

definition armable :: "Node \<Rightarrow> bool" where
  "armable n \<longleftrightarrow> TriggerType n \<in> {TriggerTimer, TriggerMessage, TriggerSignal, TriggerConditional}"

definition createTriggerExecutionTx :: "env \<Rightarrow> Node \<Rightarrow> uuid \<Rightarrow> uuid option \<Rightarrow> uuid eng" where
  "createTriggerExecutionTx E node inst parent =
     bindE (draw E) (\<lambda>t.
       thenE (try_upd (CreateExecutionTx (new_execution t inst parent (ID node) ExecWaiting (t @ ''_'' @ ID node)))) (ret t))"

definition armTriggerTx :: "env \<Rightarrow> Node \<Rightarrow> uuid \<Rightarrow> uuid option \<Rightarrow> bool \<Rightarrow> unit eng" where
  "armTriggerTx E node inst parent rearmed =
     bindE (createTriggerExecutionTx E node inst parent) (\<lambda>t.
       if TriggerType node = TriggerTimer then createTimerTx E inst t (TimerDefinition node) (ID node) ''eventSubProcess''
       else if TriggerType node = TriggerMessage then subscribe_message E node inst t (ID node)
       else if TriggerType node = TriggerSignal then insertSignalSubscriptionTx E inst t (SignalRef node) (Some (ID node))
       else if TriggerType node = TriggerConditional then insertConditionalSubscriptionTx E inst t (Condition node) (ID node) rearmed
       else fail ''trigger'')"

definition arms_in :: "string \<Rightarrow> Node \<Rightarrow> bool" where
  "arms_in scope n \<longleftrightarrow> Type n = EventSubProcessType \<and> ParentScope n = scope \<and> armable n"

definition armEventSubProcessesTx :: "env \<Rightarrow> graph \<Rightarrow> string \<Rightarrow> uuid \<Rightarrow> uuid option \<Rightarrow> unit eng" where
  "armEventSubProcessesTx E g scope inst parent =
     each (\<lambda>n. if arms_in scope n then armTriggerTx E n inst parent False else ret ()) (map snd g)"

definition armProcessEventSubProcesses :: "env \<Rightarrow> graph \<Rightarrow> Execution \<Rightarrow> unit eng" where
  "armProcessEventSubProcesses E g e =
     (if \<exists>n \<in> set (map snd g). arms_in [] n then transaction (armEventSubProcessesTx E g [] (exec_instance e) None) else ret ())"

subsection \<open>Moving on\<close>

definition advance :: "env \<Rightarrow> Execution \<Rightarrow> Node \<Rightarrow> vars \<Rightarrow> string eng" where
  "advance E e node vs =
     bindE (resolve E node vs) (\<lambda>next.
       thenE (transaction (upd (UpdateExecutionNodeTx (exec_instance e) (exec_id e) next))) (ret next))"

text \<open>\<open>executeErrorBoundaryNode\<close> and \<open>executeBoundaryTimerNode\<close> take the first flow, whatever its condition.\<close>

definition executeErrorBoundaryNode :: "Execution \<Rightarrow> Node \<Rightarrow> string eng" where
  "executeErrorBoundaryNode e node =
     (case Outgoing node of
        [] \<Rightarrow> fail ''no outgoing flow''
      | f # _ \<Rightarrow>
          thenE (transaction (thenE (upd (UpdateExecutionNodeTx (exec_instance e) (exec_id e) (TargetRef f)))
            (upd (UpdateExecutionStatusTx (exec_instance e) (exec_id e) ExecActive)))) (ret (TargetRef f)))"

definition executeBoundaryTimerNode :: "Execution \<Rightarrow> Node \<Rightarrow> string eng" where
  "executeBoundaryTimerNode e node =
     (case Outgoing node of
        [] \<Rightarrow> fail ''no outgoing flow''
      | f # _ \<Rightarrow>
          thenE (transaction (thenE (upd (UpdateExecutionNodeTx (exec_instance e) (exec_id e) (TargetRef f)))
            (upd (UpdateExecutionStatusTx (exec_instance e) (exec_id e) ExecActive)))) (ret (TargetRef f)))"

definition record_compensable :: "env \<Rightarrow> uuid \<Rightarrow> uuid \<Rightarrow> Node \<Rightarrow> unit eng" where
  "record_compensable E inst eid node =
     (if CompensationHandler node \<noteq> [] then
        bindE (draw E) (\<lambda>s. upd (RecordCompensableTx s inst eid (ID node) (CompensationHandler node)))
      else ret ())"

definition outputScope :: "Execution \<Rightarrow> Node \<Rightarrow> uuid" where
  "outputScope e node = (if OutputMappings node \<noteq> [] then (case exec_parent e of Some p \<Rightarrow> p | None \<Rightarrow> uuid_Nil) else exec_id e)"

text \<open>The parent of an execution, as a scope; the row has to be there.\<close>

definition parent_scope :: "uuid \<Rightarrow> uuid \<Rightarrow> uuid eng" where
  "parent_scope inst eid =
     bindE (read (\<lambda>d. find (exec_key inst eid) (executions d))) (\<lambda>r. case r of
       None \<Rightarrow> fail ''no execution''
     | Some e \<Rightarrow> ret (case exec_parent e of Some p \<Rightarrow> p | None \<Rightarrow> uuid_Nil))"

definition ApplyActivityOutputTx :: "env \<Rightarrow> uuid \<Rightarrow> uuid \<Rightarrow> Node \<Rightarrow> vars \<Rightarrow> unit eng" where
  "ApplyActivityOutputTx E inst eid node vs =
     thenE
       (if OutputMappings node \<noteq> [] then
          thenE (upd (SetLocalVariablesTx inst eid vs))
            (bindE (read (VariablesForExecution inst eid)) (\<lambda>view.
             bindE (io_mappings E (OutputMappings node) view) (\<lambda>mapped.
             bindE (parent_scope inst eid) (\<lambda>scope.
               upd (SetVariablesTx inst scope mapped)))))
        else upd (SetVariablesTx inst eid vs))
       (if MultiInstance node = None then upd (ClearLocalVariablesTx inst [eid]) else ret ())"

definition leaveScopeVariablesTx :: "env \<Rightarrow> uuid \<Rightarrow> uuid \<Rightarrow> Node \<Rightarrow> unit eng" where
  "leaveScopeVariablesTx E inst scope sub =
     bindE (if OutputMappings sub \<noteq> [] then bindE (read (VariablesForExecution inst scope)) (io_mappings E (OutputMappings sub)) else ret [])
       (\<lambda>mapped.
         thenE (if MultiInstance sub = None then upd (ClearLocalVariablesTx inst [scope]) else ret ())
           (if mapped = [] then ret ()
            else bindE (parent_scope inst scope) (\<lambda>from. upd (SetVariablesTx inst from mapped))))"

subsection \<open>Incidents\<close>

definition CreateIncidentTx :: "env \<Rightarrow> uuid \<Rightarrow> uuid option \<Rightarrow> uuid option \<Rightarrow> IncidentType \<Rightarrow> string \<Rightarrow> string \<Rightarrow> unit eng" where
  "CreateIncidentTx E inst eid job ty activity code =
     bindE (draw E) (\<lambda>i. upd (\<lambda>d. d\<lparr>incidents := incidents d @ [\<lparr>inc_id = i, inc_instance = inst, inc_execution = eid,
       inc_job = job, inc_type = ty, inc_activity = activity, inc_code = code, inc_open = True\<rparr>]\<rparr>))"

definition HasOpenIncidentOnExecution :: "uuid \<Rightarrow> uuid \<Rightarrow> db \<Rightarrow> bool" where
  "HasOpenIncidentOnExecution inst eid d \<longleftrightarrow> (\<exists>n \<in> set (incidents d). inc_instance n = inst \<and> inc_execution n = Some eid \<and> inc_open n)"

subsection \<open>Callers\<close>

record CallerLink =
  cl_InstanceID :: uuid
  cl_ExecID :: uuid
  cl_Node :: Node
  cl_Graph :: graph

definition CallerOf :: "env \<Rightarrow> uuid \<Rightarrow> db \<Rightarrow> CallerLink option" where
  "CallerOf E inst d =
     (case Option.bind (find (\<lambda>p. pi_id p = inst) (process_instances d)) pi_parent of
        None \<Rightarrow> None
      | Some (pinst, pexec) \<Rightarrow>
          (case find (exec_key pinst pexec) (executions d) of
             None \<Rightarrow> None
           | Some e \<Rightarrow>
               if exec_status e \<noteq> ExecWaiting then None
               else case load_graph E d pinst of
                 None \<Rightarrow> None
               | Some (_, g) \<Rightarrow> (case map_of g (exec_element e) of
                   None \<Rightarrow> None
                 | Some n \<Rightarrow> if Type n \<noteq> CallActivityType then None
                     else Some \<lparr>cl_InstanceID = pinst, cl_ExecID = pexec, cl_Node = n, cl_Graph = g\<rparr>)))"

text \<open>The walks over the scopes of a graph, with the fuel that is enough for them (\<open>FindErrorCatcher_total_sound\<close>).\<close>

definition error_catcher :: "graph \<Rightarrow> string \<Rightarrow> string \<Rightarrow> (Node option \<times> string) eng" where
  "error_catcher g el code = returned (FindErrorCatcher g (length g + 2) el code)"

definition escalation_catcher :: "graph \<Rightarrow> string \<Rightarrow> string \<Rightarrow> (Node option \<times> string) eng" where
  "escalation_catcher g el code = returned (FindEscalationCatcher g (length g + 2) el code)"

fun caller_catches :: "nat \<Rightarrow> env \<Rightarrow> uuid \<Rightarrow> string \<Rightarrow> bool eng" where
  "caller_catches 0 E inst code = ret False"
| "caller_catches (Suc depth) E inst code =
     bindE (read (CallerOf E inst)) (\<lambda>c. case c of
       None \<Rightarrow> ret False
     | Some caller \<Rightarrow> bindE (error_catcher (cl_Graph caller) (ID (cl_Node caller)) code) (\<lambda>(catcher, _).
         if catcher \<noteq> None then ret True else caller_catches depth E (cl_InstanceID caller) code))"

definition CallerCatchesError :: "env \<Rightarrow> uuid \<Rightarrow> string \<Rightarrow> bool eng" where
  "CallerCatchesError = caller_catches 64"

subsection \<open>Ending an instance from outside\<close>

text \<open>The running instances whose call activity no longer waits for them; \<open>close\<close> terminates one, its error is logged.\<close>

definition called_running :: "uuid option \<Rightarrow> db \<Rightarrow> uuid list" where
  "called_running parent d =
     (case parent of
        Some p \<Rightarrow> map pi_id (filter (\<lambda>i. map_option fst (pi_parent i) = Some p \<and> pi_status i = InstanceRunning) (process_instances d))
      | None \<Rightarrow> take 100 (map pi_id (filter (\<lambda>i. pi_status i = InstanceRunning \<and>
          (case pi_parent i of None \<Rightarrow> False
           | Some (pin, pe) \<Rightarrow> (case find (exec_key pin pe) (executions d) of None \<Rightarrow> True | Some e \<Rightarrow> exec_status e \<noteq> ExecWaiting)))
          (process_instances d))))"

definition TerminateOrphanedCalledInstances :: "env \<Rightarrow> (uuid \<Rightarrow> unit eng) \<Rightarrow> uuid option \<Rightarrow> unit eng" where
  "TerminateOrphanedCalledInstances E close parent =
     bindE (read (called_running parent)) (each (\<lambda>c.
       bindE (read (CallerOf E c)) (\<lambda>caller. if caller \<noteq> None then ret () else thenE (attempt (close c)) (ret ()))))"

text \<open>The statements of \<open>closeProcessInstance\<close> on the instance itself.\<close>

definition close_tables :: "int \<Rightarrow> instance_status \<Rightarrow> uuid \<Rightarrow> db \<Rightarrow> db" where
  "close_tables now st inst d =
     (let d1 = UpdateProcessInstanceStatusTx inst st (Some now) d;
          d2 = snd (cancel_tasks (\<lambda>t. task_instance t = inst) d1);
          d3 = update_executions (\<lambda>e. exec_instance e = inst \<and> exec_open e) (finish_as ExecTerminated) d2;
          d4 = snd (CancelPendingJobsByProcessInstanceTx inst d3);
          d5 = DeleteTimersByProcessInstanceTx inst d4
      in d5\<lparr>event_subscriptions := update_where (\<lambda>s. sub_instance s = inst \<and> \<not> sub_consumed s)
           (\<lambda>s. s\<lparr>sub_consumed := True\<rparr>) (event_subscriptions d5)\<rparr>)"

definition termination_vars :: "env \<Rightarrow> string \<Rightarrow> vars" where
  "termination_vars E reason = [(''terminated'', JBool True), (''terminatedAt'', JStr (e_now_text E)), (''terminationReason'', JStr reason)]"

fun closeProcessInstance :: "env \<Rightarrow> nat \<Rightarrow> uuid \<Rightarrow> instance_status \<Rightarrow> vars \<Rightarrow> unit eng" where
  "closeProcessInstance E 0 inst st vs = halt OutOfFuel"
| "closeProcessInstance E (Suc fuel) inst st vs =
     bindE (read (\<lambda>d. find (\<lambda>p. pi_id p = inst) (process_instances d))) (\<lambda>r. case r of
       None \<Rightarrow> fail ''process instance not found''
     | Some p \<Rightarrow>
         if finished (pi_status p) then fail ''process instance not found''
         else
           thenE (upd (\<lambda>d. UpdateProcessVariablesTx inst (merge_vars (GetProcessVariables inst d) vs) d))
             (thenE (transaction (upd (close_tables (millis (e_now E)) st inst)))
               (TerminateOrphanedCalledInstances E
                 (\<lambda>c. closeProcessInstance E fuel c InstanceTerminated (termination_vars E ''its call activity was interrupted'')) (Some inst))))"

text \<open>Every round ends one running instance, so there are at most as many rounds as instances.\<close>

definition close_fuel :: "db \<Rightarrow> nat" where
  "close_fuel d = Suc (length (process_instances d))"

definition TerminateProcessInstance :: "env \<Rightarrow> uuid \<Rightarrow> string \<Rightarrow> unit eng" where
  "TerminateProcessInstance E inst reason =
     bindE (read close_fuel) (\<lambda>k. closeProcessInstance E k inst InstanceTerminated (termination_vars E reason))"

definition EndProcessInstance :: "env \<Rightarrow> uuid \<Rightarrow> instance_status \<Rightarrow> vars \<Rightarrow> unit eng" where
  "EndProcessInstance E inst st vs = bindE (read close_fuel) (\<lambda>k. closeProcessInstance E k inst st vs)"

text \<open>What \<open>logCancelled\<close> does to the tables: the processes called by what was interrupted go.\<close>

definition logCancelled :: "env \<Rightarrow> uuid \<Rightarrow> unit eng" where
  "logCancelled E inst =
     TerminateOrphanedCalledInstances E (\<lambda>c. TerminateProcessInstance E c ''its call activity was interrupted'') (Some inst)"

definition terminateCalledInstances :: "env \<Rightarrow> uuid \<Rightarrow> string \<Rightarrow> unit eng" where
  "terminateCalledInstances E eid reason =
     bindE (read (\<lambda>d. map pi_id (filter (\<lambda>i. map_option snd (pi_parent i) = Some eid \<and> pi_status i = InstanceRunning) (process_instances d))))
       (each (\<lambda>c. thenE (attempt (TerminateProcessInstance E c reason)) (ret ())))"

end
