(* ===== verification/Runtime_Tasks.thy ===== *)
theory Runtime_Tasks
  imports Runtime_Ops
begin

text \<open>
  The executors of tasks and catch events (\<open>executor_user_task.go\<close>, \<open>executor_service_task.go\<close>,
  \<open>executor_script_task.go\<close>, \<open>runtime_healpers.go\<close>, \<open>executor_business_rule_task.go\<close>,
  \<open>executor_call_activity.go\<close>, \<open>executor_timer.go\<close>, \<open>executor_message.go\<close>, \<open>executor_signal.go\<close>,
  \<open>executor_event_based_gateway.go\<close>, \<open>executeConditionalCatch\<close>). \<open>run\<close> continues an execution (\<open>ExecuteExecution\<close>).
  The form data kept with a user task is left out.
\<close>

subsection \<open>User and service tasks\<close>

definition optional_text :: "env \<Rightarrow> string option \<Rightarrow> vars \<Rightarrow> string option eng" where
  "optional_text E x vs =
     (case x of
        None \<Rightarrow> ret None
      | Some t \<Rightarrow> bindE (resolveExpression E t vs) (\<lambda>s. ret (if s \<noteq> [] then Some s else None)))"

definition task_priority :: "env \<Rightarrow> string option \<Rightarrow> vars \<Rightarrow> int eng" where
  "task_priority E x vs =
     (case x of
        None \<Rightarrow> ret 50
      | Some t \<Rightarrow>
          (case value_of E t vs of
             Inl EvalPanic \<Rightarrow> halt Panic
           | Inr (JNum n) \<Rightarrow> ret (float_int64 (e_go E) (Fin n))
           | Inr (JStr s) \<Rightarrow> ret (case Atoi s of Some n \<Rightarrow> n | None \<Rightarrow> 50)
           | _ \<Rightarrow> ret 50))"

definition set_status :: "Execution \<Rightarrow> exec_status \<Rightarrow> unit eng" where
  "set_status e s = upd (UpdateExecutionStatusTx (exec_instance e) (exec_id e) s)"

definition set_locals :: "Execution \<Rightarrow> vars \<Rightarrow> unit eng" where
  "set_locals e vs = (if vs \<noteq> [] then upd (SetLocalVariablesTx (exec_instance e) (exec_id e) vs) else ret ())"

definition executeUserTask :: "env \<Rightarrow> Execution \<Rightarrow> Node \<Rightarrow> graph \<Rightarrow> vars \<Rightarrow> unit eng" where
  "executeUserTask E e node g vs = transaction (
     thenE (upd (UpdateExecutionStatusAndNodeTx (exec_instance e) (exec_id e) ExecActive (ID node)))
    (thenE (armBoundaryEventsTx E g e node)
    (bindE (io_mappings E (InputMappings node) vs) (\<lambda>inputs.
     thenE (set_locals e inputs)
    (bindE (optional_text E (AssigneeExpr node) (merge_vars vs inputs)) (\<lambda>assignee.
     bindE (optional_text E (CandidateGroupExpr node) (merge_vars vs inputs)) (\<lambda>group.
     bindE (task_priority E (PriorityExpr node) (merge_vars vs inputs)) (\<lambda>priority.
     bindE (draw E) (\<lambda>tid.
     thenE (try_upd (CreateUserTaskTx \<lparr>task_id = tid, task_instance = exec_instance e, task_execution = exec_id e,
        TaskDefinitionKey = ID node, TaskName = Some (Name node), Assignee = assignee, CandidateGroup = group,
        Priority = priority, task_status = TaskCreated\<rparr>))
       (set_status e ExecWaiting))))))))))"

definition executeServiceTask :: "env \<Rightarrow> Execution \<Rightarrow> Node \<Rightarrow> vars \<Rightarrow> unit eng" where
  "executeServiceTask E e node vs = transaction (
     thenE (upd (UpdateExecutionStatusAndNodeTx (exec_instance e) (exec_id e) ExecActive (ID node)))
    (case JobType node of
       None \<Rightarrow> fail ''no job type''
     | Some ty \<Rightarrow>
       bindE (io_mappings E (InputMappings node) vs) (\<lambda>mapped.
       thenE (set_locals e mapped)
      (bindE (draw E) (\<lambda>jid.
       thenE (try_upd (CreateJobTx jid (exec_instance e) (exec_id e) ty (e_marshal E (merge_vars vs mapped))))
      (thenE (set_status e ExecWaiting)
      (bindE (graph_of E (exec_instance e)) (\<lambda>g. armBoundaryEventsTx E g e node))))))))"

subsection \<open>Script and business rule tasks\<close>

text \<open>\<open>executeScript\<close>, the scripts that are not FEEL: a list of texts assigned to \<open>items\<close>, as the pattern
  \<^verbatim>\<open>items = \[(.*?)\]\<close> finds it.\<close>

fun items_match :: "string \<Rightarrow> string option" where
  "items_match [] = None"
| "items_match (c # cs) =
     (let rest = drop 8 cs; body = takeWhile (\<lambda>x. x \<noteq> CHR '']'') rest in
      if has_prefix (c # cs) ''items = ['' \<and> CHR '']'' \<in> set rest \<and> char_of (10 :: nat) \<notin> set body then Some body
      else items_match cs)"

definition trim_quotes :: "string \<Rightarrow> string" where
  "trim_quotes s = rev (dropWhile (\<lambda>c. c = dquote) (rev (dropWhile (\<lambda>c. c = dquote) s)))"

definition executeScript :: "string \<Rightarrow> vars" where
  "executeScript script =
     (case items_match script of
        None \<Rightarrow> []
      | Some body \<Rightarrow> [(''items'', JList (map (\<lambda>x. JStr (trim_quotes (trim_space x))) (split_on CHR '','' body)))])"

definition evaluateFEELScript :: "env \<Rightarrow> Node \<Rightarrow> string \<Rightarrow> vars \<Rightarrow> vars eng" where
  "evaluateFEELScript E node script vs =
     bindE (io_mappings E (InputMappings node) vs) (\<lambda>inputs.
       let scope = merge_vars vs inputs in
       bindE (lift (eval_stop (IncidentError IncidentExtractValueError)) (feel_Evaluate E (trimFEEL script) scope)) (\<lambda>v.
         let result = (if ResultVariable node \<noteq> [] then [(ResultVariable node, v)] else []) in
         if OutputMappings node = [] then ret result
         else io_mappings E (OutputMappings node) (merge_vars scope result)))"

text \<open>The next element and the variables as the script left them.\<close>

definition executeScriptTask :: "env \<Rightarrow> Execution \<Rightarrow> Node \<Rightarrow> vars \<Rightarrow> (string \<times> vars) eng" where
  "executeScriptTask E e node vs =
     bindE (case Script node of
        None \<Rightarrow> ret []
      | Some s \<Rightarrow> if ScriptFormat node \<noteq> None \<and> e_equal_fold E (the (ScriptFormat node)) ''feel''
                 then evaluateFEELScript E node s vs else ret (executeScript s)) (\<lambda>result.
     thenE (if result \<noteq> [] then transaction (upd (SetVariablesTx (exec_instance e) (outputScope e node) result)) else ret ())
    (bindE (resolve E node (merge_vars vs result)) (\<lambda>next.
     thenE (transaction (thenE (record_compensable E (exec_instance e) (exec_id e) node)
              (upd (UpdateExecutionNodeTx (exec_instance e) (exec_id e) next))))
       (ret (next, merge_vars vs result)))))"

definition dmn_value :: "env \<Rightarrow> vars \<Rightarrow> string \<Rightarrow> eval_error + goval" where
  "dmn_value E vs text = (case value_of E text vs of Inl e \<Rightarrow> Inl e | Inr v \<Rightarrow> Inr (json_goval v))"

definition dmn_unary :: "env \<Rightarrow> vars \<Rightarrow> string \<Rightarrow> goval \<Rightarrow> eval_error + bool" where
  "dmn_unary E vs tests v =
     Flow_Resolution.EvaluateUnaryTests (e_mode E)
       (\<lambda>t x ws. engine_error_of (Feel_Api.EvaluateUnaryTests (e_go E) t x ws)) tests v vs (Inr (matchesUnaryTest (e_go E) tests v))"

fun dmn_stop :: "dmn_error \<Rightarrow> stop" where
  "dmn_stop DmnPanic = Panic"
| "dmn_stop e = Error (IncidentError IncidentDecisionEvaluationError (GoError ''decision''))"

definition called_table :: "env \<Rightarrow> Node \<Rightarrow> DecisionTable eng" where
  "called_table E node =
     (if DecisionKey node = [] then halt (Error (IncidentError IncidentCalledDecisionError (GoError (ID node))))
      else case e_decisions E (DecisionKey node) of
        None \<Rightarrow> halt (Error (IncidentError IncidentCalledDecisionError (GoError (DecisionKey node))))
      | Some None \<Rightarrow> fail ''no decision table''
      | Some (Some t) \<Rightarrow> ret t)"

definition executeBusinessRuleTask :: "env \<Rightarrow> Execution \<Rightarrow> Node \<Rightarrow> vars \<Rightarrow> (string \<times> vars) eng" where
  "executeBusinessRuleTask E e node vs =
     bindE (called_table E node) (\<lambda>table.
     bindE (io_mappings E (InputMappings node) vs) (\<lambda>mapped.
     let evalVars = merge_vars vs mapped; name = (if ResultVariable node = [] then ''result'' else ResultVariable node) in
     bindE (lift dmn_stop (EvaluateDecisionTable (e_go E) (dmn_value E evalVars) (dmn_unary E evalVars) (Some table))) (\<lambda>r.
     bindE (case goval_json r of None \<Rightarrow> fail ''not finite'' | Some v \<Rightarrow> ret v) (\<lambda>v.
     bindE (if OutputMappings node \<noteq> [] then io_mappings E (OutputMappings node) (merge_vars evalVars [(name, v)]) else ret [(name, v)]) (\<lambda>outputs.
     transaction (
       thenE (upd (SetVariablesTx (exec_instance e) (outputScope e node) outputs))
      (bindE (resolve E node (merge_vars vs [(name, v)])) (\<lambda>next.
       thenE (record_compensable E (exec_instance e) (exec_id e) node)
      (thenE (upd (UpdateExecutionNodeTx (exec_instance e) (exec_id e) next))
         (ret (next, merge_vars vs [(name, v)])))))))))))"

subsection \<open>Call activities\<close>

definition called_error :: "string \<Rightarrow> 'a eng" where
  "called_error m = halt (Error (IncidentError IncidentCalledElementError (GoError m)))"

definition called_process :: "env \<Rightarrow> Node \<Rightarrow> vars \<Rightarrow> string eng" where
  "called_process E node vs =
     (let called = trim_space (CalledElement node) in
      if has_prefix called ''='' then
        bindE (lift (eval_stop id) (feel_Evaluate E (trimFEEL called) vs)) (\<lambda>v.
          case v of JStr s \<Rightarrow> if s = [] then called_error (ID node) else ret s | _ \<Rightarrow> called_error (ID node))
      else if called = [] then called_error (ID node) else ret called)"

definition add_called_instance :: "uuid \<Rightarrow> uuid \<Rightarrow> int \<Rightarrow> string option \<Rightarrow> uuid \<times> uuid \<Rightarrow> db \<Rightarrow> engine_error + db" where
  "add_called_instance inst def now tenant caller d =
     (if \<exists>p \<in> set (process_instances d). pi_id p = inst then Inl DuplicateKey
      else Inr (d\<lparr>process_instances := process_instances d @ [\<lparr>pi_id = inst, pi_definition = def, pi_status = InstanceRunning,
        pi_started = now, pi_ended = None, pi_tenant = tenant, pi_parent = Some caller\<rparr>]\<rparr>))"

definition executeCallActivity :: "env \<Rightarrow> (uuid \<Rightarrow> unit eng) \<Rightarrow> Execution \<Rightarrow> Node \<Rightarrow> vars \<Rightarrow> unit eng" where
  "executeCallActivity E run e node vs =
     bindE (called_process E node vs) (\<lambda>called.
     bindE (read (\<lambda>d. find (\<lambda>p. pi_id p = exec_instance e) (process_instances d))) (\<lambda>caller.
     bindE (case caller of None \<Rightarrow> fail ''tenant'' | Some p \<Rightarrow> ret (pi_tenant p)) (\<lambda>tenant.
     bindE (case e_latest E called (case tenant of None \<Rightarrow> [] | Some t \<Rightarrow> t) of
        None \<Rightarrow> called_error called
      | Some (def, None) \<Rightarrow> fail ''child graph''
      | Some (def, Some g) \<Rightarrow> ret (def, g)) (\<lambda>(def, g).
     bindE (case find (\<lambda>n. IsProcessStart n \<or> Type n = MessageStartEventType) (map snd g) of
        None \<Rightarrow> called_error (CalledElement node)
      | Some n \<Rightarrow> if ID n = [] then called_error (CalledElement node) else ret (ID n)) (\<lambda>start.
     bindE (draw E) (\<lambda>inst.
     bindE (draw E) (\<lambda>eid.
     thenE (transaction (
       thenE (try_upd (add_called_instance inst def (millis (e_now E)) tenant (exec_instance e, exec_id e)))
      (bindE (io_mappings E (InputMappings node) vs) (\<lambda>inputs.
       thenE (set_locals e inputs)
      (thenE (try_upd (CreateVariablesTx inst (merge_vars (if NoParentVariables node then [] else vs) inputs)))
      (thenE (try_upd (CreateExecutionTx2 eid inst start))
      (thenE (set_status e ExecWaiting)
      (bindE (graph_of E (exec_instance e)) (\<lambda>pg. armBoundaryEventsTx E pg e node)))))))))
       (run eid))))))))"

subsection \<open>Catch events\<close>

definition executeIntermediateTimer :: "env \<Rightarrow> Execution \<Rightarrow> Node \<Rightarrow> unit eng" where
  "executeIntermediateTimer E e node =
     (if TimerDefinition node = [] then ret ()
      else transaction (
        bindE (resolve E node []) (\<lambda>next.
        thenE (createTimerTx E (exec_instance e) (exec_id e) (TimerDefinition node) next ''intermediate'')
          (set_status e ExecWaiting))))"

definition executeMessageCatchEvent :: "env \<Rightarrow> Execution \<Rightarrow> Node \<Rightarrow> unit eng" where
  "executeMessageCatchEvent E e node =
     transaction (thenE (subscribe_message E node (exec_instance e) (exec_id e) []) (set_status e ExecWaiting))"

definition executeSignalCatchEvent :: "env \<Rightarrow> Execution \<Rightarrow> Node \<Rightarrow> unit eng" where
  "executeSignalCatchEvent E e node =
     transaction (thenE (insertSignalSubscriptionTx E (exec_instance e) (exec_id e) (SignalRef node) None) (set_status e ExecWaiting))"

definition subscribe_branch :: "env \<Rightarrow> Execution \<Rightarrow> graph \<Rightarrow> Flow \<Rightarrow> unit eng" where
  "subscribe_branch E e g f =
     (case map_of g (TargetRef f) of
        None \<Rightarrow> fail ''target node''
      | Some n \<Rightarrow>
          bindE (resolve E n []) (\<lambda>target.
            if Type n = IntermediateMessageCatchEventType then subscribe_message E n (exec_instance e) (exec_id e) target
            else if Type n = IntermediateSignalCatchEventType then
              insertSignalSubscriptionTx E (exec_instance e) (exec_id e) (SignalRef n) (Some target)
            else if Type n = IntermediateTimerEventType \<or> Type n = IntermediateCatchEventType then
              createTimerTx E (exec_instance e) (exec_id e) (TimerDefinition n) target ''eventBasedGateway''
            else ret ()))"

definition executeEventBasedGateway :: "env \<Rightarrow> Execution \<Rightarrow> Node \<Rightarrow> graph \<Rightarrow> unit eng" where
  "executeEventBasedGateway E e node g =
     (if Outgoing node = [] then fail ''no outgoing flows''
      else transaction (thenE (each (subscribe_branch E e g) (Outgoing node)) (set_status e ExecWaiting)))"

text \<open>Whether the token goes on: a condition that cannot be evaluated is not true yet.\<close>

definition executeConditionalCatch :: "env \<Rightarrow> Execution \<Rightarrow> Node \<Rightarrow> vars \<Rightarrow> bool eng" where
  "executeConditionalCatch E e node vs =
     (case condition E (Condition node) vs of
        Inl EvalPanic \<Rightarrow> halt Panic
      | Inr True \<Rightarrow> ret True
      | _ \<Rightarrow> thenE (transaction (thenE (insertConditionalSubscriptionTx E (exec_instance e) (exec_id e) (Condition node) (ID node) False)
               (set_status e ExecWaiting))) (ret False))"

end
