(* ===== verification/Runtime_Scopes.thy ===== *)
theory Runtime_Scopes
  imports Runtime_Ops
begin

text \<open>
  The executors of scopes: end events (\<open>executor_end_event.go\<close>, \<open>executor_events.go\<close>), sub-processes
  (\<open>executor_subprocess.go\<close>), event sub-processes (\<open>executor_event_subprocess.go\<close>), boundary events
  (\<open>executor_boundary.go\<close>), errors (\<open>executor_events.go\<close>), escalations (\<open>executor_escalation.go\<close>) and compensation
  (\<open>executor_compensation.go\<close>). \<open>run\<close> continues an execution (\<open>ExecuteExecution\<close>).

  Where a handler goes on after its commit, its transaction returns what to go on with.
\<close>

subsection \<open>Walks over the tree of executions\<close>

definition tree_read :: "(db \<Rightarrow> 'a option) \<Rightarrow> 'a eng" where
  "tree_read f = bindE (read f) returned"

definition find_scope :: "uuid \<Rightarrow> uuid \<Rightarrow> string \<Rightarrow> uuid eng" where
  "find_scope inst eid el = bindE (tree_read (FindScopeExecutionTx inst eid el)) (lift engine_stop)"

definition close_scope :: "uuid \<Rightarrow> uuid \<Rightarrow> unit eng" where
  "close_scope inst scope = bindE (tree_read (CloseScopeTx inst scope)) (\<lambda>d. upd (\<lambda>_. d))"

definition cancel_scope :: "uuid \<Rightarrow> uuid \<Rightarrow> uuid \<Rightarrow> unit eng" where
  "cancel_scope inst rt keep = bindE (tree_read (CancelScopeTx inst rt keep)) (\<lambda>(ts, js, d). upd (\<lambda>_. d))"

definition cancel_activity :: "uuid \<Rightarrow> uuid \<Rightarrow> unit eng" where
  "cancel_activity inst eid = upd (\<lambda>d. snd (snd (CancelActivityWorkTx inst eid d)))"

subsection \<open>Resuming\<close>

text \<open>\<open>ResumeExecution\<close>: an execution that is gone is dereferenced all the same.\<close>

definition ResumeExecution :: "env \<Rightarrow> (uuid \<Rightarrow> unit eng) \<Rightarrow> uuid \<Rightarrow> unit eng" where
  "ResumeExecution E run eid =
     bindE (read (GetExecutionByID eid)) (\<lambda>r. case r of
       None \<Rightarrow> halt Panic
     | Some e \<Rightarrow> bindE (graph_of E (exec_instance e)) (\<lambda>_. run eid))"

subsection \<open>End events\<close>

definition reactivate :: "uuid \<Rightarrow> uuid \<Rightarrow> string \<Rightarrow> db \<Rightarrow> db" where
  "reactivate inst eid el = update_executions (exec_key inst eid)
     (\<lambda>e. e\<lparr>exec_element := el, exec_status := ExecActive, exec_is_active := True\<rparr>)"

text \<open>What the called instance hands back: nothing, or all its variables but those of the caller's loop.\<close>

definition hand_back :: "Node \<Rightarrow> vars \<Rightarrow> vars" where
  "hand_back cnode vs =
     (let all = (if PropagateAllChildVariables cnode \<or> OutputMappings cnode \<noteq> [] then vs else []) in
      case MultiInstance cnode of
        None \<Rightarrow> all
      | Some mi \<Rightarrow> filter (\<lambda>(k, v). k \<notin> {mi_Output mi, mi_Element mi, ''loopCounter''}) all)"

definition return_to_caller :: "env \<Rightarrow> (uuid \<Rightarrow> unit eng) \<Rightarrow> uuid \<Rightarrow> uuid \<Rightarrow> vars \<Rightarrow> unit eng" where
  "return_to_caller E run pinst pexec childVars =
     bindE (read (GetExecutionByID pexec)) (\<lambda>pe. case pe of
       None \<Rightarrow> ret ()
     | Some p \<Rightarrow>
       bindE (attempt (graph_of E pinst)) (\<lambda>r. case r of
         Inl _ \<Rightarrow> ret ()
       | Inr g \<Rightarrow> (case map_of g (exec_element p) of
           None \<Rightarrow> ret ()
         | Some cnode \<Rightarrow>
           if Type cnode \<noteq> CallActivityType then ret ()
           else
             bindE (resolve E cnode []) (\<lambda>next.
             thenE (transaction (
               thenE (upd (DisarmBoundaryTriggersTx pinst [pexec]))
              (thenE (ApplyActivityOutputTx E pinst pexec cnode (hand_back cnode childVars))
              (thenE (record_compensable E pinst pexec cnode)
                (upd (reactivate pinst pexec next))))))
               (ResumeExecution E run pexec)))))"

definition executeEndEvent :: "env \<Rightarrow> (uuid \<Rightarrow> unit eng) \<Rightarrow> uuid \<Rightarrow> uuid \<Rightarrow> string list \<Rightarrow> unit eng" where
  "executeEndEvent E run inst eid ignore =
     bindE (transaction (
       thenE (try_upd (LockProcessInstanceTx inst))
      (thenE (upd (CompleteExecutionTx inst eid))
      (bindE (read (HasLiveWorkInInstanceTx inst ignore)) (\<lambda>live.
         if live then ret True
         else thenE (upd (CompleteProcessInstanceTx (millis (e_now E)) inst)) (ret False))))))
    (\<lambda>live.
       if live then ret ()
       else bindE (read (\<lambda>d. Option.bind (find (\<lambda>p. pi_id p = inst) (process_instances d)) pi_parent)) (\<lambda>caller. case caller of
         None \<Rightarrow> ret ()
       | Some (pinst, pexec) \<Rightarrow> bindE (read (GetProcessVariables inst)) (return_to_caller E run pinst pexec)))"

subsection \<open>Sub-processes\<close>

definition executeSubProcess :: "env \<Rightarrow> (uuid \<Rightarrow> unit eng) \<Rightarrow> Execution \<Rightarrow> Node \<Rightarrow> graph \<Rightarrow> vars \<Rightarrow> unit eng" where
  "executeSubProcess E run e node g vs =
     bindE (transaction (
       thenE (upd (UpdateExecutionStatusAndNodeTx (exec_instance e) (exec_id e) ExecWaiting (ID node)))
      (thenE (armBoundaryEventsTx E g e node)
      (thenE (armEventSubProcessesTx E g (ID node) (exec_instance e) (Some (exec_id e)))
      (bindE (io_mappings E (InputMappings node) vs) (\<lambda>inputs.
       thenE (if inputs \<noteq> [] then upd (SetLocalVariablesTx (exec_instance e) (exec_id e) inputs) else ret ())
      (bindE (draw E) (\<lambda>child.
       thenE (try_upd (CreateExecutionTx (new_execution child (exec_instance e) (Some (exec_id e)) (StartNodeID node) ExecActive
                (exec_id e @ ''_'' @ ID node))))
         (ret child)))))))))
       run"

text \<open>The execution parked on the sub-process leaves it. The step that closes the scope is the caller's.\<close>

definition leave_sub_process :: "env \<Rightarrow> uuid \<Rightarrow> uuid \<Rightarrow> Node \<Rightarrow> string \<Rightarrow> unit eng" where
  "leave_sub_process E inst scope sub next =
     thenE (record_compensable E inst scope sub)
       (upd (UpdateExecutionStatusAndNodeTx inst scope ExecActive next))"

text \<open>The transaction of a token ending in a sub-process: \<open>None\<close> while something else is running there, else the
  execution of the scope.\<close>

definition end_in_scope :: "env \<Rightarrow> uuid \<Rightarrow> uuid \<Rightarrow> Node \<Rightarrow> graph \<Rightarrow> vars \<Rightarrow> uuid option eng" where
  "end_in_scope E inst eid sub g vs = transaction (
     bindE (find_scope inst eid (ID sub)) (\<lambda>scope.
     thenE (upd (CompleteExecutionTx inst eid))
    (bindE (tree_read (HasLiveWorkUnderTx inst scope (TriggerNodes g))) (\<lambda>live.
       if live then ret None
       else if Type sub = EventSubProcessType then thenE (close_scope inst scope) (ret (Some scope))
       else bindE (resolve E sub vs) (\<lambda>next.
         thenE (close_scope inst scope)
        (thenE (leaveScopeVariablesTx E inst scope sub)
        (thenE (upd (DisarmBoundaryTriggersTx inst [scope]))
        (thenE (leave_sub_process E inst scope sub next)
           (ret (Some scope))))))))))"

text \<open>The end of an event sub-process ends its token in the enclosing scope, so the walk goes up; a scope is inside
  fewer scopes than there are nodes.\<close>

fun executeSubProcessEnd :: "nat \<Rightarrow> env \<Rightarrow> (uuid \<Rightarrow> unit eng) \<Rightarrow> uuid \<Rightarrow> uuid \<Rightarrow> string \<Rightarrow> graph \<Rightarrow> vars \<Rightarrow> unit eng" where
  "executeSubProcessEnd 0 E run inst eid scope g vs = halt OutOfFuel"
| "executeSubProcessEnd (Suc k) E run inst eid scope g vs =
     (case map_of g scope of
        None \<Rightarrow> fail ''sub-process not found''
      | Some sub \<Rightarrow>
          bindE (end_in_scope E inst eid sub g vs) (\<lambda>r. case r of
            None \<Rightarrow> ret ()
          | Some s \<Rightarrow>
              if Type sub = EventSubProcessType then
                if ParentScope sub = [] then executeEndEvent E run inst s (TriggerNodes g)
                else executeSubProcessEnd k E run inst s (ParentScope sub) g vs
              else run s))"

definition executeEnd :: "env \<Rightarrow> (uuid \<Rightarrow> unit eng) \<Rightarrow> Execution \<Rightarrow> string \<Rightarrow> graph \<Rightarrow> vars \<Rightarrow> unit eng" where
  "executeEnd E run e scope g vs =
     (if scope \<noteq> [] then executeSubProcessEnd (length g + 2) E run (exec_instance e) (exec_id e) scope g vs
      else executeEndEvent E run (exec_instance e) (exec_id e) (TriggerNodes g))"

definition executeTerminateEnd :: "env \<Rightarrow> (uuid \<Rightarrow> unit eng) \<Rightarrow> Execution \<Rightarrow> Node \<Rightarrow> graph \<Rightarrow> vars \<Rightarrow> unit eng" where
  "executeTerminateEnd E run e node g vs =
     (if ParentScope node = [] then
        thenE (transaction (upd (\<lambda>d. snd (snd (TerminateOtherWorkTx (exec_instance e) (exec_id e) d)))))
       (thenE (logCancelled E (exec_instance e))
          (executeEndEvent E run (exec_instance e) (exec_id e) (TriggerNodes g)))
      else case map_of g (ParentScope node) of
        None \<Rightarrow> fail ''sub-process not found''
      | Some sub \<Rightarrow>
          bindE (resolve E sub vs) (\<lambda>next.
          bindE (transaction (
            bindE (find_scope (exec_instance e) (exec_id e) (ID sub)) (\<lambda>scope.
            thenE (cancel_scope (exec_instance e) scope uuid_Nil)
           (thenE (upd (DisarmBoundaryTriggersTx (exec_instance e) [scope]))
           (thenE (leaveScopeVariablesTx E (exec_instance e) scope sub)
           (thenE (leave_sub_process E (exec_instance e) scope sub next)
              (ret scope)))))))
         (\<lambda>scope. thenE (logCancelled E (exec_instance e)) (run scope))))"

subsection \<open>Event sub-processes\<close>

text \<open>The execution the body runs under: a cycle with firings left keeps its trigger.\<close>

definition body_trigger :: "env \<Rightarrow> Execution \<Rightarrow> Node \<Rightarrow> uuid eng" where
  "body_trigger E e node =
     (if \<not> CancelActivity node \<and> TriggerType node = TriggerTimer then
        bindE (read (\<lambda>d. \<exists>t \<in> set (timer_jobs d). timer_execution t = Some (exec_id e) \<and> \<not> IsTriggered t)) (\<lambda>cycling.
          if cycling then createTriggerExecutionTx E node (exec_instance e) (exec_parent e) else ret (exec_id e))
      else ret (exec_id e))"

definition interrupt_or_rearm :: "env \<Rightarrow> Execution \<Rightarrow> Node \<Rightarrow> unit eng" where
  "interrupt_or_rearm E e node =
     (if CancelActivity node then
        if ParentScope node = [] then upd (\<lambda>d. snd (snd (TerminateOtherWorkTx (exec_instance e) (exec_id e) d)))
        else (case exec_parent e of None \<Rightarrow> ret () | Some p \<Rightarrow> cancel_scope (exec_instance e) p (exec_id e))
      else if TriggerType node \<in> {TriggerMessage, TriggerSignal, TriggerConditional} then
        armTriggerTx E node (exec_instance e) (exec_parent e) True
      else ret ())"

definition executeEventSubProcess :: "env \<Rightarrow> (uuid \<Rightarrow> unit eng) \<Rightarrow> Execution \<Rightarrow> Node \<Rightarrow> unit eng" where
  "executeEventSubProcess E run e node =
     bindE (transaction (
       thenE (interrupt_or_rearm E e node)
      (thenE (upd (UpdateExecutionStatusAndNodeTx (exec_instance e) (exec_id e) ExecWaiting (ID node)))
      (bindE (body_trigger E e node) (\<lambda>trig.
       bindE (draw E) (\<lambda>child.
       thenE (try_upd (CreateExecutionTx (new_execution child (exec_instance e) (Some trig) (StartNodeID node) ExecActive
                (trig @ ''_'' @ ID node))))
         (ret child)))))))
      (\<lambda>child. thenE (logCancelled E (exec_instance e)) (run child))"

subsection \<open>Boundary events\<close>

definition rearm_boundary :: "env \<Rightarrow> uuid \<Rightarrow> uuid \<Rightarrow> Node \<Rightarrow> unit eng" where
  "rearm_boundary E inst trig node =
     (if Type node = BoundaryTimerEventType then ret ()
      else if Type node = ConditionalBoundaryEventType then insertConditionalSubscriptionTx E inst trig (Condition node) (ID node) True
      else subscribeBoundaryTx E inst trig node)"

text \<open>The execution of the activity the trigger was armed for, if it still waits there.\<close>

definition still_waiting :: "uuid \<Rightarrow> uuid \<Rightarrow> Node \<Rightarrow> db \<Rightarrow> Execution option" where
  "still_waiting inst act node d =
     (case LockActivityExecutionTx inst act d of
        Inl _ \<Rightarrow> None
      | Inr x \<Rightarrow> if exec_element x \<noteq> AttachedToRef node \<or> exec_status x \<noteq> ExecWaiting then None else Some x)"

text \<open>The transaction of a boundary event: nothing for a trigger that is stale, else the execution to run.\<close>

definition boundary_tx :: "env \<Rightarrow> uuid \<Rightarrow> uuid \<Rightarrow> uuid \<Rightarrow> Node \<Rightarrow> uuid option eng" where
  "boundary_tx E inst trig act node = transaction (
     bindE (read (still_waiting inst act node)) (\<lambda>r. case r of
       None \<Rightarrow> thenE (upd (CompleteExecutionTx inst trig)) (ret None)
     | Some x \<Rightarrow>
         if \<not> CancelActivity node then
           bindE (draw E) (\<lambda>token.
           thenE (try_upd (CreateExecutionTx (new_execution token inst (exec_parent x) (ID node) ExecActive token)))
          (thenE (upd (UpdateExecutionStatusAndNodeTx inst trig ExecWaiting (ID node)))
          (thenE (rearm_boundary E inst trig node)
             (ret (Some token)))))
         else
           thenE (cancel_activity inst (exec_id x))
          (thenE (cancel_scope inst (exec_id x) uuid_Nil)
          (thenE (upd (CompleteExecutionTx inst trig))
          (thenE (upd (DisarmBoundaryTriggersTx inst [exec_id x]))
          (thenE (upd (UpdateExecutionStatusAndNodeTx inst (exec_id x) ExecActive (ID node)))
             (ret (Some (exec_id x)))))))))"

definition fireBoundary :: "env \<Rightarrow> (uuid \<Rightarrow> unit eng) \<Rightarrow> Execution \<Rightarrow> Node \<Rightarrow> graph \<Rightarrow> unit eng" where
  "fireBoundary E run trig node g =
     (let act = (case ParseBoundaryTriggerPathID (e_parse E) (exec_path trig) of Some a \<Rightarrow> a | None \<Rightarrow> uuid_Nil) in
      bindE (boundary_tx E (exec_instance trig) (exec_id trig) act node) (\<lambda>r. case r of
        None \<Rightarrow> ret ()
      | Some x \<Rightarrow>
          if \<not> CancelActivity node then run x
          else
            thenE (logCancelled E (exec_instance trig))
           (thenE (case map_of g (AttachedToRef node) of
                     Some n \<Rightarrow> if Type n = CallActivityType then terminateCalledInstances E x ''interrupted by boundary event'' else ret ()
                   | None \<Rightarrow> ret ())
              (run x))))"

subsection \<open>Errors\<close>

definition create_trigger :: "env \<Rightarrow> uuid \<Rightarrow> uuid \<Rightarrow> string \<Rightarrow> string \<Rightarrow> uuid eng" where
  "create_trigger E inst eid evsub scope =
     bindE (draw E) (\<lambda>new. bindE (tree_read (CreateErrorTriggerTx new inst eid evsub scope)) (\<lambda>r.
       bindE (lift engine_stop r) (\<lambda>(t, d). thenE (upd (\<lambda>_. d)) (ret t))))"

text \<open>The execution that catches: the throwing one where the catcher is attached to its element, else the one
  parked on the scope.\<close>

definition catching :: "uuid \<Rightarrow> uuid \<Rightarrow> string \<Rightarrow> Node \<Rightarrow> string \<Rightarrow> uuid eng" where
  "catching inst eid throwerID catcher scope = (if AttachedToRef catcher \<noteq> throwerID then find_scope inst eid scope else ret eid)"

definition catchError :: "env \<Rightarrow> (uuid \<Rightarrow> unit eng) \<Rightarrow> uuid \<Rightarrow> uuid \<Rightarrow> string \<Rightarrow> Node \<Rightarrow> string \<Rightarrow> unit eng" where
  "catchError E run inst eid throwerID catcher scope =
     (if Type catcher = EventSubProcessType then
        bindE (transaction (
          thenE (upd (DisarmBoundaryTriggersTx inst [eid]))
         (thenE (upd (CompleteExecutionTx inst eid))
           (create_trigger E inst eid (ID catcher) scope)))) run
      else
        bindE (transaction (
          bindE (catching inst eid throwerID catcher scope) (\<lambda>x.
          thenE (if AttachedToRef catcher \<noteq> throwerID then cancel_scope inst x uuid_Nil else ret ())
         (thenE (upd (DisarmBoundaryTriggersTx inst [x]))
         (thenE (upd (ClearLocalVariablesTx inst [x]))
         (thenE (upd (UpdateExecutionStatusAndNodeTx inst x ExecActive (ID catcher)))
            (ret x)))))))
       (\<lambda>x. thenE (logCancelled E inst) (run x)))"

text \<open>Whether a caller handled the error. \<open>CallerCatchesError\<close> looks 64 levels up, so the walk is no longer.\<close>

fun PropagateErrorToCaller :: "nat \<Rightarrow> env \<Rightarrow> (uuid \<Rightarrow> unit eng) \<Rightarrow> uuid \<Rightarrow> string \<Rightarrow> bool eng" where
  "PropagateErrorToCaller 0 E run inst code = halt OutOfFuel"
| "PropagateErrorToCaller (Suc k) E run inst code =
     bindE (read (CallerOf E inst)) (\<lambda>c. case c of
       None \<Rightarrow> ret False
     | Some caller \<Rightarrow>
       bindE (error_catcher (cl_Graph caller) (ID (cl_Node caller)) code) (\<lambda>(found, scope). case found of
         None \<Rightarrow>
           bindE (CallerCatchesError E (cl_InstanceID caller) code) (\<lambda>up.
             if \<not> up then ret False else PropagateErrorToCaller k E run (cl_InstanceID caller) code)
       | Some catcher \<Rightarrow>
           thenE (attempt (TerminateProcessInstance E inst ''BPMN error propagated''))
          (bindE (read (GetExecutionByID (cl_ExecID caller))) (\<lambda>e. case e of
             None \<Rightarrow> fail ''call activity execution''
           | Some x \<Rightarrow> thenE (catchError E run (exec_instance x) (exec_id x) (ID (cl_Node caller)) catcher scope) (ret True)))))"

definition executeErrorEnd :: "env \<Rightarrow> (uuid \<Rightarrow> unit eng) \<Rightarrow> Execution \<Rightarrow> Node \<Rightarrow> graph \<Rightarrow> unit eng" where
  "executeErrorEnd E run e node g =
     bindE (error_catcher g (ID node) (ErrorCode node)) (\<lambda>(found, scope). case found of
       Some catcher \<Rightarrow> catchError E run (exec_instance e) (exec_id e) (ID node) catcher scope
     | None \<Rightarrow>
         bindE (PropagateErrorToCaller 66 E run (exec_instance e) (ErrorCode node)) (\<lambda>handled.
           if handled then ret ()
           else transaction (
             thenE (upd (UpdateExecutionStatusTx (exec_instance e) (exec_id e) ExecWaiting))
               (CreateIncidentTx E (exec_instance e) None None IncidentUnhandledErrorEvent (ID node) (ErrorCode node)))))"

subsection \<open>Escalations\<close>

definition escalation_token :: "env \<Rightarrow> uuid \<Rightarrow> uuid \<Rightarrow> string \<Rightarrow> Node \<Rightarrow> string \<Rightarrow> uuid eng" where
  "escalation_token E inst eid throwerID catcher scope = transaction (
     bindE (catching inst eid throwerID catcher scope) (\<lambda>x.
     bindE (read (LockActivityExecutionTx inst x)) (\<lambda>r.
     bindE (lift engine_stop r) (\<lambda>s.
     bindE (draw E) (\<lambda>token.
     thenE (try_upd (CreateExecutionTx (new_execution token inst (exec_parent s) (ID catcher) ExecActive token)))
       (ret token))))))"

definition escalation_interrupts :: "uuid \<Rightarrow> uuid \<Rightarrow> string \<Rightarrow> Node \<Rightarrow> string \<Rightarrow> uuid eng" where
  "escalation_interrupts inst eid throwerID catcher scope = transaction (
     bindE (catching inst eid throwerID catcher scope) (\<lambda>x.
     thenE (cancel_activity inst x)
    (thenE (cancel_scope inst x uuid_Nil)
    (thenE (upd (DisarmBoundaryTriggersTx inst [x]))
    (thenE (upd (ClearLocalVariablesTx inst [x]))
    (thenE (upd (UpdateExecutionStatusAndNodeTx inst x ExecActive (ID catcher)))
       (ret x)))))))"

text \<open>Whether the token that threw the escalation goes on.\<close>

definition catchEscalation :: "env \<Rightarrow> (uuid \<Rightarrow> unit eng) \<Rightarrow> uuid \<Rightarrow> uuid \<Rightarrow> string \<Rightarrow> Node \<Rightarrow> string \<Rightarrow> bool eng" where
  "catchEscalation E run inst eid throwerID catcher scope =
     (if Type catcher = EventSubProcessType then
        bindE (transaction (create_trigger E inst eid (ID catcher) scope)) (\<lambda>t.
        thenE (run t)
       (thenE (if CancelActivity catcher then logCancelled E inst else ret ())
          (ret (\<not> CancelActivity catcher))))
      else if \<not> CancelActivity catcher then
        bindE (escalation_token E inst eid throwerID catcher scope) (\<lambda>t. thenE (run t) (ret True))
      else
        bindE (escalation_interrupts inst eid throwerID catcher scope) (\<lambda>x.
        thenE (logCancelled E inst) (thenE (run x) (ret False))))"

fun propagateEscalationToCaller :: "nat \<Rightarrow> env \<Rightarrow> (uuid \<Rightarrow> unit eng) \<Rightarrow> uuid \<Rightarrow> string \<Rightarrow> bool eng" where
  "propagateEscalationToCaller 0 E run inst code = halt OutOfFuel"
| "propagateEscalationToCaller (Suc k) E run inst code =
     bindE (read (CallerOf E inst)) (\<lambda>c. case c of
       None \<Rightarrow> ret True
     | Some caller \<Rightarrow>
       bindE (escalation_catcher (cl_Graph caller) (ID (cl_Node caller)) code) (\<lambda>(found, scope). case found of
         None \<Rightarrow> propagateEscalationToCaller k E run (cl_InstanceID caller) code
       | Some catcher \<Rightarrow>
          bindE (read (GetExecutionByID (cl_ExecID caller))) (\<lambda>e. case e of
             None \<Rightarrow> fail ''call activity execution''
           | Some x \<Rightarrow> catchEscalation E run (exec_instance x) (exec_id x) (ID (cl_Node caller)) catcher scope)))"

definition throwEscalation :: "env \<Rightarrow> (uuid \<Rightarrow> unit eng) \<Rightarrow> Execution \<Rightarrow> Node \<Rightarrow> graph \<Rightarrow> bool eng" where
  "throwEscalation E run e node g =
     bindE (escalation_catcher g (ID node) (EscalationCode node)) (\<lambda>(found, scope). case found of
       None \<Rightarrow> bindE (read close_fuel) (\<lambda>k. propagateEscalationToCaller k E run (exec_instance e) (EscalationCode node))
     | Some catcher \<Rightarrow> catchEscalation E run (exec_instance e) (exec_id e) (ID node) catcher scope)"

subsection \<open>Compensation\<close>

fun compensated :: "nat \<Rightarrow> graph \<Rightarrow> Node \<Rightarrow> string list option" where
  "compensated 0 g n = None"
| "compensated (Suc k) g n =
     (if CompensationHandler n \<noteq> [] then Some [ID n]
      else if Type n = SubProcessType then
        map_option concat (those (map (compensated k g) (filter (\<lambda>x. ParentScope x = ID n) (map snd g))))
      else Some [])"

definition compensation_scope :: "Node \<Rightarrow> graph \<Rightarrow> string" where
  "compensation_scope node g =
     (case map_of g (ParentScope node) of
        Some s \<Rightarrow> if Type s = EventSubProcessType then ParentScope s else ParentScope node
      | None \<Rightarrow> ParentScope node)"

definition to_compensate :: "Node \<Rightarrow> graph \<Rightarrow> string list option" where
  "to_compensate node g =
     map_option concat (those (map (compensated (length g + 1) g)
       (filter (\<lambda>n. ParentScope n = compensation_scope node g \<and> (CompensateActivity node = [] \<or> ID n = CompensateActivity node)) (map snd g))))"

fun start_handlers :: "env \<Rightarrow> Execution \<Rightarrow> (string \<times> string option) list \<Rightarrow> uuid list eng" where
  "start_handlers E e [] = ret []"
| "start_handlers E e (p # ps) =
     (case snd p of
        None \<Rightarrow> fail ''handler''
      | Some h \<Rightarrow>
          bindE (draw E) (\<lambda>x.
          thenE (try_upd (CreateExecutionTx (new_execution x (exec_instance e) None h ExecActive (CompensationHandlerPathID (exec_id e)))))
         (bindE (start_handlers E e ps) (\<lambda>xs. ret (x # xs)))))"

text \<open>Whether the token goes on now, with nothing to compensate.\<close>

definition throwCompensation :: "env \<Rightarrow> (uuid \<Rightarrow> unit eng) \<Rightarrow> Execution \<Rightarrow> Node \<Rightarrow> graph \<Rightarrow> bool eng" where
  "throwCompensation E run e node g =
     bindE (returned (to_compensate node g)) (\<lambda>activities.
     bindE (transaction (
       bindE (read (TakeCompensablesTx (exec_instance e) activities)) (\<lambda>(pending, d).
       thenE (upd (\<lambda>_. d))
      (if pending = [] then ret None
       else bindE (start_handlers E e pending) (\<lambda>hs.
         thenE (upd (UpdateExecutionStatusTx (exec_instance e) (exec_id e) ExecWaiting)) (ret (Some hs)))))))
    (\<lambda>r. case r of None \<Rightarrow> ret True | Some hs \<Rightarrow> thenE (each run hs) (ret False)))"

definition executeCompensationHandlerEnd :: "env \<Rightarrow> (uuid \<Rightarrow> unit eng) \<Rightarrow> Execution \<Rightarrow> unit eng" where
  "executeCompensationHandlerEnd E run e =
     bindE (transaction (
       thenE (upd (CompleteExecutionTx (exec_instance e) (exec_id e)))
      (case ParseCompensationHandlerPathID (e_parse E) (exec_path e) of
         None \<Rightarrow> ret None
       | Some thrower \<Rightarrow>
           bindE (read (LockActivityExecutionTx (exec_instance e) thrower)) (\<lambda>r. case r of
             Inl _ \<Rightarrow> ret None
           | Inr t \<Rightarrow>
               if exec_status t \<noteq> ExecWaiting then ret None
               else bindE (read (CountRunningCompensationHandlersTx (exec_instance e) thrower)) (\<lambda>n.
                 if n > 0 then ret None
                 else thenE (upd (UpdateExecutionStatusTx (exec_instance e) thrower ExecActive)) (ret (Some thrower)))))))
    (\<lambda>r. case r of None \<Rightarrow> ret () | Some t \<Rightarrow> run t)"

end
