(* ===== verification/Runtime_Loop.thy ===== *)
theory Runtime_Loop
  imports Runtime_Tasks Runtime_Scopes
begin

text \<open>
  The interpreter of \<open>runtime.go\<close>: the loop over element types, multi-instance activities
  (\<open>multi_instance_body.go\<close>), signals (\<open>signal_broadcast.go\<close>, \<open>start_events.go\<close>, \<open>process_start.go\<close>) and incidents.

  A BPMN process can go round in circles, so the interpreter takes fuel: one unit per call of \<open>ExecuteExecution\<close> and
  per round of its loop. Executors get the interpreter with less fuel as their argument \<open>run\<close>.
\<close>

subsection \<open>Multi-instance activities\<close>

record innerInstance =
  inner_Body :: uuid
  inner_Index :: nat
  inner_Activity :: string

definition lookupInnerInstance :: "uuid \<Rightarrow> uuid \<Rightarrow> db \<Rightarrow> innerInstance option" where
  "lookupInnerInstance inst eid d =
     (case find (\<lambda>c. mic_child c = eid \<and> mic_status c = LoopActive) (multi_instance_children d) of
        None \<Rightarrow> None
      | Some c \<Rightarrow>
          (case find (\<lambda>b. mib_instance b = inst \<and> mib_execution b = mic_body c \<and> mib_status b = LoopActive) (multi_instance_executions d) of
             None \<Rightarrow> None
           | Some b \<Rightarrow> Some \<lparr>inner_Body = mic_body c, inner_Index = mic_index c, inner_Activity = mib_activity b\<rparr>))"

definition extract_error :: "go_error \<Rightarrow> go_error" where
  "extract_error = IncidentError IncidentExtractValueError"

text \<open>The elements of the input collection, if there is one, and the number of inner instances.\<close>

definition multiInstanceItems :: "env \<Rightarrow> MultiInstanceConfig \<Rightarrow> vars \<Rightarrow> (json list option \<times> nat) eng" where
  "multiInstanceItems E cfg vs =
     (let coll = trim_space (mi_Collection cfg); card = trim_space (LoopCardinality cfg) in
      if coll \<noteq> [] then
        bindE (case map_of vs coll of
            Some v \<Rightarrow> if has_prefix coll ''='' then lift (eval_stop extract_error) (feel_Evaluate E (trimFEEL coll) vs) else ret v
          | None \<Rightarrow> lift (eval_stop extract_error) (feel_Evaluate E (trimFEEL coll) vs)) (\<lambda>v.
          case v of JList items \<Rightarrow> ret (Some items, length items) | _ \<Rightarrow> halt (Error (extract_error (GoError coll))))
      else if card \<noteq> [] then
        bindE (lift (eval_stop id) (feel_Evaluate E (trimFEEL card) vs)) (\<lambda>v.
          case v of JNum n \<Rightarrow> if 0 \<le> n \<and> n = of_int \<lfloor>n\<rfloor> then ret (None, nat \<lfloor>n\<rfloor>) else fail ''loop cardinality''
          | _ \<Rightarrow> fail ''loop cardinality'')
      else fail ''multi-instance'')"

definition name_start_char :: "char \<Rightarrow> bool" where
  "name_start_char c \<longleftrightarrow> zone_char c"

definition variableName :: "string \<Rightarrow> bool" where
  "variableName s = (case s of [] \<Rightarrow> False | c # cs \<Rightarrow> name_start_char c \<and> list_all (\<lambda>x. name_start_char x \<or> dec_digit x) cs)"

text \<open>The local variables of an inner instance. The element is taken by index: a collection that has become shorter
  is an index out of range.\<close>

definition inner_locals :: "MultiInstanceConfig \<Rightarrow> nat \<Rightarrow> json list option \<Rightarrow> vars option" where
  "inner_locals cfg i items =
     (let name = trim_space (trimFEEL (OutputElement cfg));
          l1 = [(''loopCounter'', JNum (of_nat (i + 1)))];
          l2 = (if variableName name then AList.update name JNull l1 else l1) in
      case items of
        None \<Rightarrow> Some l2
      | Some xs \<Rightarrow> if i < length xs then Some (if mi_Element cfg \<noteq> [] then AList.update (mi_Element cfg) (xs ! i) l2 else l2) else None)"

definition createInnerInstanceTx :: "env \<Rightarrow> uuid \<Rightarrow> uuid \<Rightarrow> Node \<Rightarrow> MultiInstanceConfig \<Rightarrow> json list option \<Rightarrow> nat \<Rightarrow> uuid eng" where
  "createInnerInstanceTx E inst body node cfg items i =
     bindE (draw E) (\<lambda>x.
     thenE (try_upd (CreateExecutionTx (new_execution x inst (Some body) (ID node) ExecActive (body @ ''#'' @ nat_dec (i + 1)))))
    (case inner_locals cfg i items of
       None \<Rightarrow> halt Panic
     | Some locals \<Rightarrow>
         thenE (upd (\<lambda>d. d\<lparr>multi_instance_children := multi_instance_children d @
                  [\<lparr>mic_body = body, mic_child = x, mic_index = i, mic_status = LoopActive\<rparr>]\<rparr>))
        (thenE (upd (SetLocalVariablesTx inst x locals)) (ret x))))"

fun create_inners :: "(nat \<Rightarrow> uuid eng) \<Rightarrow> nat list \<Rightarrow> uuid list eng" where
  "create_inners f [] = ret []"
| "create_inners f (i # is) = bindE (f i) (\<lambda>x. bindE (create_inners f is) (\<lambda>xs. ret (x # xs)))"

definition body_done :: "uuid \<Rightarrow> uuid \<Rightarrow> db \<Rightarrow> db" where
  "body_done inst body d = d\<lparr>multi_instance_executions := update_where
     (\<lambda>b. mib_instance b = inst \<and> mib_execution b = body \<and> mib_status b = LoopActive)
     (\<lambda>b. b\<lparr>mib_status := LoopCompleted\<rparr>) (multi_instance_executions d)\<rparr>"

definition finishMultiInstanceBodyTx :: "env \<Rightarrow> uuid \<Rightarrow> uuid \<Rightarrow> Node \<Rightarrow> MultiInstanceConfig \<Rightarrow> unit eng" where
  "finishMultiInstanceBodyTx E inst body node cfg =
     bindE (read (LocalVariables inst body)) (\<lambda>locals.
     thenE (upd (ClearLocalVariablesTx inst [body]))
    (thenE (if mi_Output cfg \<noteq> [] then upd (SetVariablesTx inst body
              [(mi_Output cfg, case map_of locals (mi_Output cfg) of Some (JList xs) \<Rightarrow> JList xs | _ \<Rightarrow> JList [])]) else ret ())
    (thenE (upd (body_done inst body))
    (thenE (upd (DisarmBoundaryTriggersTx inst [body]))
    (thenE (record_compensable E inst body node)
    (bindE (resolve E node []) (\<lambda>next.
       upd (UpdateExecutionStatusAndNodeTx inst body ExecActive next))))))))"

definition startMultiInstanceBody :: "env \<Rightarrow> (uuid \<Rightarrow> unit eng) \<Rightarrow> Execution \<Rightarrow> Node \<Rightarrow> MultiInstanceConfig \<Rightarrow> graph \<Rightarrow> vars \<Rightarrow> unit eng" where
  "startMultiInstanceBody E run e node cfg g vs =
     bindE (multiInstanceItems E cfg vs) (\<lambda>(items, n_all).
     bindE (transaction (
       thenE (upd (\<lambda>d. d\<lparr>multi_instance_executions := multi_instance_executions d @
          [\<lparr>mib_instance = exec_instance e, mib_execution = exec_id e, mib_activity = ID node, mib_total = n_all, mib_status = LoopActive\<rparr>]\<rparr>))
      (thenE (upd (UpdateExecutionStatusAndNodeTx (exec_instance e) (exec_id e) ExecWaiting (ID node)))
      (thenE (armBoundaryEventsTx E g e node)
      (thenE (if mi_Output cfg \<noteq> [] then upd (SetLocalVariablesTx (exec_instance e) (exec_id e) [(mi_Output cfg, JList (replicate n_all JNull))]) else ret ())
      (if n_all = 0 then thenE (finishMultiInstanceBodyTx E (exec_instance e) (exec_id e) node cfg) (ret [exec_id e])
       else create_inners (createInnerInstanceTx E (exec_instance e) (exec_id e) node cfg items) [0..<(if IsSequential cfg then 1 else n_all)]))))))
       (each run))"

text \<open>An inner instance stops because the completion condition holds.\<close>

definition set_child_status :: "uuid \<Rightarrow> loop_status \<Rightarrow> db \<Rightarrow> db" where
  "set_child_status eid s d = d\<lparr>multi_instance_children := update_where (\<lambda>c. mic_child c = eid) (\<lambda>c. c\<lparr>mic_status := s\<rparr>) (multi_instance_children d)\<rparr>"

text \<open>The sweep for called processes inside this transaction sees the tables as they were before and is repeated after the
  commit; it is left out here.\<close>

definition terminate_inner :: "uuid \<Rightarrow> uuid \<Rightarrow> unit eng" where
  "terminate_inner inst x =
     thenE (cancel_activity inst x)
    (thenE (cancel_scope inst x uuid_Nil)
    (thenE (upd (DisarmBoundaryTriggersTx inst [x]))
    (thenE (upd (CompleteExecutionTx inst x))
    (thenE (upd (ClearLocalVariablesTx inst [x]))
      (upd (set_child_status x LoopTerminated))))))"

definition children_with :: "uuid \<Rightarrow> loop_status \<Rightarrow> db \<Rightarrow> MultiInstanceChild list" where
  "children_with body s d = filter (\<lambda>c. mic_body c = body \<and> mic_status c = s) (multi_instance_children d)"

definition terminateInnerInstancesTx :: "uuid \<Rightarrow> uuid \<Rightarrow> unit eng" where
  "terminateInnerInstancesTx inst body =
     bindE (read (children_with body LoopActive)) (\<lambda>cs. each (terminate_inner inst) (map mic_child cs))"

definition set_at :: "nat \<Rightarrow> json \<Rightarrow> json list \<Rightarrow> json list" where
  "set_at i v xs = (xs @ replicate (i + 1 - length xs) JNull)[i := v]"

definition collect_output :: "env \<Rightarrow> uuid \<Rightarrow> innerInstance \<Rightarrow> MultiInstanceConfig \<Rightarrow> vars \<Rightarrow> unit eng" where
  "collect_output E inst inner cfg view =
     (if mi_Output cfg = [] \<or> trim_space (OutputElement cfg) = [] then ret ()
      else
        bindE (lift (eval_stop id) (feel_Evaluate E (trimFEEL (OutputElement cfg)) view)) (\<lambda>v.
        bindE (read (LocalVariables inst (inner_Body inner))) (\<lambda>locals.
          let xs = (case map_of locals (mi_Output cfg) of Some (JList ys) \<Rightarrow> ys | _ \<Rightarrow> []) in
          upd (SetLocalVariablesTx inst (inner_Body inner) [(mi_Output cfg, JList (set_at (inner_Index inner) v xs))]))))"

definition loop_vars :: "nat \<Rightarrow> nat \<Rightarrow> nat \<Rightarrow> nat \<Rightarrow> vars" where
  "loop_vars n_all active completed terminated =
     [(''numberOfInstances'', JNum (of_nat n_all)), (''numberOfActiveInstances'', JNum (of_nat active)),
      (''numberOfCompletedInstances'', JNum (of_nat completed)), (''numberOfTerminatedInstances'', JNum (of_nat terminated)),
      (''nrOfInstances'', JNum (of_nat n_all)), (''nrOfActiveInstances'', JNum (of_nat active)), (''nrOfCompletedInstances'', JNum (of_nat completed))]"

text \<open>Whether the loop is over after this inner instance.\<close>

definition loop_done :: "env \<Rightarrow> uuid \<Rightarrow> uuid \<Rightarrow> MultiInstanceConfig \<Rightarrow> vars \<Rightarrow> nat \<Rightarrow> nat \<Rightarrow> nat \<Rightarrow> nat \<Rightarrow> bool eng" where
  "loop_done E inst body cfg view n_all active completed terminated =
     (if completed + terminated \<ge> n_all then ret True
      else if trim_space (CompletionCondition cfg) = [] then ret False
      else
        bindE (lift (eval_stop id) (feel_EvaluateBool E (trimFEEL (CompletionCondition cfg))
            (merge_vars view (loop_vars n_all (if IsSequential cfg then 0 else active) completed terminated)))) (\<lambda>met.
          if met then thenE (terminateInnerInstancesTx inst body) (ret True) else ret False))"

text \<open>What comes after the transaction of an inner instance: nothing, the next inner instance, or the body.\<close>

datatype after_inner = Nothing | NextInner uuid | BodyLeaves

definition active_body :: "uuid \<Rightarrow> uuid \<Rightarrow> db \<Rightarrow> MultiInstanceBody option" where
  "active_body inst body d =
     find (\<lambda>b. mib_instance b = inst \<and> mib_execution b = body \<and> mib_status b = LoopActive) (multi_instance_executions d)"

definition count_inner :: "env \<Rightarrow> Execution \<Rightarrow> innerInstance \<Rightarrow> Node \<Rightarrow> MultiInstanceConfig \<Rightarrow> vars \<Rightarrow> after_inner eng" where
  "count_inner E e inner node cfg view =
     (let inst = exec_instance e; body = inner_Body inner in
      bindE (read (\<lambda>d. (length (children_with body LoopCompleted d), length (children_with body LoopActive d),
                        length (children_with body LoopTerminated d)))) (\<lambda>(completed, active, terminated).
      bindE (read (active_body inst body)) (\<lambda>b. case b of
        None \<Rightarrow> fail ''multi-instance body''
      | Some row \<Rightarrow>
          bindE (loop_done E inst body cfg view (mib_total row) active completed terminated) (\<lambda>done.
            if done then thenE (finishMultiInstanceBodyTx E inst body node cfg) (ret BodyLeaves)
            else if IsSequential cfg then
              bindE (attempt (multiInstanceItems E cfg view)) (\<lambda>r.
              bindE (case r of
                  Inl err \<Rightarrow> if mi_Collection cfg \<noteq> [] then halt (Error err) else ret None
                | Inr (items, _) \<Rightarrow> ret items) (\<lambda>items.
              bindE (createInnerInstanceTx E inst body node cfg items completed) (\<lambda>x. ret (NextInner x))))
            else ret Nothing))))"

definition completeInnerInstance :: "env \<Rightarrow> (uuid \<Rightarrow> unit eng) \<Rightarrow> Execution \<Rightarrow> innerInstance \<Rightarrow> graph \<Rightarrow> unit eng" where
  "completeInnerInstance E run e inner g =
     (case Option.bind (map_of g (inner_Activity inner)) (\<lambda>n. map_option (Pair n) (MultiInstance n)) of
        None \<Rightarrow> fail ''multi-instance activity''
      | Some (node, cfg) \<Rightarrow>
          (let inst = exec_instance e in
           bindE (transaction (
             bindE (read (LockActivityExecutionTx inst (inner_Body inner))) (\<lambda>r.
               case r of
                 Inr b \<Rightarrow>
                   if exec_element b \<noteq> ID node \<or> exec_status b \<noteq> ExecWaiting then thenE (upd (CompleteExecutionTx inst (exec_id e))) (ret Nothing)
                   else
                     bindE (read (VariablesForExecution inst (exec_id e))) (\<lambda>view.
                     thenE (collect_output E inst inner cfg view)
                    (thenE (upd (set_child_status (exec_id e) LoopCompleted))
                    (thenE (upd (CompleteExecutionTx inst (exec_id e)))
                    (thenE (upd (ClearLocalVariablesTx inst [exec_id e]))
                       (count_inner E e inner node cfg view)))))
               | Inl _ \<Rightarrow> thenE (upd (CompleteExecutionTx inst (exec_id e))) (ret Nothing))))
          (\<lambda>a. case a of
             Nothing \<Rightarrow> ret ()
           | NextInner x \<Rightarrow> if x \<noteq> uuid_Nil then run x else ret ()
           | BodyLeaves \<Rightarrow> thenE (logCancelled E inst) (run (inner_Body inner)))))"

subsection \<open>Signals\<close>

definition startProcessInstanceAt :: "env \<Rightarrow> uuid \<Rightarrow> uuid \<Rightarrow> uuid \<Rightarrow> string option \<Rightarrow> vars \<Rightarrow> string \<Rightarrow> unit eng" where
  "startProcessInstanceAt E def inst eid tenant vs start = transaction (
     thenE (try_upd (CreateProcessInstanceTx inst def (millis (e_now E)) tenant))
    (thenE (try_upd (\<lambda>d. if inst \<in> fst ` set (variables d) then Inl DuplicateKey else Inr (d\<lparr>variables := variables d @ [(inst, vs)]\<rparr>)))
      (try_upd (CreateExecutionTx2 eid inst start))))"

text \<open>A new instance at the none start event of a process, or at a start event given.\<close>

definition StartProcessInstance :: "env \<Rightarrow> graph \<Rightarrow> uuid \<Rightarrow> string option \<Rightarrow> vars \<Rightarrow> (uuid \<times> uuid) eng" where
  "StartProcessInstance E g def tenant vs =
     bindE (draw E) (\<lambda>inst. bindE (draw E) (\<lambda>eid.
       case find IsProcessStart (map snd g) of
         None \<Rightarrow> fail ''no start event''
       | Some n \<Rightarrow> if ID n = [] then fail ''no start event''
           else thenE (startProcessInstanceAt E def inst eid tenant vs (ID n)) (ret (inst, eid))))"

definition StartProcessInstanceAt :: "env \<Rightarrow> uuid \<Rightarrow> string option \<Rightarrow> vars \<Rightarrow> string \<Rightarrow> (uuid \<times> uuid) eng" where
  "StartProcessInstanceAt E def tenant vs start =
     bindE (draw E) (\<lambda>inst. bindE (draw E) (\<lambda>eid.
       thenE (startProcessInstanceAt E def inst eid tenant vs start) (ret (inst, eid))))"

definition startBySignal :: "env \<Rightarrow> (uuid \<Rightarrow> unit eng) \<Rightarrow> string \<Rightarrow> vars \<Rightarrow> unit eng" where
  "startBySignal E run name vs =
     each (\<lambda>(def, g, tenant, start). bindE (attempt (StartProcessInstanceAt E def tenant vs start)) (\<lambda>r. case r of
       Inl _ \<Rightarrow> ret ()
     | Inr (inst, eid) \<Rightarrow> thenE (attempt (run eid)) (ret ()))) (e_signal_starts E name)"

definition FindBySignalName :: "string \<Rightarrow> db \<Rightarrow> EventSubscription list" where
  "FindBySignalName name d = filter (\<lambda>s. sub_type s = ''signal'' \<and> sub_name s = name \<and> \<not> sub_consumed s) (event_subscriptions d)"

definition consume_where :: "(EventSubscription \<Rightarrow> bool) \<Rightarrow> db \<Rightarrow> db" where
  "consume_where P d = d\<lparr>event_subscriptions := update_where P (\<lambda>s. s\<lparr>sub_consumed := True\<rparr>) (event_subscriptions d)\<rparr>"

definition Consume :: "uuid \<Rightarrow> db \<Rightarrow> db" where
  "Consume sid = consume_where (\<lambda>s. sub_id s = sid)"

definition CancelSiblingSubscriptions :: "uuid \<Rightarrow> uuid \<Rightarrow> db \<Rightarrow> db" where
  "CancelSiblingSubscriptions eid sid d =
     (let d1 = consume_where (\<lambda>s. sub_execution s = Some eid \<and> sub_id s \<noteq> sid \<and> \<not> sub_consumed s \<and> sub_type s \<noteq> ''compensable'') d
      in d1\<lparr>timer_jobs := delete_where (\<lambda>t. timer_execution t = Some eid \<and> \<not> IsTriggered t) (timer_jobs d1)\<rparr>)"

definition ResumeWaitingExecution :: "uuid \<Rightarrow> uuid \<Rightarrow> string \<Rightarrow> db \<Rightarrow> db" where
  "ResumeWaitingExecution inst eid target = update_executions (exec_key inst eid)
     (\<lambda>e. (if target \<noteq> [] then e\<lparr>exec_element := target\<rparr> else e)\<lparr>exec_status := ExecActive, exec_is_active := True\<rparr>)"

definition signal_target :: "env \<Rightarrow> EventSubscription \<Rightarrow> uuid \<Rightarrow> string eng" where
  "signal_target E s eid =
     (case sub_target s of
        Some t \<Rightarrow> if t \<noteq> [] then thenE (upd (CancelSiblingSubscriptions eid (sub_id s))) (ret t) else ret []
      | None \<Rightarrow> ret [])"

text \<open>Without a target, the flow out of the element the execution is parked on; an error leaves it there.\<close>

definition after_catch :: "env \<Rightarrow> EventSubscription \<Rightarrow> uuid \<Rightarrow> string eng" where
  "after_catch E s eid =
     bindE (read (\<lambda>d. case find (exec_key (sub_instance s) eid) (executions d) of None \<Rightarrow> [] | Some e \<Rightarrow> exec_element e)) (\<lambda>cur.
     bindE (attempt (graph_of E (sub_instance s))) (\<lambda>r. case r of
       Inl _ \<Rightarrow> ret []
     | Inr g \<Rightarrow> (case map_of g cur of
         None \<Rightarrow> ret []
       | Some n \<Rightarrow> bindE (attempt (resolve E n [])) (\<lambda>q. ret (case q of Inl _ \<Rightarrow> [] | Inr t \<Rightarrow> t)))))"

definition signal_one :: "env \<Rightarrow> (uuid \<Rightarrow> unit eng) \<Rightarrow> vars \<Rightarrow> EventSubscription \<Rightarrow> unit eng" where
  "signal_one E run vs s =
     (let eid = (case sub_execution s of Some x \<Rightarrow> x | None \<Rightarrow> uuid_Nil); inst = sub_instance s in
      bindE (if sub_target s \<noteq> None \<and> sub_target s \<noteq> Some [] then signal_target E s eid else after_catch E s eid) (\<lambda>target.
      thenE (if vs \<noteq> [] then transaction (bindE (read (VariableScopeOf (e_parse E) inst eid)) (\<lambda>scope. upd (SetVariablesTx inst scope vs))) else ret ())
     (thenE (upd (Consume (sub_id s)))
     (thenE (upd (ResumeWaitingExecution inst eid target))
     (thenE (attempt (ResumeExecution E run eid)) (ret ()))))))"

definition BroadcastSignal :: "env \<Rightarrow> (uuid \<Rightarrow> unit eng) \<Rightarrow> string \<Rightarrow> vars \<Rightarrow> unit eng" where
  "BroadcastSignal E run name vs =
     bindE (read (FindBySignalName name)) (\<lambda>subs. thenE (each (signal_one E run vs) subs) (startBySignal E run name vs))"

definition broadcastSignal :: "env \<Rightarrow> (uuid \<Rightarrow> unit eng) \<Rightarrow> Node \<Rightarrow> unit eng" where
  "broadcastSignal E run node = (if SignalRef node = [] then ret () else BroadcastSignal E run (SignalRef node) [])"

end
