(* ===== verification/Runtime_Run.thy ===== *)
theory Runtime_Run
  imports Runtime_Loop
begin

text \<open>
  \<open>ExecuteExecution\<close> of \<open>runtime.go\<close>: an execution is loaded and its token moved from element to element until it waits or
  ends; a failure on an element becomes an incident there.

  The loop keeps its local variables in a \<open>position\<close>. One round of it is \<open>step\<close>, one function per group of cases of the
  switch over element types; a case that returns gives no position, a case that goes on gives the next one. A process can go
  round in circles, so \<open>run\<close> takes fuel, one unit per call of \<open>ExecuteExecution\<close> and per round. \<open>OutOfFuel\<close> is a run
  that has not returned yet: more fuel does not change the result of one that has (\<open>run_more_fuel\<close>).
\<close>

subsection \<open>Incidents\<close>

definition can_hold_incident :: "Execution \<Rightarrow> bool" where
  "can_hold_incident e \<longleftrightarrow> exec_is_active e \<and> exec_status e \<noteq> ExecCompleted \<and> exec_status e \<noteq> ExecTerminated"

text \<open>Whether the error is an incident now. The message of the incident is left out.\<close>

definition raiseExecutionIncident :: "env \<Rightarrow> uuid \<Rightarrow> go_error \<Rightarrow> bool eng" where
  "raiseExecutionIncident E eid cause =
     bindE (read (GetExecutionByID eid)) (\<lambda>r. case r of
       None \<Rightarrow> ret False
     | Some e \<Rightarrow>
         if \<not> can_hold_incident e then ret False
         else bindE (read (HasOpenIncidentOnExecution (exec_instance e) (exec_id e))) (\<lambda>open.
           if open then ret True
           else thenE (transaction (
               thenE (CreateIncidentTx E (exec_instance e) (Some (exec_id e)) None (IncidentTypeOf cause)
                        (trim_prefix (exec_element e) ImplicitEndPrefix) [])
                 (upd (UpdateExecutionStatusTx (exec_instance e) (exec_id e) ExecWaiting))))
             (ret True)))"

definition ExecutionOf :: "uuid \<Rightarrow> uuid \<Rightarrow> db \<Rightarrow> uuid option" where
  "ExecutionOf inst iid d =
     (case find (\<lambda>n. inc_instance n = inst \<and> inc_id n = iid) (incidents d) of None \<Rightarrow> None | Some n \<Rightarrow> inc_execution n)"

definition ResumeAfterIncident :: "env \<Rightarrow> (uuid \<Rightarrow> unit eng) \<Rightarrow> uuid \<Rightarrow> uuid \<Rightarrow> unit eng" where
  "ResumeAfterIncident E run inst iid =
     bindE (read (ExecutionOf inst iid)) (\<lambda>r. case r of None \<Rightarrow> ret () | Some eid \<Rightarrow> ResumeExecution E run eid)"

subsection \<open>One round of the loop\<close>

record position =
  p_exec :: Execution
  p_vars :: vars
  p_graph :: graph
  p_inner :: "innerInstance option"
  p_current :: string

text \<open>The load before the loop.\<close>

definition load_position :: "env \<Rightarrow> uuid \<Rightarrow> position eng" where
  "load_position E eid =
     bindE (read (GetActiveExecution eid)) (\<lambda>r. case r of
       None \<Rightarrow> fail ''execution not found or not active''
     | Some e \<Rightarrow>
         bindE (read (scope_view E (exec_instance e) (exec_id e))) (\<lambda>vs.
         bindE (graph_of E (exec_instance e)) (\<lambda>g.
         bindE (read (lookupInnerInstance (exec_instance e) (exec_id e))) (\<lambda>inner.
           ret \<lparr>p_exec = e, p_vars = vs, p_graph = g, p_inner = inner, p_current = exec_element e\<rparr>))))"

definition stay :: "unit eng \<Rightarrow> position option eng" where
  "stay m = thenE m (ret None)"

definition go_on :: "position \<Rightarrow> string eng \<Rightarrow> position option eng" where
  "go_on p m = bindE m (\<lambda>next. ret (Some (p\<lparr>p_current := next\<rparr>)))"

definition go_on_with :: "position \<Rightarrow> (string \<times> vars) eng \<Rightarrow> position option eng" where
  "go_on_with p m = bindE m (\<lambda>(next, vs). ret (Some (p\<lparr>p_current := next, p_vars := vs\<rparr>)))"

text \<open>A throw that may hold the token back.\<close>

definition carry_on :: "bool eng \<Rightarrow> position option eng \<Rightarrow> position option eng" where
  "carry_on m k = bindE m (\<lambda>b. if b then k else ret None)"

definition ends :: "env \<Rightarrow> (uuid \<Rightarrow> unit eng) \<Rightarrow> position \<Rightarrow> string \<Rightarrow> unit eng" where
  "ends E run p scope = executeEnd E run (p_exec p) scope (p_graph p) (p_vars p)"

definition implicit_end :: "env \<Rightarrow> (uuid \<Rightarrow> unit eng) \<Rightarrow> position \<Rightarrow> unit eng" where
  "implicit_end E run p =
     (case map_of (p_graph p) (trim_prefix (p_current p) ImplicitEndPrefix) of
        None \<Rightarrow> fail ''implicit end of unknown element''
      | Some activity \<Rightarrow> ends E run p (ParentScope activity))"

text \<open>Start events and exclusive gateways; message and signal start events go the same way.\<close>

definition pass :: "env \<Rightarrow> position \<Rightarrow> Node \<Rightarrow> string eng" where
  "pass E p node =
     thenE (whenE (Type node \<noteq> ExclusiveGatewayType \<and> ParentScope node = []) (armProcessEventSubProcesses E (p_graph p) (p_exec p)))
       (advance E (p_exec p) node (p_vars p))"

definition step_boundary :: "env \<Rightarrow> (uuid \<Rightarrow> unit eng) \<Rightarrow> position \<Rightarrow> Node \<Rightarrow> position option eng" where
  "step_boundary E run p node =
     (if ParseBoundaryTriggerPathID (e_parse E) (exec_path (p_exec p)) \<noteq> None \<and> p_current p = exec_element (p_exec p)
      then stay (fireBoundary E run (p_exec p) node (p_graph p))
      else if Type node = BoundaryTimerEventType then go_on p (executeBoundaryTimerNode (p_exec p) node)
      else go_on p (advance E (p_exec p) node (p_vars p)))"

text \<open>A fork draws one identifier per branch.\<close>

definition fork_with :: "env \<Rightarrow> ((nat \<Rightarrow> uuid) \<Rightarrow> db \<Rightarrow> engine_error + db) \<Rightarrow> nat \<Rightarrow> unit eng" where
  "fork_with E f n = (\<lambda>w. try_upd (f (\<lambda>i. e_fresh E (drawn w + i))) (w\<lparr>drawn := drawn w + n\<rparr>))"

definition run_children :: "(uuid \<Rightarrow> unit eng) \<Rightarrow> uuid \<Rightarrow> unit eng" where
  "run_children run eid = bindE (read (GetChildExecutions eid)) (\<lambda>cs. each run (map exec_id cs))"

definition last_state :: "uuid \<Rightarrow> string \<Rightarrow> db \<Rightarrow> GatewayState option" where
  "last_state inst gid d =
     (case filter (\<lambda>s. gw_instance s = inst \<and> gw_gateway s = gid) (gateway_states d) of [] \<Rightarrow> None | s # ss \<Rightarrow> Some (last (s # ss)))"

definition resume_parent :: "(uuid \<Rightarrow> unit eng) \<Rightarrow> Execution \<Rightarrow> unit eng" where
  "resume_parent run e =
     (case exec_parent e of
        None \<Rightarrow> ret ()
      | Some parent \<Rightarrow> bindE (read (GetActiveExecution parent)) (\<lambda>r. case r of None \<Rightarrow> ret () | Some x \<Rightarrow> run (exec_id x)))"

definition step_parallel :: "env \<Rightarrow> (uuid \<Rightarrow> unit eng) \<Rightarrow> position \<Rightarrow> Node \<Rightarrow> unit eng" where
  "step_parallel E run p node =
     (let e = p_exec p in
      bindE (read (isForkGateway node e)) (\<lambda>fork.
        if fork then
          thenE (fork_with E (\<lambda>new. parallel_ExecuteFork new (exec_id e) node (p_vars p)) (length (Outgoing node)))
            (run_children run (exec_id e))
        else
          bindE (draw E) (\<lambda>new.
          thenE (try_upd (parallel_ExecuteJoin id new (exec_id e) node))
         (bindE (read (last_state (exec_instance e) (ID node))) (\<lambda>s. case s of
            None \<Rightarrow> ret ()
          | Some st \<Rightarrow> if ReceivedIncoming st \<ge> ExpectedIncoming st then resume_parent run e else ret ())))))"

text \<open>The number of branches an inclusive fork takes, for the identifiers it draws.\<close>

definition branch_count :: "env \<Rightarrow> Node \<Rightarrow> vars \<Rightarrow> nat" where
  "branch_count E node vs = (case ResolveInclusiveBranches (condition E) node vs of Inl _ \<Rightarrow> 0 | Inr bs \<Rightarrow> length bs)"

definition step_inclusive :: "env \<Rightarrow> (uuid \<Rightarrow> unit eng) \<Rightarrow> position \<Rightarrow> Node \<Rightarrow> unit eng" where
  "step_inclusive E run p node =
     (let e = p_exec p in
      bindE (read (isForkGateway node e)) (\<lambda>fork.
        if fork then
          thenE (fork_with E (\<lambda>new. inclusive_ExecuteFork (condition E) new (exec_id e) node (p_vars p)) (branch_count E node (p_vars p)))
            (run_children run (exec_id e))
        else
          bindE (draw E) (\<lambda>new.
          thenE (try_upd (inclusive_ExecuteJoin id new (exec_id e) node))
         (bindE (read (last_state (exec_instance e) (ID node))) (\<lambda>s.
            if (case s of None \<Rightarrow> True | Some st \<Rightarrow> ReceivedIncoming st \<ge> ExpectedIncoming st) then resume_parent run e else ret ())))))"

text \<open>Tasks, and events the token waits on.\<close>

definition step_task :: "env \<Rightarrow> (uuid \<Rightarrow> unit eng) \<Rightarrow> position \<Rightarrow> Node \<Rightarrow> position option eng" where
  "step_task E run p node =
     (let e = p_exec p; vs = p_vars p; g = p_graph p in
      case Type node of
        ServiceTaskType \<Rightarrow> stay (executeServiceTask E e node vs)
      | UserTaskType \<Rightarrow> stay (executeUserTask E e node g vs)
      | ScriptTaskType \<Rightarrow> go_on_with p (executeScriptTask E e node vs)
      | BusinessRuleTaskType \<Rightarrow> go_on_with p (executeBusinessRuleTask E e node vs)
      | ManualTaskType \<Rightarrow> go_on p (advance E e node vs)
      | CallActivityType \<Rightarrow> stay (executeCallActivity E run e node vs)
      | SubProcessType \<Rightarrow> stay (executeSubProcess E run e node g vs)
      | EventSubProcessType \<Rightarrow> stay (executeEventSubProcess E run e node)
      | _ \<Rightarrow> fail ''unknown node type'')"

definition step_catch :: "env \<Rightarrow> (uuid \<Rightarrow> unit eng) \<Rightarrow> position \<Rightarrow> Node \<Rightarrow> position option eng" where
  "step_catch E run p node =
     (let e = p_exec p; vs = p_vars p; g = p_graph p in
      case Type node of
        IntermediateConditionalCatchEventType \<Rightarrow>
          carry_on (executeConditionalCatch E e node vs) (go_on p (advance E e node vs))
      | ErrorBoundaryEventType \<Rightarrow> go_on p (executeErrorBoundaryNode e node)
      | IntermediateCatchEventType \<Rightarrow> stay (executeIntermediateTimer E e node)
      | IntermediateTimerEventType \<Rightarrow> stay (executeIntermediateTimer E e node)
      | LinkCatchEventType \<Rightarrow> go_on p (advance E e node vs)
      | EscalationBoundaryEventType \<Rightarrow> go_on p (advance E e node vs)
      | IntermediateMessageCatchEventType \<Rightarrow> stay (executeMessageCatchEvent E e node)
      | IntermediateSignalCatchEventType \<Rightarrow> stay (executeSignalCatchEvent E e node)
      | EventBasedGatewayType \<Rightarrow> stay (executeEventBasedGateway E e node g)
      | _ \<Rightarrow> step_task E run p node)"

text \<open>Throwing and end events.\<close>

definition step_throw :: "env \<Rightarrow> (uuid \<Rightarrow> unit eng) \<Rightarrow> position \<Rightarrow> Node \<Rightarrow> position option eng" where
  "step_throw E run p node =
     (let e = p_exec p; vs = p_vars p; g = p_graph p in
      case Type node of
        IntermediateCompensationThrowEventType \<Rightarrow>
          carry_on (throwCompensation E run e node g) (go_on p (advance E e node vs))
      | CompensationEndEventType \<Rightarrow> carry_on (throwCompensation E run e node g) (stay (ends E run p (ParentScope node)))
      | CompensationHandlerEndType \<Rightarrow> stay (executeCompensationHandlerEnd E run e)
      | EndEventType \<Rightarrow> stay (ends E run p (ParentScope node))
      | SignalEndEventType \<Rightarrow> thenE (broadcastSignal E run node) (stay (ends E run p (ParentScope node)))
      | TerminateEndEventType \<Rightarrow> stay (executeTerminateEnd E run e node g vs)
      | ErrorEndEventType \<Rightarrow> stay (executeErrorEnd E run e node g)
      | IntermediateEscalationThrowEventType \<Rightarrow>
          carry_on (throwEscalation E run e node g) (go_on p (advance E e node vs))
      | EscalationEndEventType \<Rightarrow> carry_on (throwEscalation E run e node g) (stay (ends E run p (ParentScope node)))
      | IntermediateThrowEventType \<Rightarrow> go_on p (advance E e node vs)
      | IntermediateSignalThrowEventType \<Rightarrow> thenE (broadcastSignal E run node) (go_on p (advance E e node vs))
      | _ \<Rightarrow> step_catch E run p node)"

definition step_node :: "env \<Rightarrow> (uuid \<Rightarrow> unit eng) \<Rightarrow> position \<Rightarrow> Node \<Rightarrow> position option eng" where
  "step_node E run p node =
     (if Type node \<in> {StartEventType, StartTimerEventType, ExclusiveGatewayType, MessageStartEventType, SignalStartEventType}
      then go_on p (pass E p node)
      else if isBoundaryTrigger node then step_boundary E run p node
      else if Type node = ParallelGatewayType then stay (step_parallel E run p node)
      else if Type node = InclusiveGatewayType then stay (step_inclusive E run p node)
      else step_throw E run p node)"

text \<open>An inner instance of a multi-instance activity runs the activity itself; anyone else who comes to it starts the
  loop.\<close>

definition starts_loop :: "position \<Rightarrow> Node \<Rightarrow> bool" where
  "starts_loop p node \<longleftrightarrow> MultiInstance node \<noteq> None \<and> (case p_inner p of None \<Rightarrow> True | Some i \<Rightarrow> inner_Activity i \<noteq> ID node)"

definition step :: "env \<Rightarrow> (uuid \<Rightarrow> unit eng) \<Rightarrow> position \<Rightarrow> position option eng" where
  "step E run p =
     (if (case p_inner p of None \<Rightarrow> False | Some i \<Rightarrow> p_current p \<noteq> inner_Activity i)
      then stay (completeInnerInstance E run (p_exec p) (the (p_inner p)) (p_graph p))
      else if has_prefix (p_current p) ImplicitEndPrefix then stay (implicit_end E run p)
      else
        bindE (lift engine_stop (GetNodeByID (p_graph p) (p_current p))) (\<lambda>node.
          if starts_loop p node
          then stay (startMultiInstanceBody E run (p_exec p) node (the (MultiInstance node)) (p_graph p) (p_vars p))
          else step_node E run p node))"

subsection \<open>The interpreter\<close>

text \<open>What \<open>ExecuteExecution\<close> does with an error of the loop.\<close>

definition with_incident :: "env \<Rightarrow> uuid \<Rightarrow> unit eng \<Rightarrow> unit eng" where
  "with_incident E eid m =
     bindE (attempt m) (\<lambda>r. case r of
       Inr _ \<Rightarrow> ret ()
     | Inl err \<Rightarrow> bindE (raiseExecutionIncident E eid err) (\<lambda>raised. if raised then ret () else halt (Error err)))"

datatype work = Execute uuid | Round position

fun run :: "nat \<Rightarrow> env \<Rightarrow> work \<Rightarrow> unit eng" where
  "run 0 E x = halt OutOfFuel"
| "run (Suc k) E (Execute eid) = with_incident E eid (bindE (load_position E eid) (\<lambda>p. run k E (Round p)))"
| "run (Suc k) E (Round p) =
     bindE (step E (\<lambda>eid. run k E (Execute eid)) p) (\<lambda>r. case r of None \<Rightarrow> ret () | Some p' \<Rightarrow> run k E (Round p'))"

definition ExecuteExecution :: "nat \<Rightarrow> env \<Rightarrow> uuid \<Rightarrow> unit eng" where
  "ExecuteExecution fuel E eid = run fuel E (Execute eid)"

end
