(* ===== verification/Runtime_Changes.thy ===== *)
theory Runtime_Changes
  imports Runtime_Run
begin

text \<open>
  What a run may do to the tables. \<open>change\<close> is an abstract specification of the engine, a step relation on the database: what
  rows may be added, and which columns of a row may change and how. Every statement the runtime executes is a sequence of such
  changes (\<open>changes_intros\<close>). A rule \<open>safe\<close> in the style of a Hoare logic carries that through the monad, and the whole
  interpreter follows: \<open>run_changes\<close>. Invariants of the engine are then proved by rule induction over \<open>change\<close>, once for
  all executors; the locale \<open>stable\<close> is the interface for that.
\<close>

named_theorems changes_intros
named_theorems safe_intros

subsection \<open>Changes of the tables\<close>

definition keys :: "db \<Rightarrow> (uuid \<times> uuid) set" where
  "keys d = (\<lambda>e. (exec_instance e, exec_id e)) ` set (executions d)"

text \<open>The executions a row names: itself and its parent.\<close>

definition knows :: "Execution \<Rightarrow> (uuid \<times> uuid) set" where
  "knows e = insert (exec_instance e, exec_id e) (case exec_parent e of None \<Rightarrow> {} | Some p \<Rightarrow> {(exec_instance e, p)})"

definition known :: "db \<Rightarrow> (uuid \<times> uuid) set" where
  "known d = (\<Union>e \<in> set (executions d). knows e)"

text \<open>An update that leaves the identity of an execution and its place in the tree alone.\<close>

definition same_place :: "(Execution \<Rightarrow> Execution) \<Rightarrow> bool" where
  "same_place f \<longleftrightarrow> (\<forall>e. exec_id (f e) = exec_id e \<and> exec_instance (f e) = exec_instance e \<and>
     exec_parent (f e) = exec_parent e \<and> exec_path (f e) = exec_path e)"

text \<open>Updates of work items that keep what they are of.\<close>

definition same_task :: "(UserTask \<Rightarrow> UserTask) \<Rightarrow> bool" where
  "same_task f \<longleftrightarrow> (\<forall>t. task_id (f t) = task_id t \<and> task_instance (f t) = task_instance t \<and> task_execution (f t) = task_execution t)"

definition same_job :: "(Job \<Rightarrow> Job) \<Rightarrow> bool" where
  "same_job f \<longleftrightarrow> (\<forall>j. job_id (f j) = job_id j \<and> job_instance (f j) = job_instance j \<and> job_execution (f j) = job_execution j)"

inductive change :: "db \<Rightarrow> db \<Rightarrow> bool" where
  create: "(exec_instance e, exec_id e) \<notin> keys d \<Longrightarrow> (\<And>p. exec_parent e = Some p \<Longrightarrow> (exec_instance e, p) \<in> known d) \<Longrightarrow>
     change d (d\<lparr>executions := executions d @ [e]\<rparr>)"
| move: "same_place f \<Longrightarrow> change d (update_executions P f d)"
| begin_instance: "pi_id p \<notin> pi_id ` set (process_instances d) \<Longrightarrow> pi_status p = InstanceRunning \<Longrightarrow>
     change d (d\<lparr>process_instances := process_instances d @ [p]\<rparr>)"
| end_instance: "finished s \<Longrightarrow> change d (UpdateProcessInstanceStatusTx inst s (Some t) d)"
| new_task: "(task_instance t, task_id t) \<notin> (\<lambda>x. (task_instance x, task_id x)) ` set (tasks d) \<Longrightarrow> change d (d\<lparr>tasks := tasks d @ [t]\<rparr>)"
| drop_tasks: "change d (snd (cancel_tasks P d))"
| work_task: "(\<And>t. t \<in> set (tasks d) \<Longrightarrow> P t \<Longrightarrow> task_open t) \<Longrightarrow> same_task ft \<Longrightarrow> change d (d\<lparr>tasks := update_where P ft (tasks d)\<rparr>)"
| new_job: "job_id j \<notin> job_id ` set (jobs d) \<Longrightarrow> change d (d\<lparr>jobs := jobs d @ [j]\<rparr>)"
| drop_jobs: "change d (snd (cancel_jobs Q d))"
| work_job: "(\<And>j. j \<in> set (jobs d) \<Longrightarrow> Q j \<Longrightarrow> job_open j) \<Longrightarrow> same_job fj \<Longrightarrow> change d (d\<lparr>jobs := update_where Q fj (jobs d)\<rparr>)"
| subscribe: "change d (d\<lparr>event_subscriptions := event_subscriptions d @ [s]\<rparr>)"
| consume: "change d (d\<lparr>event_subscriptions := update_where S (\<lambda>s. s\<lparr>sub_consumed := True\<rparr>) (event_subscriptions d)\<rparr>)"
| evaluated: "(\<And>s. S s \<Longrightarrow> \<not> sub_consumed s) \<Longrightarrow>
     change d (d\<lparr>event_subscriptions := update_where S (\<lambda>s. s\<lparr>sub_last := b\<rparr>) (event_subscriptions d)\<rparr>)"
| unsubscribe: "(\<And>s. S s \<Longrightarrow> \<not> sub_consumed s) \<Longrightarrow> change d (d\<lparr>event_subscriptions := delete_where S (event_subscriptions d)\<rparr>)"
| arm: "timer_id t \<notin> timer_id ` set (timer_jobs d) \<Longrightarrow> change d (d\<lparr>timer_jobs := timer_jobs d @ [t]\<rparr>)"
| fire: "change d (d\<lparr>timer_jobs := update_where T trigger (timer_jobs d)\<rparr>)"
| disarm: "(\<And>t. T t \<Longrightarrow> \<not> IsTriggered t) \<Longrightarrow> change d (d\<lparr>timer_jobs := delete_where T (timer_jobs d)\<rparr>)"
| incident: "inc_open n \<Longrightarrow> change d (d\<lparr>incidents := incidents d @ [n]\<rparr>)"
| data: "change d (d\<lparr>gateway_states := gs, execution_variables := xs, variables := vs, scope_variables := ss,
     multi_instance_executions := bs, multi_instance_children := cs\<rparr>)"

abbreviation changes :: "db \<Rightarrow> db \<Rightarrow> bool" where
  "changes \<equiv> change\<^sup>*\<^sup>*"

lemma changes_trans [trans]: "changes d d' \<Longrightarrow> changes d' d'' \<Longrightarrow> changes d d''"
  by (rule rtranclp_trans)

lemma changes_data:
  assumes "executions d' = executions d" "timer_jobs d' = timer_jobs d" "event_subscriptions d' = event_subscriptions d"
    "jobs d' = jobs d" "tasks d' = tasks d" "incidents d' = incidents d" "process_instances d' = process_instances d"
  shows "changes d d'"
proof -
  have "d' = d\<lparr>gateway_states := gateway_states d', execution_variables := execution_variables d', variables := variables d',
      scope_variables := scope_variables d', multi_instance_executions := multi_instance_executions d',
      multi_instance_children := multi_instance_children d'\<rparr>"
    using assms by (cases d; cases d') simp
  then show ?thesis using change.data [of d] by (metis r_into_rtranclp)
qed

lemma known_update: "same_place f \<Longrightarrow> known (update_executions P f d) = known d"
proof -
  assume "same_place f"
  then have "knows (f e) = knows e" for e by (simp add: same_place_def knows_def split: option.split)
  then have "knows ` set (update_where P f xs) = knows ` set xs" for xs
    by (induction xs) (simp_all add: update_where_def)
  then show ?thesis by (simp add: known_def update_executions_def)
qed

lemma known_mono: "change d d' \<Longrightarrow> known d \<subseteq> known d'"
proof (induction rule: change.induct)
  case (move f d P)
  then show ?case by (simp add: known_update)
qed (auto simp: known_def UpdateProcessInstanceStatusTx_def cancel_tasks_def cancel_jobs_def Let_def)

lemma known_changes: "changes d d' \<Longrightarrow> known d \<subseteq> known d'"
  by (induction rule: rtranclp_induct) (use known_mono in blast)+

lemma keys_known: "keys d \<subseteq> known d"
  by (auto simp: keys_def known_def knows_def)

lemma knows_known: "e \<in> set (executions d) \<Longrightarrow> knows e \<subseteq> known d"
  by (auto simp: known_def)

subsection \<open>Statements\<close>

lemma changes_move [changes_intros]: "same_place f \<Longrightarrow> changes d (update_executions P f d)"
  by (rule r_into_rtranclp) (rule change.move)

lemma same_place_updates [simp]:
  "same_place (finish_as s)" "same_place (\<lambda>e. e\<lparr>exec_element := el\<rparr>)" "same_place (\<lambda>e. e\<lparr>exec_status := s\<rparr>)"
  "same_place (\<lambda>e. e\<lparr>exec_status := s, exec_element := el\<rparr>)"
  "same_place (\<lambda>e. e\<lparr>exec_element := el, exec_status := s, exec_is_active := b\<rparr>)"
  "same_place (\<lambda>e. (if c then e\<lparr>exec_element := el\<rparr> else e)\<lparr>exec_status := s, exec_is_active := b\<rparr>)"
  by (simp_all add: same_place_def finish_as_def)

lemma changes_executions [changes_intros]:
  "changes d (CompleteExecutionTx inst eid d)" "changes d (CompleteChildExecutionTx inst eid d)"
  "changes d (UpdateExecutionNodeTx inst eid el d)" "changes d (UpdateExecutionStatusTx inst eid s d)"
  "changes d (UpdateExecutionStatusAndNodeTx inst eid s el d)" "changes d (reactivate inst eid el d)"
  "changes d (ResumeWaitingExecution inst eid el d)" "changes d (finish_open inst ids s d)"
  by (simp_all add: CompleteExecutionTx_def CompleteChildExecutionTx_def UpdateExecutionNodeTx_def UpdateExecutionStatusTx_def
      UpdateExecutionStatusAndNodeTx_def reactivate_def ResumeWaitingExecution_def finish_open_def changes_move)

lemma changes_steps [changes_intros]:
  "(task_instance t, task_id t) \<notin> (\<lambda>x. (task_instance x, task_id x)) ` set (tasks d) \<Longrightarrow> changes d (d\<lparr>tasks := tasks d @ [t]\<rparr>)"
  "changes d (snd (cancel_tasks P d))"
  "job_id j \<notin> job_id ` set (jobs d) \<Longrightarrow> changes d (d\<lparr>jobs := jobs d @ [j]\<rparr>)" "changes d (snd (cancel_jobs Q d))"
  "changes d (d\<lparr>event_subscriptions := event_subscriptions d @ [s]\<rparr>)"
  "changes d (d\<lparr>event_subscriptions := update_where S (\<lambda>s. s\<lparr>sub_consumed := True\<rparr>) (event_subscriptions d)\<rparr>)"
  "finished st \<Longrightarrow> changes d (UpdateProcessInstanceStatusTx inst st (Some now) d)"
  "inc_open n \<Longrightarrow> changes d (d\<lparr>incidents := incidents d @ [n]\<rparr>)"
  by (rule r_into_rtranclp, erule change.intros | rule r_into_rtranclp, rule change.intros)+

lemma changes_drops [changes_intros]:
  "(\<And>s. S s \<Longrightarrow> \<not> sub_consumed s) \<Longrightarrow> changes d (d\<lparr>event_subscriptions := delete_where S (event_subscriptions d)\<rparr>)"
  "(\<And>t. T t \<Longrightarrow> \<not> IsTriggered t) \<Longrightarrow> changes d (d\<lparr>timer_jobs := delete_where T (timer_jobs d)\<rparr>)"
  by (rule r_into_rtranclp, rule change.unsubscribe, blast, rule r_into_rtranclp, rule change.disarm, blast)

lemma changes_deleteWaitStateTx [changes_intros]: "changes d (deleteWaitStateTx inst ids d)"
proof -
  let ?d1 = "d\<lparr>timer_jobs := delete_where (\<lambda>t. timer_instance t = inst \<and> timer_execution t \<in> Some ` set ids \<and> \<not> IsTriggered t) (timer_jobs d)\<rparr>"
  have "changes d ?d1" by (rule changes_drops) simp
  moreover have "changes ?d1 (deleteWaitStateTx inst ids d)"
    using changes_drops(1) [of "\<lambda>s. sub_instance s = inst \<and> sub_execution s \<in> Some ` set ids \<and> \<not> sub_consumed s \<and> sub_type s \<noteq> ''compensable''" ?d1]
    by (simp add: deleteWaitStateTx_def)
  ultimately show ?thesis by (rule changes_trans)
qed

lemma changes_Disarm [changes_intros]: "changes d (DisarmBoundaryTriggersTx inst acts d)"
proof (cases "acts = []")
  case False
  let ?d1 = "update_executions (is_trigger_of inst acts) (finish_as ExecCompleted) d"
  let ?ts = "map exec_id (filter (is_trigger_of inst acts) (executions d))"
  let ?d2 = "if ?ts = [] then ?d1 else deleteWaitStateTx inst ?ts ?d1"
  have "changes d ?d1" by (rule changes_move) simp
  also have "changes ?d1 ?d2" by (simp add: changes_deleteWaitStateTx)
  also have "changes ?d2 (DisarmBoundaryTriggersTx inst acts d)"
    unfolding DisarmBoundaryTriggersTx_def Let_def using False by (simp only: if_False) (rule changes_drops(2), simp)
  finally show ?thesis .
qed (simp add: DisarmBoundaryTriggersTx_def)

lemma changes_CancelActivityWorkTx [changes_intros]: "changes d (snd (snd (CancelActivityWorkTx inst eid d)))"
  unfolding CancelActivityWorkTx_def Let_def
  by (auto simp: case_prod_beta intro: changes_trans [OF changes_steps(2) changes_steps(4)])

lemma changes_CloseScopeTx:
  assumes "CloseScopeTx inst scope d = Some d'"
  shows "changes d d'"
proof -
  from assms obtain ids where d': "d' = (if ids = [] then d
      else deleteWaitStateTx inst ids (finish_open inst ids ExecCompleted (DisarmBoundaryTriggersTx inst ids d)))"
    by (auto simp: CloseScopeTx_def)
  have "changes d (DisarmBoundaryTriggersTx inst ids d)" by (rule changes_Disarm)
  also have "changes (DisarmBoundaryTriggersTx inst ids d) (finish_open inst ids ExecCompleted (DisarmBoundaryTriggersTx inst ids d))"
    by (rule changes_executions)
  also note changes_deleteWaitStateTx
  finally show ?thesis by (simp add: d')
qed

lemma changes_CancelScopeTx:
  assumes "CancelScopeTx inst rt keep d = Some (ts, js, d')"
  shows "changes d d'"
  using assms
proof (rule CancelScopeTx_cases)
  fix all ids d1
  assume d1: "d1 = finish_open inst ids ExecTerminated (DisarmBoundaryTriggersTx inst ids d)"
    and d': "d' = (if ids = [] then d else deleteWaitStateTx inst ids
       (snd (cancel_jobs (\<lambda>j. job_instance j = inst \<and> job_execution j \<in> set ids)
         (snd (cancel_tasks (\<lambda>t. task_instance t = inst \<and> task_execution t \<in> set ids) d1)))))"
  have "changes d (DisarmBoundaryTriggersTx inst ids d)" by (rule changes_Disarm)
  also have "changes (DisarmBoundaryTriggersTx inst ids d) d1" unfolding d1 by (rule changes_executions)
  also note changes_steps(2)
  also note changes_steps(4)
  also note changes_deleteWaitStateTx
  finally show ?thesis by (simp add: d')
qed


lemma changes_TerminateOtherWorkTx [changes_intros]: "changes d (snd (snd (TerminateOtherWorkTx inst keep d)))"
proof -
  let ?d1 = "update_executions (\<lambda>e. exec_instance e = inst \<and> exec_id e \<noteq> keep \<and> exec_open e) (finish_as ExecTerminated) d"
  let ?d2 = "snd (cancel_tasks (\<lambda>t. task_instance t = inst) ?d1)"
  let ?d3 = "snd (cancel_jobs (\<lambda>j. job_instance j = inst) ?d2)"
  let ?d4 = "?d3\<lparr>timer_jobs := delete_where (\<lambda>t. timer_instance t = inst \<and> \<not> IsTriggered t) (timer_jobs ?d3)\<rparr>"
  have "changes d ?d1" by (rule changes_move) simp
  also note changes_steps(2)
  also note changes_steps(4)
  also have "changes ?d3 ?d4" by (rule changes_drops) simp
  also have "changes ?d4 (snd (snd (TerminateOtherWorkTx inst keep d)))"
    unfolding TerminateOtherWorkTx_def Let_def case_prod_beta snd_conv by (rule changes_drops(1)) simp
  finally show ?thesis .
qed

lemma changes_close_tables [changes_intros]:
  assumes "finished st"
  shows "changes d (close_tables now st inst d)"
proof -
  let ?d1 = "UpdateProcessInstanceStatusTx inst st (Some now) d"
  let ?d2 = "snd (cancel_tasks (\<lambda>t. task_instance t = inst) ?d1)"
  let ?d3 = "update_executions (\<lambda>e. exec_instance e = inst \<and> exec_open e) (finish_as ExecTerminated) ?d2"
  let ?d4 = "snd (CancelPendingJobsByProcessInstanceTx inst ?d3)"
  let ?d5 = "DeleteTimersByProcessInstanceTx inst ?d4"
  have "changes d ?d1" using assms by (rule changes_steps)
  also note changes_steps(2)
  also have "changes ?d2 ?d3" by (rule changes_move) simp
  also have "changes ?d3 ?d4" unfolding CancelPendingJobsByProcessInstanceTx_def by (rule changes_steps)
  also have "changes ?d4 ?d5" unfolding DeleteTimersByProcessInstanceTx_def by (rule changes_drops) simp
  also have "changes ?d5 (close_tables now st inst d)" unfolding close_tables_def Let_def by (rule changes_steps(6))
  finally show ?thesis .
qed

lemma changes_CompleteProcessInstanceTx [changes_intros]: "changes d (CompleteProcessInstanceTx now inst d)"
proof -
  let ?d1 = "UpdateProcessInstanceStatusTx inst InstanceCompleted (Some now) d"
  let ?d2 = "?d1\<lparr>event_subscriptions := update_where (\<lambda>s. sub_instance s = inst \<and> \<not> sub_consumed s)
      (\<lambda>s. s\<lparr>sub_consumed := True\<rparr>) (event_subscriptions ?d1)\<rparr>"
  let ?d3 = "?d2\<lparr>timer_jobs := delete_where (\<lambda>t. timer_instance t = inst \<and> \<not> IsTriggered t) (timer_jobs ?d2)\<rparr>"
  have "changes d ?d1" by (rule changes_steps) (simp add: finished_def)
  also have "changes ?d1 ?d2" by (rule changes_steps)
  also have "changes ?d2 ?d3" by (rule changes_drops) simp
  also have "changes ?d3 (CompleteProcessInstanceTx now inst d)"
    unfolding CompleteProcessInstanceTx_def Let_def by (rule changes_move) simp
  finally show ?thesis .
qed

text \<open>Statements on variables and on the tables of gateways and loops.\<close>

lemma SetLocalVariablesTx_rest [simp]:
  "executions (SetLocalVariablesTx inst s vs d) = executions d" "timer_jobs (SetLocalVariablesTx inst s vs d) = timer_jobs d"
  "event_subscriptions (SetLocalVariablesTx inst s vs d) = event_subscriptions d" "jobs (SetLocalVariablesTx inst s vs d) = jobs d"
  "tasks (SetLocalVariablesTx inst s vs d) = tasks d" "incidents (SetLocalVariablesTx inst s vs d) = incidents d"
  "process_instances (SetLocalVariablesTx inst s vs d) = process_instances d"
  by (simp_all add: SetLocalVariablesTx_def)

lemma changes_SetLocalVariablesTx [changes_intros]: "changes d (SetLocalVariablesTx inst s vs d)"
  by (rule changes_data) simp_all

lemma changes_fold: "(\<And>x d. changes d (f x d)) \<Longrightarrow> changes d (fold f xs d)"
proof (induction xs arbitrary: d)
  case (Cons x xs)
  have "changes d (f x d)" by (rule Cons.prems)
  also have "changes (f x d) (fold f xs (f x d))" by (rule Cons.IH) (rule Cons.prems)
  finally show ?case by simp
qed simp

lemma changes_variables [changes_intros]:
  "changes d (UpdateProcessVariablesTx inst vs d)" "changes d (MergeProcessVariablesTx c inst vs d)"
  "changes d (store_branch_variables eid vs d)" "changes d (update_gateway g h d)"
  "changes d (set_child_status eid st d)" "changes d (body_done inst body d)"
  "changes d (d\<lparr>variables := v\<rparr>)" "changes d (d\<lparr>multi_instance_executions := b\<rparr>)" "changes d (d\<lparr>multi_instance_children := c'\<rparr>)"
  by (rule changes_data; simp add: UpdateProcessVariablesTx_def MergeProcessVariablesTx_def store_branch_variables_def update_gateway_def
      set_child_status_def body_done_def)+

lemma changes_ClearLocalVariablesTx [changes_intros]: "changes d (ClearLocalVariablesTx inst scopes d)"
  unfolding ClearLocalVariablesTx_def by (rule changes_fold) (rule changes_data, simp_all)

lemma changes_SetVariablesTx [changes_intros]: "changes d (SetVariablesTx inst eid vs d)"
proof -
  have "changes d (fold (\<lambda>(s, m). SetLocalVariablesTx inst s m) touched d)" for touched
    by (rule changes_fold) (simp add: case_prod_beta changes_SetLocalVariablesTx)
  then show ?thesis
    unfolding SetVariablesTx_def Let_def
    by (auto simp: case_prod_beta intro: changes_trans [OF _ changes_variables(7)])
qed

lemma changes_subscriptions [changes_intros]:
  "changes d (add_subscription s d)" "changes d (RecordCompensableTx new inst eid activity handler d)"
  "changes d (snd (TakeCompensablesTx inst acts d))" "changes d (consume_where S d)" "changes d (Consume sid d)"
  by (simp_all add: add_subscription_def RecordCompensableTx_def TakeCompensablesTx_def consume_where_def Consume_def changes_steps)

lemma changes_CancelSiblingSubscriptions [changes_intros]: "changes d (CancelSiblingSubscriptions eid sid d)"
  unfolding CancelSiblingSubscriptions_def Let_def
  by (rule changes_trans [OF changes_subscriptions(4)]) (rule changes_drops(2), simp)

text \<open>Insertions, when they succeed.\<close>

lemma changes_CreateExecutionTx:
  assumes "CreateExecutionTx e d = Inr d'" and "\<And>p. exec_parent e = Some p \<Longrightarrow> (exec_instance e, p) \<in> known d"
  shows "changes d d'" and "(exec_instance e, exec_id e) \<in> known d'"
proof -
  have "(exec_instance e, exec_id e) \<notin> keys d" and d': "d' = d\<lparr>executions := executions d @ [e]\<rparr>"
    using assms(1) by (auto simp: CreateExecutionTx_def keys_def exec_key_def image_iff split: if_splits)
  then show "changes d d'" using assms(2) by (auto intro!: r_into_rtranclp change.create)
  show "(exec_instance e, exec_id e) \<in> known d'" by (simp add: d' known_def knows_def)
qed

lemma changes_inserts:
  "CreateExecutionTx2 eid inst el d = Inr d' \<Longrightarrow> changes d d'"
  "CreateTimerWithCycleTx tid inst x due ev pl c t r d = Inr d' \<Longrightarrow> changes d d'"
  "CreateJobTx jid inst eid ty pl d = Inr d' \<Longrightarrow> changes d d'" "CreateUserTaskTx u d = Inr d' \<Longrightarrow> changes d d'"
  "CreateProcessInstanceTx inst def now tenant d = Inr d' \<Longrightarrow> changes d d'"
  "add_called_instance inst def now tenant caller d = Inr d' \<Longrightarrow> changes d d'"
  "CreateVariablesTx inst vs d = Inr d' \<Longrightarrow> changes d d'" "LockProcessInstanceTx inst d = Inr d' \<Longrightarrow> changes d d'"
proof -
  show "CreateExecutionTx2 eid inst el d = Inr d' \<Longrightarrow> changes d d'"
    unfolding CreateExecutionTx2_def by (erule changes_CreateExecutionTx) simp
  show "CreateTimerWithCycleTx tid inst x due ev pl c t r d = Inr d' \<Longrightarrow> changes d d'"
    by (auto simp: CreateTimerWithCycleTx_def insert_timer_def image_iff split: if_splits intro!: r_into_rtranclp change.arm)
  show "CreateProcessInstanceTx inst def now tenant d = Inr d' \<Longrightarrow> changes d d'"
    by (auto simp: CreateProcessInstanceTx_def image_iff split: if_splits intro!: r_into_rtranclp change.begin_instance)
  show "add_called_instance inst def now tenant caller d = Inr d' \<Longrightarrow> changes d d'"
    by (auto simp: add_called_instance_def image_iff split: if_splits intro!: r_into_rtranclp change.begin_instance)
  show "CreateJobTx jid inst eid ty pl d = Inr d' \<Longrightarrow> changes d d'"
    by (auto simp: CreateJobTx_def image_iff split: if_splits intro!: r_into_rtranclp change.new_job)
  show "CreateUserTaskTx u d = Inr d' \<Longrightarrow> changes d d'"
    by (auto simp: CreateUserTaskTx_def image_iff split: if_splits intro!: r_into_rtranclp change.new_task)
qed (auto simp: CreateVariablesTx_def LockProcessInstanceTx_def split: if_splits intro: changes_variables)


lemma find_known: "find P (executions d) = Some e \<Longrightarrow> knows e \<subseteq> known d"
  by (rule knows_known) (auto simp: find_Some_iff)

lemma knows_self [simp]: "(exec_instance e, exec_id e) \<in> knows e"
  by (simp add: knows_def)

lemma knows_parent: "exec_parent e = Some p \<Longrightarrow> (exec_instance e, p) \<in> knows e"
  by (simp add: knows_def)

lemma result_bind_Inr: "result_bind m f = Inr y \<longleftrightarrow> (\<exists>x. m = Inr x \<and> f x = Inr y)"
  by (cases m) simp_all

lemma changes_fork_loop:
  assumes "fork_loop e vs new i fs d = Inr d'" and "(exec_instance e, exec_id e) \<in> known d"
  shows "changes d d'"
  using assms
proof (induction fs arbitrary: i d)
  case (Cons f fs)
  from Cons.prems(1) obtain d1 where d1: "CreateExecutionTx (fork_child e (new i) i f) d = Inr d1"
    and rest: "fork_loop e vs new (Suc i) fs (store_branch_variables (new i) vs d1) = Inr d'"
    by (auto simp: result_bind_Inr)
  have "changes d d1"
    by (rule changes_CreateExecutionTx [OF d1]) (use Cons.prems(2) in \<open>simp add: fork_child_def\<close>)
  also have "changes d1 (store_branch_variables (new i) vs d1)" by (rule changes_variables)
  finally have step: "changes d (store_branch_variables (new i) vs d1)" .
  also have "changes (store_branch_variables (new i) vs d1) d'"
    using rest known_changes [OF step] Cons.prems(2) by (auto intro: Cons.IH)
  finally show ?case .
qed simp

lemma changes_forks:
  assumes "parallel_ExecuteFork new eid gw vs d = Inr d' \<or> inclusive_ExecuteFork ev new eid gw vs d = Inr d'"
  shows "changes d d'"
proof -
  from assms obtain e fs d1 where e: "GetActiveExecution eid d = Some e"
    and d1: "fork_loop e vs new 0 fs d = Inr d1" and d': "d' = park e d1"
    by (auto simp: parallel_ExecuteFork_def inclusive_ExecuteFork_def result_bind_Inr split: option.splits if_splits sum.splits)
  have "changes d d1"
    using find_known [OF e [unfolded GetActiveExecution_def]] by (intro changes_fork_loop [OF d1]) auto
  also have "changes d1 d'" unfolding d' park_def by (rule changes_executions)
  finally show ?thesis .
qed

lemma changes_arrive:
  assumes "arrive id new e parent gid later d = Inr (g, d1)"
  shows "changes d d1"
proof -
  have count: "changes x (snd (count_arrival path h x))" for path h x
    by (simp add: count_arrival_def Let_def changes_variables)
  have row: "changes x (snd (CreateGatewayStateTx h x))" for h x
    by (rule changes_data) (simp_all add: CreateGatewayStateTx_def)
  from assms show ?thesis
    unfolding arrive_def id_def
    using count row changes_trans [OF row count]
    by (auto simp: result_bind_Inr case_prod_beta Let_def split: option.splits if_splits dest!: arg_cong [where f = snd])
qed

lemma changes_finish_join: "changes d (finish_join c e parent g nxt d)"
proof -
  let ?m = "mergeBranchVariables parent d"
  let ?d1 = "if ?m = [] then d else MergeProcessVariablesTx c (exec_instance e) ?m d"
  have "changes d ?d1" by (simp add: changes_variables)
  also have "changes ?d1 (UpdateExecutionStatusAndNodeTx (exec_instance e) parent ExecActive nxt ?d1)" by (rule changes_executions)
  also have "changes (UpdateExecutionStatusAndNodeTx (exec_instance e) parent ExecActive nxt ?d1) (finish_join c e parent g nxt d)"
    unfolding finish_join_def Let_def by (rule changes_variables)
  finally show ?thesis .
qed

lemma changes_joins:
  assumes "parallel_ExecuteJoin id new eid gw d = Inr d' \<or> inclusive_ExecuteJoin id new eid gw d = Inr d'"
  shows "changes d d'"
proof -
  have joined: "changes d (CompleteChildExecutionTx (exec_instance e) (exec_id e) d1)"
    if "arrive id new e parent gid later d = Inr (g, d1)" for e parent gid later g d1
    using changes_arrive [OF that] changes_executions(2) by (rule changes_trans)
  have "changes d (finish_join c e parent g nxt (CompleteChildExecutionTx (exec_instance e) (exec_id e) d1))"
    if "arrive id new e parent gid later d = Inr (g, d1)" for c nxt e parent gid later g d1
    using joined [OF that] changes_finish_join by (rule changes_trans)
  with assms joined show ?thesis
    by (auto simp: parallel_ExecuteJoin_def inclusive_ExecuteJoin_def result_bind_Inr Let_def
        split: option.splits if_splits list.splits)
qed

lemma find_scope_loop_known:
  assumes "find_scope_loop k (loadExecutionTreeTx inst d) el self p = Some (Inr i)"
  shows "(inst, i) \<in> known d"
  using assms
proof (induction k "loadExecutionTreeTx inst d" el self p rule: find_scope_loop.induct)
  case (3 k el self p)
  show ?case
  proof (cases "tree_at (loadExecutionTreeTx inst d) p")
    case None
    then show ?thesis using 3 by simp
  next
    case (Some l)
    then have "l \<in> set (loadExecutionTreeTx inst d)" by (auto simp: tree_at_def find_Some_iff)
    then have "(inst, link_id l) \<in> keys d" by (auto simp: loadExecutionTreeTx_def link_of_exec_def keys_def)
    then have "(inst, link_id l) \<in> known d" using keys_known by blast
    then show ?thesis using 3 Some by (auto split: if_splits)
  qed
qed simp_all

lemma changes_CreateErrorTriggerTx:
  assumes "CreateErrorTriggerTx new inst throwing evsub scope d = Some (Inr (t, d'))"
  shows "changes d d'"
proof -
  from assms obtain parent where c: "CreateExecutionTx \<lparr>exec_id = new, exec_instance = inst, exec_element = evsub,
      exec_status = ExecActive, exec_parent = parent, exec_path = Some (new @ ''_'' @ evsub), exec_is_active = True\<rparr> d = Inr d'"
    and p: "parent = None \<or> (\<exists>i. parent = Some i \<and> FindScopeExecutionTx inst throwing scope d = Some (Inr i))"
    by (auto simp: CreateErrorTriggerTx_def result_bind_Inr split: if_splits)
  from c show ?thesis
    by (rule changes_CreateExecutionTx)
      (use p in \<open>auto simp: FindScopeExecutionTx_def Let_def split: option.splits intro: find_scope_loop_known\<close>)
qed

subsection \<open>Runs that only make changes\<close>

text \<open>From tables where the executions of \<open>K\<close> are known, the run makes changes and nothing else, however it stops.\<close>

definition safe :: "(uuid \<times> uuid) set \<Rightarrow> 'a eng \<Rightarrow> bool" where
  "safe K m \<longleftrightarrow> (\<forall>w. K \<subseteq> known (tables w) \<longrightarrow> changes (tables w) (tables (snd (m w))))"

lemma safe_dest: "safe K m \<Longrightarrow> K \<subseteq> known (tables w) \<Longrightarrow> m w = (r, w') \<Longrightarrow> changes (tables w) (tables w')"
  by (metis safe_def snd_conv)

lemma safe_mono: "safe K m \<Longrightarrow> K \<subseteq> L \<Longrightarrow> safe L m"
  unfolding safe_def by blast

lemma safe_same: "(\<And>w. tables (snd (m w)) = tables w) \<Longrightarrow> safe K m"
  by (simp add: safe_def)

text \<open>Binding with what is known of the result.\<close>

lemma safe_bindE_known:
  assumes "safe K m" and "\<And>w a w'. K \<subseteq> known (tables w) \<Longrightarrow> m w = (Inr a, w') \<Longrightarrow> L a \<subseteq> known (tables w')"
    and "\<And>w a w'. m w = (Inr a, w') \<Longrightarrow> safe (K \<union> L a) (f a)"
  shows "safe K (bindE m f)"
  unfolding safe_def
proof (intro allI impI)
  fix w :: world
  assume K: "K \<subseteq> known (tables w)"
  obtain r w' where m: "m w = (r, w')" by fastforce
  have first: "changes (tables w) (tables w')" using safe_dest [OF assms(1) K m] .
  show "changes (tables w) (tables (snd (bindE m f w)))"
  proof (cases r)
    case (Inr a)
    have "K \<union> L a \<subseteq> known (tables w')" using K known_changes [OF first] assms(2) [OF K] m Inr by blast
    then have "changes (tables w') (tables (snd (f a w')))" using assms(3) [of w a w'] m Inr unfolding safe_def by blast
    with first show ?thesis by (simp add: bindE_def m Inr)
  qed (simp add: bindE_def m first)
qed

lemma safe_bindE_cases:
  "safe K m \<Longrightarrow> (\<And>w a w'. m w = (Inr a, w') \<Longrightarrow> safe K (f a)) \<Longrightarrow> safe K (bindE m f)"
  by (rule safe_bindE_known [where L = "\<lambda>_. {}"]) simp_all

lemma safe_bindE [safe_intros]: "safe K m \<Longrightarrow> (\<And>a. safe K (f a)) \<Longrightarrow> safe K (bindE m f)"
  by (rule safe_bindE_cases)

lemma safe_thenE [safe_intros]: "safe K m \<Longrightarrow> safe K k \<Longrightarrow> safe K (thenE m k)"
  unfolding thenE_def by (rule safe_bindE)

lemma safe_basic [safe_intros]:
  "safe K (ret a)" "safe K (halt s)" "safe K (read g)" "safe K (draw E)" "safe K (fail x)" "safe K (returned r)"
  by (rule safe_same; simp add: ret_def halt_def read_def draw_def fail_def returned_def split: option.split)+

lemma safe_graph_of [safe_intros]: "safe K (graph_of E inst)"
  by (rule safe_same) (simp add: graph_of_def split: prod.split option.split)

lemma safe_lift [safe_intros]: "safe K (lift g r)"
  by (rule safe_same) (simp add: lift_def ret_def halt_def split: sum.split)

lemma safe_upd: "(\<And>d. K \<subseteq> known d \<Longrightarrow> changes d (g d)) \<Longrightarrow> safe K (upd g)"
  by (simp add: safe_def upd_def)

lemma safe_upd_changes [safe_intros]: "(\<And>d. changes d (g d)) \<Longrightarrow> safe K (upd g)"
  by (rule safe_upd)

lemma safe_try_upd: "(\<And>d d'. K \<subseteq> known d \<Longrightarrow> g d = Inr d' \<Longrightarrow> changes d d') \<Longrightarrow> safe K (try_upd g)"
  by (auto simp: safe_def try_upd_def bindE_def read_def lift_def upd_def halt_def ret_def split: sum.split)

text \<open>A read whose result is known to be of these tables.\<close>

lemma safe_read:
  assumes "\<And>d. K \<subseteq> known d \<Longrightarrow> L (g d) \<subseteq> known d" and "\<And>x. safe (K \<union> L x) (f x)"
  shows "safe K (bindE (read g) f)"
  using assms unfolding safe_def bindE_def read_def by (simp add: Un_least)

lemma safe_transaction [safe_intros]: "safe K m \<Longrightarrow> safe K (transaction m)"
  unfolding safe_def transaction_def by (auto split: prod.split sum.split)

lemma safe_attempt [safe_intros]: "safe K m \<Longrightarrow> safe K (attempt m)"
  unfolding safe_def attempt_def by (auto split: prod.split sum.split stop.split)

lemma safe_each [safe_intros]: "(\<And>x. safe K (f x)) \<Longrightarrow> safe K (each f xs)"
  by (induction xs) (auto intro: safe_intros)

lemma safe_whenE [safe_intros]: "safe K m \<Longrightarrow> safe K (whenE b m)"
  by (simp add: whenE_def safe_basic)

lemma safe_splits [safe_intros]:
  "(b \<Longrightarrow> safe K m1) \<Longrightarrow> (\<not> b \<Longrightarrow> safe K m2) \<Longrightarrow> safe K (if b then m1 else m2)"
  "(x = None \<Longrightarrow> safe K m3) \<Longrightarrow> (\<And>y. x = Some y \<Longrightarrow> safe K (f y)) \<Longrightarrow> safe K (case x of None \<Rightarrow> m3 | Some y \<Rightarrow> f y)"
  "(\<And>a. safe K (g a)) \<Longrightarrow> (\<And>c. safe K (h c)) \<Longrightarrow> safe K (case r of Inl a \<Rightarrow> g a | Inr c \<Rightarrow> h c)"
  "(\<And>a c. safe K (h2 a c)) \<Longrightarrow> safe K (case z of (a, c) \<Rightarrow> h2 a c)"
  "safe K m4 \<Longrightarrow> (\<And>a c. safe K (q a c)) \<Longrightarrow> safe K (case l of [] \<Rightarrow> m4 | a # c \<Rightarrow> q a c)"
  by (auto split: option.split sum.split prod.split list.split)


lemma CreateExecutionTx_known: "CreateExecutionTx e d = Inr d' \<Longrightarrow> (exec_instance e, exec_id e) \<in> known d'"
  by (auto simp: CreateExecutionTx_def known_def split: if_splits)

lemma safe_bindE_lift: "(\<And>a. r = Inr a \<Longrightarrow> safe K (f a)) \<Longrightarrow> safe K (bindE (lift h r) f)"
  by (cases r) (simp_all add: lift_def safe_def bindE_def halt_def ret_def)

lemma safe_read_upd:
  "(\<And>d. changes d (snd (g d))) \<Longrightarrow> (\<And>x. safe K (f x)) \<Longrightarrow> safe K (bindE (read g) (\<lambda>(x, d). thenE (upd (\<lambda>_. d)) (f x)))"
proof -
  assume g: "\<And>d. changes d (snd (g d))" and f: "\<And>x. safe K (f x)"
  show ?thesis
    unfolding safe_def
  proof (intro allI impI)
    fix w :: world
    assume K: "K \<subseteq> known (tables w)"
    obtain x d where gd: "g (tables w) = (x, d)" by fastforce
    then have step: "changes (tables w) d" using g [of "tables w"] by simp
    have "K \<subseteq> known (tables (w\<lparr>tables := d\<rparr>))" using K known_changes [OF step] by simp
    with f [of x] have "changes d (tables (snd (f x (w\<lparr>tables := d\<rparr>))))" unfolding safe_def by fastforce
    with step show "changes (tables w) (tables (snd (bindE (read g) (\<lambda>(x, d). thenE (upd (\<lambda>_. d)) (f x)) w)))"
      by (simp add: bindE_def read_def gd thenE_def upd_def)
  qed
qed

end
