(* ===== verification/Runtime_Safe.thy ===== *)
theory Runtime_Safe
  imports Runtime_Changes
begin

text \<open>
  Every operation and every executor of the runtime only makes changes (\<open>Runtime_Changes\<close>): one lemma per definition,
  proved by the rules of the monad. An executor that creates an execution below another one needs that one to be known.
\<close>

subsection \<open>Shared operations\<close>

lemma safe_json [safe_intros]:
  "safe K a \<Longrightarrow> (\<And>x. safe K (b x)) \<Longrightarrow> (\<And>x. safe K (c x)) \<Longrightarrow> (\<And>x. safe K (s x)) \<Longrightarrow> (\<And>x. safe K (l x)) \<Longrightarrow> (\<And>x. safe K (ob x)) \<Longrightarrow>
     safe K (case_json a b c s l ob v)"
  by (cases v) simp_all

lemma safe_eval_error [safe_intros]:
  "(\<And>x. safe K (a x)) \<Longrightarrow> safe K b \<Longrightarrow> safe K (case_eval_error a b v)"
  by (cases v) simp_all

lemma safe_bool [safe_intros]: "safe K a \<Longrightarrow> safe K b \<Longrightarrow> safe K (case_bool a b v)"
  by (cases v) simp_all

lemma safe_create:
  "(\<And>p. parent = Some p \<Longrightarrow> (inst, p) \<in> K) \<Longrightarrow> safe K (try_upd (CreateExecutionTx (new_execution x inst parent el st pid)))"
  by (rule safe_try_upd, erule changes_CreateExecutionTx) (auto simp: new_execution_def)

lemma safe_create_None [safe_intros]: "safe K (try_upd (CreateExecutionTx (new_execution x inst None el st pid)))"
  by (rule safe_create) simp

lemma safe_inserts [safe_intros]:
  "safe K (try_upd (CreateExecutionTx2 eid inst el))" "safe K (try_upd (CreateTimerWithCycleTx tid inst x due ev pl c t r))"
  "safe K (try_upd (CreateJobTx jid inst eid ty pl))" "safe K (try_upd (CreateUserTaskTx u))"
  "safe K (try_upd (CreateProcessInstanceTx inst def now tenant))" "safe K (try_upd (add_called_instance inst def now tenant caller))"
  "safe K (try_upd (CreateVariablesTx inst vs))" "safe K (try_upd (LockProcessInstanceTx inst))"
  by (rule safe_try_upd, erule changes_inserts)+

lemma safe_evaluations [safe_intros]:
  "safe K (io_mappings E ms vs)" "safe K (resolve E node vs)" "safe K (resolveExpression E x vs)"
  "safe K (error_catcher g el code)" "safe K (escalation_catcher g el code)"
  unfolding io_mappings_def resolve_def resolveExpression_def error_catcher_def escalation_catcher_def
  by (intro safe_intros)+

lemma safe_createTimerTx [safe_intros]: "safe K (createTimerTx E inst eid raw target event)"
  unfolding createTimerTx_def by (intro safe_intros)

lemma safe_subscriptions [safe_intros]:
  "safe K (insertMessageSubscriptionTx E inst eid name key target)" "safe K (insertSignalSubscriptionTx E inst eid name tgt)"
  "safe K (insertConditionalSubscriptionTx E inst eid cond target lastTrue)"
  unfolding insertMessageSubscriptionTx_def insertSignalSubscriptionTx_def insertConditionalSubscriptionTx_def
  by (intro safe_intros changes_intros)+

lemma safe_subscribe_message [safe_intros]: "safe K (subscribe_message E node inst eid target)"
  unfolding subscribe_message_def by (intro safe_intros)

lemma safe_subscribeBoundaryTx [safe_intros]: "safe K (subscribeBoundaryTx E inst trig n)"
  unfolding subscribeBoundaryTx_def by (intro safe_intros)

lemma safe_armBoundaryEventsTx [safe_intros]: "safe K (armBoundaryEventsTx E g e activity)"
  unfolding armBoundaryEventsTx_def arm_boundary_def by (intro safe_intros)

lemma safe_createTriggerExecutionTx:
  "(\<And>p. parent = Some p \<Longrightarrow> (inst, p) \<in> K) \<Longrightarrow> safe K (createTriggerExecutionTx E node inst parent)"
  unfolding createTriggerExecutionTx_def by (intro safe_intros safe_create)

lemma safe_armTriggerTx: "(\<And>p. parent = Some p \<Longrightarrow> (inst, p) \<in> K) \<Longrightarrow> safe K (armTriggerTx E node inst parent rearmed)"
  unfolding armTriggerTx_def by (intro safe_intros safe_createTriggerExecutionTx)

lemma safe_armEventSubProcessesTx:
  "(\<And>p. parent = Some p \<Longrightarrow> (inst, p) \<in> K) \<Longrightarrow> safe K (armEventSubProcessesTx E g scope inst parent)"
  unfolding armEventSubProcessesTx_def by (intro safe_intros safe_armTriggerTx)

lemma safe_armProcessEventSubProcesses [safe_intros]: "safe K (armProcessEventSubProcesses E g e)"
  unfolding armProcessEventSubProcesses_def by (intro safe_intros safe_armEventSubProcessesTx) simp

lemma safe_moves [safe_intros]:
  "safe K (advance E e node vs)" "safe K (executeErrorBoundaryNode e node)" "safe K (executeBoundaryTimerNode e node)"
  "safe K (record_compensable E inst eid node)"
  unfolding advance_def executeErrorBoundaryNode_def executeBoundaryTimerNode_def record_compensable_def
  by (intro safe_intros changes_intros)+

lemma safe_parent_scope [safe_intros]: "safe K (parent_scope inst eid)"
  unfolding parent_scope_def by (intro safe_intros)

lemma safe_outputs [safe_intros]: "safe K (ApplyActivityOutputTx E inst eid node vs)" "safe K (leaveScopeVariablesTx E inst eid node)"
  unfolding ApplyActivityOutputTx_def leaveScopeVariablesTx_def by (intro safe_intros changes_intros)+

lemma safe_CreateIncidentTx [safe_intros]: "safe K (CreateIncidentTx E inst eid job ty activity code)"
  unfolding CreateIncidentTx_def by (intro safe_intros changes_steps(8)) simp

lemma safe_caller_catches [safe_intros]: "safe K (caller_catches n E inst code)"
  by (induction n arbitrary: inst) (auto intro!: safe_intros)

lemma safe_TerminateOrphanedCalledInstances [safe_intros]:
  "(\<And>c. safe K (close c)) \<Longrightarrow> safe K (TerminateOrphanedCalledInstances E close parent)"
  unfolding TerminateOrphanedCalledInstances_def by (intro safe_intros)

lemma safe_closeProcessInstance: "finished st \<Longrightarrow> safe K (closeProcessInstance E fuel inst st vs)"
proof (induction fuel arbitrary: inst st vs)
  case (Suc fuel)
  have "safe K (closeProcessInstance E fuel c InstanceTerminated us)" for c us
    by (rule Suc.IH) (simp add: finished_def)
  with Suc.prems show ?case by (simp only: closeProcessInstance.simps) (intro safe_intros changes_intros)
qed (simp add: safe_basic)

lemma safe_terminations [safe_intros]:
  "safe K (TerminateProcessInstance E inst reason)" "finished st \<Longrightarrow> safe K (EndProcessInstance E inst st vs)"
  unfolding TerminateProcessInstance_def EndProcessInstance_def
  by (intro safe_intros safe_closeProcessInstance; simp add: finished_def)+

lemma safe_sweeps [safe_intros]: "safe K (logCancelled E inst)" "safe K (terminateCalledInstances E eid reason)"
  unfolding logCancelled_def terminateCalledInstances_def by (intro safe_intros)+


subsection \<open>Tasks and catch events\<close>

lemma safe_task_parts [safe_intros]:
  "safe K (optional_text E x vs)" "safe K (task_priority E x vs)" "safe K (set_status e s)" "safe K (set_locals e vs)"
  unfolding optional_text_def task_priority_def set_status_def set_locals_def by (intro safe_intros changes_intros)+

lemma safe_executeUserTask [safe_intros]: "safe K (executeUserTask E e node g vs)"
  unfolding executeUserTask_def by (intro safe_intros changes_intros)

lemma safe_executeServiceTask [safe_intros]: "safe K (executeServiceTask E e node vs)"
  unfolding executeServiceTask_def by (intro safe_intros changes_intros)

lemma safe_executeScriptTask [safe_intros]: "safe K (executeScriptTask E e node vs)"
  unfolding executeScriptTask_def evaluateFEELScript_def Let_def by (intro safe_intros changes_intros)

lemma safe_executeBusinessRuleTask [safe_intros]: "safe K (executeBusinessRuleTask E e node vs)"
  unfolding executeBusinessRuleTask_def called_table_def Let_def by (intro safe_intros changes_intros)

lemma safe_called_process [safe_intros]: "safe K (called_process E node vs)"
  unfolding called_process_def called_error_def Let_def by (intro safe_intros)

lemma safe_executeCallActivity [safe_intros]:
  assumes [safe_intros]: "\<And>x. safe K (go x)"
  shows "safe K (executeCallActivity E go e node vs)"
  unfolding executeCallActivity_def called_error_def by (intro safe_intros changes_intros)

lemma safe_catches [safe_intros]:
  "safe K (executeIntermediateTimer E e node)" "safe K (executeMessageCatchEvent E e node)" "safe K (executeSignalCatchEvent E e node)"
  "safe K (executeEventBasedGateway E e node g)" "safe K (executeConditionalCatch E e node vs)"
  unfolding executeIntermediateTimer_def executeMessageCatchEvent_def executeSignalCatchEvent_def executeEventBasedGateway_def
    subscribe_branch_def executeConditionalCatch_def
  by (intro safe_intros)+

subsection \<open>Scopes\<close>

lemma safe_tree_upd: "(\<And>d d'. t d = Some d' \<Longrightarrow> changes d (h d')) \<Longrightarrow> safe K (bindE (tree_read t) (\<lambda>x. upd (\<lambda>_. h x)))"
  by (auto simp: safe_def tree_read_def bindE_def read_def returned_def upd_def halt_def ret_def split: option.split)

lemma safe_close_scope [safe_intros]: "safe K (close_scope inst scope)"
  unfolding close_scope_def by (rule safe_tree_upd) (rule changes_CloseScopeTx)

lemma safe_cancel_scope [safe_intros]: "safe K (cancel_scope inst rt keep)"
  unfolding cancel_scope_def case_prod_beta
  by (rule safe_tree_upd) (auto intro: changes_CancelScopeTx)

lemma safe_walks [safe_intros]: "safe K (tree_read t)" "safe K (find_scope inst eid el)" "safe K (cancel_activity inst eid)"
  unfolding find_scope_def tree_read_def cancel_activity_def by (intro safe_intros changes_intros)+

lemma safe_ResumeExecution [safe_intros]: "(\<And>x. safe K (go x)) \<Longrightarrow> safe K (ResumeExecution E go eid)"
  unfolding ResumeExecution_def by (intro safe_intros)

lemma safe_executeEndEvent [safe_intros]:
  assumes [safe_intros]: "\<And>x. safe K (go x)"
  shows "safe K (executeEndEvent E go inst eid ignore)"
  unfolding executeEndEvent_def return_to_caller_def
  by (intro safe_intros changes_intros)

lemma safe_executeSubProcess:
  assumes [safe_intros]: "\<And>x. safe K (go x)" and "(exec_instance e, exec_id e) \<in> K"
  shows "safe K (executeSubProcess E go e node g vs)"
  unfolding executeSubProcess_def
  by (intro safe_intros safe_armEventSubProcessesTx safe_create changes_intros) (use assms(2) in auto)

lemma safe_end_in_scope [safe_intros]: "safe K (end_in_scope E inst eid sub g vs)"
  unfolding end_in_scope_def leave_sub_process_def by (intro safe_intros changes_intros)

lemma safe_executeSubProcessEnd [safe_intros]:
  assumes [safe_intros]: "\<And>x. safe K (go x)"
  shows "safe K (executeSubProcessEnd k E go inst eid scope g vs)"
  by (induction k arbitrary: eid scope) (auto intro!: safe_intros)

lemma safe_ends [safe_intros]:
  assumes [safe_intros]: "\<And>x. safe K (go x)"
  shows "safe K (executeEnd E go e scope g vs)" and "safe K (executeTerminateEnd E go e node g vs)"
  unfolding executeEnd_def executeTerminateEnd_def leave_sub_process_def by (intro safe_intros changes_intros)+


subsection \<open>Event sub-processes, boundary events, errors, escalations, compensation\<close>

lemma createTriggerExecutionTx_known:
  assumes "createTriggerExecutionTx E node inst parent w = (Inr t, w')"
  shows "(inst, t) \<in> known (tables w')"
proof -
  from assms obtain d' where "CreateExecutionTx (new_execution t inst parent (ID node) ExecWaiting (t @ ''_'' @ ID node)) (tables w) = Inr d'"
    and "tables w' = d'"
    by (auto simp: createTriggerExecutionTx_def bindE_def draw_def thenE_def try_upd_def read_def lift_def upd_def halt_def ret_def
        split: sum.splits)
  then show ?thesis using CreateExecutionTx_known by (fastforce simp: new_execution_def)
qed

lemma safe_body_trigger:
  assumes "knows e \<subseteq> K" and "\<And>t. safe (insert (exec_instance e, t) K) (f t)"
  shows "safe K (bindE (body_trigger E e node) f)"
proof (rule safe_bindE_known [where L = "\<lambda>t. {(exec_instance e, t)}"])
  show "safe K (body_trigger E e node)"
    unfolding body_trigger_def
    by (intro safe_intros safe_createTriggerExecutionTx) (use assms(1) knows_parent in blast)
  show "{(exec_instance e, t)} \<subseteq> known (tables w')"
    if "K \<subseteq> known (tables w)" "body_trigger E e node w = (Inr t, w')" for w t w'
    using that assms(1)
    by (auto simp: body_trigger_def bindE_def read_def ret_def knows_def split: if_splits dest!: createTriggerExecutionTx_known)
  show "safe (K \<union> {(exec_instance e, t)}) (f t)" for t using assms(2) by simp
qed

lemma safe_interrupt_or_rearm: "knows e \<subseteq> K \<Longrightarrow> safe K (interrupt_or_rearm E e node)"
  unfolding interrupt_or_rearm_def
  by (intro safe_intros changes_intros safe_armTriggerTx) (use knows_parent in blast)

lemma safe_executeEventSubProcess:
  assumes [safe_intros]: "\<And>L x. safe L (go x)" and "knows e \<subseteq> K"
  shows "safe K (executeEventSubProcess E go e node)"
  unfolding executeEventSubProcess_def
  by (intro safe_transaction safe_bindE safe_thenE safe_interrupt_or_rearm safe_body_trigger safe_create safe_intros changes_intros)
    (use assms(2) in auto)

lemma safe_rearm_boundary [safe_intros]: "safe K (rearm_boundary E inst trig node)"
  unfolding rearm_boundary_def by (intro safe_intros)

lemma found_parent:
  assumes "find (exec_key inst x) (executions d) = Some s" and "exec_parent s = Some p"
  shows "(inst, p) \<in> known d"
proof -
  have "exec_key inst x s" using assms(1) by (auto simp: find_Some_iff)
  then show ?thesis using find_known [OF assms(1)] knows_parent [OF assms(2)] by (auto simp: exec_key_def)
qed

lemma safe_boundary_tx [safe_intros]: "safe K (boundary_tx E inst trig act node)"
  unfolding boundary_tx_def
proof (rule safe_transaction, rule safe_read [where L = "\<lambda>r. case r of None \<Rightarrow> {} | Some x \<Rightarrow> {(inst, p) | p. exec_parent x = Some p}"], goal_cases)
  case (1 d)
  have "find (exec_key inst act) (executions d) = Some x" if "still_waiting inst act node d = Some x" for x
    using that by (auto simp: still_waiting_def LockActivityExecutionTx_def split: option.splits if_splits)
  then have "(inst, p) \<in> known d" if "still_waiting inst act node d = Some x" "exec_parent x = Some p" for x p
    using that by (blast intro: found_parent)
  then show ?case by (auto split: option.split)
next
  case (2 r)
  show ?case by (intro safe_intros safe_create changes_intros) auto
qed

lemma safe_fireBoundary [safe_intros]: "(\<And>x. safe K (go x)) \<Longrightarrow> safe K (fireBoundary E go trig node g)"
  unfolding fireBoundary_def Let_def by (intro safe_intros)

lemma safe_create_trigger [safe_intros]: "safe K (create_trigger E inst eid evsub scope)"
  by (auto simp: safe_def create_trigger_def bindE_def draw_def tree_read_def read_def returned_def lift_def thenE_def upd_def
      halt_def ret_def split: option.split sum.split intro: changes_CreateErrorTriggerTx)

lemma safe_catchError [safe_intros]: "(\<And>x. safe K (go x)) \<Longrightarrow> safe K (catchError E go inst eid throwerID catcher scope)"
  unfolding catchError_def catching_def by (intro safe_intros changes_intros)

lemma safe_PropagateErrorToCaller [safe_intros]: "(\<And>x. safe K (go x)) \<Longrightarrow> safe K (PropagateErrorToCaller k E go inst code)"
  by (induction k arbitrary: inst) (auto simp: CallerCatchesError_def intro!: safe_intros)

lemma safe_executeErrorEnd [safe_intros]: "(\<And>x. safe K (go x)) \<Longrightarrow> safe K (executeErrorEnd E go e node g)"
  unfolding executeErrorEnd_def by (intro safe_intros changes_intros)

lemma safe_escalation_token [safe_intros]: "safe K (escalation_token E inst eid throwerID catcher scope)"
  unfolding escalation_token_def catching_def
proof (rule safe_transaction, rule safe_bindE, goal_cases)
  case 1
  show ?case by (intro safe_intros)
next
  case (2 x)
  show ?case
  proof (rule safe_read [where L = "\<lambda>r. case r of Inl _ \<Rightarrow> {} | Inr s \<Rightarrow> {(inst, p) | p. exec_parent s = Some p}"], goal_cases)
    case (1 d)
    show ?case by (auto simp: LockActivityExecutionTx_def split: option.split intro: found_parent)
  next
    case (2 r)
    show ?case by (intro safe_bindE_lift safe_bindE safe_thenE safe_create safe_basic) auto
  qed
qed

lemma safe_catchEscalation [safe_intros]: "(\<And>x. safe K (go x)) \<Longrightarrow> safe K (catchEscalation E go inst eid throwerID catcher scope)"
  unfolding catchEscalation_def escalation_interrupts_def catching_def by (intro safe_intros changes_intros)

lemma safe_propagateEscalationToCaller [safe_intros]: "(\<And>x. safe K (go x)) \<Longrightarrow> safe K (propagateEscalationToCaller k E go inst code)"
  by (induction k arbitrary: inst) (auto intro!: safe_intros)

lemma safe_throwEscalation [safe_intros]: "(\<And>x. safe K (go x)) \<Longrightarrow> safe K (throwEscalation E go e node g)"
  unfolding throwEscalation_def by (intro safe_intros)

lemma safe_start_handlers [safe_intros]: "safe K (start_handlers E e ps)"
  by (induction ps) (auto intro!: safe_intros)

lemma safe_throwCompensation [safe_intros]: "(\<And>x. safe K (go x)) \<Longrightarrow> safe K (throwCompensation E go e node g)"
  unfolding throwCompensation_def
  by (intro safe_read_upd [OF changes_subscriptions(3)] safe_intros changes_intros)

lemma safe_executeCompensationHandlerEnd [safe_intros]: "(\<And>x. safe K (go x)) \<Longrightarrow> safe K (executeCompensationHandlerEnd E go e)"
  unfolding executeCompensationHandlerEnd_def by (intro safe_intros changes_intros)


subsection \<open>Multi-instance activities and signals\<close>

lemma found_key:
  assumes "find (exec_key inst x) (executions d) = Some s"
  shows "(inst, x) \<in> known d"
proof -
  have "exec_key inst x s" using assms by (auto simp: find_Some_iff)
  then show ?thesis using find_known [OF assms] knows_self [of s] by (auto simp: exec_key_def)
qed

lemma safe_multiInstanceItems [safe_intros]: "safe K (multiInstanceItems E cfg vs)"
  unfolding multiInstanceItems_def Let_def by (intro safe_intros)

lemma safe_createInnerInstanceTx: "(inst, body) \<in> K \<Longrightarrow> safe K (createInnerInstanceTx E inst body node cfg items i)"
  unfolding createInnerInstanceTx_def by (intro safe_intros safe_create changes_intros) simp

lemma safe_create_inners: "(\<And>i. safe K (f i)) \<Longrightarrow> safe K (create_inners f is)"
  by (induction "is") (auto intro!: safe_intros)

lemma safe_finishMultiInstanceBodyTx [safe_intros]: "safe K (finishMultiInstanceBodyTx E inst body node cfg)"
  unfolding finishMultiInstanceBodyTx_def by (intro safe_intros changes_intros)

lemma safe_startMultiInstanceBody:
  assumes [safe_intros]: "\<And>x. safe K (go x)" and "(exec_instance e, exec_id e) \<in> K"
  shows "safe K (startMultiInstanceBody E go e node cfg g vs)"
  unfolding startMultiInstanceBody_def
  by (intro safe_intros changes_intros safe_create_inners safe_createInnerInstanceTx) (rule assms)

lemma safe_terminate_inner [safe_intros]: "safe K (terminate_inner inst x)" "safe K (terminateInnerInstancesTx inst body)"
  unfolding terminateInnerInstancesTx_def terminate_inner_def by (intro safe_intros changes_intros)+

lemma safe_loop_parts [safe_intros]:
  "safe K (collect_output E inst inner cfg view)" "safe K (loop_done E inst body cfg view n active completed terminated)"
  unfolding collect_output_def loop_done_def Let_def by (intro safe_intros changes_intros)+

lemma safe_count_inner: "(exec_instance e, inner_Body inner) \<in> K \<Longrightarrow> safe K (count_inner E e inner node cfg view)"
  unfolding count_inner_def Let_def by (intro safe_intros safe_createInnerInstanceTx)

lemma safe_lock:
  assumes "\<And>a. safe K (h a)" and "\<And>b. safe (insert (inst, x) K) (k b)"
  shows "safe K (bindE (read (LockActivityExecutionTx inst x)) (\<lambda>r. case r of Inl a \<Rightarrow> h a | Inr b \<Rightarrow> k b))"
proof (rule safe_read [where L = "\<lambda>r. case r of Inl _ \<Rightarrow> {} | Inr b \<Rightarrow> {(inst, x)}"])
  show "(case LockActivityExecutionTx inst x d of Inl _ \<Rightarrow> {} | Inr b \<Rightarrow> {(inst, x)}) \<subseteq> known d" for d
    by (auto simp: LockActivityExecutionTx_def split: option.split intro: found_key)
  show "safe (K \<union> (case r of Inl _ \<Rightarrow> {} | Inr b \<Rightarrow> {(inst, x)})) (case r of Inl a \<Rightarrow> h a | Inr b \<Rightarrow> k b)" for r
    using assms by (cases r) simp_all
qed

lemma safe_after_inner [safe_intros]:
  "safe K a \<Longrightarrow> (\<And>x. safe K (b x)) \<Longrightarrow> safe K c \<Longrightarrow> safe K (case_after_inner a b c v)"
  by (cases v) simp_all

lemma safe_completeInnerInstance [safe_intros]:
  assumes [safe_intros]: "\<And>x. safe K (go x)"
  shows "safe K (completeInnerInstance E go e inner g)"
  unfolding completeInnerInstance_def Let_def
proof (rule safe_splits(2), goal_cases)
  case (2 y)
  show ?case
    by (cases y) (simp only: prod.case, rule safe_bindE, rule safe_transaction, rule safe_lock,
        (intro safe_intros changes_intros safe_count_inner; simp)+)
qed (intro safe_intros)

lemma safe_starts [safe_intros]:
  "safe K (startProcessInstanceAt E def inst eid tenant vs start)" "safe K (StartProcessInstance E g def tenant vs)"
  "safe K (StartProcessInstanceAt E def tenant vs start)"
proof -
  show at: "safe K (startProcessInstanceAt E def inst eid tenant vs start)" for inst eid start
    unfolding startProcessInstanceAt_def
    by (intro safe_intros safe_try_upd) (auto split: if_splits intro: changes_variables)
  show "safe K (StartProcessInstance E g def tenant vs)" "safe K (StartProcessInstanceAt E def tenant vs start)"
    unfolding StartProcessInstance_def StartProcessInstanceAt_def by (intro safe_intros at)+
qed

lemma safe_signals [safe_intros]:
  assumes [safe_intros]: "\<And>x. safe K (go x)"
  shows "safe K (startBySignal E go name vs)" and "safe K (signal_one E go vs s)"
  unfolding startBySignal_def signal_one_def signal_target_def after_catch_def Let_def by (intro safe_intros changes_intros)+

lemma safe_broadcastSignal [safe_intros]: "(\<And>x. safe K (go x)) \<Longrightarrow> safe K (broadcastSignal E go node)"
  unfolding broadcastSignal_def BroadcastSignal_def by (intro safe_intros)

subsection \<open>The interpreter\<close>

lemma safe_raiseExecutionIncident [safe_intros]: "safe K (raiseExecutionIncident E eid cause)"
  unfolding raiseExecutionIncident_def by (intro safe_intros changes_intros)

lemma safe_with_incident [safe_intros]: "safe K m \<Longrightarrow> safe K (with_incident E eid m)"
  unfolding with_incident_def by (intro safe_intros)

lemma safe_step_combinators [safe_intros]:
  "safe K m \<Longrightarrow> safe K (stay m)" "safe K n \<Longrightarrow> safe K (go_on p n)" "safe K o' \<Longrightarrow> safe K (go_on_with p o')"
  "safe K b \<Longrightarrow> safe K k \<Longrightarrow> safe K (carry_on b k)"
  unfolding stay_def go_on_def go_on_with_def carry_on_def by (intro safe_intros; assumption)+

lemma safe_pass [safe_intros]: "safe K (pass E p node)"
  unfolding pass_def by (intro safe_intros)

lemma safe_ends_at [safe_intros]: "(\<And>x. safe K (go x)) \<Longrightarrow> safe K (ends E go p scope)"
  unfolding ends_def by (intro safe_intros)

lemma safe_implicit_end [safe_intros]: "(\<And>x. safe K (go x)) \<Longrightarrow> safe K (implicit_end E go p)"
  unfolding implicit_end_def by (intro safe_intros)

lemma safe_step_boundary [safe_intros]: "(\<And>x. safe K (go x)) \<Longrightarrow> safe K (step_boundary E go p node)"
  unfolding step_boundary_def by (intro safe_intros)

lemma safe_fork_with: "(\<And>new d d'. f new d = Inr d' \<Longrightarrow> changes d d') \<Longrightarrow> safe K (fork_with E f n)"
proof -
  assume f: "\<And>new d d'. f new d = Inr d' \<Longrightarrow> changes d d'"
  have "safe {} (try_upd (f new))" for new by (rule safe_try_upd) (rule f)
  then have "changes (tables w) (tables (snd (try_upd (f new) w)))" for new w by (simp add: safe_def)
  then have "changes (tables (w\<lparr>drawn := k\<rparr>)) (tables (snd (try_upd (f new) (w\<lparr>drawn := k\<rparr>))))" for new w k .
  then show ?thesis by (simp add: safe_def fork_with_def)
qed

lemma safe_gateways [safe_intros]:
  assumes [safe_intros]: "\<And>x. safe K (go x)"
  shows "safe K (step_parallel E go p node)" and "safe K (step_inclusive E go p node)"
  unfolding step_parallel_def step_inclusive_def run_children_def resume_parent_def Let_def
  by (intro safe_intros safe_fork_with safe_try_upd; rule changes_forks changes_joins; blast)+

lemma safe_step_task:
  assumes [safe_intros]: "\<And>L x. safe L (go x)" and "knows (p_exec p) \<subseteq> K"
  shows "safe K (step_task E go p node)"
proof -
  have "(exec_instance (p_exec p), exec_id (p_exec p)) \<in> K" using assms(2) knows_self by blast
  then show ?thesis
    unfolding step_task_def Let_def
    by (cases "Type node") (simp_all add: safe_intros safe_executeSubProcess safe_executeEventSubProcess assms)
qed

lemma safe_step_node:
  assumes "\<And>L x. safe L (go x)" and "knows (p_exec p) \<subseteq> K"
  shows "safe K (step_node E go p node)"
proof -
  note task = safe_step_task [OF assms]
  have catch: "safe K (step_catch E go p node)"
    unfolding step_catch_def Let_def by (cases "Type node") (simp_all add: safe_intros task)
  have "safe K (step_throw E go p node)"
    unfolding step_throw_def Let_def by (cases "Type node") (simp_all add: safe_intros catch assms(1))
  then show ?thesis unfolding step_node_def by (intro safe_intros assms(1))
qed

lemma safe_step:
  assumes "\<And>L x. safe L (go x)" and "knows (p_exec p) \<subseteq> K"
  shows "safe K (step E go p)"
proof -
  have "(exec_instance (p_exec p), exec_id (p_exec p)) \<in> K" using assms(2) knows_self by blast
  then show ?thesis
    unfolding step_def by (intro safe_intros safe_startMultiInstanceBody safe_step_node assms)
qed

end
