(* ===== verification/Runtime_Invariants.thy ===== *)
theory Runtime_Invariants
  imports Runtime_Safe
begin

text \<open>
  The interpreter as a whole: it only makes changes, so what every change keeps, every run keeps. The locale \<open>stable\<close> is the
  interface for such properties; it is interpreted on the forest of executions, on the identity of rows, on finished
  instances, closed work items and consumed subscriptions.
\<close>

subsection \<open>The execution of a position\<close>

text \<open>The loop never changes the execution it runs.\<close>

definition same_exec :: "position \<Rightarrow> position option eng \<Rightarrow> bool" where
  "same_exec p m \<longleftrightarrow> (\<forall>w p' w'. m w = (Inr (Some p'), w') \<longrightarrow> p_exec p' = p_exec p)"

lemma same_exec_rules:
  "same_exec p (stay m)" "same_exec p (go_on p n)" "same_exec p (go_on_with p q)" "same_exec p (fail x)"
  "same_exec p k \<Longrightarrow> same_exec p (carry_on b k)" "same_exec p k \<Longrightarrow> same_exec p (thenE u k)"
  "(\<And>a. same_exec p (f a)) \<Longrightarrow> same_exec p (bindE v f)"
  unfolding same_exec_def stay_def go_on_def go_on_with_def carry_on_def thenE_def bindE_def ret_def fail_def halt_def
  by (auto split: prod.splits sum.splits if_splits)

lemma same_exec_step: "same_exec p (step E go p)"
proof -
  have task: "same_exec p (step_task E go p node)" for node
    unfolding step_task_def Let_def by (cases "Type node") (simp_all add: same_exec_rules)
  have catch: "same_exec p (step_catch E go p node)" for node
    unfolding step_catch_def Let_def by (cases "Type node") (simp_all add: same_exec_rules task)
  have throw: "same_exec p (step_throw E go p node)" for node
    unfolding step_throw_def Let_def by (cases "Type node") (simp_all add: same_exec_rules catch)
  have "same_exec p (step_node E go p node)" for node
    unfolding step_node_def step_boundary_def by (simp add: same_exec_rules throw)
  then show ?thesis unfolding step_def by (simp add: same_exec_rules)
qed

lemma load_position_known: "load_position E eid w = (Inr p, w') \<Longrightarrow> knows (p_exec p) \<subseteq> known (tables w')"
  by (auto simp: load_position_def bindE_def read_def ret_def fail_def halt_def graph_of_def GetActiveExecution_def
      split: option.splits prod.splits sum.splits dest!: find_known)

subsection \<open>Every run only makes changes\<close>

fun work_knows :: "work \<Rightarrow> (uuid \<times> uuid) set" where
  "work_knows (Execute eid) = {}"
| "work_knows (Round p) = knows (p_exec p)"

lemma safe_run: "safe (work_knows x) (run k E x)"
proof (induction k arbitrary: x)
  case 0
  show ?case by (simp add: safe_basic)
next
  case (Suc k)
  have go: "safe L (run k E (Execute y))" for L y
    using Suc.IH [of "Execute y"] by (auto intro: safe_mono)
  show ?case
  proof (cases x)
    case (Execute eid)
    have "safe {} (bindE (load_position E eid) (\<lambda>p. run k E (Round p)))"
    proof (rule safe_bindE_known [where L = "\<lambda>p. knows (p_exec p)"])
      show "safe {} (load_position E eid)" unfolding load_position_def by (intro safe_intros)
      show "safe ({} \<union> knows (p_exec p)) (run k E (Round p))" for p using Suc.IH [of "Round p"] by simp
    qed (rule load_position_known)
    then show ?thesis by (simp add: Execute safe_with_incident)
  next
    case (Round p)
    have "safe (knows (p_exec p)) (bindE (step E (\<lambda>eid. run k E (Execute eid)) p)
        (\<lambda>r. case r of None \<Rightarrow> ret () | Some p' \<Rightarrow> run k E (Round p')))"
      (is "safe ?K (bindE ?m ?f)")
    proof (rule safe_bindE_cases)
      show "safe ?K ?m" by (rule safe_step [OF go]) simp
      fix w r w'
      assume m: "?m w = (Inr r, w')"
      show "safe ?K (?f r)"
      proof (cases r)
        case (Some p')
        then have "p_exec p' = p_exec p"
          using m same_exec_step [of p E "\<lambda>eid. run k E (Execute eid)"] unfolding same_exec_def by blast
        then show ?thesis using Suc.IH [of "Round p'"] Some by simp
      qed (simp add: safe_basic)
    qed
    then show ?thesis by (simp add: Round)
  qed
qed

lemma run_changes: "changes (tables w) (tables (snd (ExecuteExecution k E eid w)))"
  using safe_run [of "Execute eid" k E] by (simp add: safe_def ExecuteExecution_def)

subsection \<open>Properties that every change keeps\<close>

locale stable =
  fixes I :: "db \<Rightarrow> bool"
  assumes kept: "I d \<Longrightarrow> change d d' \<Longrightarrow> I d'"
begin

lemma kept_by_changes: "changes d d' \<Longrightarrow> I d \<Longrightarrow> I d'"
  by (induction rule: rtranclp_induct) (auto intro: kept)

lemma kept_by_run: "I (tables w) \<Longrightarrow> I (tables (snd (ExecuteExecution k E eid w)))"
  by (rule kept_by_changes [OF run_changes])

lemma kept_by_safe: "safe {} m \<Longrightarrow> I (tables w) \<Longrightarrow> I (tables (snd (m w)))"
  by (rule kept_by_changes) (auto simp: safe_def)

end

lemmas row_defs = update_executions_def UpdateProcessInstanceStatusTx_def cancel_tasks_def cancel_jobs_def Let_def

lemma find_append: "find P (xs @ ys) = (case find P xs of None \<Rightarrow> find P ys | Some x \<Rightarrow> Some x)"
  by (induction xs) simp_all

lemma update_where_fixed: "x \<in> set xs \<Longrightarrow> (P x \<Longrightarrow> f x = x) \<Longrightarrow> x \<in> set (update_where P f xs)"
  by (auto simp: update_where_def image_iff split: if_splits intro!: bexI [of _ x])

lemma image_update_where: "(\<And>x. P x \<Longrightarrow> g (f x) = g x) \<Longrightarrow> g ` set (update_where P f xs) = g ` set xs"
  by (induction xs) (simp_all add: update_where_def)

lemma trigger_fixed: "IsTriggered t \<Longrightarrow> trigger t = t"
  by (cases t) (simp add: trigger_def)

lemma consumed_fixed: "sub_consumed s \<Longrightarrow> s\<lparr>sub_consumed := True\<rparr> = s"
  by (cases s) simp

text \<open>Rows that are settled are never written again: closed tasks and jobs, consumed subscriptions, triggered timers. No
  incident is lost or changed.\<close>

interpretation closed_task: stable "\<lambda>d. task_open t \<or> t \<in> set (tasks d)" for t
  by unfold_locales (auto elim!: change.cases simp: row_defs update_where_def)

interpretation closed_job: stable "\<lambda>d. job_open j \<or> j \<in> set (jobs d)" for j
  by unfold_locales (auto elim!: change.cases simp: row_defs update_where_def)

interpretation consumed_subscription: stable "\<lambda>d. \<not> sub_consumed s \<or> s \<in> set (event_subscriptions d)" for s
  by unfold_locales (auto elim!: change.cases simp: row_defs intro!: update_where_fixed consumed_fixed)

interpretation fired_timer: stable "\<lambda>d. \<not> IsTriggered t \<or> t \<in> set (timer_jobs d)" for t
  by unfold_locales (auto elim!: change.cases simp: row_defs intro!: update_where_fixed trigger_fixed)

interpretation raised_incident: stable "\<lambda>d. n \<in> set (incidents d)" for n
  by unfold_locales (auto elim!: change.cases simp: row_defs)

text \<open>An instance that is over stays over.\<close>

definition over :: "uuid \<Rightarrow> db \<Rightarrow> bool" where
  "over inst d \<longleftrightarrow> inst \<in> pi_id ` set (process_instances d) \<and> (\<forall>p \<in> set (process_instances d). pi_id p = inst \<longrightarrow> finished (pi_status p))"

interpretation finished_instance: stable "over inst" for inst
proof unfold_locales
  fix d d'
  assume over: "over inst d" and "change d d'"
  from this(2) show "over inst d'"
  proof cases
    case (end_instance s i t)
    show ?thesis
      using over end_instance(2) by (simp add: end_instance(1) over_def row_defs image_update_where) (auto simp: update_where_def split: if_splits)
  qed (use over in \<open>auto simp: over_def row_defs\<close>)
qed

text \<open>The executions of every instance stay a forest.\<close>

lemma execs_wf_known:
  assumes "execs_wf d" and "(inst, p) \<in> known d"
  shows "\<exists>x \<in> set (executions d). exec_key inst p x"
proof -
  from assms(2) obtain e where e: "e \<in> set (executions d)" "exec_instance e = inst" "exec_id e = p \<or> exec_parent e = Some p"
    by (auto simp: known_def knows_def split: option.splits)
  show ?thesis
  proof (cases "exec_id e = p")
    case False
    with e have "(p, exec_id e) \<in> child_rel (loadExecutionTreeTx inst d)"
      by (force simp: child_rel_def loadExecutionTreeTx_def link_of_exec_def)
    with assms(1) have "p \<in> link_id ` set (loadExecutionTreeTx inst d)"
      using tree_wf_parent unfolding execs_wf_def by blast
    then show ?thesis by (auto simp: loadExecutionTreeTx_def link_of_exec_def exec_key_def)
  qed (use e in \<open>auto simp: exec_key_def\<close>)
qed

interpretation forest: stable execs_wf
proof unfold_locales
  fix d d'
  assume wf: "execs_wf d" and "change d d'"
  from this(2) show "execs_wf d'"
  proof cases
    case (create e)
    have "CreateExecutionTx e d = Inr d'" using create(1,2) by (auto simp: CreateExecutionTx_def keys_def exec_key_def image_iff)
    then show ?thesis by (rule CreateExecutionTx_wf [OF wf]) (use create execs_wf_known [OF wf] in blast)
  next
    case (move f P)
    then show ?thesis
      by (intro execs_wf_shape [OF _ wf]) (simp add: tree_shape_update same_place_def)
  qed (auto intro!: execs_wf_shape [OF _ wf] tree_shape_same_executions simp: row_defs)
qed

end
