(* ===== verification/Runtime_Fuel.thy ===== *)
theory Runtime_Fuel
  imports Runtime_Invariants
begin

text \<open>
  Fuel. A run that returns, with a result, an error or a panic, returns the same with more fuel and leaves the same
  world: \<open>settles m m'\<close> says that \<open>m'\<close> does what \<open>m\<close> does wherever \<open>m\<close> does not run out of fuel. Every executor is monotone in
  the interpreter it is given.
\<close>

named_theorems settles_intros

definition settles :: "'a eng \<Rightarrow> 'a eng \<Rightarrow> bool" where
  "settles m m' \<longleftrightarrow> (\<forall>w. fst (m w) \<noteq> Inl OutOfFuel \<longrightarrow> m' w = m w)"

lemma settles_dest: "settles m m' \<Longrightarrow> m w = (r, w') \<Longrightarrow> r \<noteq> Inl OutOfFuel \<Longrightarrow> m' w = (r, w')"
  unfolding settles_def by force

lemma settles_refl: "settles m m"
  by (simp add: settles_def)

lemma settles_halt [settles_intros]: "settles (halt OutOfFuel) m"
  by (simp add: settles_def halt_def)

lemma settles_bindE [settles_intros]:
  assumes "settles m m'" and "\<And>a. settles (f a) (f' a)"
  shows "settles (bindE m f) (bindE m' f')"
  unfolding settles_def
proof (intro allI impI)
  fix w :: world
  assume ok: "fst (bindE m f w) \<noteq> Inl OutOfFuel"
  obtain r w' where m: "m w = (r, w')" by fastforce
  with ok have "r \<noteq> Inl OutOfFuel" by (auto simp: bindE_def)
  then have m': "m' w = (r, w')" using settles_dest [OF assms(1) m] by blast
  show "bindE m' f' w = bindE m f w"
  proof (cases r)
    case (Inr a)
    then have "fst (f a w') \<noteq> Inl OutOfFuel" using ok by (simp add: bindE_def m)
    then have "f' a w' = f a w'" using assms(2) [of a] unfolding settles_def by blast
    then show ?thesis by (simp add: bindE_def m m' Inr)
  qed (simp add: bindE_def m m')
qed

lemma settles_thenE [settles_intros]: "settles m m' \<Longrightarrow> settles k k' \<Longrightarrow> settles (thenE m k) (thenE m' k')"
  unfolding thenE_def by (rule settles_bindE)

lemma settles_transaction [settles_intros]: "settles m m' \<Longrightarrow> settles (transaction m) (transaction m')"
proof -
  assume "settles m m'"
  moreover have "fst (m w) \<noteq> Inl OutOfFuel" if "fst (transaction m w) \<noteq> Inl OutOfFuel" for w
    using that by (cases "m w") (auto simp: transaction_def)
  ultimately show ?thesis by (simp add: settles_def transaction_def)
qed

lemma settles_attempt [settles_intros]: "settles m m' \<Longrightarrow> settles (attempt m) (attempt m')"
proof -
  assume "settles m m'"
  moreover have "fst (m w) \<noteq> Inl OutOfFuel" if "fst (attempt m w) \<noteq> Inl OutOfFuel" for w
    using that by (cases "m w") (auto simp: attempt_def)
  ultimately show ?thesis by (simp add: settles_def attempt_def)
qed

lemma settles_each [settles_intros]: "(\<And>x. settles (f x) (f' x)) \<Longrightarrow> settles (each f xs) (each f' xs)"
  by (induction xs) (auto intro: settles_intros settles_refl)

lemma settles_splits [settles_intros]:
  "(b \<Longrightarrow> settles m1 n1) \<Longrightarrow> (\<not> b \<Longrightarrow> settles m2 n2) \<Longrightarrow> settles (if b then m1 else m2) (if b then n1 else n2)"
  "settles m3 n3 \<Longrightarrow> (\<And>y. settles (f y) (f' y)) \<Longrightarrow> settles (case x of None \<Rightarrow> m3 | Some y \<Rightarrow> f y) (case x of None \<Rightarrow> n3 | Some y \<Rightarrow> f' y)"
  "(\<And>a. settles (g a) (g' a)) \<Longrightarrow> (\<And>c. settles (h c) (h' c)) \<Longrightarrow>
     settles (case r of Inl a \<Rightarrow> g a | Inr c \<Rightarrow> h c) (case r of Inl a \<Rightarrow> g' a | Inr c \<Rightarrow> h' c)"
  "(\<And>a c. settles (q a c) (q' a c)) \<Longrightarrow> settles (case z of (a, c) \<Rightarrow> q a c) (case z of (a, c) \<Rightarrow> q' a c)"
  "settles u1 v1 \<Longrightarrow> (\<And>x. settles (u2 x) (v2 x)) \<Longrightarrow> settles u3 v3 \<Longrightarrow>
     settles (case_after_inner u1 u2 u3 ai) (case_after_inner v1 v2 v3 ai)"
  by (auto split: option.split sum.split prod.split after_inner.split)

subsection \<open>Executors\<close>

lemma settles_executeCallActivity [settles_intros]:
  "(\<And>x. settles (go x) (go' x)) \<Longrightarrow> settles (executeCallActivity E go e node vs) (executeCallActivity E go' e node vs)"
  unfolding executeCallActivity_def by (intro settles_intros settles_refl)

lemma settles_ResumeExecution [settles_intros]:
  "(\<And>x. settles (go x) (go' x)) \<Longrightarrow> settles (ResumeExecution E go eid) (ResumeExecution E go' eid)"
  unfolding ResumeExecution_def by (intro settles_intros settles_refl)

lemma settles_executeEndEvent [settles_intros]:
  "(\<And>x. settles (go x) (go' x)) \<Longrightarrow> settles (executeEndEvent E go inst eid ignore) (executeEndEvent E go' inst eid ignore)"
  unfolding executeEndEvent_def return_to_caller_def by (intro settles_intros settles_refl)

lemma settles_executeSubProcess [settles_intros]:
  "(\<And>x. settles (go x) (go' x)) \<Longrightarrow> settles (executeSubProcess E go e node g vs) (executeSubProcess E go' e node g vs)"
  unfolding executeSubProcess_def by (intro settles_intros settles_refl)

lemma settles_executeSubProcessEnd [settles_intros]:
  "(\<And>x. settles (go x) (go' x)) \<Longrightarrow>
     settles (executeSubProcessEnd k E go inst eid scope g vs) (executeSubProcessEnd k E go' inst eid scope g vs)"
  by (induction k arbitrary: eid scope) (auto intro!: settles_intros settles_refl)

lemma settles_ends [settles_intros]:
  assumes [settles_intros]: "\<And>x. settles (go x) (go' x)"
  shows "settles (executeEnd E go e scope g vs) (executeEnd E go' e scope g vs)"
    and "settles (executeTerminateEnd E go e node g vs) (executeTerminateEnd E go' e node g vs)"
  unfolding executeEnd_def executeTerminateEnd_def by (intro settles_intros settles_refl)+

lemma settles_triggers [settles_intros]:
  assumes [settles_intros]: "\<And>x. settles (go x) (go' x)"
  shows "settles (executeEventSubProcess E go e node) (executeEventSubProcess E go' e node)"
    and "settles (fireBoundary E go trig node g) (fireBoundary E go' trig node g)"
    and "settles (catchError E go inst eid thrower catcher scope) (catchError E go' inst eid thrower catcher scope)"
    and "settles (catchEscalation E go inst eid thrower catcher scope) (catchEscalation E go' inst eid thrower catcher scope)"
  unfolding executeEventSubProcess_def fireBoundary_def catchError_def catchEscalation_def Let_def
  by (intro settles_intros settles_refl)+

lemma settles_propagation [settles_intros]:
  assumes [settles_intros]: "\<And>x. settles (go x) (go' x)"
  shows "settles (PropagateErrorToCaller k E go inst code) (PropagateErrorToCaller k E go' inst code)"
    and "settles (propagateEscalationToCaller k E go inst code) (propagateEscalationToCaller k E go' inst code)"
  by (induction k arbitrary: inst) (auto intro!: settles_intros settles_refl)

lemma settles_throws [settles_intros]:
  assumes [settles_intros]: "\<And>x. settles (go x) (go' x)"
  shows "settles (executeErrorEnd E go e node g) (executeErrorEnd E go' e node g)"
    and "settles (throwEscalation E go e node g) (throwEscalation E go' e node g)"
    and "settles (throwCompensation E go e node g) (throwCompensation E go' e node g)"
    and "settles (executeCompensationHandlerEnd E go e) (executeCompensationHandlerEnd E go' e)"
  unfolding executeErrorEnd_def throwEscalation_def throwCompensation_def executeCompensationHandlerEnd_def
  by (intro settles_intros settles_refl)+

lemma settles_loops [settles_intros]:
  assumes [settles_intros]: "\<And>x. settles (go x) (go' x)"
  shows "settles (startMultiInstanceBody E go e node cfg g vs) (startMultiInstanceBody E go' e node cfg g vs)"
    and "settles (completeInnerInstance E go e inner g) (completeInnerInstance E go' e inner g)"
  unfolding startMultiInstanceBody_def completeInnerInstance_def Let_def by (intro settles_intros settles_refl)+

lemma settles_broadcastSignal [settles_intros]:
  assumes [settles_intros]: "\<And>x. settles (go x) (go' x)"
  shows "settles (broadcastSignal E go node) (broadcastSignal E go' node)"
  unfolding broadcastSignal_def BroadcastSignal_def startBySignal_def signal_one_def Let_def
  by (intro settles_intros settles_refl)

lemma settles_gateways [settles_intros]:
  assumes [settles_intros]: "\<And>x. settles (go x) (go' x)"
  shows "settles (step_parallel E go p node) (step_parallel E go' p node)"
    and "settles (step_inclusive E go p node) (step_inclusive E go' p node)"
  unfolding step_parallel_def step_inclusive_def run_children_def resume_parent_def Let_def
  by (intro settles_intros settles_refl)+

lemma settles_combinators [settles_intros]:
  "settles m m' \<Longrightarrow> settles (stay m) (stay m')" "settles n n' \<Longrightarrow> settles (go_on p n) (go_on p n')"
  "settles b b' \<Longrightarrow> settles k k' \<Longrightarrow> settles (carry_on b k) (carry_on b' k')"
  unfolding stay_def go_on_def carry_on_def by (intro settles_intros settles_refl; assumption)+

lemma settles_ends_at [settles_intros]:
  assumes [settles_intros]: "\<And>x. settles (go x) (go' x)"
  shows "settles (ends E go p scope) (ends E go' p scope)" and "settles (implicit_end E go p) (implicit_end E go' p)"
    and "settles (step_boundary E go p node) (step_boundary E go' p node)"
  unfolding ends_def implicit_end_def step_boundary_def by (intro settles_intros settles_refl)+

lemma settles_step:
  assumes [settles_intros]: "\<And>x. settles (go x) (go' x)"
  shows "settles (step E go p) (step E go' p)"
proof -
  have task: "settles (step_task E go p node) (step_task E go' p node)" for node
    unfolding step_task_def Let_def by (cases "Type node") (simp_all add: settles_intros settles_refl)
  have catch: "settles (step_catch E go p node) (step_catch E go' p node)" for node
    unfolding step_catch_def Let_def by (cases "Type node") (simp_all add: settles_refl task)
  have throw: "settles (step_throw E go p node) (step_throw E go' p node)" for node
    unfolding step_throw_def Let_def by (cases "Type node") (simp_all add: settles_intros settles_refl catch)
  have "settles (step_node E go p node) (step_node E go' p node)" for node
    unfolding step_node_def by (intro settles_intros settles_refl throw)
  then show ?thesis unfolding step_def by (intro settles_intros settles_refl)
qed

lemma settles_with_incident [settles_intros]: "settles m m' \<Longrightarrow> settles (with_incident E eid m) (with_incident E eid m')"
  unfolding with_incident_def by (intro settles_intros settles_refl)

lemma settles_run: "settles (run k E x) (run (k + n) E x)"
proof (induction k arbitrary: x)
  case (Suc k)
  show ?case
  proof (cases x)
    case (Execute eid)
    show ?thesis unfolding Execute by (simp only: add_Suc run.simps) (intro settles_intros settles_refl Suc.IH)
  next
    case (Round p)
    show ?thesis unfolding Round by (simp only: add_Suc run.simps) (intro settles_intros settles_refl settles_step Suc.IH)
  qed
qed (simp add: settles_intros)

end
