(* ===== verification/Runtime_Examples.thy ===== *)
theory Runtime_Examples
  imports Runtime_Run
begin

text \<open>
  Concrete environments, graphs and worlds, for the witnesses of the properties of the runtime.
\<close>

text \<open>One process is deployed, under every identifier; identifiers are numbered.\<close>

definition plain_env :: "graph \<Rightarrow> env" where
  "plain_env g = \<lparr>e_fresh = (\<lambda>n. ''u'' @ nat_dec n), e_parse = Some, e_deployed = (\<lambda>_. Some g), e_latest = (\<lambda>_ _. None),
     e_signal_starts = (\<lambda>_. []), e_decisions = (\<lambda>_. None), e_victims = (\<lambda>_. ([], [])), e_go = plain_go, e_time = plain_time,
     e_now = \<lparr>instant = 0, zone_offset = 0\<rparr>, e_now_text = [], e_mode = FeelModeFEEL, e_cel = (\<lambda>x vs. Inl (EvalFailed x)),
     e_marshal = (\<lambda>_. []), e_format = (\<lambda>_. []), e_equal_fold = (=)\<rparr>"

definition plain_world :: "db \<Rightarrow> world" where
  "plain_world d = \<lparr>tables = d, caches = \<lparr>instanceToDefCache = [], graphCache = []\<rparr>, drawn = 0\<rparr>"

definition plain_flow :: "string \<Rightarrow> Flow" where
  "plain_flow to = \<lparr>flow_ID = to, SourceRef = [], TargetRef = to, flow_Condition = [], IsBoundary = False\<rparr>"

definition plain_node :: "string \<Rightarrow> NodeType \<Rightarrow> string list \<Rightarrow> string \<times> Node" where
  "plain_node i t to = (i, (new_node i t)\<lparr>Outgoing := map plain_flow to\<rparr>)"

definition plain_instance :: ProcessInstance where
  "plain_instance = \<lparr>pi_id = ''I'', pi_definition = ''D'', pi_status = InstanceRunning, pi_started = 0, pi_ended = None,
     pi_tenant = None, pi_parent = None\<rparr>"

definition plain_db :: "Execution list \<Rightarrow> db" where
  "plain_db es = empty_db\<lparr>executions := es, process_instances := [plain_instance]\<rparr>"

text \<open>A start event, a sub-process with a task in it, an end event.\<close>

definition sub_graph :: graph where
  "sub_graph = [plain_node ''start'' StartEventType [''sub''],
     (''sub'', snd (plain_node ''sub'' SubProcessType [''end''])\<lparr>StartNodeID := ''go''\<rparr>),
     (''go'', snd (plain_node ''go'' StartEventType [''task''])\<lparr>ParentScope := ''sub''\<rparr>),
     (''task'', snd (plain_node ''task'' UserTaskType [''done''])\<lparr>ParentScope := ''sub''\<rparr>),
     (''done'', snd (plain_node ''done'' EndEventType [])\<lparr>ParentScope := ''sub''\<rparr>),
     plain_node ''end'' EndEventType []]"

definition at_start :: world where
  "at_start = plain_world (plain_db [example_exec ''e'' None ''start'' ExecActive])"

lemma sub_run:
  "(case ExecuteExecution 9 (plain_env sub_graph) ''e'' at_start of (r, w) \<Rightarrow> (r, map exec_parent (executions (tables w)))) =
     (Inr (), [None, Some ''e''])"
  by code_simp

lemma execs_wf_single: "exec_parent e = None \<Longrightarrow> executions d = [e] \<Longrightarrow> execs_wf d"
  unfolding execs_wf_def loadExecutionTreeTx_def by (auto simp: tree_wf_def link_of_exec_def)

text \<open>A start event that leads to an element that is not there, and one that leads to an end event.\<close>

definition lost_graph :: graph where
  "lost_graph = [plain_node ''start'' StartEventType [''gone'']]"

definition straight_graph :: graph where
  "straight_graph = [plain_node ''start'' StartEventType [''end''], plain_node ''end'' EndEventType []]"

definition lost_token :: Execution where
  "lost_token = example_exec ''e'' None ''gone'' ExecActive"

lemma lost_run:
  "case bindE (load_position (plain_env lost_graph) ''e'') (\<lambda>p. run 4 (plain_env lost_graph) (Round p)) at_start of
     (Inl (Error err), w1) \<Rightarrow> tables w1 = plain_db [lost_token]
   | _ \<Rightarrow> False"
  by code_simp

text \<open>A timer on the boundary of the scope of \<open>example_tree\<close>.\<close>

definition scope_timer :: Node where
  "scope_timer = (new_node ''timer'' BoundaryTimerEventType)\<lparr>AttachedToRef := ''sub'', CancelActivity := True\<rparr>"

definition scope_trigger :: Execution where
  "scope_trigger = (example_exec ''t'' None ''timer'' ExecWaiting)\<lparr>exec_path := Some ''boundary:timer:s''\<rparr>"

end
