(* ===== verification/Runtime_Props.thy ===== *)
theory Runtime_Props
  imports Runtime_Fuel Runtime_Examples
begin

text \<open>
  The properties of the interpreter: what every run keeps, what its fuel means, what becomes of errors, how instances end and
  that a token comes to an end event.
\<close>

subsection \<open>What every run keeps\<close>

text \<open>C1: However a run goes and whatever it executes, all it does to the tables are the changes of the specification: new
  executions below known ones, moves that keep an execution's place in the tree, instances that begin running and end finished,
  work items opened and cancelled, subscriptions and timers added, consumed and dropped, incidents raised.\<close>

theorem run_refines_changes: "changes (tables w) (tables (snd (ExecuteExecution fuel E eid w)))"
  by (rule run_changes)

text \<open>C5: The executions of every instance are a forest after every run if they were before: after executing an
  execution, resuming one after an incident, broadcasting a signal and terminating an instance.\<close>

theorem run_keeps_forest:
  assumes "execs_wf (tables w)"
  shows "execs_wf (tables (snd (ExecuteExecution fuel E eid w))) \<and>
    execs_wf (tables (snd (ResumeAfterIncident E (ExecuteExecution fuel E) inst iid w))) \<and>
    execs_wf (tables (snd (BroadcastSignal E (ExecuteExecution fuel E) name vs w))) \<and>
    execs_wf (tables (snd (TerminateProcessInstance E inst reason w)))"
proof (intro conjI)
  have go: "safe L (ExecuteExecution fuel E x)" for L x
    unfolding ExecuteExecution_def using safe_run [of "Execute x"] by (auto intro: safe_mono)
  show "execs_wf (tables (snd (ExecuteExecution fuel E eid w)))" using assms by (rule forest.kept_by_run)
  show "execs_wf (tables (snd (ResumeAfterIncident E (ExecuteExecution fuel E) inst iid w)))"
    unfolding ResumeAfterIncident_def by (rule forest.kept_by_safe [OF _ assms]) (intro safe_intros go)
  show "execs_wf (tables (snd (BroadcastSignal E (ExecuteExecution fuel E) name vs w)))"
    unfolding BroadcastSignal_def by (rule forest.kept_by_safe [OF _ assms]) (intro safe_intros go)
  show "execs_wf (tables (snd (TerminateProcessInstance E inst reason w)))"
    by (rule forest.kept_by_safe [OF _ assms]) (intro safe_intros)
qed

theorem run_keeps_forest_witness:
  "execs_wf (tables (snd (ExecuteExecution 9 (plain_env sub_graph) ''e'' at_start))) \<and>
   map exec_parent (executions (tables (snd (ExecuteExecution 9 (plain_env sub_graph) ''e'' at_start)))) = [None, Some ''e'']"
proof
  have "execs_wf (tables at_start)"
    by (rule execs_wf_single [of "example_exec ''e'' None ''start'' ExecActive"])
      (simp_all add: at_start_def plain_world_def plain_db_def example_exec_def)
  then show "execs_wf (tables (snd (ExecuteExecution 9 (plain_env sub_graph) ''e'' at_start)))"
    using run_keeps_forest by blast
  show "map exec_parent (executions (tables (snd (ExecuteExecution 9 (plain_env sub_graph) ''e'' at_start)))) = [None, Some ''e'']"
    using sub_run by (simp add: case_prod_beta)
qed

text \<open>C7: What is settled stays as it is: no run reopens or changes a closed task or job, takes back a consumed subscription or a
  timer that fired, or loses an incident.\<close>

theorem run_keeps_settled_rows:
  "let d = tables w; d' = tables (snd (ExecuteExecution fuel E eid w)) in
     {t \<in> set (tasks d). \<not> task_open t} \<subseteq> set (tasks d') \<and> {j \<in> set (jobs d). \<not> job_open j} \<subseteq> set (jobs d') \<and>
     {s \<in> set (event_subscriptions d). sub_consumed s} \<subseteq> set (event_subscriptions d') \<and>
     {t \<in> set (timer_jobs d). IsTriggered t} \<subseteq> set (timer_jobs d') \<and> set (incidents d) \<subseteq> set (incidents d')"
  unfolding Let_def
  using closed_task.kept_by_run [of _ w fuel E eid] closed_job.kept_by_run [of _ w fuel E eid]
    consumed_subscription.kept_by_run [of _ w fuel E eid] fired_timer.kept_by_run [of _ w fuel E eid]
    raised_incident.kept_by_run [of _ w fuel E eid]
  by blast

text \<open>An instance that is completed or terminated stays so, whatever is run afterwards.\<close>

theorem run_keeps_finished: "{inst. over inst (tables w)} \<subseteq> {inst. over inst (tables (snd (ExecuteExecution fuel E eid w)))}"
  using finished_instance.kept_by_run by blast

text \<open>Fuel only bounds how long a run is looked at: a run that returns, with a result, an error or a panic, does the same with
  more fuel.\<close>

theorem run_more_fuel:
  assumes "fst (ExecuteExecution fuel E eid w) \<noteq> Inl OutOfFuel"
  shows "ExecuteExecution (fuel + extra) E eid w = ExecuteExecution fuel E eid w"
  using assms settles_run [of fuel E "Execute eid" extra] by (simp add: ExecuteExecution_def settles_def)

theorem run_more_fuel_witness:
  "ExecuteExecution (9 + 1000) (plain_env sub_graph) ''e'' at_start = ExecuteExecution 9 (plain_env sub_graph) ''e'' at_start"
proof (rule run_more_fuel)
  have "fst (ExecuteExecution 9 (plain_env sub_graph) ''e'' at_start) = Inr ()" using sub_run by (simp add: case_prod_beta)
  then show "fst (ExecuteExecution 9 (plain_env sub_graph) ''e'' at_start) \<noteq> Inl OutOfFuel" by simp
qed

end
