(* ===== verification/Runtime_Effects.thy ===== *)
theory Runtime_Effects
  imports Runtime_Invariants Runtime_Examples
begin

text \<open>
  What single steps of the runtime do: errors become incidents, the last token of an instance completes it,
  a boundary event interrupts its activity or leaves it alone, a token that needs no waiting comes to the end of the process.
\<close>

lemmas eng_defs = bindE_def thenE_def ret_def halt_def read_def upd_def transaction_def attempt_def try_upd_def lift_def draw_def
  fail_def returned_def whenE_def

subsection \<open>Errors and incidents\<close>

lemma raiseExecutionIncident_cases:
  "raiseExecutionIncident E eid cause w =
     (case GetExecutionByID eid (tables w) of
        None \<Rightarrow> (Inr False, w)
      | Some e \<Rightarrow>
          if \<not> can_hold_incident e then (Inr False, w)
          else if HasOpenIncidentOnExecution (exec_instance e) (exec_id e) (tables w) then (Inr True, w)
          else (Inr True, w\<lparr>drawn := Suc (drawn w), tables := UpdateExecutionStatusTx (exec_instance e) (exec_id e) ExecWaiting
            ((tables w)\<lparr>incidents := incidents (tables w) @ [\<lparr>inc_id = e_fresh E (drawn w), inc_instance = exec_instance e,
               inc_execution = Some (exec_id e), inc_job = None, inc_type = IncidentTypeOf cause,
               inc_activity = trim_prefix (exec_element e) ImplicitEndPrefix, inc_code = [], inc_open = True\<rparr>]\<rparr>)\<rparr>))"
  by (simp add: raiseExecutionIncident_def CreateIncidentTx_def eng_defs split: option.split)

lemma GetExecutionByID_update:
  assumes "GetExecutionByID eid d = Some e" and "\<And>x. exec_id (f x) = exec_id x"
  shows "GetExecutionByID eid (update_executions P f d) = Some (if P e then f e else e)"
proof -
  have "find (\<lambda>x. exec_id x = eid) (update_where P f es) = Some (if P e then f e else e)"
    if "find (\<lambda>x. exec_id x = eid) es = Some e" for es
    using that by (induction es) (auto simp: update_where_def assms(2) split: if_splits)
  then show ?thesis using assms(1) by (simp add: GetExecutionByID_def update_executions_def)
qed

lemma with_incident_error:
  assumes "m w = (Inl (Error err), w1)"
  shows "with_incident E eid m w =
    (case raiseExecutionIncident E eid err w1 of
       (Inr True, w2) \<Rightarrow> (Inr (), w2) | (Inr False, w2) \<Rightarrow> (Inl (Error err), w2) | (Inl s, w2) \<Rightarrow> (Inl s, w2))"
  by (simp add: with_incident_def bindE_def attempt_def assms ret_def halt_def split: prod.split sum.split bool.split)

text \<open>C4: A failure on an element becomes an open incident there, of the type the error carries, and the token waits on the
  element; \<open>ExecuteExecution\<close> then returns without an error. It returns an error only when the execution is gone or is over
  and cannot hold an incident.\<close>

theorem ExecuteExecution_incidents:
  fixes fuel E eid w
  assumes "bindE (load_position E eid) (\<lambda>p. run fuel E (Round p)) w = (Inl (Error err), w1)"
  shows "case GetExecutionByID eid (tables w1) of
      None \<Rightarrow> ExecuteExecution (Suc fuel) E eid w = (Inl (Error err), w1)
    | Some e \<Rightarrow>
        if can_hold_incident e then
          fst (ExecuteExecution (Suc fuel) E eid w) = Inr () \<and>
          HasOpenIncidentOnExecution (exec_instance e) eid (tables (snd (ExecuteExecution (Suc fuel) E eid w))) \<and>
          (\<not> HasOpenIncidentOnExecution (exec_instance e) eid (tables w1) \<longrightarrow>
             map_option exec_status (GetExecutionByID eid (tables (snd (ExecuteExecution (Suc fuel) E eid w)))) = Some ExecWaiting \<and>
             (\<exists>n. incidents (tables (snd (ExecuteExecution (Suc fuel) E eid w))) = incidents (tables w1) @ [n] \<and>
                inc_type n = IncidentTypeOf err \<and> inc_activity n = trim_prefix (exec_element e) ImplicitEndPrefix))
        else ExecuteExecution (Suc fuel) E eid w = (Inl (Error err), w1)"
proof -
  note err = with_incident_error [where m = "bindE (load_position E eid) (\<lambda>p. run fuel E (Round p))" and w = w, OF assms]
  show ?thesis
  proof (cases "GetExecutionByID eid (tables w1)")
    case None
    then show ?thesis by (simp add: ExecuteExecution_def err raiseExecutionIncident_cases)
  next
    case (Some e)
    then have eid: "exec_id e = eid" by (auto simp: GetExecutionByID_def find_Some_iff)
    have waits: "GetExecutionByID eid (update_executions (exec_key (exec_instance e) eid) (\<lambda>e. e\<lparr>exec_status := ExecWaiting\<rparr>) (tables w1\<lparr>incidents := ns\<rparr>)) =
        Some (e\<lparr>exec_status := ExecWaiting\<rparr>)" for ns
      using GetExecutionByID_update [of eid "tables w1\<lparr>incidents := ns\<rparr>" e "\<lambda>e. e\<lparr>exec_status := ExecWaiting\<rparr>" "exec_key (exec_instance e) eid"]
        Some eid by (simp add: GetExecutionByID_def exec_key_def)
    show ?thesis
      using waits by (simp add: ExecuteExecution_def err Some eid raiseExecutionIncident_cases
          UpdateExecutionStatusTx_def HasOpenIncidentOnExecution_def) (auto simp: update_executions_def)
  qed
qed

theorem ExecuteExecution_incidents_witness:
  "fst (ExecuteExecution 5 (plain_env lost_graph) ''e'' at_start) = Inr () \<and>
   HasOpenIncidentOnExecution ''I'' ''e'' (tables (snd (ExecuteExecution 5 (plain_env lost_graph) ''e'' at_start))) \<and>
   map_option exec_status (GetExecutionByID ''e'' (tables (snd (ExecuteExecution 5 (plain_env lost_graph) ''e'' at_start)))) = Some ExecWaiting"
proof -
  obtain err w1 where lost: "bindE (load_position (plain_env lost_graph) ''e'') (\<lambda>p. run 4 (plain_env lost_graph) (Round p)) at_start =
      (Inl (Error err), w1)" and "tables w1 = plain_db [lost_token]"
    using lost_run by (auto split: prod.splits sum.splits stop.splits)
  then have "GetExecutionByID ''e'' (tables w1) = Some lost_token" "can_hold_incident lost_token" "exec_instance lost_token = ''I''"
      "\<not> HasOpenIncidentOnExecution ''I'' ''e'' (tables w1)"
    by (simp_all add: GetExecutionByID_def plain_db_def lost_token_def example_exec_def can_hold_incident_def
        HasOpenIncidentOnExecution_def empty_db_def)
  then show ?thesis using ExecuteExecution_incidents [OF lost] by (simp add: eval_nat_numeral)
qed


subsection \<open>The end of an instance\<close>

lemma over_CompleteProcessInstanceTx:
  "inst \<in> pi_id ` set (process_instances d) \<Longrightarrow> over inst (CompleteProcessInstanceTx now inst d)"
  by (simp add: over_def CompleteProcessInstanceTx_def row_defs image_update_where ball_update_where finished_def)

lemma executeEndEvent_cases:
  assumes "inst \<in> pi_id ` set (process_instances (tables w))"
  shows "let d1 = CompleteExecutionTx inst eid (tables w); d2 = CompleteProcessInstanceTx (millis (e_now E)) inst d1 in
    if HasLiveWorkInInstanceTx inst ignore d1 then executeEndEvent E go inst eid ignore w = (Inr (), w\<lparr>tables := d1\<rparr>)
    else over inst d2 \<and> (\<forall>e \<in> set (executions d2). exec_instance e = inst \<longrightarrow> \<not> exec_is_active e) \<and>
      executeEndEvent E go inst eid ignore w =
        (case Option.bind (find (\<lambda>p. pi_id p = inst) (process_instances d2)) pi_parent of
           None \<Rightarrow> (Inr (), w\<lparr>tables := d2\<rparr>)
         | Some (pinst, pexec) \<Rightarrow> return_to_caller E go pinst pexec (GetProcessVariables inst d2) (w\<lparr>tables := d2\<rparr>))"
proof -
  let ?d1 = "CompleteExecutionTx inst eid (tables w)"
  let ?d2 = "CompleteProcessInstanceTx (millis (e_now E)) inst ?d1"
  have here: "\<exists>p \<in> set (process_instances (tables w)). pi_id p = inst" using assms by auto
  have "over inst ?d2"
    by (rule over_CompleteProcessInstanceTx) (use assms in \<open>simp add: CompleteExecutionTx_def update_executions_def\<close>)
  moreover have "\<forall>e \<in> set (executions ?d2). exec_instance e = inst \<longrightarrow> \<not> exec_is_active e"
    by (simp add: CompleteProcessInstanceTx_def update_executions_def Let_def ball_update_where finish_as_def)
  ultimately show ?thesis
    using here by (simp add: Let_def executeEndEvent_def eng_defs LockProcessInstanceTx_def split: option.split)
qed



subsection \<open>Boundary events\<close>

lemma closed_tasks_stay:
  "\<forall>t \<in> set (tasks d). Q t \<longrightarrow> \<not> task_open t \<Longrightarrow> (\<And>t. Q (t\<lparr>task_status := TaskCancelled\<rparr>) = Q t) \<Longrightarrow>
     \<forall>t \<in> set (tasks (snd (cancel_tasks P d))). Q t \<longrightarrow> \<not> task_open t"
  by (simp add: cancel_tasks_def Let_def ball_update_where task_open_def)

lemma closed_jobs_stay:
  "\<forall>j \<in> set (jobs d). Q j \<longrightarrow> \<not> job_open j \<Longrightarrow> (\<And>j. Q (j\<lparr>job_status := JobCancelled\<rparr>) = Q j) \<Longrightarrow>
     \<forall>j \<in> set (jobs (snd (cancel_jobs P d))). Q j \<longrightarrow> \<not> job_open j"
  by (simp add: cancel_jobs_def Let_def ball_update_where job_open_def)

lemma work_frame [simp]:
  "tasks (DisarmBoundaryTriggersTx inst acts d) = tasks d" "jobs (DisarmBoundaryTriggersTx inst acts d) = jobs d"
  "tasks (finish_open inst ids s d) = tasks d" "jobs (finish_open inst ids s d) = jobs d"
  "tasks (update_executions R f d) = tasks d" "jobs (update_executions R f d) = jobs d"
  "jobs (snd (cancel_tasks P d)) = jobs d"
  by (simp_all add: DisarmBoundaryTriggersTx_def finish_open_def update_executions_def cancel_tasks_def Let_def)

lemma CancelScopeTx_work:
  assumes "CancelScopeTx inst rt keep d = Some (ts, js, d')"
  shows "\<exists>P. tasks d' = tasks (snd (cancel_tasks P d))" and "\<exists>Q. jobs d' = jobs (snd (cancel_jobs Q d))"
proof -
  have tasks: "tasks (snd (cancel_tasks P x)) = tasks (snd (cancel_tasks P y))" if "tasks x = tasks y" for P and x y :: db
    using that by (simp add: cancel_tasks_def Let_def)
  have jobs: "jobs (snd (cancel_jobs P x)) = jobs (snd (cancel_jobs P y))" if "jobs x = jobs y" for P and x y :: db
    using that by (simp add: cancel_jobs_def Let_def)
  have none: "tasks (snd (cancel_tasks (\<lambda>_. False) d)) = tasks d" "jobs (snd (cancel_jobs (\<lambda>_. False) d)) = jobs d"
    by (simp_all add: cancel_tasks_def cancel_jobs_def update_where_def)
  from assms show "\<exists>P. tasks d' = tasks (snd (cancel_tasks P d))"
  proof (rule CancelScopeTx_cases, goal_cases)
    case (1 all ids d1)
    then have "ids \<noteq> [] \<Longrightarrow> tasks d' = tasks (snd (cancel_tasks (\<lambda>t. task_instance t = inst \<and> task_execution t \<in> set ids) d))"
      by (simp add: tasks [of "finish_open _ _ _ _"])
    moreover have "ids = [] \<Longrightarrow> tasks d' = tasks (snd (cancel_tasks (\<lambda>_. False) d))" using 1 none by simp
    ultimately show ?thesis by blast
  qed
  from assms show "\<exists>Q. jobs d' = jobs (snd (cancel_jobs Q d))"
  proof (rule CancelScopeTx_cases, goal_cases)
    case (1 all ids d1)
    then have "ids \<noteq> [] \<Longrightarrow> jobs d' = jobs (snd (cancel_jobs (\<lambda>j. job_instance j = inst \<and> job_execution j \<in> set ids) d))"
      by (simp add: jobs [of "snd (cancel_tasks _ _)" d])
    moreover have "ids = [] \<Longrightarrow> jobs d' = jobs (snd (cancel_jobs (\<lambda>_. False) d))" using 1 none by simp
    ultimately show ?thesis by blast
  qed
qed

lemma CancelActivityWorkTx_fields:
  "executions (snd (snd (CancelActivityWorkTx inst eid d))) = executions d"
  "\<forall>t \<in> set (tasks (snd (snd (CancelActivityWorkTx inst eid d)))). task_instance t = inst \<and> task_execution t = eid \<longrightarrow> \<not> task_open t"
  "\<forall>j \<in> set (jobs (snd (snd (CancelActivityWorkTx inst eid d)))). job_instance j = inst \<and> job_execution j = eid \<longrightarrow> \<not> job_open j"
  using cancel_tasks_closes [of "\<lambda>t. task_instance t = inst \<and> task_execution t = eid" d]
    cancel_jobs_closes [of "\<lambda>j. job_instance j = inst \<and> job_execution j = eid" "snd (cancel_tasks (\<lambda>t. task_instance t = inst \<and> task_execution t = eid) d)"]
  by (simp_all add: CancelActivityWorkTx_def case_prod_beta Let_def)

text \<open>What an interrupted activity leaves: nothing of it or below it is open. (No execution has the nil identifier.)\<close>

definition stopped :: "uuid \<Rightarrow> uuid \<Rightarrow> db \<Rightarrow> db \<Rightarrow> bool" where
  "stopped inst act d d' \<longleftrightarrow> (let gone = below inst act d - {uuid_Nil} in
     (\<forall>e \<in> set (executions d'). exec_instance e = inst \<and> exec_id e \<in> gone \<longrightarrow> \<not> exec_open e) \<and>
     (\<forall>t \<in> set (tasks d'). task_instance t = inst \<and> task_execution t \<in> insert act gone \<longrightarrow> \<not> task_open t) \<and>
     (\<forall>j \<in> set (jobs d'). job_instance j = inst \<and> job_execution j \<in> insert act gone \<longrightarrow> \<not> job_open j))"

lemma activity_stopped:
  assumes "execs_wf d"
  shows "\<exists>ts js d'. CancelScopeTx inst act uuid_Nil (snd (snd (CancelActivityWorkTx inst act d))) = Some (ts, js, d') \<and> stopped inst act d d'"
proof -
  let ?d1 = "snd (snd (CancelActivityWorkTx inst act d))"
  have shape: "tree_shape i ?d1 = tree_shape i d" for i
    by (rule tree_shape_same_executions) (rule CancelActivityWorkTx_fields)
  have wf1: "execs_wf ?d1" using execs_wf_shape [OF shape assms] .
  have below: "below inst act ?d1 = below inst act d" using below_shape [OF shape] .
  obtain ts js d2 where d2: "CancelScopeTx inst act uuid_Nil ?d1 = Some (ts, js, d2)"
    and gone: "\<forall>e \<in> set (executions d2). exec_instance e = inst \<and> exec_id e \<in> below inst act d - {uuid_Nil} \<longrightarrow> \<not> exec_open e"
      "\<forall>t \<in> set (tasks d2). task_instance t = inst \<and> task_execution t \<in> below inst act d - {uuid_Nil} \<longrightarrow> \<not> task_open t"
      "\<forall>j \<in> set (jobs d2). job_instance j = inst \<and> job_execution j \<in> below inst act d - {uuid_Nil} \<longrightarrow> \<not> job_open j"
    using CancelScopeTx_stops [OF wf1, of inst act uuid_Nil] unfolding Let_def below by blast
  obtain P where "tasks d2 = tasks (snd (cancel_tasks P ?d1))" using CancelScopeTx_work(1) [OF d2] by blast
  then have "\<forall>t \<in> set (tasks d2). task_instance t = inst \<and> task_execution t = act \<longrightarrow> \<not> task_open t"
    using closed_tasks_stay [OF CancelActivityWorkTx_fields(2)] by simp
  moreover obtain Q where "jobs d2 = jobs (snd (cancel_jobs Q ?d1))" using CancelScopeTx_work(2) [OF d2] by blast
  then have "\<forall>j \<in> set (jobs d2). job_instance j = inst \<and> job_execution j = act \<longrightarrow> \<not> job_open j"
    using closed_jobs_stay [OF CancelActivityWorkTx_fields(3)] by simp
  ultimately show ?thesis using d2 gone unfolding stopped_def Let_def by blast
qed

lemma stopped_update:
  assumes "stopped inst act d d'" and "\<And>e. exec_instance (f e) = exec_instance e \<and> exec_id (f e) = exec_id e"
    and "\<And>e. P e \<Longrightarrow> exec_instance e = inst \<Longrightarrow> exec_id e \<in> below inst act d \<Longrightarrow> \<not> exec_open (f e)"
  shows "stopped inst act d (update_executions P f d')"
  using assms unfolding stopped_def Let_def by (auto simp: update_executions_def ball_update_where)

lemma stopped_Disarm: "stopped inst act d d' \<Longrightarrow> stopped inst act d (DisarmBoundaryTriggersTx inst acts d')"
  unfolding stopped_def Let_def by (auto simp: executions_Disarm ball_update_where exec_open_def split: if_splits)

lemma below_irrefl: "execs_wf d \<Longrightarrow> act \<notin> below inst act d"
  unfolding execs_wf_def below_def using tree_wf_irrefl by blast

text \<open>Subscribing leaves executions and work alone.\<close>

definition leaves_work :: "'a eng \<Rightarrow> bool" where
  "leaves_work m \<longleftrightarrow> (\<forall>w. executions (tables (snd (m w))) = executions (tables w) \<and> tasks (tables (snd (m w))) = tasks (tables w) \<and>
     jobs (tables (snd (m w))) = jobs (tables w))"

lemma snd_bindE: "snd (bindE m f w) = (case fst (m w) of Inl s \<Rightarrow> snd (m w) | Inr a \<Rightarrow> snd (f a (snd (m w))))"
  by (simp add: bindE_def split: prod.split sum.split)

lemma leaves_work_bindE: "leaves_work m \<Longrightarrow> (\<And>a. leaves_work (f a)) \<Longrightarrow> leaves_work (bindE m f)"
  by (simp add: leaves_work_def snd_bindE split: sum.split)

lemma leaves_work_option:
  "leaves_work m \<Longrightarrow> (\<And>a. leaves_work (f a)) \<Longrightarrow> leaves_work (case x of None \<Rightarrow> m | Some a \<Rightarrow> f a)"
  by (simp split: option.split)

lemma leaves_work_basic:
  "leaves_work (read g)" "leaves_work (draw E)"
  "leaves_work (ret b)" "leaves_work (fail c)" "leaves_work (upd (add_subscription s))"
  "leaves_work (try_upd (CreateTimerWithCycleTx tid inst x due ev pl cy to r))"
  by (auto simp: leaves_work_def eng_defs add_subscription_def CreateTimerWithCycleTx_def insert_timer_def split: prod.split sum.split)

lemmas leaves_work_rules = leaves_work_bindE leaves_work_option leaves_work_basic

lemma leaves_work_subscriptions:
  "leaves_work (insertMessageSubscriptionTx E inst eid name key target)" "leaves_work (insertSignalSubscriptionTx E inst eid name tgt)"
  "leaves_work (insertConditionalSubscriptionTx E inst eid cond target lastTrue)" "leaves_work (createTimerTx E inst eid raw target event)"
  unfolding insertMessageSubscriptionTx_def insertSignalSubscriptionTx_def insertConditionalSubscriptionTx_def createTimerTx_def
  by (intro leaves_work_rules)+

lemma rearm_leaves_work:
  "executions (tables (snd (rearm_boundary E inst trig node w))) = executions (tables w)"
  "tasks (tables (snd (rearm_boundary E inst trig node w))) = tasks (tables w)"
  "jobs (tables (snd (rearm_boundary E inst trig node w))) = jobs (tables w)"
proof -
  have "leaves_work (subscribe_message E node inst trig target)" for target
    unfolding subscribe_message_def by (intro leaves_work_rules leaves_work_subscriptions)
  then have "leaves_work (rearm_boundary E inst trig node)"
    by (simp add: rearm_boundary_def subscribeBoundaryTx_def leaves_work_rules leaves_work_subscriptions)
  then show "executions (tables (snd (rearm_boundary E inst trig node w))) = executions (tables w)"
    "tasks (tables (snd (rearm_boundary E inst trig node w))) = tasks (tables w)"
    "jobs (tables (snd (rearm_boundary E inst trig node w))) = jobs (tables w)"
    by (simp_all add: leaves_work_def)
qed

text \<open>C3: A boundary event whose activity was left in the meantime only ends its trigger; nothing is run. One that
  interrupts stops the activity: nothing of it or below it is open afterwards, no task and no job, the trigger is
  over, and the token of the activity stands on the boundary event and is run. One that does not interrupt leaves
  the activity where it is.\<close>

theorem boundary_event_effect:
  assumes wf: "execs_wf (tables w)" and "trig \<noteq> act" and "inst = exec_instance t" and "trig = exec_id t"
    and act: "ParseBoundaryTriggerPathID (e_parse E) (exec_path t) = Some act"
  shows "case still_waiting inst act node (tables w) of
      None \<Rightarrow> fireBoundary E go t node g w = (Inr (), w\<lparr>tables := CompleteExecutionTx inst trig (tables w)\<rparr>)
    | Some x \<Rightarrow>
        if CancelActivity node then
          \<exists>d'. boundary_tx E inst trig act node w = (Inr (Some act), w\<lparr>tables := d'\<rparr>) \<and> stopped inst act (tables w) d' \<and>
            (\<forall>e \<in> set (executions d'). exec_key inst act e \<longrightarrow> exec_status e = ExecActive \<and> exec_element e = ID node) \<and>
            (\<forall>e \<in> set (executions d'). exec_key inst trig e \<longrightarrow> \<not> exec_open e)
        else \<forall>token w'. boundary_tx E inst trig act node w = (Inr (Some token), w') \<longrightarrow>
            token = e_fresh E (drawn w) \<and> find (exec_key inst act) (executions (tables w')) = Some x \<and>
            tasks (tables w') = tasks (tables w) \<and> jobs (tables w') = jobs (tables w)"
proof (cases "still_waiting inst act node (tables w)")
  case None
  then show ?thesis by (simp add: fireBoundary_def boundary_tx_def eng_defs act assms(3,4))
next
  case (Some x)
  then have x: "find (exec_key inst act) (executions (tables w)) = Some x" and x_id: "exec_id x = act"
    by (auto simp: still_waiting_def LockActivityExecutionTx_def find_Some_iff exec_key_def split: option.splits if_splits)
  show ?thesis
  proof (cases "CancelActivity node")
    case True
    obtain ts js d2 where d2: "CancelScopeTx inst act uuid_Nil (snd (snd (CancelActivityWorkTx inst act (tables w)))) = Some (ts, js, d2)"
      and gone: "stopped inst act (tables w) d2"
      using activity_stopped [OF wf] by blast
    let ?d3 = "CompleteExecutionTx inst trig d2"
    let ?d4 = "DisarmBoundaryTriggersTx inst [act] ?d3"
    let ?d5 = "UpdateExecutionStatusAndNodeTx inst act ExecActive (ID node) ?d4"
    have "boundary_tx E inst trig act node w = (Inr (Some act), w\<lparr>tables := ?d5\<rparr>)"
      by (simp add: boundary_tx_def eng_defs Some True x_id cancel_activity_def cancel_scope_def tree_read_def d2)
    moreover have "stopped inst act (tables w) ?d5"
      unfolding UpdateExecutionStatusAndNodeTx_def CompleteExecutionTx_def
      using below_irrefl [OF wf]
      by (intro stopped_update stopped_Disarm gone) (auto simp: exec_key_def exec_open_def)
    moreover have "\<forall>e \<in> set (executions ?d5). exec_key inst act e \<longrightarrow> exec_status e = ExecActive \<and> exec_element e = ID node"
      by (auto simp: UpdateExecutionStatusAndNodeTx_def update_executions_def ball_update_where exec_key_def)
    moreover have "\<forall>e \<in> set (executions ?d5). exec_key inst trig e \<longrightarrow> \<not> exec_open e"
      using \<open>trig \<noteq> act\<close>
      by (auto simp: UpdateExecutionStatusAndNodeTx_def CompleteExecutionTx_def update_executions_def executions_Disarm ball_update_where
          exec_key_def exec_open_def)
    ultimately show ?thesis unfolding Some using True by auto
  next
    case False
    have "token = e_fresh E (drawn w) \<and> find (exec_key inst act) (executions (tables w')) = Some x \<and>
        tasks (tables w') = tasks (tables w) \<and> jobs (tables w') = jobs (tables w)"
      if tx: "boundary_tx E inst trig act node w = (Inr (Some token), w')" for token w'
    proof -
      let ?token = "new_execution (e_fresh E (drawn w)) inst (exec_parent x) (ID node) ExecActive (e_fresh E (drawn w))"
      let ?w1 = "w\<lparr>drawn := Suc (drawn w), tables := UpdateExecutionStatusAndNodeTx inst trig ExecWaiting (ID node)
          ((tables w)\<lparr>executions := executions (tables w) @ [?token]\<rparr>)\<rparr>"
      from tx have t: "token = e_fresh E (drawn w)" and w': "w' = snd (rearm_boundary E inst trig node ?w1)"
        by (auto simp: boundary_tx_def eng_defs Some False CreateExecutionTx_def split: prod.splits sum.splits if_splits)
      have "find (exec_key inst act) (update_where (exec_key inst trig) (\<lambda>e. e\<lparr>exec_status := s, exec_element := el\<rparr>) es) = Some x"
        if "find (exec_key inst act) es = Some x" for es s el
        using that \<open>trig \<noteq> act\<close> by (induction es) (auto simp: update_where_def exec_key_def split: if_splits)
      then show ?thesis
        using t x rearm_leaves_work [of E inst trig node ?w1]
        by (simp add: w' UpdateExecutionStatusAndNodeTx_def update_executions_def find_append)
    qed
    then show ?thesis by (simp add: Some False)
  qed
qed

theorem boundary_event_effect_witness:
  "\<exists>d'. boundary_tx (plain_env []) ''I'' ''t'' ''s'' scope_timer (plain_world example_tree) = (Inr (Some ''s''), (plain_world example_tree)\<lparr>tables := d'\<rparr>) \<and>
     stopped ''I'' ''s'' example_tree d' \<and> {''f'', ''a'', ''b''} \<subseteq> below ''I'' ''s'' example_tree"
proof -
  let ?w = "plain_world example_tree"
  have t: "tables ?w = example_tree" by (simp add: plain_world_def)
  have wf: "execs_wf (tables ?w)" unfolding t by (rule example_tree_wf)
  have waiting: "still_waiting ''I'' ''s'' scope_timer (tables ?w) = Some (example_exec ''s'' None ''sub'' ExecWaiting)"
    unfolding t by code_simp
  have "''t'' \<noteq> ''s''" "''I'' = exec_instance scope_trigger" "''t'' = exec_id scope_trigger" by (simp_all add: scope_trigger_def example_exec_def)
  moreover have "ParseBoundaryTriggerPathID (e_parse (plain_env [])) (exec_path scope_trigger) = Some ''s''" by code_simp
  moreover have "CancelActivity scope_timer" by (simp add: scope_timer_def)
  ultimately have "\<exists>d'. boundary_tx (plain_env []) ''I'' ''t'' ''s'' scope_timer ?w = (Inr (Some ''s''), ?w\<lparr>tables := d'\<rparr>) \<and>
      stopped ''I'' ''s'' (tables ?w) d'"
    using boundary_event_effect [OF wf, of "''t''" "''s''" "''I''" scope_trigger "plain_env []" "\<lambda>_. ret ()" scope_timer] waiting by (auto split: option.splits)
  then show ?thesis unfolding t using example_below by simp
qed


subsection \<open>A token that does not wait\<close>

text \<open>An element a token passes without waiting: start events of processes without event sub-processes to arm, exclusive gateways,
  manual tasks, plain throw events, link catch events and escalation boundary events.\<close>

definition passing :: "graph \<Rightarrow> Node \<Rightarrow> bool" where
  "passing g n \<longleftrightarrow> MultiInstance n = None \<and>
     (Type n \<in> {ExclusiveGatewayType, ManualTaskType, IntermediateThrowEventType, LinkCatchEventType, EscalationBoundaryEventType} \<or>
      Type n \<in> {StartEventType, StartTimerEventType, MessageStartEventType, SignalStartEventType} \<and>
        (ParentScope n = [] \<longrightarrow> (\<forall>m \<in> set (map snd g). \<not> arms_in [] m)))"

text \<open>A way through such elements to an end of the process, as the conditions send the token: to an end event or out of an
  activity without an outgoing flow.\<close>

inductive route :: "env \<Rightarrow> graph \<Rightarrow> vars \<Rightarrow> string \<Rightarrow> nat \<Rightarrow> bool" for E g vs where
  end_event: "map_of g el = Some n \<Longrightarrow> Type n = EndEventType \<Longrightarrow> ParentScope n = [] \<Longrightarrow> MultiInstance n = None \<Longrightarrow>
     \<not> has_prefix el ImplicitEndPrefix \<Longrightarrow> route E g vs el 0"
| no_flow: "map_of g a = Some n \<Longrightarrow> ParentScope n = [] \<Longrightarrow> route E g vs (ImplicitEnd a) 0"
| passes: "map_of g el = Some n \<Longrightarrow> passing g n \<Longrightarrow> \<not> has_prefix el ImplicitEndPrefix \<Longrightarrow>
     ResolveNext (condition E) n vs = Inr to \<Longrightarrow> route E g vs to k \<Longrightarrow> route E g vs el (Suc k)"

lemma step_ends:
  assumes "map_of (p_graph p) (p_current p) = Some n" "Type n = EndEventType" "ParentScope n = []" "MultiInstance n = None"
    "\<not> has_prefix (p_current p) ImplicitEndPrefix" "p_inner p = None"
  shows "step E go p = stay (executeEndEvent E go (exec_instance (p_exec p)) (exec_id (p_exec p)) (TriggerNodes (p_graph p)))"
  using assms
  by (simp add: step_def GetNodeByID_def lift_def bindE_def ret_def starts_loop_def step_node_def isBoundaryTrigger_def step_throw_def
      ends_def executeEnd_def fun_eq_iff)

lemma step_no_flow:
  assumes "map_of (p_graph p) a = Some n" "ParentScope n = []" "p_current p = ImplicitEnd a" "p_inner p = None"
  shows "step E go p = stay (executeEndEvent E go (exec_instance (p_exec p)) (exec_id (p_exec p)) (TriggerNodes (p_graph p)))"
  using assms by (simp add: step_def implicit_end_def ImplicitEnd_def ends_def executeEnd_def)

lemma step_passes:
  assumes "map_of (p_graph p) (p_current p) = Some n" "passing (p_graph p) n" "\<not> has_prefix (p_current p) ImplicitEndPrefix"
    "p_inner p = None" "ResolveNext (condition E) n (p_vars p) = Inr to"
  shows "step E go p w = (Inr (Some (p\<lparr>p_current := to\<rparr>)),
    w\<lparr>tables := UpdateExecutionNodeTx (exec_instance (p_exec p)) (exec_id (p_exec p)) to (tables w)\<rparr>)"
proof -
  have adv: "advance E (p_exec p) n (p_vars p) w = (Inr to,
      w\<lparr>tables := UpdateExecutionNodeTx (exec_instance (p_exec p)) (exec_id (p_exec p)) to (tables w)\<rparr>)"
    using assms(5) by (simp add: advance_def resolve_def eng_defs)
  have "step E go p w = step_node E go p n w"
    using assms by (simp add: step_def GetNodeByID_def lift_def bindE_def ret_def starts_loop_def passing_def)
  also have "\<dots> = go_on p (advance E (p_exec p) n (p_vars p)) w"
  proof -
    have "pass E p n = advance E (p_exec p) n (p_vars p)"
      if "Type n \<noteq> ExclusiveGatewayType \<longrightarrow> ParentScope n = [] \<longrightarrow> (\<forall>m \<in> set (map snd (p_graph p)). \<not> arms_in [] m)"
      using that by (auto simp: pass_def whenE_def armProcessEventSubProcesses_def thenE_def bindE_def ret_def fun_eq_iff)
    then show ?thesis
      using assms(2) unfolding passing_def
      by (auto simp: step_node_def isBoundaryTrigger_def step_throw_def step_catch_def step_task_def)
  qed
  also have "\<dots> = (Inr (Some (p\<lparr>p_current := to\<rparr>)),
      w\<lparr>tables := UpdateExecutionNodeTx (exec_instance (p_exec p)) (exec_id (p_exec p)) to (tables w)\<rparr>)"
    by (simp add: go_on_def bindE_def adv ret_def)
  finally show ?thesis .
qed

text \<open>No other execution of the instance is open, and nobody called the instance.\<close>

definition alone :: "uuid \<Rightarrow> uuid \<Rightarrow> db \<Rightarrow> bool" where
  "alone inst eid d \<longleftrightarrow> (\<forall>x \<in> set (executions d). exec_instance x = inst \<and> exec_id x \<noteq> eid \<longrightarrow> \<not> exec_open x) \<and>
     inst \<in> pi_id ` set (process_instances d) \<and> (\<forall>p \<in> set (process_instances d). pi_id p = inst \<longrightarrow> pi_parent p = None)"

lemma alone_update: "alone inst eid d \<Longrightarrow> alone inst eid (UpdateExecutionNodeTx inst eid el d)"
  by (auto simp: alone_def UpdateExecutionNodeTx_def update_executions_def ball_update_where exec_key_def)

lemma not_live_alone: "alone inst eid d \<Longrightarrow> \<not> HasLiveWorkInInstanceTx inst ignore (CompleteExecutionTx inst eid d)"
proof -
  assume "alone inst eid d"
  then have "\<forall>x \<in> set (executions (CompleteExecutionTx inst eid d)). exec_instance x = inst \<longrightarrow> \<not> exec_open x"
    by (auto simp: alone_def CompleteExecutionTx_def update_executions_def ball_update_where exec_key_def exec_open_def)
  then have "\<forall>l \<in> set (loadExecutionTreeTx inst (CompleteExecutionTx inst eid d)). \<not> link_open l"
    by (auto simp: loadExecutionTreeTx_def link_of_exec_def link_open_def exec_open_def)
  then have "\<not> link_open l" if "tree_at (loadExecutionTreeTx inst (CompleteExecutionTx inst eid d)) i = Some l" for i l
    using that by (auto simp: tree_at_def find_Some_iff)
  then show ?thesis
    by (auto simp: HasLiveWorkInInstanceTx_def anyLiveLeaf_def Let_def list_ex_iff split: option.splits)
qed

lemma find_bind_None: "\<forall>x \<in> set xs. P x \<longrightarrow> f x = None \<Longrightarrow> Option.bind (find P xs) f = None"
  by (induction xs) simp_all

lemma ends_alone:
  assumes "alone inst eid (tables w)"
  shows "\<exists>w'. executeEndEvent E go inst eid ignore w = (Inr (), w') \<and> over inst (tables w')"
proof -
  let ?d1 = "CompleteExecutionTx inst eid (tables w)"
  let ?d2 = "CompleteProcessInstanceTx (millis (e_now E)) inst ?d1"
  have here: "inst \<in> pi_id ` set (process_instances (tables w))" using assms by (simp add: alone_def)
  have "\<forall>p \<in> set (process_instances ?d2). pi_id p = inst \<longrightarrow> pi_parent p = None"
    using assms by (auto simp: alone_def CompleteProcessInstanceTx_def CompleteExecutionTx_def row_defs update_executions_def ball_update_where)
  then have "Option.bind (find (\<lambda>p. pi_id p = inst) (process_instances ?d2)) pi_parent = None"
    by (rule find_bind_None)
  then show ?thesis
    using executeEndEvent_cases [OF here, of eid E ignore go] not_live_alone [OF assms] by (simp add: Let_def)
qed

lemma round_reaches_end:
  assumes "route E (p_graph p) (p_vars p) (p_current p) k" and "p_inner p = None"
    and "alone (exec_instance (p_exec p)) (exec_id (p_exec p)) (tables w)"
  shows "\<exists>w'. run (Suc k + extra) E (Round p) w = (Inr (), w') \<and> over (exec_instance (p_exec p)) (tables w')"
  using assms
proof (induction k arbitrary: p w rule: nat_induct)
  case 0
  let ?go = "\<lambda>eid. run extra E (Execute eid)"
  from "0.prems"(1,2) have
    "step E ?go p = stay (executeEndEvent E ?go (exec_instance (p_exec p)) (exec_id (p_exec p)) (TriggerNodes (p_graph p)))"
    by cases (auto intro: step_ends step_no_flow)
  then show ?case
    using ends_alone [OF "0.prems"(3), of E ?go "TriggerNodes (p_graph p)"] by (auto simp: stay_def eng_defs)
next
  case (Suc k)
  from Suc.prems(1) obtain n to where n: "map_of (p_graph p) (p_current p) = Some n" "passing (p_graph p) n"
      "\<not> has_prefix (p_current p) ImplicitEndPrefix" "ResolveNext (condition E) n (p_vars p) = Inr to"
    and to: "route E (p_graph p) (p_vars p) to k"
    by cases auto
  let ?p = "p\<lparr>p_current := to\<rparr>"
  let ?w = "w\<lparr>tables := UpdateExecutionNodeTx (exec_instance (p_exec p)) (exec_id (p_exec p)) to (tables w)\<rparr>"
  have "\<exists>w'. run (Suc k + extra) E (Round ?p) ?w = (Inr (), w') \<and> over (exec_instance (p_exec p)) (tables w')"
    using Suc.IH [of ?p ?w] to Suc.prems(2,3) alone_update by simp
  then show ?case using step_passes [OF n(1,2,3) Suc.prems(2) n(4)] by (simp add: bindE_def)
qed



end
