(* ===== verification/Message_Correlation.thy ===== *)
theory Message_Correlation
  imports Runtime_Run
begin

text \<open>
  Messages (\<open>internal/runtime/messages.go\<close>) and the watcher of conditional events (\<open>internal/runtime/conditional.go\<close>).

  The tables \<open>published_messages\<close> and \<open>published_message_correlations\<close> are a \<open>mailbox\<close> that the operations take and
  give back; an operation that fails leaves the mailbox of its caller as it was, as its transaction does. The table
  \<open>process_definitions\<close> and the text that \<open>->>\<close> gives of a JSON value are in \<open>deployments\<close>. A row of \<open>event_subscriptions\<close> was
  created after those before it in the table. Deliveries are run where they are found (\<open>cmdbus\<close> without partitions).
\<close>

subsection \<open>Published messages\<close>

record PublishedMessage =
  msg_Name :: string
  msg_CorrelationKey :: string
  msg_Variables :: vars
  TimeToLive :: int
  msg_MessageID :: string
  msg_TenantID :: string

text \<open>A kept message; \<open>kept_expires\<close> is an instant in nanoseconds.\<close>

record keptMessage =
  kept_ID :: uuid
  kept_Name :: string
  kept_CorrelationKey :: string
  kept_message_id :: "string option"
  kept_Variables :: vars
  kept_TenantID :: "string option"
  kept_expires :: int

record mailbox =
  published_messages :: "keptMessage list"
  correlations :: "((uuid \<times> string) \<times> uuid) list"

record Definition =
  def_id :: uuid
  def_key :: string
  def_version :: int
  def_graph :: graph

record deployments =
  process_definitions :: "Definition list"
  json_text :: "json \<Rightarrow> string"

record PublishResult =
  pr_MessageID :: uuid
  Correlated :: "uuid list"
  Started :: "uuid list"

definition text_or_null :: "string \<Rightarrow> string option" where
  "text_or_null s = (if s = [] then None else Some s)"

text \<open>\<open>published\<close>: what a kept message was published as.\<close>

definition published :: "keptMessage \<Rightarrow> PublishedMessage" where
  "published k = \<lparr>msg_Name = kept_Name k, msg_CorrelationKey = kept_CorrelationKey k, msg_Variables = kept_Variables k,
     TimeToLive = 0, msg_MessageID = [], msg_TenantID = (case kept_TenantID k of Some t \<Rightarrow> t | None \<Rightarrow> [])\<rparr>"

subsection \<open>Open subscriptions\<close>

definition process_key :: "Definition list \<Rightarrow> uuid \<Rightarrow> db \<Rightarrow> string option" where
  "process_key defs inst d =
     Option.bind (find (\<lambda>p. pi_id p = inst) (process_instances d))
       (\<lambda>p. map_option def_key (find (\<lambda>x. def_id x = pi_definition p) defs))"

definition sub_key_text :: "EventSubscription \<Rightarrow> string" where
  "sub_key_text s = (case sub_correlation s of Some k \<Rightarrow> k | None \<Rightarrow> [])"

text \<open>\<open>data ->> 'correlationKey'\<close>: null for a key that is not there and for JSON null.\<close>

definition variable_text :: "(json \<Rightarrow> string) \<Rightarrow> string \<Rightarrow> vars \<Rightarrow> string option" where
  "variable_text tx k vs =
     (case map_of vs k of None \<Rightarrow> None | Some JNull \<Rightarrow> None | Some (JStr s) \<Rightarrow> Some s | Some v \<Rightarrow> Some (tx v))"

definition by_variable :: "(json \<Rightarrow> string) \<Rightarrow> string \<Rightarrow> uuid \<Rightarrow> db \<Rightarrow> bool" where
  "by_variable tx key inst d \<longleftrightarrow> key \<noteq> [] \<and>
     (\<exists>(i, vs) \<in> set (variables d). i = inst \<and> variable_text tx ''correlationKey'' vs = Some key)"

definition already :: "uuid option \<Rightarrow> mailbox \<Rightarrow> string list" where
  "already stored box = (case stored of None \<Rightarrow> [] | Some m \<Rightarrow> map (snd \<circ> fst) (filter (\<lambda>c. fst (fst c) = m) (correlations box)))"

text \<open>The row of a subscription with the process its instance is of.\<close>

definition message_row :: "deployments \<Rightarrow> string \<Rightarrow> string \<Rightarrow> string \<Rightarrow> uuid option \<Rightarrow> mailbox \<Rightarrow> db \<Rightarrow> EventSubscription
    \<Rightarrow> (string \<times> EventSubscription) option" where
  "message_row D name key onlyProcess stored box d s =
     (if sub_type s = ''message'' \<and> sub_name s = name \<and> \<not> sub_consumed s \<and>
         (sub_key_text s = key \<or> (key \<noteq> [] \<and> sub_key_text s = [])) then
        (case process_key (process_definitions D) (sub_instance s) d of
           None \<Rightarrow> None
         | Some pk \<Rightarrow>
             if (onlyProcess \<noteq> [] \<and> pk \<noteq> onlyProcess) \<or> pk \<in> set (already stored box) then None
             else if sub_key_text s \<noteq> key \<and> \<not> by_variable (json_text D) key (sub_instance s) d then None
             else Some (pk, s))
      else None)"

definition openMessageSubscriptions :: "deployments \<Rightarrow> string \<Rightarrow> string \<Rightarrow> string \<Rightarrow> uuid option \<Rightarrow> mailbox \<Rightarrow> db
    \<Rightarrow> (string \<times> EventSubscription) list" where
  "openMessageSubscriptions D name key onlyProcess stored box d =
     sort_key fst (List.map_filter (message_row D name key onlyProcess stored box d) (event_subscriptions d))"

subsection \<open>Correlation\<close>

text \<open>\<open>recordCorrelationTx\<close>: whether a row was written, and the mailbox.\<close>

definition recordCorrelationTx :: "uuid option \<Rightarrow> string \<Rightarrow> uuid \<Rightarrow> mailbox \<Rightarrow> bool \<times> mailbox" where
  "recordCorrelationTx stored pk inst box =
     (case stored of
        None \<Rightarrow> (True, box)
      | Some m \<Rightarrow> if (m, pk) \<in> fst ` set (correlations box) then (False, box)
          else (True, box\<lparr>correlations := correlations box @ [((m, pk), inst)]\<rparr>))"

definition waiting_execution :: "EventSubscription \<Rightarrow> uuid" where
  "waiting_execution s = (case sub_execution s of Some x \<Rightarrow> x | None \<Rightarrow> uuid_Nil)"

text \<open>The other events a branch, a boundary event or an event sub-process was waiting for.\<close>

definition drop_siblings :: "EventSubscription \<Rightarrow> db \<Rightarrow> db" where
  "drop_siblings s d =
     (let d1 = consume_where (\<lambda>x. sub_execution x = Some (waiting_execution s) \<and> sub_id x \<noteq> sub_id s \<and> \<not> sub_consumed x \<and>
            sub_type x \<noteq> ''compensable'') d
      in d1\<lparr>timer_jobs := delete_where (\<lambda>t. timer_instance t = sub_instance s \<and> timer_execution t = Some (waiting_execution s) \<and>
           \<not> IsTriggered t) (timer_jobs d1)\<rparr>)"

text \<open>Where the execution goes: the target of the subscription, or along the flow out of the element it waits on.\<close>

definition message_target :: "env \<Rightarrow> EventSubscription \<Rightarrow> string \<Rightarrow> vars \<Rightarrow> string eng" where
  "message_target E s fromNode vs =
     (let inst = sub_instance s; eid = waiting_execution s; target = (case sub_target s of Some t \<Rightarrow> t | None \<Rightarrow> []) in
      if target \<noteq> [] then
        thenE (upd (drop_siblings s))
          (thenE (bindE (read (VariableScopeOf (e_parse E) inst eid)) (\<lambda>scope. upd (SetVariablesTx inst scope vs))) (ret target))
      else
        bindE (attempt (graph_of E inst)) (\<lambda>r. case r of
          Inl _ \<Rightarrow> ret []
        | Inr g \<Rightarrow> (case map_of g fromNode of
            None \<Rightarrow> ret []
          | Some catchNode \<Rightarrow> bindE (resolve E catchNode []) (\<lambda>t. thenE (ApplyActivityOutputTx E inst eid catchNode vs) (ret t)))))"

text \<open>The statements after the claim. A claim or a correlation that fails is undone, so both are looked at before anything is
  written.\<close>

definition correlate_tx :: "env \<Rightarrow> EventSubscription \<Rightarrow> vars \<Rightarrow> unit eng" where
  "correlate_tx E s vs =
     (let inst = sub_instance s; eid = waiting_execution s in
      thenE (upd (consume_where (\<lambda>x. sub_id x = sub_id s \<and> \<not> sub_consumed x)))
      (bindE (read (\<lambda>d. find (exec_key inst eid) (executions d))) (\<lambda>r. case r of
         None \<Rightarrow> fail ''execution not found''
       | Some e \<Rightarrow> bindE (message_target E s (exec_element e) vs) (\<lambda>target.
           if target \<noteq> [] then upd (UpdateExecutionStatusAndNodeTx inst eid ExecActive target)
           else upd (UpdateExecutionStatusTx inst eid ExecActive)))))"

text \<open>The error of the run that follows is logged.\<close>

definition correlateSubscription :: "env \<Rightarrow> (uuid \<Rightarrow> unit eng) \<Rightarrow> string \<times> EventSubscription \<Rightarrow> vars \<Rightarrow> uuid option \<Rightarrow> mailbox
    \<Rightarrow> (bool \<times> mailbox) eng" where
  "correlateSubscription E go ps vs stored box =
     (case ps of (pk, s) \<Rightarrow>
      bindE (read (\<lambda>d. \<exists>x \<in> set (event_subscriptions d). sub_id x = sub_id s \<and> \<not> sub_consumed x)) (\<lambda>claimed.
      case recordCorrelationTx stored pk (sub_instance s) box of (recorded, box') \<Rightarrow>
        if \<not> claimed \<or> \<not> recorded then ret (False, box)
        else thenE (transaction (correlate_tx E s vs))
          (thenE (attempt (ResumeExecution E go (waiting_execution s))) (ret (True, box')))))"

text \<open>\<open>done\<close> are the processes the message went to; the loop gives back those, the instances and the mailbox.\<close>

primrec correlate_loop :: "env \<Rightarrow> (uuid \<Rightarrow> unit eng) \<Rightarrow> vars \<Rightarrow> uuid option \<Rightarrow> (string \<times> EventSubscription) list \<Rightarrow> string list \<Rightarrow> uuid list \<Rightarrow> mailbox
    \<Rightarrow> (string list \<times> uuid list \<times> mailbox) eng" where
  "correlate_loop E go vs stored [] dn got box = ret (dn, got, box)"
| "correlate_loop E go vs stored (s # subs) dn got box =
     (if fst s \<in> set dn then correlate_loop E go vs stored subs dn got box
      else bindE (attempt (correlateSubscription E go s vs stored box)) (\<lambda>r. case r of
        Inl _ \<Rightarrow> correlate_loop E go vs stored subs dn got box
      | Inr (ok, box') \<Rightarrow>
          if ok then correlate_loop E go vs stored subs (fst s # dn) (got @ [sub_instance (snd s)]) box'
          else correlate_loop E go vs stored subs dn got box))"

definition correlateToSubscriptions :: "env \<Rightarrow> deployments \<Rightarrow> (uuid \<Rightarrow> unit eng) \<Rightarrow> string \<Rightarrow> string \<Rightarrow> vars \<Rightarrow> uuid option \<Rightarrow> string
    \<Rightarrow> string list \<Rightarrow> mailbox \<Rightarrow> (string list \<times> uuid list \<times> mailbox) eng" where
  "correlateToSubscriptions E D go name key vs stored onlyProcess dn box =
     bindE (read (openMessageSubscriptions D name key onlyProcess stored box)) (\<lambda>subs.
       correlate_loop E go vs stored subs dn [] box)"

subsection \<open>Message start events\<close>

record messageStartTarget =
  DefinitionID :: uuid
  mst_ProcessKey :: string
  mst_StartNodeID :: string

definition latest :: "Definition list \<Rightarrow> Definition \<Rightarrow> bool" where
  "latest defs x \<longleftrightarrow> (\<forall>y \<in> set defs. def_key y = def_key x \<longrightarrow> def_version y \<le> def_version x)"

definition starts_on :: "string \<Rightarrow> Node \<Rightarrow> bool" where
  "starts_on name n \<longleftrightarrow> Type n = MessageStartEventType \<and> MessageRef n = name \<and> ParentScope n = []"

definition start_targets :: "Definition list \<Rightarrow> string \<Rightarrow> string list \<Rightarrow> messageStartTarget list" where
  "start_targets defs name gone =
     concat (map (\<lambda>x. if latest defs x \<and> def_key x \<notin> set gone
       then map (\<lambda>(i, n). \<lparr>DefinitionID = def_id x, mst_ProcessKey = def_key x, mst_StartNodeID = i\<rparr>)
         (filter (\<lambda>(i, n). starts_on name n) (def_graph x))
       else []) defs)"

text \<open>An instance that was started with this correlation key and has not ended.\<close>

definition started_active :: "string \<Rightarrow> string \<Rightarrow> db \<Rightarrow> bool" where
  "started_active pk key d \<longleftrightarrow>
     (\<exists>s \<in> set (event_subscriptions d). sub_type s = ''message_start'' \<and> sub_name s = pk \<and> sub_correlation s = Some key \<and> \<not> sub_consumed s \<and>
        (\<exists>p \<in> set (process_instances d). pi_id p = sub_instance s \<and> pi_ended p = None))"

definition insert_start_marker :: "env \<Rightarrow> uuid \<Rightarrow> uuid \<Rightarrow> string \<Rightarrow> string \<Rightarrow> unit eng" where
  "insert_start_marker E inst eid pk key =
     bindE (draw E) (\<lambda>sid. upd (add_subscription \<lparr>sub_id = sid, sub_instance = inst, sub_execution = Some eid, sub_type = ''message_start'',
       sub_name = pk, sub_correlation = Some key, sub_target = None, sub_consumed = False, sub_last = None\<rparr>))"

definition set_correlation :: "uuid option \<Rightarrow> string \<Rightarrow> uuid \<Rightarrow> mailbox \<Rightarrow> mailbox" where
  "set_correlation stored pk inst box =
     (case stored of None \<Rightarrow> box
      | Some m \<Rightarrow> box\<lparr>correlations := update_where (\<lambda>c. fst c = (m, pk)) (\<lambda>c. (fst c, inst)) (correlations box)\<rparr>)"

definition startOneByMessage :: "env \<Rightarrow> deployments \<Rightarrow> (uuid \<Rightarrow> unit eng) \<Rightarrow> messageStartTarget \<Rightarrow> PublishedMessage \<Rightarrow> uuid option
    \<Rightarrow> mailbox \<Rightarrow> (uuid option \<times> mailbox) eng" where
  "startOneByMessage E D go t msg stored box =
     (case find (\<lambda>x. def_id x = DefinitionID t) (process_definitions D) of
        None \<Rightarrow> fail ''process definition''
      | Some def \<Rightarrow>
        bindE (read (started_active (mst_ProcessKey t) (msg_CorrelationKey msg))) (\<lambda>active.
        if msg_CorrelationKey msg \<noteq> [] \<and> active then ret (None, box)
        else case recordCorrelationTx stored (mst_ProcessKey t) uuid_Nil box of (recorded, box1) \<Rightarrow>
          if \<not> recorded then ret (None, box)
          else
            bindE (StartProcessInstanceAt E (def_id def) (text_or_null (msg_TenantID msg)) (msg_Variables msg) (mst_StartNodeID t)) (\<lambda>(inst, eid).
            thenE (if msg_CorrelationKey msg \<noteq> [] then insert_start_marker E inst eid (mst_ProcessKey t) (msg_CorrelationKey msg) else ret ())
            (thenE (attempt (go eid)) (ret (Some inst, set_correlation stored (mst_ProcessKey t) inst box1))))))"

primrec start_loop :: "env \<Rightarrow> deployments \<Rightarrow> (uuid \<Rightarrow> unit eng) \<Rightarrow> PublishedMessage \<Rightarrow> uuid option \<Rightarrow> messageStartTarget list \<Rightarrow> string list
    \<Rightarrow> uuid list \<Rightarrow> mailbox \<Rightarrow> (string list \<times> uuid list \<times> mailbox) eng" where
  "start_loop E D go msg stored [] dn got box = ret (dn, got, box)"
| "start_loop E D go msg stored (t # ts) dn got box =
     (if mst_ProcessKey t \<in> set dn then start_loop E D go msg stored ts dn got box
      else bindE (attempt (startOneByMessage E D go t msg stored box)) (\<lambda>r. case r of
        Inl _ \<Rightarrow> start_loop E D go msg stored ts dn got box
      | Inr (started, box') \<Rightarrow> (case started of
          None \<Rightarrow> start_loop E D go msg stored ts dn got box
        | Some inst \<Rightarrow> start_loop E D go msg stored ts (mst_ProcessKey t # dn) (got @ [inst]) box')))"

definition startByMessage :: "env \<Rightarrow> deployments \<Rightarrow> (uuid \<Rightarrow> unit eng) \<Rightarrow> PublishedMessage \<Rightarrow> uuid option \<Rightarrow> string list \<Rightarrow> mailbox
    \<Rightarrow> (string list \<times> uuid list \<times> mailbox) eng" where
  "startByMessage E D go msg stored dn box =
     start_loop E D go msg stored (start_targets (process_definitions D) (msg_Name msg) (already stored box)) dn [] box"

subsection \<open>Publication\<close>

definition duplicate :: "env \<Rightarrow> PublishedMessage \<Rightarrow> mailbox \<Rightarrow> bool" where
  "duplicate E msg box \<longleftrightarrow> msg_MessageID msg \<noteq> [] \<and>
     (\<exists>k \<in> set (published_messages box). kept_Name k = msg_Name msg \<and> kept_message_id k = Some (msg_MessageID msg) \<and>
        instant (e_now E) < kept_expires k)"

definition kept_row :: "env \<Rightarrow> uuid \<Rightarrow> PublishedMessage \<Rightarrow> keptMessage" where
  "kept_row E i msg = \<lparr>kept_ID = i, kept_Name = msg_Name msg, kept_CorrelationKey = msg_CorrelationKey msg,
     kept_message_id = text_or_null (msg_MessageID msg), kept_Variables = msg_Variables msg, kept_TenantID = text_or_null (msg_TenantID msg),
     kept_expires = instant (e_now E) + TimeToLive msg\<rparr>"

definition PublishMessage :: "env \<Rightarrow> deployments \<Rightarrow> (uuid \<Rightarrow> unit eng) \<Rightarrow> PublishedMessage \<Rightarrow> mailbox \<Rightarrow> (PublishResult \<times> mailbox) eng" where
  "PublishMessage E D go msg box =
     bindE (draw E) (\<lambda>i.
       if msg_Name msg = [] then fail ''message name is required''
       else if duplicate E msg box then fail ''a message with this id is already published''
       else
         let keep = TimeToLive msg > 0;
             stored = (if keep then Some i else None);
             box1 = (if keep then box\<lparr>published_messages := published_messages box @ [kept_row E i msg]\<rparr> else box) in
         bindE (correlateToSubscriptions E D go (msg_Name msg) (msg_CorrelationKey msg) (msg_Variables msg) stored [] [] box1)
           (\<lambda>(dn, correlated, box2).
         bindE (startByMessage E D go msg stored dn box2) (\<lambda>(_, started, box3).
           ret (\<lparr>pr_MessageID = i, Correlated = correlated, Started = started\<rparr>, box3))))"

subsection \<open>The sweep of kept messages\<close>

datatype keptDelivery = ToProcess keptMessage string | ToStarts keptMessage

fun runKeptDelivery :: "env \<Rightarrow> deployments \<Rightarrow> (uuid \<Rightarrow> unit eng) \<Rightarrow> keptDelivery \<Rightarrow> mailbox \<Rightarrow> mailbox eng" where
  "runKeptDelivery E D go (ToStarts k) box =
     bindE (startByMessage E D go (published k) (Some (kept_ID k)) [] box) (\<lambda>(_, _, box'). ret box')"
| "runKeptDelivery E D go (ToProcess k pk) box =
     bindE (correlateToSubscriptions E D go (kept_Name k) (kept_CorrelationKey k) (kept_Variables k) (Some (kept_ID k)) pk [] box)
       (\<lambda>(_, _, box'). ret box')"

text \<open>\<open>deliverKept\<close> logs an error.\<close>

definition deliverKept :: "env \<Rightarrow> deployments \<Rightarrow> (uuid \<Rightarrow> unit eng) \<Rightarrow> keptDelivery \<Rightarrow> mailbox \<Rightarrow> mailbox eng" where
  "deliverKept E D go x box =
     bindE (attempt (runKeptDelivery E D go x box)) (\<lambda>r. case r of Inl _ \<Rightarrow> ret box | Inr box' \<Rightarrow> ret box')"

primrec each_box :: "('a \<Rightarrow> mailbox \<Rightarrow> mailbox eng) \<Rightarrow> 'a list \<Rightarrow> mailbox \<Rightarrow> mailbox eng" where
  "each_box f [] box = ret box"
| "each_box f (x # xs) box = bindE (f x box) (each_box f xs)"

definition sweep_kept :: "env \<Rightarrow> deployments \<Rightarrow> (uuid \<Rightarrow> unit eng) \<Rightarrow> keptMessage \<Rightarrow> mailbox \<Rightarrow> mailbox eng" where
  "sweep_kept E D go k box =
     bindE (read (openMessageSubscriptions D (kept_Name k) (kept_CorrelationKey k) [] (Some (kept_ID k)) box)) (\<lambda>subs.
       each_box (\<lambda>pk. deliverKept E D go (ToProcess k pk)) (remdups (map fst subs)) box)"

text \<open>Expired messages go, and with them their correlations.\<close>

definition drop_expired :: "int \<Rightarrow> mailbox \<Rightarrow> mailbox" where
  "drop_expired now box =
     \<lparr>published_messages = filter (\<lambda>k. now < kept_expires k) (published_messages box),
      correlations = filter (\<lambda>c. \<not> (\<exists>k \<in> set (published_messages box). kept_ID k = fst (fst c) \<and> kept_expires k \<le> now)) (correlations box)\<rparr>"

definition kept_batch :: "int \<Rightarrow> mailbox \<Rightarrow> keptMessage list" where
  "kept_batch now box = take 200 (sort_key kept_ID (filter (\<lambda>k. now < kept_expires k) (published_messages box)))"

definition start_batch :: "Definition list \<Rightarrow> int \<Rightarrow> mailbox \<Rightarrow> keptMessage list" where
  "start_batch defs now box = take 200 (filter (\<lambda>k. now < kept_expires k \<and>
     start_targets defs (kept_Name k) (already (Some (kept_ID k)) box) \<noteq> []) (published_messages box))"

definition sweepPublishedMessages :: "env \<Rightarrow> deployments \<Rightarrow> (uuid \<Rightarrow> unit eng) \<Rightarrow> mailbox \<Rightarrow> mailbox eng" where
  "sweepPublishedMessages E D go box =
     (let now = instant (e_now E); box1 = drop_expired now box in
      if published_messages box1 = [] then ret box1
      else
        bindE (each_box (sweep_kept E D go) (kept_batch now box1) box1) (\<lambda>box2.
          each_box (\<lambda>k. deliverKept E D go (ToStarts k)) (start_batch (process_definitions D) now box2) box2))"

subsection \<open>The watcher of conditions\<close>

definition open_conditionals :: "uuid list option \<Rightarrow> db \<Rightarrow> EventSubscription list" where
  "open_conditionals insts d = take 500 (filter (\<lambda>s. sub_type s = ''conditional'' \<and> \<not> sub_consumed s \<and> sub_execution s \<noteq> None \<and>
     (case insts of None \<Rightarrow> True | Some is \<Rightarrow> sub_instance s \<in> set is)) (event_subscriptions d))"

text \<open>The value of a condition now, in the scope of the element that waits; one that cannot be evaluated is not true.\<close>

definition condition_now :: "env \<Rightarrow> EventSubscription \<Rightarrow> db \<Rightarrow> bool eng" where
  "condition_now E s d =
     (case condition E (sub_name s) (scope_view E (sub_instance s) (waiting_execution s) d) of
        Inl EvalPanic \<Rightarrow> halt Panic | Inl _ \<Rightarrow> ret False | Inr b \<Rightarrow> ret b)"

definition set_last :: "uuid \<Rightarrow> bool \<Rightarrow> db \<Rightarrow> db" where
  "set_last sid b d = d\<lparr>event_subscriptions := update_where (\<lambda>x. sub_id x = sid \<and> \<not> sub_consumed x)
     (\<lambda>x. x\<lparr>sub_last := Some b\<rparr>) (event_subscriptions d)\<rparr>"

text \<open>The rows are locked since they were read, so the statements by identifier hit open rows. Gives back what fired.\<close>

primrec evaluate_loop :: "env \<Rightarrow> EventSubscription list \<Rightarrow> EventSubscription list \<Rightarrow> EventSubscription list eng" where
  "evaluate_loop E [] fired = ret fired"
| "evaluate_loop E (s # subs) fired =
     bindE (bindE (read id) (condition_now E s)) (\<lambda>now.
       if now \<and> sub_last s \<noteq> Some True then thenE (upd (Consume (sub_id s))) (evaluate_loop E subs (fired @ [s]))
       else if sub_last s \<noteq> Some now then thenE (upd (set_last (sub_id s) now)) (evaluate_loop E subs fired)
       else evaluate_loop E subs fired)"

definition resume_fired :: "env \<Rightarrow> (uuid \<Rightarrow> unit eng) \<Rightarrow> EventSubscription \<Rightarrow> unit eng" where
  "resume_fired E go s =
     bindE (read (GetExecutionByID (waiting_execution s))) (\<lambda>r. case r of
       None \<Rightarrow> ret ()
     | Some e \<Rightarrow>
         if exec_status e \<noteq> ExecWaiting then ret ()
         else
           thenE (upd (ResumeWaitingExecution (sub_instance s) (waiting_execution s) (case sub_target s of Some t \<Rightarrow> t | None \<Rightarrow> [])))
             (thenE (attempt (ResumeExecution E go (waiting_execution s))) (ret ())))"

definition evaluate_conditions :: "env \<Rightarrow> uuid list option \<Rightarrow> EventSubscription list eng" where
  "evaluate_conditions E insts = transaction (bindE (read (open_conditionals insts)) (\<lambda>subs. evaluate_loop E subs []))"

definition checkConditions :: "env \<Rightarrow> (uuid \<Rightarrow> unit eng) \<Rightarrow> uuid list option \<Rightarrow> unit eng" where
  "checkConditions E go insts =
     bindE (evaluate_conditions E insts) (each (resume_fired E go))"

end
