(* ===== verification/Message_Props.thy ===== *)
theory Message_Props
  imports Message_Correlation Runtime_Invariants Runtime_Examples
begin

text \<open>
  Properties of messages and of the watcher of conditions. The operations only continue executions through \<open>go\<close>; the locale
  \<open>interpreter\<close> states what they rely on, that it makes nothing but changes of the specification, and is interpreted on
  \<open>ExecuteExecution\<close>.
\<close>

subsection \<open>Statements\<close>

lemma changes_consume_where [changes_intros]: "changes d (consume_where P d)"
  unfolding consume_where_def by (rule changes_steps)

lemma changes_drop_siblings [changes_intros]: "changes d (drop_siblings s d)"
  unfolding drop_siblings_def Let_def by (rule changes_trans [OF changes_consume_where]) (rule changes_drops(2), simp)

lemma changes_set_last [changes_intros]: "changes d (set_last sid b d)"
  unfolding set_last_def by (rule r_into_rtranclp, rule change.evaluated) simp

lemma safe_marker [safe_intros]: "safe K (insert_start_marker E inst eid pk key)"
  unfolding insert_start_marker_def add_subscription_def by (intro safe_intros changes_intros)

lemma safe_message_target [safe_intros]: "safe K (message_target E s cur vs)"
  unfolding message_target_def Let_def by (intro safe_intros changes_intros)

lemma safe_correlate_tx [safe_intros]: "safe K (correlate_tx E s vs)"
  unfolding correlate_tx_def Let_def by (intro safe_intros changes_intros)

lemma safe_condition_now [safe_intros]: "safe K (condition_now E s d)"
  unfolding condition_now_def by (rule safe_same) (auto simp: ret_def halt_def split: sum.split eval_error.split)

lemma safe_evaluate_loop [safe_intros]: "safe K (evaluate_loop E subs fired)"
  by (induction subs arbitrary: fired) (auto simp: Consume_def intro!: safe_intros changes_intros)

subsection \<open>What continues executions\<close>

locale interpreter =
  fixes go :: "uuid \<Rightarrow> unit eng"
  assumes only_changes: "safe {} (go x)"
begin

lemma go_safe [safe_intros]: "safe K (go x)"
  using only_changes by (rule safe_mono) simp

lemma safe_correlateSubscription [safe_intros]: "safe K (correlateSubscription E go ps vs stored box)"
  unfolding correlateSubscription_def by (intro safe_intros)

lemma safe_correlate_loop [safe_intros]: "safe K (correlate_loop E go vs stored subs dn got box)"
  by (induction subs arbitrary: dn got box) (auto intro!: safe_intros)

lemma safe_startOneByMessage [safe_intros]: "safe K (startOneByMessage E D go t msg stored box)"
  unfolding startOneByMessage_def by (intro safe_intros)

lemma safe_start_loop [safe_intros]: "safe K (start_loop E D go msg stored ts dn got box)"
  by (induction ts arbitrary: dn got box) (auto intro!: safe_intros)

lemma safe_correlateToSubscriptions [safe_intros]: "safe K (correlateToSubscriptions E D go name key vs stored only dn box)"
  unfolding correlateToSubscriptions_def by (intro safe_intros)

lemma safe_startByMessage [safe_intros]: "safe K (startByMessage E D go msg stored dn box)"
  unfolding startByMessage_def by (intro safe_intros)

lemma safe_PublishMessage: "safe K (PublishMessage E D go msg box)"
  unfolding PublishMessage_def Let_def by (intro safe_intros)

lemma safe_deliverKept [safe_intros]: "safe K (deliverKept E D go x box)"
  unfolding deliverKept_def by (cases x) (simp_all only: runKeptDelivery.simps, (intro safe_intros)+)

lemma safe_each_box [safe_intros]: "(\<And>x b. safe K (f x b)) \<Longrightarrow> safe K (each_box f xs box)"
  by (induction xs arbitrary: box) (auto intro!: safe_intros)

lemma safe_sweep: "safe K (sweepPublishedMessages E D go box)"
  unfolding sweepPublishedMessages_def sweep_kept_def Let_def by (intro safe_intros)

lemma safe_checkConditions: "safe K (checkConditions E go insts)"
  unfolding checkConditions_def evaluate_conditions_def resume_fired_def by (intro safe_intros changes_intros)

end

lemma ExecuteExecution_safe: "safe K (ExecuteExecution fuel E x)"
  unfolding ExecuteExecution_def using safe_run [of "Execute x"] by (auto intro: safe_mono)

interpretation exec: interpreter "ExecuteExecution fuel E" for fuel E
  by unfold_locales (rule ExecuteExecution_safe)

subsection \<open>The process of an instance\<close>

lemma find_update_where_same: "(\<And>x. P (f x) = P x) \<Longrightarrow> find P (update_where Q f xs) = map_option (\<lambda>x. if Q x then f x else x) (find P xs)"
  by (induction xs) (auto simp: update_where_def)

text \<open>The process of an instance never changes.\<close>

interpretation process: stable "\<lambda>d. process_key defs inst d = Some pk" for defs inst pk
proof unfold_locales
  fix d d'
  assume key: "process_key defs inst d = Some pk" and "change d d'"
  from this(2) show "process_key defs inst d' = Some pk"
  proof cases
    case (end_instance s i t)
    have "find (\<lambda>p. pi_id p = inst) (process_instances d') =
        map_option (\<lambda>p. if pi_id p = i then p\<lparr>pi_status := s, pi_ended := Some t\<rparr> else p) (find (\<lambda>p. pi_id p = inst) (process_instances d))"
      unfolding end_instance(1) UpdateProcessInstanceStatusTx_def by (simp add: find_update_where_same)
    with key show ?thesis unfolding process_key_def by (cases "find (\<lambda>p. pi_id p = inst) (process_instances d)") auto
  next
    case (begin_instance p)
    with key show ?thesis
      unfolding process_key_def by (cases "find (\<lambda>p. pi_id p = inst) (process_instances d)") (auto simp: find_append)
  qed (use key in \<open>simp_all add: process_key_def row_defs\<close>)
qed

subsection \<open>Runs that return\<close>

named_theorems returns

lemma returns_basic [returns]:
  "ret a w = (Inr b, w') \<longleftrightarrow> b = a \<and> w' = w" "halt s w = (Inr b, w') \<longleftrightarrow> False" "fail x w = (Inr b, w') \<longleftrightarrow> False"
  "read g w = (Inr c, w') \<longleftrightarrow> c = g (tables w) \<and> w' = w" "upd f w = (Inr u, w') \<longleftrightarrow> w' = w\<lparr>tables := f (tables w)\<rparr>"
  "draw E w = (Inr i, w') \<longleftrightarrow> i = e_fresh E (drawn w) \<and> w' = w\<lparr>drawn := Suc (drawn w)\<rparr>"
  by (auto simp: ret_def halt_def fail_def read_def upd_def draw_def)

lemma returns_bindE [returns]: "bindE m f w = (Inr b, w') \<longleftrightarrow> (\<exists>a w1. m w = (Inr a, w1) \<and> f a w1 = (Inr b, w'))"
  unfolding bindE_def by (cases "m w"; cases "fst (m w)") auto

lemma returns_thenE [returns]: "thenE m k w = (Inr b, w') \<longleftrightarrow> (\<exists>a w1. m w = (Inr a, w1) \<and> k w1 = (Inr b, w'))"
  unfolding thenE_def by (rule returns_bindE)

lemma returns_transaction [returns]: "transaction m w = (Inr a, w') \<longleftrightarrow> m w = (Inr a, w')"
  unfolding transaction_def by (auto split: prod.split sum.split)

lemma returns_attempt [returns]:
  "attempt m w = (Inr (Inr a), w') \<longleftrightarrow> m w = (Inr a, w')" "attempt m w = (Inr (Inl e), w') \<longleftrightarrow> m w = (Inl (Error e), w')"
  unfolding attempt_def by (auto split: prod.split sum.split stop.split)

lemma returns_try_upd [returns]: "try_upd f w = (Inr u, w') \<longleftrightarrow> (\<exists>d. f (tables w) = Inr d \<and> w' = w\<lparr>tables := d\<rparr>)"
  unfolding try_upd_def by (cases "f (tables w)") (auto simp: returns lift_def)

subsection \<open>Where a message went\<close>

text \<open>The processes a message went to, newest first, the instances it went to and what was recorded of it.\<close>

definition went :: "deployments \<Rightarrow> uuid option \<Rightarrow> mailbox \<Rightarrow> string list \<Rightarrow> uuid list \<Rightarrow> mailbox \<Rightarrow> db \<Rightarrow> bool" where
  "went D stored box0 dn got box d \<longleftrightarrow> distinct dn \<and> map (\<lambda>i. process_key (process_definitions D) i d) got = map Some (rev dn) \<and>
     (case stored of None \<Rightarrow> box = box0
      | Some m \<Rightarrow> box = box0\<lparr>correlations := correlations box0 @ zip (map (Pair m) (rev dn)) got\<rparr> \<and>
          Pair m ` set dn \<inter> fst ` set (correlations box0) = {})"

definition records :: "uuid option \<Rightarrow> string \<Rightarrow> uuid \<Rightarrow> mailbox \<Rightarrow> mailbox \<Rightarrow> bool" where
  "records stored pk i box box' \<longleftrightarrow> (case stored of None \<Rightarrow> box' = box
     | Some m \<Rightarrow> (m, pk) \<notin> fst ` set (correlations box) \<and> box' = box\<lparr>correlations := correlations box @ [((m, pk), i)]\<rparr>)"

lemma went_changes:
  assumes "went D stored box0 dn got box d" and "changes d d'"
  shows "went D stored box0 dn got box d'"
proof -
  have "process_key (process_definitions D) i d' = process_key (process_definitions D) i d" if "i \<in> set got" for i
  proof -
    have "process_key (process_definitions D) i d \<in> Some ` set (rev dn)"
      using assms(1) that unfolding went_def by (metis (no_types, lifting) image_eqI list.set_map)
    then show ?thesis using process.kept_by_changes [OF assms(2)] by fastforce
  qed
  then have "map (\<lambda>i. process_key (process_definitions D) i d') got = map (\<lambda>i. process_key (process_definitions D) i d) got" by simp
  with assms(1) show ?thesis unfolding went_def by simp
qed

text \<open>One more process.\<close>

lemma went_further:
  assumes "went D stored box0 dn got box d" and "pk \<notin> set dn" and "process_key (process_definitions D) i d = Some pk"
    and "records stored pk i box box'"
  shows "went D stored box0 (pk # dn) (got @ [i]) box' d"
proof -
  have "length got = length dn" using assms(1) unfolding went_def by (metis length_map length_rev)
  then show ?thesis using assms by (auto simp: went_def records_def split: option.splits)
qed

lemma recorded_row: "recordCorrelationTx stored pk i box = (True, box') \<Longrightarrow> records stored pk i box box'"
  by (auto simp: recordCorrelationTx_def records_def split: option.splits if_splits)

lemma recorded_set:
  assumes "recordCorrelationTx stored pk i box = (True, box1)"
  shows "records stored pk j box (set_correlation stored pk j box1)"
proof (cases stored)
  case (Some m)
  then have new: "(m, pk) \<notin> fst ` set (correlations box)" and b: "box1 = box\<lparr>correlations := correlations box @ [((m, pk), i)]\<rparr>"
    using assms by (auto simp: recordCorrelationTx_def split: if_splits)
  then have "update_where (\<lambda>c. fst c = (m, pk)) (\<lambda>c. (fst c, j)) (correlations box) = correlations box"
    unfolding update_where_def by (intro map_idI) (metis image_eqI)
  then show ?thesis using Some new by (simp add: b set_correlation_def update_where_def records_def)
qed (use assms in \<open>simp add: recordCorrelationTx_def set_correlation_def records_def\<close>)

lemma StartProcessInstanceAt_started:
  assumes "StartProcessInstanceAt E def tenant vs start w = (Inr (inst, eid), w')"
  shows "\<exists>p. find (\<lambda>p. pi_id p = inst) (process_instances (tables w')) = Some p \<and> pi_definition p = def \<and>
    pi_status p = InstanceRunning \<and> pi_ended p = None \<and> event_subscriptions (tables w') = event_subscriptions (tables w)"
proof -
  have "find (\<lambda>p. pi_id p = inst) (process_instances (tables w)) = None"
    using assms by (auto simp: StartProcessInstanceAt_def startProcessInstanceAt_def returns CreateProcessInstanceTx_def find_None_iff split: if_splits)
  then show ?thesis
    using assms by (auto simp: StartProcessInstanceAt_def startProcessInstanceAt_def returns CreateProcessInstanceTx_def CreateExecutionTx2_def
        CreateExecutionTx_def find_append split: if_splits)
qed

lemma find_by_key: "distinct (map f xs) \<Longrightarrow> x \<in> set xs \<Longrightarrow> find (\<lambda>y. f y = f x) xs = Some x"
  by (induction xs) (auto simp: image_iff)

lemma found_def: "find (\<lambda>x. def_id x = i) defs = Some x \<Longrightarrow> def_id x = i"
  by (auto simp: find_Some_iff)

context interpreter
begin

lemma correlateSubscription_went:
  assumes "correlateSubscription E go (pk, s) vs stored box w = (Inr (True, box'), w')"
    and "went D stored box0 dn got box (tables w)" and "pk \<notin> set dn" and "process_key (process_definitions D) (sub_instance s) (tables w) = Some pk"
  shows "went D stored box0 (pk # dn) (got @ [sub_instance s]) box' (tables w')"
proof -
  have step: "changes (tables w) (tables w')"
    using safe_dest [OF safe_correlateSubscription [of "{}"] _ assms(1)] by simp
  from assms(1) have "recordCorrelationTx stored pk (sub_instance s) box = (True, box')"
    unfolding correlateSubscription_def by (auto simp: returns split: prod.splits if_splits)
  from went_further [OF assms(2-4) recorded_row [OF this]] step show ?thesis by (rule went_changes)
qed

lemma correlate_loop_went:
  assumes "correlate_loop E go vs stored subs dn got box w = (Inr (dn', got', box'), w')"
    and "went D stored box0 dn got box (tables w)"
    and "\<forall>(pk, s) \<in> set subs. process_key (process_definitions D) (sub_instance s) (tables w) = Some pk"
  shows "went D stored box0 dn' got' box' (tables w')"
  using assms
proof (induction subs arbitrary: dn got box w)
  case (Cons x subs)
  let ?pk = "fst x" and ?i = "sub_instance (snd x)"
  have key: "process_key (process_definitions D) ?i (tables w) = Some ?pk" using Cons.prems(3) by (cases x) simp
  show ?case
  proof (cases "?pk \<in> set dn")
    case True
    then show ?thesis using Cons.IH [of dn got box w] Cons.prems by simp
  next
    case False
    then obtain r w1 where r: "attempt (correlateSubscription E go x vs stored box) w = (Inr r, w1)"
      and rest: "(case r of Inl _ \<Rightarrow> correlate_loop E go vs stored subs dn got box
        | Inr (ok, b) \<Rightarrow> if ok then correlate_loop E go vs stored subs (?pk # dn) (got @ [?i]) b
            else correlate_loop E go vs stored subs dn got box) w1 = (Inr (dn', got', box'), w')"
      using Cons.prems(1) by (auto simp: returns)
    have step: "changes (tables w) (tables w1)"
      using safe_dest [OF safe_attempt [OF safe_correlateSubscription [of "{}"]] _ r] by simp
    have keys: "\<forall>(pk, s) \<in> set subs. process_key (process_definitions D) (sub_instance s) (tables w1) = Some pk"
      using Cons.prems(3) process.kept_by_changes [OF step] by auto
    have same: "went D stored box0 dn got box (tables w1)" by (rule went_changes [OF Cons.prems(2) step])
    show ?thesis
    proof (cases "\<exists>b. r = Inr (True, b)")
      case True
      then obtain b where b: "r = Inr (True, b)" by blast
      have "went D stored box0 (?pk # dn) (got @ [?i]) b (tables w1)"
        by (rule correlateSubscription_went [OF _ Cons.prems(2) False]) (use r key in \<open>simp_all add: b returns\<close>)
      then show ?thesis using Cons.IH keys rest by (simp add: b)
    next
      case False
      then have "correlate_loop E go vs stored subs dn got box w1 = (Inr (dn', got', box'), w')"
        using rest by (auto split: sum.splits prod.splits if_splits)
      then show ?thesis using Cons.IH same keys by blast
    qed
  qed
qed (simp add: returns)

text \<open>The keys of the definitions are their identifiers.\<close>

lemma startOneByMessage_went:
  assumes "startOneByMessage E D go t msg stored box w = (Inr (Some i, box'), w')"
    and "went D stored box0 dn got box (tables w)" and "mst_ProcessKey t \<notin> set dn"
    and "\<exists>x. find (\<lambda>x. def_id x = DefinitionID t) (process_definitions D) = Some x \<and> def_key x = mst_ProcessKey t"
  shows "went D stored box0 (mst_ProcessKey t # dn) (got @ [i]) box' (tables w')"
proof -
  obtain x where x: "find (\<lambda>x. def_id x = DefinitionID t) (process_definitions D) = Some x" "def_key x = mst_ProcessKey t"
    using assms(4) by blast
  from assms(1) x(1) obtain box1 inst eid w1 where rec: "recordCorrelationTx stored (mst_ProcessKey t) uuid_Nil box = (True, box1)"
    and start: "StartProcessInstanceAt E (def_id x) (text_or_null (msg_TenantID msg)) (msg_Variables msg) (mst_StartNodeID t) w = (Inr (inst, eid), w1)"
    and rest: "thenE (if msg_CorrelationKey msg \<noteq> [] then insert_start_marker E inst eid (mst_ProcessKey t) (msg_CorrelationKey msg) else ret ())
        (thenE (attempt (go eid)) (ret (Some inst, set_correlation stored (mst_ProcessKey t) inst box1))) w1 = (Inr (Some i, box'), w')"
    unfolding startOneByMessage_def by (auto simp: returns split: prod.splits if_splits)
  have i: "i = inst" "box' = set_correlation stored (mst_ProcessKey t) inst box1" using rest by (auto simp: returns)
  have first: "changes (tables w) (tables w1)" using safe_dest [OF safe_starts(3) [of "{}"] _ start] by simp
  have later: "changes (tables w1) (tables w')"
    using rest by (rule safe_dest [of "{}", rotated 2]) (intro safe_intros, simp)
  have "process_key (process_definitions D) inst (tables w1) = Some (mst_ProcessKey t)"
    using StartProcessInstanceAt_started [OF start] x found_def [OF x(1)] unfolding process_key_def by auto
  from went_further [OF went_changes [OF assms(2) first] assms(3) this recorded_set [OF rec]] later
  show ?thesis unfolding i by (rule went_changes)
qed

lemma start_loop_went:
  assumes "start_loop E D go msg stored ts dn got box w = (Inr (dn', got', box'), w')"
    and "went D stored box0 dn (pre @ got) box (tables w)"
    and "\<forall>t \<in> set ts. \<exists>x. find (\<lambda>x. def_id x = DefinitionID t) (process_definitions D) = Some x \<and> def_key x = mst_ProcessKey t"
  shows "went D stored box0 dn' (pre @ got') box' (tables w')"
  using assms
proof (induction ts arbitrary: dn got box w)
  case (Cons t ts)
  show ?case
  proof (cases "mst_ProcessKey t \<in> set dn")
    case True
    then show ?thesis using Cons.IH [of dn got box w] Cons.prems by simp
  next
    case False
    then obtain r w1 where r: "attempt (startOneByMessage E D go t msg stored box) w = (Inr r, w1)"
      and rest: "(case r of Inl _ \<Rightarrow> start_loop E D go msg stored ts dn got box
        | Inr (started, b) \<Rightarrow> (case started of None \<Rightarrow> start_loop E D go msg stored ts dn got box
          | Some inst \<Rightarrow> start_loop E D go msg stored ts (mst_ProcessKey t # dn) (got @ [inst]) b)) w1 = (Inr (dn', got', box'), w')"
      using Cons.prems(1) by (auto simp: returns)
    have step: "changes (tables w) (tables w1)"
      using safe_dest [OF safe_attempt [OF safe_startOneByMessage [of "{}"]] _ r] by simp
    show ?thesis
    proof (cases "\<exists>i b. r = Inr (Some i, b)")
      case True
      then obtain i b where b: "r = Inr (Some i, b)" by blast
      have "went D stored box0 (mst_ProcessKey t # dn) ((pre @ got) @ [i]) b (tables w1)"
        by (rule startOneByMessage_went [OF _ Cons.prems(2) False]) (use r Cons.prems(3) in \<open>simp_all add: b returns\<close>)
      then show ?thesis using Cons.IH [of "mst_ProcessKey t # dn" "got @ [i]" b w1] Cons.prems(3) rest by (simp add: b)
    next
      case False
      then have "start_loop E D go msg stored ts dn got box w1 = (Inr (dn', got', box'), w')"
        using rest by (auto split: sum.splits prod.splits option.splits)
      then show ?thesis using Cons.IH [of dn got box w1] went_changes [OF Cons.prems(2) step] Cons.prems(3) by simp
    qed
  qed
qed (simp add: returns)

lemma correlateToSubscriptions_went:
  assumes "correlateToSubscriptions E D go name key vs stored only [] box w = (Inr (dn, got, box'), w')"
  shows "went D stored box dn got box' (tables w')"
proof (rule correlate_loop_went)
  show "correlate_loop E go vs stored (openMessageSubscriptions D name key only stored box (tables w)) [] [] box w = (Inr (dn, got, box'), w')"
    using assms by (auto simp: correlateToSubscriptions_def returns)
  show "went D stored box [] [] box (tables w)" by (simp add: went_def split: option.splits)
  show "\<forall>(pk, s) \<in> set (openMessageSubscriptions D name key only stored box (tables w)).
      process_key (process_definitions D) (sub_instance s) (tables w) = Some pk"
    by (auto simp: openMessageSubscriptions_def map_filter_def message_row_def split: if_splits option.splits)
qed

lemma startByMessage_went:
  assumes "startByMessage E D go msg stored dn box w = (Inr (dn', got, box'), w')" and "distinct (map def_id (process_definitions D))"
    and "went D stored box0 dn pre box (tables w)"
  shows "went D stored box0 dn' (pre @ got) box' (tables w')"
proof (rule start_loop_went)
  show "start_loop E D go msg stored (start_targets (process_definitions D) (msg_Name msg) (already stored box)) dn [] box w = (Inr (dn', got, box'), w')"
    using assms(1) by (simp add: startByMessage_def)
  show "went D stored box0 dn (pre @ []) box (tables w)" using assms(3) by simp
  show "\<forall>t \<in> set (start_targets (process_definitions D) (msg_Name msg) (already stored box)).
      \<exists>x. find (\<lambda>x. def_id x = DefinitionID t) (process_definitions D) = Some x \<and> def_key x = mst_ProcessKey t"
    using find_by_key [OF assms(2)] by (fastforce simp: start_targets_def split: if_splits)
qed

end

end
