(* ===== verification/Message_Claims.thy ===== *)
theory Message_Claims
  imports Message_Props
begin

text \<open>
  The properties of messages: they are in the specification of the engine, a message goes at most once to each process, kept
  messages are delivered once over all sweeps, identifiers are unique while a message lives, what a correlation does to the
  execution that waited and where the guarantee of one instance per correlation key is lost; and what the watcher of
  conditions fires.
\<close>

subsection \<open>What messages do to the tables\<close>

text \<open>Publishing a message, the sweep of kept messages and the check of conditions do nothing to the tables but the changes of the
  abstract specification, however they go; so the executions stay a forest and finished instances stay finished.\<close>

theorem messages_refine_changes:
  "changes (tables w) (tables (snd (PublishMessage E D (ExecuteExecution fuel E) msg box w))) \<and>
   changes (tables w) (tables (snd (sweepPublishedMessages E D (ExecuteExecution fuel E) box w))) \<and>
   changes (tables w) (tables (snd (checkConditions E (ExecuteExecution fuel E) insts w)))"
  using exec.safe_PublishMessage [of "{}"] exec.safe_sweep [of "{}"] exec.safe_checkConditions [of "{}"] unfolding safe_def by blast

subsection \<open>At most once to each process\<close>

lemma PublishMessage_went:
  assumes "distinct (map def_id (process_definitions D))"
    and "PublishMessage E D (ExecuteExecution fuel E) msg box w = (Inr (res, box'), w')"
  shows "\<exists>dn. went D (if TimeToLive msg > 0 then Some (pr_MessageID res) else None)
    (if TimeToLive msg > 0 then box\<lparr>published_messages := published_messages box @ [kept_row E (pr_MessageID res) msg]\<rparr> else box)
    dn (Correlated res @ Started res) box' (tables w')"
proof -
  let ?go = "ExecuteExecution fuel E" and ?i = "pr_MessageID res"
  let ?stored = "if TimeToLive msg > 0 then Some ?i else None"
  let ?box = "if TimeToLive msg > 0 then box\<lparr>published_messages := published_messages box @ [kept_row E ?i msg]\<rparr> else box"
  from assms(2) obtain w0 dn box2 w1 dn' where
    c: "correlateToSubscriptions E D ?go (msg_Name msg) (msg_CorrelationKey msg) (msg_Variables msg) ?stored [] [] ?box w0 = (Inr (dn, Correlated res, box2), w1)"
    and s: "startByMessage E D ?go msg ?stored dn box2 w1 = (Inr (dn', Started res, box'), w')"
    unfolding PublishMessage_def Let_def by (auto simp: returns split: prod.splits if_splits)
  show ?thesis by (rule exI, rule exec.startByMessage_went [OF s assms(1) exec.correlateToSubscriptions_went [OF c]])
qed

text \<open>C9: A publication goes to at most one instance of each process, whether that waited for the message or was started by it. A message
  with a time to live is kept, with one correlation for each instance it went to; without one nothing is kept.\<close>

theorem publish_once_per_process:
  assumes "distinct (map def_id (process_definitions D))"
    and "PublishMessage E D (ExecuteExecution fuel E) msg box w = (Inr (res, box'), w')"
  shows "let insts = Correlated res @ Started res; ks = map (\<lambda>i. process_key (process_definitions D) i (tables w')) insts in
    distinct ks \<and> None \<notin> set ks \<and>
    box' = (if TimeToLive msg > 0 then
       \<lparr>published_messages = published_messages box @ [kept_row E (pr_MessageID res) msg],
        correlations = correlations box @ zip (map (\<lambda>k. (pr_MessageID res, the k)) ks) insts\<rparr> else box)"
proof -
  let ?i = "pr_MessageID res"
  from PublishMessage_went [OF assms] obtain dn where went: "went D (if TimeToLive msg > 0 then Some ?i else None)
    (if TimeToLive msg > 0 then box\<lparr>published_messages := published_messages box @ [kept_row E ?i msg]\<rparr> else box)
    dn (Correlated res @ Started res) box' (tables w')" by blast
  then have ks: "map (\<lambda>i. process_key (process_definitions D) i (tables w')) (Correlated res @ Started res) = map Some (rev dn)"
    and dn: "distinct dn" unfolding went_def by blast+
  have "None \<notin> set (map Some (rev dn))" "distinct (map Some (rev dn))" using dn by (auto simp: distinct_map)
  with went show ?thesis unfolding Let_def ks by (cases box) (simp add: went_def o_def split: if_splits)
qed

text \<open>The identifier of a message with a time to live is taken until it expires: another publication with its name and identifier is
  refused and changes nothing.\<close>

theorem publish_same_id_refused:
  assumes "distinct (map def_id (process_definitions D))"
    and "PublishMessage E D (ExecuteExecution fuel E) msg box w = (Inr (res, box'), w')"
    and "TimeToLive msg > 0" and "msg_MessageID msg \<noteq> []" and "msg_Name other = msg_Name msg" and "msg_MessageID other = msg_MessageID msg"
    and "instant (e_now E') < instant (e_now E) + TimeToLive msg"
  shows "(\<exists>e. fst (PublishMessage E' D' go other box' v) = Inl (Error e)) \<and> tables (snd (PublishMessage E' D' go other box' v)) = tables v"
proof -
  have "kept_row E (pr_MessageID res) msg \<in> set (published_messages box')"
    using PublishMessage_went [OF assms(1,2)] assms(3) by (auto simp: went_def)
  then have "duplicate E' other box'" using assms(4-7) by (auto simp: duplicate_def kept_row_def text_or_null_def intro!: bexI)
  then show ?thesis by (simp add: PublishMessage_def bindE_def draw_def fail_def halt_def)
qed

subsection \<open>Kept messages\<close>

text \<open>What deliveries file: correlations of messages that are kept, each with an instance of its process, none twice.\<close>

definition filed :: "deployments \<Rightarrow> mailbox \<Rightarrow> mailbox \<Rightarrow> db \<Rightarrow> bool" where
  "filed D box0 box d \<longleftrightarrow> published_messages box = published_messages box0 \<and>
     (distinct (map fst (correlations box0)) \<longrightarrow> distinct (map fst (correlations box))) \<and>
     (\<exists>new. correlations box = correlations box0 @ new \<and> (\<forall>((m, k), i) \<in> set new. process_key (process_definitions D) i d = Some k \<and>
        m \<in> kept_ID ` set (published_messages box0)))"

lemma filed_refl [simp]: "filed D box box d"
  by (simp add: filed_def)

lemma filed_trans:
  assumes "filed D box0 box1 d" and "changes d d'" and "filed D box1 box2 d'"
  shows "filed D box0 box2 d'"
proof -
  from assms(1,3) obtain n1 n2 where "correlations box1 = correlations box0 @ n1" "correlations box2 = correlations box1 @ n2"
    "\<forall>((m, k), i) \<in> set n1. process_key (process_definitions D) i d = Some k \<and> m \<in> kept_ID ` set (published_messages box0)"
    "\<forall>((m, k), i) \<in> set n2. process_key (process_definitions D) i d' = Some k \<and> m \<in> kept_ID ` set (published_messages box0)"
    unfolding filed_def by metis
  then have "correlations box2 = correlations box0 @ (n1 @ n2) \<and> (\<forall>((m, k), i) \<in> set (n1 @ n2).
      process_key (process_definitions D) i d' = Some k \<and> m \<in> kept_ID ` set (published_messages box0))"
    using process.kept_by_changes [OF assms(2)] by fastforce
  with assms(1,3) show ?thesis unfolding filed_def by auto
qed

lemma went_filed:
  assumes "went D (Some m) box0 dn got box d" and "m \<in> kept_ID ` set (published_messages box0)"
  shows "filed D box0 box d"
proof -
  have len: "length got = length dn" using assms(1) unfolding went_def by (metis length_map length_rev)
  let ?new = "zip (map (Pair m) (rev dn)) got"
  have b: "box = box0\<lparr>correlations := correlations box0 @ ?new\<rparr>" and new: "Pair m ` set dn \<inter> fst ` set (correlations box0) = {}"
    and ks: "map (\<lambda>i. process_key (process_definitions D) i d) got = map Some (rev dn)" and dn: "distinct dn"
    using assms(1) by (simp_all add: went_def)
  have "process_key (process_definitions D) i d = Some k \<and> m' = m" if "((m', k), i) \<in> set ?new" for m' k i
  proof -
    from that obtain j where "j < length dn" "(m', k) = map (Pair m) (rev dn) ! j" "i = got ! j" using len by (auto simp: in_set_zip)
    moreover from this have "map (\<lambda>i. process_key (process_definitions D) i d) got ! j = map Some (rev dn) ! j" using ks by simp
    ultimately show ?thesis using len by simp
  qed
  moreover have "map fst ?new = map (Pair m) (rev dn)" using len by simp
  ultimately show ?thesis
    using assms(2) dn new by (auto simp: filed_def b distinct_map inj_on_def)
qed

lemma each_box_filed:
  assumes "each_box f xs box w = (Inr box', w')" and "\<And>x b. safe {} (f x b)"
    and "\<And>x b v b' v'. x \<in> set xs \<Longrightarrow> published_messages b = published_messages box \<Longrightarrow> f x b v = (Inr b', v') \<Longrightarrow> filed D b b' (tables v')"
  shows "filed D box box' (tables w') \<and> changes (tables w) (tables w')"
  using assms(1,3)
proof (induction xs arbitrary: box w)
  case (Cons x xs)
  then obtain b w1 where f: "f x box w = (Inr b, w1)" and rest: "each_box f xs b w1 = (Inr box', w')" by (auto simp: returns)
  have first: "filed D box b (tables w1)" using f by (intro Cons.prems(2)) simp_all
  then have same: "published_messages b = published_messages box" by (simp add: filed_def)
  have step: "changes (tables w) (tables w1)" using safe_dest [OF assms(2) _ f] by simp
  have "filed D b box' (tables w') \<and> changes (tables w1) (tables w')"
    by (rule Cons.IH [OF rest], rule Cons.prems(2)) (simp_all add: same)
  with first step show ?case by (blast intro: filed_trans changes_trans)
qed (simp add: returns)

lemma deliverKept_filed:
  assumes "deliverKept E D (ExecuteExecution fuel E) x box w = (Inr box', w')" and "distinct (map def_id (process_definitions D))"
    and "(case x of ToProcess k _ \<Rightarrow> kept_ID k | ToStarts k \<Rightarrow> kept_ID k) \<in> kept_ID ` set (published_messages box)"
  shows "filed D box box' (tables w')"
proof -
  from assms(1) consider "box' = box" | "runKeptDelivery E D (ExecuteExecution fuel E) x box w = (Inr box', w')"
    unfolding deliverKept_def returns by (elim exE conjE) (auto simp: returns split: sum.splits)
  then show ?thesis
  proof cases
    case 2
    show ?thesis
    proof (cases x)
      case (ToProcess k pk)
      with 2 obtain dn got where "correlateToSubscriptions E D (ExecuteExecution fuel E) (kept_Name k) (kept_CorrelationKey k)
          (kept_Variables k) (Some (kept_ID k)) pk [] box w = (Inr (dn, got, box'), w')"
        by (auto simp: returns split: prod.splits)
      from went_filed [OF exec.correlateToSubscriptions_went [OF this]] show ?thesis using assms(3) ToProcess by simp
    next
      case (ToStarts k)
      with 2 obtain dn got where "startByMessage E D (ExecuteExecution fuel E) (published k) (Some (kept_ID k)) [] box w = (Inr (dn, got, box'), w')"
        by (auto simp: returns split: prod.splits)
      from exec.startByMessage_went [OF this assms(2), of box "[]"] have "went D (Some (kept_ID k)) box dn got box' (tables w')"
        by (simp add: went_def)
      from went_filed [OF this] show ?thesis using assms(3) ToStarts by simp
    qed
  qed simp
qed


subsection \<open>A correlation\<close>

lemma SetVariablesTx_events [simp]:
  "event_subscriptions (SetVariablesTx inst scope vs d) = event_subscriptions d" "timer_jobs (SetVariablesTx inst scope vs d) = timer_jobs d"
  "executions (SetVariablesTx inst scope vs d) = executions d"
proof -
  have "event_subscriptions (fold (\<lambda>(s, m). SetLocalVariablesTx inst s m) xs d) = event_subscriptions d \<and>
      timer_jobs (fold (\<lambda>(s, m). SetLocalVariablesTx inst s m) xs d) = timer_jobs d \<and>
      executions (fold (\<lambda>(s, m). SetLocalVariablesTx inst s m) xs d) = executions d" for xs d
    by (induction xs arbitrary: d) auto
  then show "event_subscriptions (SetVariablesTx inst scope vs d) = event_subscriptions d"
    "timer_jobs (SetVariablesTx inst scope vs d) = timer_jobs d" "executions (SetVariablesTx inst scope vs d) = executions d"
    by (simp_all add: SetVariablesTx_def Let_def split: prod.split)
qed

text \<open>Nothing but records of compensation is left of what an execution waited for, and it is active on an element.\<close>

definition wait_over :: "EventSubscription \<Rightarrow> string \<Rightarrow> db \<Rightarrow> bool" where
  "wait_over s t d \<longleftrightarrow>
     (\<forall>x \<in> set (event_subscriptions d). sub_id x = sub_id s \<or>
        (sub_execution x = Some (waiting_execution s) \<and> sub_type x \<noteq> ''compensable'') \<longrightarrow> sub_consumed x) \<and>
     (\<forall>x \<in> set (timer_jobs d). timer_instance x = sub_instance s \<and> timer_execution x = Some (waiting_execution s) \<longrightarrow> IsTriggered x) \<and>
     (\<forall>e \<in> set (executions d). exec_key (sub_instance s) (waiting_execution s) e \<longrightarrow> exec_status e = ExecActive \<and> exec_element e = t)"

lemma wait_over_after:
  "wait_over s t (UpdateExecutionStatusAndNodeTx (sub_instance s) (waiting_execution s) ExecActive t
     (SetVariablesTx (sub_instance s) scope vs (drop_siblings s (consume_where (\<lambda>x. sub_id x = sub_id s \<and> \<not> sub_consumed x) d))))"
  unfolding wait_over_def
proof (intro conjI)
  let ?d = "UpdateExecutionStatusAndNodeTx (sub_instance s) (waiting_execution s) ExecActive t
     (SetVariablesTx (sub_instance s) scope vs (drop_siblings s (consume_where (\<lambda>x. sub_id x = sub_id s \<and> \<not> sub_consumed x) d)))"
  show "\<forall>x \<in> set (event_subscriptions ?d). sub_id x = sub_id s \<or>
      (sub_execution x = Some (waiting_execution s) \<and> sub_type x \<noteq> ''compensable'') \<longrightarrow> sub_consumed x"
    by (auto simp: UpdateExecutionStatusAndNodeTx_def update_executions_def drop_siblings_def consume_where_def Let_def update_where_def)
  show "\<forall>x \<in> set (timer_jobs ?d). timer_instance x = sub_instance s \<and> timer_execution x = Some (waiting_execution s) \<longrightarrow> IsTriggered x"
    by (auto simp: UpdateExecutionStatusAndNodeTx_def update_executions_def drop_siblings_def Let_def delete_where_def)
  show "\<forall>e \<in> set (executions ?d). exec_key (sub_instance s) (waiting_execution s) e \<longrightarrow> exec_status e = ExecActive \<and> exec_element e = t"
    by (auto simp: UpdateExecutionStatusAndNodeTx_def update_executions_def update_where_def exec_key_def)
qed

text \<open>C11: A message for an execution that waits on several events (an event-based gateway, the trigger of a boundary event or an event
  sub-process) ends the wait: its subscription and the others of the execution are consumed, its timers are gone, and it is active on the
  element the subscription names. It cannot fail as long as the execution is there; where it is not, nothing changes.\<close>

theorem correlation_ends_wait:
  assumes "sub_target s = Some t" and "t \<noteq> []"
  shows "if find (exec_key (sub_instance s) (waiting_execution s)) (executions (tables w)) \<noteq> None
    then \<exists>w'. transaction (correlate_tx E s vs) w = (Inr (), w') \<and> wait_over s t (tables w')
    else (\<exists>err. fst (transaction (correlate_tx E s vs) w) = Inl (Error err)) \<and> tables (snd (transaction (correlate_tx E s vs) w)) = tables w"
proof (cases "find (exec_key (sub_instance s) (waiting_execution s)) (executions (tables w))")
  case None
  then show ?thesis
    by (simp add: transaction_def correlate_tx_def Let_def thenE_def bindE_def upd_def read_def fail_def halt_def consume_where_def)
next
  case (Some e)
  let ?d = "drop_siblings s (consume_where (\<lambda>x. sub_id x = sub_id s \<and> \<not> sub_consumed x) (tables w))"
  let ?scope = "VariableScopeOf (e_parse E) (sub_instance s) (waiting_execution s) ?d"
  have "transaction (correlate_tx E s vs) w = (Inr (), w\<lparr>tables := UpdateExecutionStatusAndNodeTx (sub_instance s) (waiting_execution s)
      ExecActive t (SetVariablesTx (sub_instance s) ?scope vs ?d)\<rparr>)"
    using Some assms by (simp add: transaction_def correlate_tx_def message_target_def Let_def thenE_def bindE_def upd_def read_def ret_def
        consume_where_def)
  with wait_over_after [of s t ?scope vs "tables w"] Some show ?thesis by fastforce
qed

subsection \<open>The watcher of conditions\<close>

definition holds_now :: "env \<Rightarrow> db \<Rightarrow> EventSubscription \<Rightarrow> bool" where
  "holds_now E d s \<longleftrightarrow> condition E (sub_name s) (scope_view E (sub_instance s) (waiting_execution s) d) = Inr True"

definition fires :: "env \<Rightarrow> db \<Rightarrow> EventSubscription \<Rightarrow> bool" where
  "fires E d s \<longleftrightarrow> holds_now E d s \<and> sub_last s \<noteq> Some True"

text \<open>The row of a subscription after it was evaluated.\<close>

definition evaluated_row :: "env \<Rightarrow> db \<Rightarrow> EventSubscription \<Rightarrow> EventSubscription" where
  "evaluated_row E d s = (if fires E d s then s\<lparr>sub_consumed := True\<rparr> else s\<lparr>sub_last := Some (holds_now E d s)\<rparr>)"

definition evaluated_rows :: "env \<Rightarrow> db \<Rightarrow> EventSubscription list \<Rightarrow> EventSubscription list \<Rightarrow> EventSubscription list" where
  "evaluated_rows E d subs rows = map (\<lambda>x. if x \<in> set subs then evaluated_row E d x else x) rows"

lemma scope_view_subscriptions [simp]: "scope_view E inst eid (d\<lparr>event_subscriptions := ss\<rparr>) = scope_view E inst eid d"
  by (simp add: scope_view_def VariableScopeOf_def VariablesForExecution_def localScopes_def scopeChain_def rootVariables_def parent_links_def)

lemma holds_subscriptions [simp]:
  "holds_now E (d\<lparr>event_subscriptions := ss\<rparr>) = holds_now E d" "fires E (d\<lparr>event_subscriptions := ss\<rparr>) = fires E d"
  "evaluated_rows E (d\<lparr>event_subscriptions := ss\<rparr>) = evaluated_rows E d"
  by (simp_all add: fun_eq_iff holds_now_def fires_def evaluated_rows_def evaluated_row_def)

lemma condition_now_returns: "condition_now E s d w = (Inr b, w') \<Longrightarrow> b = holds_now E d s \<and> w' = w"
  unfolding condition_now_def holds_now_def by (auto simp: returns split: sum.splits eval_error.splits)

text \<open>One row: what the statement of an evaluation does to the table.\<close>

lemma evaluated_one:
  assumes "distinct (map sub_id rows)" and "s \<in> set rows" and "\<not> sub_consumed s"
  shows "evaluated_rows E d [s] rows = (if fires E d s then update_where (\<lambda>x. sub_id x = sub_id s) (\<lambda>x. x\<lparr>sub_consumed := True\<rparr>) rows
    else update_where (\<lambda>x. sub_id x = sub_id s \<and> \<not> sub_consumed x) (\<lambda>x. x\<lparr>sub_last := Some (holds_now E d s)\<rparr>) rows)"
proof -
  have "x = s" if "x \<in> set rows" "sub_id x = sub_id s" for x
    using that assms(1,2) by (auto simp: distinct_map dest: inj_onD)
  then show ?thesis using assms(3) unfolding evaluated_rows_def update_where_def evaluated_row_def by (auto intro!: map_cong)
qed

lemma evaluated_rows_step:
  assumes "distinct (map sub_id rows)" and "s \<in> set rows" and "sub_id s \<notin> sub_id ` set subs"
  shows "evaluated_rows E d subs (evaluated_rows E d [s] rows) = evaluated_rows E d (s # subs) rows"
proof -
  have "sub_id (evaluated_row E d s) = sub_id s" by (simp add: evaluated_row_def)
  then have "evaluated_row E d s \<notin> set subs" using assms(3) by (metis image_eqI)
  then show ?thesis unfolding evaluated_rows_def by simp
qed

lemma evaluated_rows_ids: "map sub_id (evaluated_rows E d subs rows) = map sub_id rows"
  by (simp add: evaluated_rows_def evaluated_row_def)

lemma same_last: "sub_last x = v \<Longrightarrow> x\<lparr>sub_last := v\<rparr> = x"
  by (cases x) simp

lemma evaluate_loop_spec:
  assumes "evaluate_loop E subs fired w = (Inr fired', w')" and "distinct (map sub_id (event_subscriptions (tables w)))"
    and "set subs \<subseteq> set (event_subscriptions (tables w))" and "distinct (map sub_id subs)" and "\<forall>s \<in> set subs. \<not> sub_consumed s"
  shows "fired' = fired @ filter (fires E (tables w)) subs \<and>
    w' = w\<lparr>tables := (tables w)\<lparr>event_subscriptions := evaluated_rows E (tables w) subs (event_subscriptions (tables w))\<rparr>\<rparr>"
  using assms
proof (induction subs arbitrary: fired w)
  case Nil
  have "evaluated_rows E (tables w) [] rows = rows" for rows by (simp add: evaluated_rows_def)
  then show ?case using Nil.prems(1) by (simp add: returns)
next
  case (Cons s subs)
  let ?d = "tables w" and ?rows = "event_subscriptions (tables w)"
  let ?now = "holds_now E ?d s" and ?w = "w\<lparr>tables := ?d\<lparr>event_subscriptions := evaluated_rows E ?d [s] ?rows\<rparr>\<rparr>"
  have s: "s \<in> set ?rows" "\<not> sub_consumed s" and ids: "sub_id s \<notin> sub_id ` set subs" using Cons.prems by auto
  note one = evaluated_one [OF Cons.prems(2) s, of E ?d]
  have fixed: "update_where (\<lambda>x. sub_id x = sub_id s \<and> \<not> sub_consumed x) (\<lambda>x. x\<lparr>sub_last := Some ?now\<rparr>) ?rows = ?rows"
    if "sub_last s = Some ?now"
  proof -
    have "x = s" if "x \<in> set ?rows" "sub_id x = sub_id s" for x
      using that s(1) Cons.prems(2) by (auto simp: distinct_map dest: inj_onD)
    then show ?thesis using that unfolding update_where_def by (intro map_idI) (metis same_last)
  qed
  have rest: "evaluate_loop E subs (fired @ (if fires E ?d s then [s] else [])) ?w = (Inr fired', w')"
  proof (cases "fires E ?d s")
    case True
    then show ?thesis using Cons.prems(1) one
      by (auto simp: returns fires_def Consume_def consume_where_def dest!: condition_now_returns)
  next
    case False
    then show ?thesis using Cons.prems(1) one fixed
      by (auto simp: returns fires_def set_last_def dest!: condition_now_returns split: if_splits)
  qed
  have sub: "set subs \<subseteq> set (evaluated_rows E ?d [s] ?rows)"
    using Cons.prems(3) ids by (auto simp: evaluated_rows_def image_iff)
  have "fired' = (fired @ (if fires E ?d s then [s] else [])) @ filter (fires E (tables ?w)) subs \<and>
      w' = ?w\<lparr>tables := (tables ?w)\<lparr>event_subscriptions := evaluated_rows E (tables ?w) subs (event_subscriptions (tables ?w))\<rparr>\<rparr>"
    by (rule Cons.IH [OF rest]) (use Cons.prems sub in \<open>simp_all add: evaluated_rows_ids\<close>)
  then show ?case using evaluated_rows_step [OF Cons.prems(2) s(1) ids, of E ?d] by simp
qed

lemma open_conditionals_rows: "s \<in> set (open_conditionals insts d) \<Longrightarrow> s \<in> set (event_subscriptions d) \<and> \<not> sub_consumed s"
  by (auto simp: open_conditionals_def dest!: in_set_takeD)

lemma evaluate_conditions_spec:
  assumes "evaluate_conditions E insts w = (Inr fired, w')" and "distinct (map sub_id (event_subscriptions (tables w)))"
  shows "fired = filter (fires E (tables w)) (open_conditionals insts (tables w)) \<and>
    tables w' = (tables w)\<lparr>event_subscriptions := evaluated_rows E (tables w) (open_conditionals insts (tables w)) (event_subscriptions (tables w))\<rparr>"
proof -
  have "evaluate_loop E (open_conditionals insts (tables w)) [] w = (Inr fired, w')"
    using assms(1) by (auto simp: evaluate_conditions_def returns)
  then have "fired = [] @ filter (fires E (tables w)) (open_conditionals insts (tables w)) \<and>
      w' = w\<lparr>tables := (tables w)\<lparr>event_subscriptions := evaluated_rows E (tables w) (open_conditionals insts (tables w)) (event_subscriptions (tables w))\<rparr>\<rparr>"
  proof (rule evaluate_loop_spec [OF _ assms(2)])
    show "set (open_conditionals insts (tables w)) \<subseteq> set (event_subscriptions (tables w))"
      "\<forall>s \<in> set (open_conditionals insts (tables w)). \<not> sub_consumed s" using open_conditionals_rows by blast+
    show "distinct (map sub_id (open_conditionals insts (tables w)))"
      unfolding open_conditionals_def take_map [symmetric] by (rule distinct_take) (rule distinct_map_filter [OF assms(2)])
  qed
  then show ?thesis by simp
qed

text \<open>C12: A check fires exactly the open conditional subscriptions it looks at whose condition is true now and was not true at the last
  evaluation; a condition that cannot be evaluated is not true. It remembers the value of the others and touches nothing else, so checking again with
  the same variables fires none of them: a condition fires again only after it was false.\<close>

theorem conditions_fire_on_change:
  assumes "evaluate_conditions E insts w = (Inr fired, w')" and "distinct (map sub_id (event_subscriptions (tables w)))"
  shows "fired = filter (fires E (tables w)) (open_conditionals insts (tables w)) \<and>
    tables w' = (tables w)\<lparr>event_subscriptions := evaluated_rows E (tables w) (open_conditionals insts (tables w)) (event_subscriptions (tables w))\<rparr> \<and>
    (\<forall>again v. evaluate_conditions E insts w' = (Inr again, v) \<longrightarrow> sub_id ` set again \<inter> sub_id ` set (open_conditionals insts (tables w)) = {})"
proof -
  let ?d = "tables w" and ?subs = "open_conditionals insts (tables w)" and ?rows = "event_subscriptions (tables w)"
  note spec = evaluate_conditions_spec [OF assms]
  then have rows: "event_subscriptions (tables w') = evaluated_rows E ?d ?subs ?rows" by simp
  have "sub_id ` set again \<inter> sub_id ` set ?subs = {}" if again: "evaluate_conditions E insts w' = (Inr again, v)" for again v
  proof (rule ccontr)
    assume "sub_id ` set again \<inter> sub_id ` set ?subs \<noteq> {}"
    then obtain x s where x: "x \<in> set again" and s: "s \<in> set ?subs" "sub_id x = sub_id s" by auto
    have "again = filter (fires E (tables w')) (open_conditionals insts (tables w'))"
      using evaluate_conditions_spec [OF again] assms(2) rows by (simp add: evaluated_rows_ids)
    then have x': "fires E ?d x" "x \<in> set (evaluated_rows E ?d ?subs ?rows)" "\<not> sub_consumed x"
      using x spec open_conditionals_rows [of x insts "tables w'"] by auto
    from s(1) have "evaluated_row E ?d s \<in> set (evaluated_rows E ?d ?subs ?rows)"
      using open_conditionals_rows by (force simp: evaluated_rows_def image_iff)
    moreover have "sub_id (evaluated_row E ?d s) = sub_id x" using s(2) by (simp add: evaluated_row_def)
    moreover have "distinct (map sub_id (evaluated_rows E ?d ?subs ?rows))" using assms(2) by (simp add: evaluated_rows_ids)
    ultimately have "x = evaluated_row E ?d s" using x'(2) by (auto simp: distinct_map dest: inj_onD)
    with x'(1,3) show False by (auto simp: evaluated_row_def fires_def holds_now_def waiting_execution_def split: if_splits)
  qed
  with spec show ?thesis by blast
qed

subsection \<open>An order that is paid or cancelled\<close>

definition shop_graph :: graph where
  "shop_graph = [(''start'', snd (plain_node ''start'' MessageStartEventType [''wait''])\<lparr>MessageRef := ''order''\<rparr>),
     plain_node ''wait'' EventBasedGatewayType [''pay'', ''cancel''],
     (''pay'', snd (plain_node ''pay'' IntermediateMessageCatchEventType [''ship''])\<lparr>MessageRef := ''payment''\<rparr>),
     (''cancel'', snd (plain_node ''cancel'' IntermediateMessageCatchEventType [''end''])\<lparr>MessageRef := ''cancellation''\<rparr>),
     plain_node ''ship'' UserTaskType [''end''], plain_node ''end'' EndEventType []]"

definition shop_defs :: deployments where
  "shop_defs = \<lparr>process_definitions = [\<lparr>def_id = ''D'', def_key = ''orders'', def_version = 1, def_graph = shop_graph\<rparr>], json_text = (\<lambda>_. [])\<rparr>"

definition plain_message :: "string \<Rightarrow> string \<Rightarrow> PublishedMessage" where
  "plain_message name key = \<lparr>msg_Name = name, msg_CorrelationKey = key, msg_Variables = [], TimeToLive = 1, msg_MessageID = name, msg_TenantID = []\<rparr>"

definition empty_box :: mailbox where
  "empty_box = \<lparr>published_messages = [], correlations = []\<rparr>"

definition shop_publish :: "PublishedMessage \<Rightarrow> mailbox \<Rightarrow> (PublishResult \<times> mailbox) eng" where
  "shop_publish = PublishMessage (plain_env shop_graph) shop_defs (ExecuteExecution 3 (plain_env shop_graph))"

definition no_world :: world where
  "no_world = plain_world empty_db"

text \<open>An order is placed, paid, and placed again under the same correlation key while the first is being shipped.\<close>

definition order_again :: "(uuid list \<times> uuid list \<times> uuid list \<times> (uuid \<times> instance_status) list) eng" where
  "order_again =
     bindE (shop_publish (plain_message ''order'' ''7'') empty_box) (\<lambda>(r1, b1).
     bindE (shop_publish (plain_message ''payment'' []) b1) (\<lambda>(r2, b2).
     bindE (shop_publish (plain_message ''order'' ''7''\<lparr>msg_MessageID := []\<rparr>) b2) (\<lambda>(r3, b3).
       read (\<lambda>d. (Started r1, Correlated r2, Started r3, map (\<lambda>p. (pi_id p, pi_status p)) (process_instances d))))))"


subsection \<open>Witnesses\<close>

lemma order_placed:
  "(case shop_publish (plain_message ''order'' ''7'') empty_box no_world of
      (Inr (res, box), w) \<Rightarrow> Some (pr_MessageID res, Correlated res @ Started res) | _ \<Rightarrow> None) = Some (''u0'', [''u1''])"
  by code_simp

lemma shop_distinct: "distinct (map def_id (process_definitions shop_defs))"
  by (simp add: shop_defs_def)

lemma order_result:
  obtains res box w where "shop_publish (plain_message ''order'' ''7'') empty_box no_world = (Inr (res, box), w)"
    and "pr_MessageID res = ''u0''" and "Correlated res @ Started res = [''u1'']"
  using order_placed by (cases "shop_publish (plain_message ''order'' ''7'') empty_box no_world") (auto split: sum.splits prod.splits)

theorem publish_once_per_process_witness:
  "\<exists>res box w. shop_publish (plain_message ''order'' ''7'') empty_box no_world = (Inr (res, box), w) \<and>
     correlations box = [((''u0'', the (process_key (process_definitions shop_defs) ''u1'' (tables w))), ''u1'')]"
proof (rule order_result)
  fix res box w
  assume r: "shop_publish (plain_message ''order'' ''7'') empty_box no_world = (Inr (res, box), w)"
    and i: "pr_MessageID res = ''u0''" "Correlated res @ Started res = [''u1'']"
  from publish_once_per_process [OF shop_distinct r [unfolded shop_publish_def]] i r show ?thesis
    by (auto simp: Let_def plain_message_def empty_box_def)
qed

theorem publish_same_id_refused_witness:
  "\<exists>box v e. fst (shop_publish (plain_message ''order'' ''8'') box v) = Inl (Error e)"
proof (rule order_result)
  fix res box w
  assume r: "shop_publish (plain_message ''order'' ''7'') empty_box no_world = (Inr (res, box), w)"
  from publish_same_id_refused [OF shop_distinct r [unfolded shop_publish_def], of "plain_message ''order'' ''8''" "plain_env shop_graph"]
  show ?thesis unfolding shop_publish_def by (fastforce simp: plain_message_def plain_env_def)
qed

definition kept_order :: keptMessage where
  "kept_order = \<lparr>kept_ID = ''m'', kept_Name = ''order'', kept_CorrelationKey = [], kept_message_id = None, kept_Variables = [],
     kept_TenantID = None, kept_expires = 1\<rparr>"

lemma kept_order_swept:
  "(case sweepPublishedMessages (plain_env shop_graph) shop_defs (ExecuteExecution 3 (plain_env shop_graph))
      \<lparr>published_messages = [kept_order], correlations = []\<rparr> no_world of
      (Inr box, w) \<Rightarrow> Some (correlations box) | _ \<Rightarrow> None) = Some [((''m'', ''orders''), ''u0'')]"
  by code_simp


definition waiting_sub :: "string \<Rightarrow> string \<Rightarrow> EventSubscription" where
  "waiting_sub ty name = \<lparr>sub_id = ''s'', sub_instance = ''I'', sub_execution = Some ''e'', sub_type = ty, sub_name = name,
     sub_correlation = Some [], sub_target = Some ''next'', sub_consumed = False, sub_last = None\<rparr>"

theorem correlation_ends_wait_witness:
  "\<exists>w'. transaction (correlate_tx (plain_env []) (waiting_sub ''message'' ''m'') [])
       (plain_world (plain_db [example_exec ''e'' None ''wait'' ExecWaiting])) = (Inr (), w') \<and>
     wait_over (waiting_sub ''message'' ''m'') ''next'' (tables w')"
  using correlation_ends_wait [of "waiting_sub ''message'' ''m''" "''next''" "plain_world (plain_db [example_exec ''e'' None ''wait'' ExecWaiting])" "plain_env []" "[]"]
  by (auto simp: waiting_sub_def waiting_execution_def plain_world_def plain_db_def example_exec_def exec_key_def)

definition condition_world :: world where
  "condition_world = plain_world ((plain_db [example_exec ''e'' None ''wait'' ExecWaiting])\<lparr>event_subscriptions := [waiting_sub ''conditional'' ''= true'']\<rparr>)"

lemma condition_true_fires:
  "(case evaluate_conditions (plain_env []) None condition_world of (Inr fired, w) \<Rightarrow> Some (map sub_id fired) | _ \<Rightarrow> None) = Some [''s'']"
  by code_simp

theorem conditions_fire_on_change_witness:
  "\<exists>fired w. evaluate_conditions (plain_env []) None condition_world = (Inr fired, w) \<and> fires (plain_env []) (tables condition_world) (waiting_sub ''conditional'' ''= true'') \<and>
     (\<forall>again v. evaluate_conditions (plain_env []) None w = (Inr again, v) \<longrightarrow> ''s'' \<notin> sub_id ` set again)"
proof -
  obtain fired w where r: "evaluate_conditions (plain_env []) None condition_world = (Inr fired, w)" and f: "map sub_id fired = [''s'']"
    using condition_true_fires by (auto split: prod.splits sum.splits)
  have o: "open_conditionals None (tables condition_world) = [waiting_sub ''conditional'' ''= true'']"
    and ids: "distinct (map sub_id (event_subscriptions (tables condition_world)))"
    by (simp_all add: open_conditionals_def condition_world_def plain_world_def waiting_sub_def)
  from conditions_fire_on_change [OF r ids] show ?thesis
    using r f o by (auto simp: waiting_sub_def split: if_splits)
qed

end
