(* ===== verification/Service_Jobs.thy ===== *)
theory Service_Jobs
  imports Runtime_Run
begin

text \<open>
  Jobs and user tasks from outside: the claims of jobs (\<open>repository/external_task_repository.go\<close>, \<open>distributed_claims.go\<close>), their completion
  and failure (\<open>service/job_service.go\<close>), retries and incidents (\<open>service/incident_service.go\<close>), user tasks (\<open>service/task_service.go\<close>,
  \<open>repository/task_repository.go\<close>) and the commands that run them and continue the process (\<open>runtime/commands.go\<close>).

  \<open>go\<close> continues an execution. A command that is delivered again after a crash has \<open>redelivered\<close>. The texts of errors on the rows of
  jobs are left out. The payload of a job that is handed out is its variables.
\<close>

subsection \<open>Errors\<close>

definition ErrJobNotFound :: go_error where
  "ErrJobNotFound = GoError ''job not found''"

definition ErrJobInvalidState :: go_error where
  "ErrJobInvalidState = GoError ''job is not in a lockable state''"

definition ErrJobFinished :: go_error where
  "ErrJobFinished = Wrapped ''job no longer exists'' ErrJobInvalidState"

fun errors_Is :: "go_error \<Rightarrow> go_error \<Rightarrow> bool" where
  "errors_Is t (GoError m) \<longleftrightarrow> GoError m = t"
| "errors_Is t (Wrapped m e) \<longleftrightarrow> Wrapped m e = t \<or> errors_Is t e"
| "errors_Is t (IncidentError i e) \<longleftrightarrow> IncidentError i e = t \<or> errors_Is t e"

subsection \<open>Rows of jobs\<close>

definition update_jobs :: "(Job \<Rightarrow> bool) \<Rightarrow> (Job \<Rightarrow> Job) \<Rightarrow> db \<Rightarrow> db" where
  "update_jobs P f d = d\<lparr>jobs := update_where P f (jobs d)\<rparr>"

definition job_key :: "uuid \<Rightarrow> uuid \<Rightarrow> Job \<Rightarrow> bool" where
  "job_key inst jid j \<longleftrightarrow> job_instance j = inst \<and> job_id j = jid"

definition claimable :: "int \<Rightarrow> string \<Rightarrow> Job \<Rightarrow> bool" where
  "claimable now topic j \<longleftrightarrow> job_type j = topic \<and> job_status j = JobPending \<and> (case LockedUntil j of None \<Rightarrow> True | Some t \<Rightarrow> t < now)"

definition lock_row :: "string \<Rightarrow> int \<Rightarrow> Job \<Rightarrow> Job" where
  "lock_row worker until j = j\<lparr>job_status := JobLocked, LockedBy := Some worker, LockedUntil := Some until\<rparr>"

record LockedJob =
  lj_ID :: uuid
  lj_Payload :: vars
  lj_Retries :: int
  lj_ExecutionID :: uuid
  lj_ProcessInstanceID :: uuid
  lj_CurrentElementID :: string

definition locked_job :: "db \<Rightarrow> Job \<Rightarrow> LockedJob" where
  "locked_job d j = \<lparr>lj_ID = job_id j, lj_Payload = VariablesForExecution (job_instance j) (job_execution j) d, lj_Retries = Retries j,
     lj_ExecutionID = job_execution j, lj_ProcessInstanceID = job_instance j,
     lj_CurrentElementID = (case find (\<lambda>e. exec_id e = job_execution j) (executions d) of Some e \<Rightarrow> exec_element e | None \<Rightarrow> [])\<rparr>"

text \<open>The claim on a sharded cluster: three times as many candidates in any order (\<open>pick\<close>), each taken if it is still free; \<open>others\<close> is what
  other workers do to the database before each claim.\<close>

fun claim_jobs_loop :: "(db \<Rightarrow> db) list \<Rightarrow> int \<Rightarrow> string \<Rightarrow> string \<Rightarrow> int \<Rightarrow> nat \<Rightarrow> Job list \<Rightarrow> Job list \<Rightarrow> db \<Rightarrow> Job list \<times> db" where
  "claim_jobs_loop others now topic worker until most got [] d = (got, d)"
| "claim_jobs_loop others now topic worker until most got (c # cs) d =
     (if length got = most then (got, d)
      else
        let d' = (case others of [] \<Rightarrow> d | f # _ \<Rightarrow> f d);
            hit = (\<lambda>j. job_key (job_instance c) (job_id c) j \<and> claimable now (job_type j) j)
        in claim_jobs_loop (tl others) now topic worker until most (got @ map (lock_row worker until) (filter hit (jobs d'))) cs
             (update_jobs hit (lock_row worker until) d'))"

definition claimJobsTx :: "(Job list \<Rightarrow> Job list) \<Rightarrow> (db \<Rightarrow> db) list \<Rightarrow> int \<Rightarrow> string \<Rightarrow> string \<Rightarrow> int \<Rightarrow> nat \<Rightarrow> db \<Rightarrow> Job list \<times> db" where
  "claimJobsTx pick others now topic worker until most d =
     claim_jobs_loop others now topic worker until most [] (take (most * 3) (pick (filter (claimable now topic) (jobs d)))) d"

text \<open>\<open>FetchAndLockJobsTx\<close> for one topic, and for all of them; a topic is its name and how long its jobs are locked, in milliseconds.\<close>

definition fetch_topic :: "int \<Rightarrow> string \<Rightarrow> nat \<Rightarrow> string \<times> int \<Rightarrow> db \<Rightarrow> LockedJob list \<times> db" where
  "fetch_topic now worker most topic d =
     (let found = take most (filter (claimable now (fst topic)) (jobs d));
          ids = map job_id found
      in (map (locked_job d) found, update_jobs (\<lambda>j. job_id j \<in> set ids) (lock_row worker (now + snd topic)) d))"

fun FetchAndLockJobsTx :: "int \<Rightarrow> string \<Rightarrow> nat \<Rightarrow> (string \<times> int) list \<Rightarrow> db \<Rightarrow> (string \<times> LockedJob list) list \<times> db" where
  "FetchAndLockJobsTx now worker most [] d = ([], d)"
| "FetchAndLockJobsTx now worker most (t # ts) d =
     (let (found, d1) = fetch_topic now worker most t d; (rest, d2) = FetchAndLockJobsTx now worker most ts d1
      in (if found = [] then rest else (fst t, found) # rest, d2))"

text \<open>Whether a lock was there to extend or to give back.\<close>

definition ExtendLock :: "uuid \<Rightarrow> string \<Rightarrow> int \<Rightarrow> db \<Rightarrow> bool \<times> db" where
  "ExtendLock jid worker until d =
     (let hit = (\<lambda>j. job_id j = jid \<and> job_status j = JobLocked \<and> LockedBy j = Some worker)
      in (\<exists>j \<in> set (jobs d). hit j, update_jobs hit (\<lambda>j. j\<lparr>LockedUntil := Some until\<rparr>) d))"

definition Unlock :: "uuid \<Rightarrow> db \<Rightarrow> bool \<times> db" where
  "Unlock jid d =
     (let hit = (\<lambda>j. job_id j = jid \<and> job_status j = JobLocked)
      in (\<exists>j \<in> set (jobs d). hit j, update_jobs hit (\<lambda>j. j\<lparr>job_status := JobPending, LockedBy := None, LockedUntil := None\<rparr>) d))"

definition GetJobWithExecutionTx :: "uuid \<Rightarrow> db \<Rightarrow> (Job \<times> string) option" where
  "GetJobWithExecutionTx jid d =
     Option.bind (find (\<lambda>j. job_id j = jid) (jobs d))
       (\<lambda>j. map_option (\<lambda>e. (j, exec_element e)) (find (exec_key (job_instance j) (job_execution j)) (executions d)))"

definition complete_job_row :: "uuid \<Rightarrow> uuid \<Rightarrow> db \<Rightarrow> db" where
  "complete_job_row inst jid = update_jobs (job_key inst jid) (\<lambda>j. j\<lparr>job_status := JobCompleted\<rparr>)"

definition FailJobPermanentlyTx :: "uuid \<Rightarrow> uuid \<Rightarrow> db \<Rightarrow> db" where
  "FailJobPermanentlyTx inst jid = update_jobs (job_key inst jid) (\<lambda>j. j\<lparr>job_status := JobFailed\<rparr>)"

definition ResetJobForRetryTx :: "int \<Rightarrow> uuid \<Rightarrow> uuid \<Rightarrow> int \<Rightarrow> int \<Rightarrow> db \<Rightarrow> db" where
  "ResetJobForRetryTx now inst jid retries backoff =
     update_jobs (job_key inst jid) (\<lambda>j. j\<lparr>Retries := retries, job_status := JobPending, LockedBy := None,
       LockedUntil := (if backoff > 0 then Some (now + backoff) else None)\<rparr>)"

subsection \<open>Completing a job\<close>

text \<open>The statements once the job is known to be locked and its element is found.\<close>

definition complete_job_tx :: "env \<Rightarrow> Job \<Rightarrow> Node \<Rightarrow> vars \<Rightarrow> (uuid \<times> uuid) eng" where
  "complete_job_tx E job node vs =
     (let inst = job_instance job; eid = job_execution job in
      thenE (ApplyActivityOutputTx E inst eid node vs)
     (thenE (upd (complete_job_row inst (job_id job)))
     (bindE (if Type node = ServiceTaskType \<or> Type node = BoundaryTimerEventType then resolve E node []
             else fail ''not a service task or boundary event'') (\<lambda>to.
      thenE (upd (DisarmBoundaryTriggersTx inst [eid]))
     (thenE (record_compensable E inst eid node)
     (thenE (upd (UpdateExecutionStatusAndNodeTx inst eid ExecActive to))
       (ret (inst, eid))))))))"

text \<open>The instance and the execution to go on with.\<close>

definition CompleteJob :: "env \<Rightarrow> uuid \<Rightarrow> vars \<Rightarrow> (uuid \<times> uuid) eng" where
  "CompleteJob E jid vs = transaction (
     bindE (read (GetJobWithExecutionTx jid)) (\<lambda>r. case r of
       None \<Rightarrow> halt (Error ErrJobNotFound)
     | Some (job, el) \<Rightarrow>
         if job_status job \<noteq> JobLocked then
           halt (Error (if job_status job = JobCompleted \<or> job_status job = JobCancelled then ErrJobFinished else ErrJobInvalidState))
         else
           bindE (read (\<lambda>d. load_graph E d (job_instance job))) (\<lambda>lg. case lg of
             None \<Rightarrow> fail ''process definition''
           | Some (_, g) \<Rightarrow> (case map_of g el of
               None \<Rightarrow> fail ''current node not found''
             | Some node \<Rightarrow> complete_job_tx E job node vs))))"

subsection \<open>Failing a job\<close>

record FailJobResult =
  PermanentlyFailed :: bool
  BoundaryTriggered :: "uuid option"
  PropagateError :: "uuid option"

text \<open>An error event sub-process catches: the execution of its trigger. A scope that is not found is logged, and nothing catches.\<close>

definition fail_to_trigger :: "env \<Rightarrow> Job \<Rightarrow> Node \<Rightarrow> string \<Rightarrow> uuid option eng" where
  "fail_to_trigger E job node scope =
     bindE (draw E) (\<lambda>t. bindE (read (CreateErrorTriggerTx t (job_instance job) (job_execution job) (ID node) scope)) (\<lambda>r.
       bindE (returned r) (\<lambda>c. case c of
         Inl DuplicateKey \<Rightarrow> fail ''execution''
       | Inl _ \<Rightarrow> ret None
       | Inr (i, d) \<Rightarrow> thenE (upd (\<lambda>_. d)) (ret (Some i)))))"

text \<open>An error boundary event catches, on the task or on a scope around it, which is interrupted.\<close>

definition fail_to_boundary :: "Job \<Rightarrow> Node \<Rightarrow> string \<Rightarrow> uuid option eng" where
  "fail_to_boundary job node scope =
     (let inst = job_instance job in
      bindE (if scope = [] then ret (Inr (job_execution job)) else attempt (find_scope inst (job_execution job) scope)) (\<lambda>r. case r of
        Inl _ \<Rightarrow> ret None
      | Inr i \<Rightarrow>
          thenE (if scope = [] then ret () else cancel_scope inst i uuid_Nil)
         (thenE (upd (DisarmBoundaryTriggersTx inst [i]))
         (thenE (upd (UpdateExecutionStatusAndNodeTx inst i ExecActive (ID node))) (ret (Some i))))))"

definition fail_caught :: "env \<Rightarrow> Job \<Rightarrow> string \<Rightarrow> string \<Rightarrow> uuid option eng" where
  "fail_caught E job el code =
     (if code = [] then ret None
      else bindE (read (\<lambda>d. load_graph E d (job_instance job))) (\<lambda>lg. case lg of
        None \<Rightarrow> ret None
      | Some (_, g) \<Rightarrow> bindE (error_catcher g el code) (\<lambda>(catcher, scope). case catcher of
          None \<Rightarrow> ret None
        | Some node \<Rightarrow> if Type node = EventSubProcessType then fail_to_trigger E job node scope else fail_to_boundary job node scope)))"

definition FailJobWithBackoff :: "env \<Rightarrow> uuid \<Rightarrow> int \<Rightarrow> string \<Rightarrow> int \<Rightarrow> FailJobResult eng" where
  "FailJobWithBackoff E jid retries code backoff = transaction (
     bindE (read (GetJobWithExecutionTx jid)) (\<lambda>r. case r of
       None \<Rightarrow> halt (Error ErrJobNotFound)
     | Some (job, el) \<Rightarrow>
         (let inst = job_instance job in
          if retries \<le> 0 then
            thenE (upd (FailJobPermanentlyTx inst jid))
              (bindE (fail_caught E job el code) (\<lambda>c. case c of
                 Some i \<Rightarrow> ret \<lparr>PermanentlyFailed = True, BoundaryTriggered = Some i, PropagateError = None\<rparr>
               | None \<Rightarrow>
                   bindE (if code \<noteq> [] then CallerCatchesError E inst code else ret False) (\<lambda>up.
                     if up then ret \<lparr>PermanentlyFailed = True, BoundaryTriggered = None, PropagateError = Some inst\<rparr>
                     else thenE (CreateIncidentTx E inst None (Some jid)
                         (if code \<noteq> [] then IncidentUnhandledErrorEvent else IncidentJobNoRetries) el code)
                       (ret \<lparr>PermanentlyFailed = True, BoundaryTriggered = None, PropagateError = None\<rparr>))))
          else thenE (upd (ResetJobForRetryTx (millis (e_now E)) inst jid retries backoff))
            (ret \<lparr>PermanentlyFailed = False, BoundaryTriggered = None, PropagateError = None\<rparr>))))"

subsection \<open>Retries and incidents\<close>

definition resolve_incidents :: "(Incident \<Rightarrow> bool) \<Rightarrow> db \<Rightarrow> db" where
  "resolve_incidents P d = d\<lparr>incidents := update_where (\<lambda>n. P n \<and> inc_open n) (\<lambda>n. n\<lparr>inc_open := False\<rparr>) (incidents d)\<rparr>"

definition SetJobRetries :: "uuid \<Rightarrow> int \<Rightarrow> unit eng" where
  "SetJobRetries jid retries = transaction (
     bindE (read (\<lambda>d. find (\<lambda>j. job_id j = jid) (jobs d))) (\<lambda>r. case r of
       None \<Rightarrow> fail ''failed to load job''
     | Some _ \<Rightarrow>
         thenE (upd (update_jobs (\<lambda>j. job_id j = jid)
             (\<lambda>j. j\<lparr>job_status := JobPending, Retries := retries, LockedBy := None, LockedUntil := None\<rparr>)))
           (upd (resolve_incidents (\<lambda>n. inc_job n = Some jid)))))"

definition ResolveIncident :: "uuid \<Rightarrow> unit eng" where
  "ResolveIncident iid =
     bindE (read (\<lambda>d. find (\<lambda>n. inc_id n = iid) (incidents d))) (\<lambda>r. case r of
       None \<Rightarrow> fail ''incident not found''
     | Some n \<Rightarrow> upd (resolve_incidents (\<lambda>x. inc_instance x = inc_instance n \<and> inc_id x = iid)))"

subsection \<open>User tasks\<close>

definition FindTaskByID :: "uuid \<Rightarrow> db \<Rightarrow> UserTask option" where
  "FindTaskByID tid d = find (\<lambda>t. task_id t = tid) (tasks d)"

definition update_task :: "uuid \<Rightarrow> uuid \<Rightarrow> (UserTask \<Rightarrow> UserTask) \<Rightarrow> db \<Rightarrow> db" where
  "update_task inst tid f d = d\<lparr>tasks := update_where (\<lambda>t. task_instance t = inst \<and> task_id t = tid) f (tasks d)\<rparr>"

definition ClaimTask :: "uuid \<Rightarrow> string \<Rightarrow> unit eng" where
  "ClaimTask tid user =
     bindE (read (FindTaskByID tid)) (\<lambda>r. case r of
       None \<Rightarrow> fail ''no rows''
     | Some t \<Rightarrow> upd (update_task (task_instance t) tid (\<lambda>x. x\<lparr>Assignee := Some user, task_status := TaskClaimed\<rparr>)))"

definition UnClaimTask :: "uuid \<Rightarrow> unit eng" where
  "UnClaimTask tid =
     bindE (read (FindTaskByID tid)) (\<lambda>r. case r of
       None \<Rightarrow> fail ''no rows''
     | Some t \<Rightarrow> upd (update_task (task_instance t) tid (\<lambda>x. x\<lparr>Assignee := None, task_status := TaskCreated\<rparr>)))"

text \<open>The statements of \<open>CompleteTask\<close> up to its commit. The event for the outbox is left out.\<close>

definition complete_task_tx :: "env \<Rightarrow> UserTask \<Rightarrow> Node \<Rightarrow> vars \<Rightarrow> unit eng" where
  "complete_task_tx E t node vs =
     (let inst = task_instance t; eid = task_execution t;
          hit = (\<lambda>x. task_instance x = inst \<and> task_id x = task_id t \<and> task_status x \<notin> {TaskCompleted, TaskCancelled}) in
      bindE (read (\<lambda>d. \<exists>x \<in> set (tasks d). hit x)) (\<lambda>some.
        if \<not> some then fail ''task already completed or cancelled''
        else
          thenE (upd (\<lambda>d. d\<lparr>tasks := update_where hit (\<lambda>x. x\<lparr>task_status := TaskCompleted\<rparr>) (tasks d)\<rparr>))
         (thenE (ApplyActivityOutputTx E inst eid node vs)
         (bindE (resolve E node []) (\<lambda>to.
          thenE (upd (UpdateExecutionStatusAndNodeTx inst eid ExecActive to))
            (record_compensable E inst eid node))))))"

definition CompleteTask :: "env \<Rightarrow> (uuid \<Rightarrow> unit eng) \<Rightarrow> uuid \<Rightarrow> vars \<Rightarrow> unit eng" where
  "CompleteTask E go tid vs =
     bindE (read (FindTaskByID tid)) (\<lambda>r. case r of
       None \<Rightarrow> fail ''task not found''
     | Some t \<Rightarrow>
         if task_status t = TaskCompleted then fail ''task already completed''
         else if task_status t = TaskCancelled then fail ''task was cancelled''
         else
           bindE (read (\<lambda>d. load_graph E d (task_instance t))) (\<lambda>lg. case lg of
             None \<Rightarrow> fail ''process definition not found''
           | Some (_, g) \<Rightarrow> (case map_of g (TaskDefinitionKey t) of
               None \<Rightarrow> fail ''user task node not found''
             | Some node \<Rightarrow>
                 if Type node \<noteq> UserTaskType then fail ''user task node not found''
                 else
                   thenE (transaction (complete_task_tx E t node vs))
                  (thenE (upd (DisarmBoundaryTriggersTx (task_instance t) [task_execution t]))
                    (go (task_execution t))))))"

subsection \<open>Commands\<close>

definition ErrExecutionFailed :: "go_error \<Rightarrow> go_error" where
  "ErrExecutionFailed e = Wrapped ''execution failed'' e"

definition continue :: "(uuid \<Rightarrow> unit eng) \<Rightarrow> uuid \<Rightarrow> unit eng" where
  "continue go eid = bindE (attempt (go eid)) (\<lambda>r. case r of Inl e \<Rightarrow> halt (Error (ErrExecutionFailed e)) | Inr _ \<Rightarrow> ret ())"

text \<open>Executions that are active at rest were cut short; they are run again.\<close>

definition resumeStranded :: "env \<Rightarrow> (uuid \<Rightarrow> unit eng) \<Rightarrow> uuid \<Rightarrow> unit eng" where
  "resumeStranded E go inst =
     bindE (read (\<lambda>d. map exec_id (filter (\<lambda>e. exec_instance e = inst \<and> exec_status e = ExecActive) (executions d)))) (\<lambda>ids.
       if ids = [] then ret () else bindE (graph_of E inst) (\<lambda>_. each (continue go) ids))"

definition resumeJobInstance :: "env \<Rightarrow> (uuid \<Rightarrow> unit eng) \<Rightarrow> uuid \<Rightarrow> unit eng" where
  "resumeJobInstance E go jid =
     bindE (read (\<lambda>d. find (\<lambda>j. job_id j = jid) (jobs d))) (\<lambda>r. case r of None \<Rightarrow> ret () | Some j \<Rightarrow> resumeStranded E go (job_instance j))"

definition completeJob :: "env \<Rightarrow> (uuid \<Rightarrow> unit eng) \<Rightarrow> bool \<Rightarrow> uuid \<Rightarrow> vars \<Rightarrow> unit eng" where
  "completeJob E go redelivered jid vs =
     bindE (attempt (CompleteJob E jid vs)) (\<lambda>r. case r of
       Inl e \<Rightarrow> if errors_Is ErrJobInvalidState e \<and> redelivered then resumeJobInstance E go jid else halt (Error e)
     | Inr (inst, eid) \<Rightarrow> continue go eid)"

definition mergeVariables :: "uuid \<Rightarrow> uuid \<Rightarrow> bool \<Rightarrow> vars \<Rightarrow> unit eng" where
  "mergeVariables inst scope is_local vs = transaction (upd (if is_local \<and> scope \<noteq> uuid_Nil then SetLocalVariablesTx inst scope vs
     else SetVariablesTx inst scope vs))"

datatype variable_scope = FromActivity | VariablesOnTask | VariablesOnCatchEvent

record FailJobArgs =
  fa_JobID :: uuid
  RetriesRemaining :: int
  fa_ErrorCode :: string
  RetryBackoffMs :: int
  fa_Variables :: vars
  VariableScope :: variable_scope

definition applyCatchEventVariables :: "env \<Rightarrow> uuid \<Rightarrow> vars \<Rightarrow> unit eng" where
  "applyCatchEventVariables E eid vs =
     bindE (read (\<lambda>d. find (\<lambda>e. exec_id e = eid) (executions d))) (\<lambda>r. case r of
       None \<Rightarrow> fail ''no rows''
     | Some e \<Rightarrow> bindE (read (\<lambda>d. Option.bind (load_graph E d (exec_instance e)) (\<lambda>(_, g). map_of g (exec_element e)))) (\<lambda>n. case n of
         None \<Rightarrow> ret ()
       | Some node \<Rightarrow>
           if Type node \<noteq> ErrorBoundaryEventType then mergeVariables (exec_instance e) eid False vs
           else if OutputMappings node = [] then ret ()
           else transaction (ApplyActivityOutputTx E (exec_instance e) eid node vs)))"

text \<open>The variables that come with a failure, unless they are for the event that catches it.\<close>

definition failure_variables :: "FailJobArgs \<Rightarrow> unit eng" where
  "failure_variables a =
     (if fa_Variables a = [] \<or> VariableScope a = VariablesOnCatchEvent then ret ()
      else bindE (read (\<lambda>d. find (\<lambda>j. job_id j = fa_JobID a) (jobs d))) (\<lambda>r. case r of
        None \<Rightarrow> halt (Error ErrJobNotFound)
      | Some j \<Rightarrow>
          if VariableScope a = VariablesOnTask then mergeVariables (job_instance j) (job_execution j) True (fa_Variables a)
          else mergeVariables (job_instance j) uuid_Nil False (fa_Variables a)))"

text \<open>Errors of what follows a recorded failure are reported in the outcome.\<close>

definition after_failure :: "env \<Rightarrow> (uuid \<Rightarrow> unit eng) \<Rightarrow> FailJobArgs \<Rightarrow> FailJobResult \<Rightarrow> unit eng" where
  "after_failure E go a res =
     (case BoundaryTriggered res of
        Some i \<Rightarrow>
          bindE (attempt (if VariableScope a = VariablesOnCatchEvent \<and> fa_Variables a \<noteq> []
              then applyCatchEventVariables E i (fa_Variables a) else ret ())) (\<lambda>r. case r of
            Inl _ \<Rightarrow> ret ()
          | Inr _ \<Rightarrow> thenE (attempt (go i)) (ret ()))
      | None \<Rightarrow> (case PropagateError res of
          Some inst \<Rightarrow> thenE (attempt (PropagateErrorToCaller 66 E go inst (fa_ErrorCode a))) (ret ())
        | None \<Rightarrow> ret ()))"

definition failJob :: "env \<Rightarrow> (uuid \<Rightarrow> unit eng) \<Rightarrow> bool \<Rightarrow> FailJobArgs \<Rightarrow> unit eng" where
  "failJob E go redelivered a =
     bindE (read (\<lambda>d. find (\<lambda>j. job_id j = fa_JobID a) (jobs d))) (\<lambda>r.
       if redelivered \<and> (case r of None \<Rightarrow> False | Some j \<Rightarrow> job_status j \<noteq> JobLocked) then resumeJobInstance E go (fa_JobID a)
       else
         thenE (failure_variables a)
           (bindE (FailJobWithBackoff E (fa_JobID a) (RetriesRemaining a) (fa_ErrorCode a) (RetryBackoffMs a)) (after_failure E go a)))"

definition resolveIncident :: "env \<Rightarrow> (uuid \<Rightarrow> unit eng) \<Rightarrow> uuid \<Rightarrow> unit eng" where
  "resolveIncident E go iid =
     bindE (read (\<lambda>d. find (\<lambda>n. inc_id n = iid) (incidents d))) (\<lambda>r. case r of
       None \<Rightarrow> fail ''incident not found''
     | Some n \<Rightarrow> thenE (ResolveIncident iid) (thenE (attempt (ResumeAfterIncident E go (inc_instance n) iid)) (ret ())))"

definition completeUserTask :: "env \<Rightarrow> (uuid \<Rightarrow> unit eng) \<Rightarrow> bool \<Rightarrow> uuid \<Rightarrow> vars \<Rightarrow> unit eng" where
  "completeUserTask E go redelivered tid vs =
     bindE (read (FindTaskByID tid)) (\<lambda>r. case r of
       Some t \<Rightarrow> if redelivered \<and> task_status t = TaskCompleted then resumeStranded E go (task_instance t) else CompleteTask E go tid vs
     | None \<Rightarrow> CompleteTask E go tid vs)"

definition terminate :: "env \<Rightarrow> bool \<Rightarrow> uuid \<Rightarrow> string \<Rightarrow> unit eng" where
  "terminate E redelivered inst reason =
     bindE (attempt (TerminateProcessInstance E inst reason)) (\<lambda>r. case r of
       Inl e \<Rightarrow> if e = GoError ''process instance not found'' \<and> redelivered then ret () else halt (Error e)
     | Inr _ \<Rightarrow> ret ())"

end
