(* ===== verification/Service_Props.thy ===== *)
theory Service_Props
  imports Service_Jobs Message_Props
begin

text \<open>
  Properties that the commands on jobs and user tasks share: rows that are settled are found by their identifiers whatever the engine does,
  identifiers stay unique, the outputs of an activity touch nothing but variables, and the commands make changes of the specification.
\<close>

subsection \<open>Rows by their identifiers\<close>

lemma find_update_where_fixed:
  assumes "find P xs = Some x" and "\<And>y. P (f y) = P y" and "Q x \<Longrightarrow> f x = x"
  shows "find P (update_where Q f xs) = Some x"
  using assms by (simp add: find_update_where_same)

interpretation settled_job: stable "\<lambda>d. job_open j \<or> find (\<lambda>x. job_id x = jid) (jobs d) = Some j" for jid j
proof unfold_locales
  fix d d'
  assume I: "job_open j \<or> find (\<lambda>x. job_id x = jid) (jobs d) = Some j" and "change d d'"
  show "job_open j \<or> find (\<lambda>x. job_id x = jid) (jobs d') = Some j"
  proof (cases "job_open j")
    case False
    with I have found: "find (\<lambda>x. job_id x = jid) (jobs d) = Some j" by blast
    then have j: "j \<in> set (jobs d)" by (auto simp: find_Some_iff)
    from \<open>change d d'\<close> show ?thesis
      by cases (use found j False in \<open>auto simp: row_defs find_append same_job_def intro!: find_update_where_fixed\<close>)
  qed simp
qed

interpretation settled_task: stable "\<lambda>d. task_open t \<or> find (\<lambda>x. task_id x = tid) (tasks d) = Some t" for tid t
proof unfold_locales
  fix d d'
  assume I: "task_open t \<or> find (\<lambda>x. task_id x = tid) (tasks d) = Some t" and "change d d'"
  show "task_open t \<or> find (\<lambda>x. task_id x = tid) (tasks d') = Some t"
  proof (cases "task_open t")
    case False
    with I have found: "find (\<lambda>x. task_id x = tid) (tasks d) = Some t" by blast
    then have t: "t \<in> set (tasks d)" by (auto simp: find_Some_iff)
    from \<open>change d d'\<close> show ?thesis
      by cases (use found t False in \<open>auto simp: row_defs find_append same_task_def intro!: find_update_where_fixed\<close>)
  qed simp
qed

interpretation kept_execution: stable "\<lambda>d. find (exec_key inst eid) (executions d) \<noteq> None" for inst eid
  by unfold_locales
    (auto elim!: change.cases simp: row_defs find_append same_place_def exec_key_def find_update_where_same split: option.splits)

lemma map_update_where: "(\<And>x. g (f x) = g x) \<Longrightarrow> map g (update_where P f xs) = map g xs"
  by (induction xs) (simp_all add: update_where_def)

interpretation job_ids: stable "\<lambda>d. distinct (map job_id (jobs d))"
  by unfold_locales (auto elim!: change.cases simp: row_defs map_update_where same_job_def)

lemma distinct_find:
  assumes "distinct (map g xs)" and "find (\<lambda>x. g x = k) xs = Some y" and "x \<in> set xs" and "g x = k"
  shows "x = y"
  using assms by (induction xs) (auto split: if_splits)

subsection \<open>Outputs\<close>

text \<open>The tables without the variables.\<close>

definition rows :: "db \<Rightarrow> db" where
  "rows d = d\<lparr>variables := variables empty_db, scope_variables := scope_variables empty_db\<rparr>"

lemma rows_eq:
  "rows d = rows d' \<Longrightarrow> jobs d = jobs d' \<and> tasks d = tasks d' \<and> executions d = executions d' \<and> incidents d = incidents d' \<and>
     process_instances d = process_instances d'"
  unfolding rows_def by (cases d; cases d') simp


lemma rows_SetLocalVariablesTx [simp]: "rows (SetLocalVariablesTx inst s vs d) = rows d"
  by (simp add: rows_def SetLocalVariablesTx_def)

lemma rows_fold: "(\<And>x d. rows (f x d) = rows d) \<Longrightarrow> rows (fold f xs d) = rows d"
  by (induction xs arbitrary: d) simp_all

lemma rows_variables [simp]: "rows (d\<lparr>variables := v\<rparr>) = rows d" "rows (d\<lparr>scope_variables := s\<rparr>) = rows d"
  by (simp_all add: rows_def)

lemma rows_ClearLocalVariablesTx [simp]: "rows (ClearLocalVariablesTx inst scopes d) = rows d"
  unfolding ClearLocalVariablesTx_def by (rule rows_fold) simp

lemma rows_SetVariablesTx [simp]: "rows (SetVariablesTx inst eid vs d) = rows d"
  unfolding SetVariablesTx_def Let_def by (auto simp: case_prod_beta intro!: rows_fold)

text \<open>Runs that leave the rows alone.\<close>

definition rows_kept :: "'a eng \<Rightarrow> bool" where
  "rows_kept m \<longleftrightarrow> (\<forall>w. rows (tables (snd (m w))) = rows (tables w))"

lemma rows_kept_dest: "rows_kept m \<Longrightarrow> m w = (r, w') \<Longrightarrow> rows (tables w') = rows (tables w)"
  unfolding rows_kept_def by (metis snd_conv)

lemma rows_kept_bindE: "rows_kept m \<Longrightarrow> (\<And>a. rows_kept (f a)) \<Longrightarrow> rows_kept (bindE m f)"
  unfolding rows_kept_def bindE_def by (auto split: prod.split sum.split) (metis snd_conv)+

lemma rows_kept_rules:
  "rows_kept m \<Longrightarrow> rows_kept k \<Longrightarrow> rows_kept (thenE m k)" "rows_kept m1 \<Longrightarrow> rows_kept m2 \<Longrightarrow> rows_kept (if b then m1 else m2)"
  "rows_kept (ret a)" "rows_kept (read g)" "rows_kept (lift h r)" "rows_kept (fail x)"
  "(\<And>d. rows (u d) = rows d) \<Longrightarrow> rows_kept (upd u)"
  "rows_kept m3 \<Longrightarrow> (\<And>y. rows_kept (q y)) \<Longrightarrow> rows_kept (case z of None \<Rightarrow> m3 | Some y \<Rightarrow> q y)"
  using rows_kept_bindE [of m "\<lambda>_. k"] unfolding thenE_def rows_kept_def
  by (auto simp: ret_def read_def upd_def lift_def halt_def fail_def split: sum.split option.split)

lemma rows_kept_reads: "rows_kept (io_mappings E ms vs)" "rows_kept (parent_scope inst eid)" "rows_kept (resolve E node vs)"
  unfolding io_mappings_def parent_scope_def resolve_def by (intro rows_kept_rules rows_kept_bindE)+

lemma rows_kept_outputs: "rows_kept (ApplyActivityOutputTx E inst eid node vs)"
  unfolding ApplyActivityOutputTx_def by (intro rows_kept_rules rows_kept_bindE rows_kept_reads) simp_all

subsection \<open>Completion\<close>

text \<open>The token is active on an element.\<close>

definition token_at :: "uuid \<Rightarrow> uuid \<Rightarrow> string \<Rightarrow> db \<Rightarrow> bool" where
  "token_at inst eid to d \<longleftrightarrow> (inst, eid) \<in> keys d \<and>
     (\<forall>e \<in> set (executions d). exec_key inst eid e \<longrightarrow> exec_status e = ExecActive \<and> exec_element e = to)"

lemma keys_find: "(inst, eid) \<in> keys d \<longleftrightarrow> find (exec_key inst eid) (executions d) \<noteq> None"
  by (auto simp: keys_def find_None_iff exec_key_def image_iff)

lemma keys_update_executions: "same_place f \<Longrightarrow> keys (update_executions P f d) = keys d"
  by (simp add: keys_def update_executions_def image_update_where same_place_def)

lemma token_at_update: "(inst, eid) \<in> keys d \<Longrightarrow> token_at inst eid to (UpdateExecutionStatusAndNodeTx inst eid ExecActive to d)"
  unfolding token_at_def UpdateExecutionStatusAndNodeTx_def
  by (intro conjI) (simp add: keys_update_executions, simp add: update_executions_def ball_update_where exec_key_def, blast)

lemma token_at_executions: "executions d' = executions d \<Longrightarrow> token_at inst eid to d' = token_at inst eid to d"
  by (simp add: token_at_def keys_def)

lemma keys_Disarm [simp]: "keys (DisarmBoundaryTriggersTx inst acts d) = keys d"
  using keys_update_executions [of "finish_as ExecCompleted" "is_trigger_of inst acts" d]
  by (simp add: DisarmBoundaryTriggersTx_def deleteWaitStateTx_def Let_def keys_def)

lemma rows_Disarm [simp]:
  "jobs (DisarmBoundaryTriggersTx inst acts d) = jobs d" "tasks (DisarmBoundaryTriggersTx inst acts d) = tasks d"
  by (simp_all add: DisarmBoundaryTriggersTx_def deleteWaitStateTx_def Let_def update_executions_def)

lemma record_compensable_rows:
  "record_compensable E inst eid node w = (r, w') \<Longrightarrow>
     executions (tables w') = executions (tables w) \<and> jobs (tables w') = jobs (tables w) \<and> tasks (tables w') = tasks (tables w)"
  by (auto simp: record_compensable_def bindE_def draw_def upd_def ret_def RecordCompensableTx_def split: if_splits)

lemma resolve_returns [returns]: "resolve E node vs w = (Inr to, w') \<longleftrightarrow> ResolveNext (condition E) node vs = Inr to \<and> w' = w"
  by (auto simp: resolve_def lift_def ret_def halt_def split: sum.split)

lemma GetJobWithExecutionTx_Some:
  assumes "GetJobWithExecutionTx jid d = Some (job, el)"
  shows "find (\<lambda>j. job_id j = jid) (jobs d) = Some job" and "job_id job = jid" and "job \<in> set (jobs d)"
    and "\<exists>e \<in> set (executions d). exec_key (job_instance job) (job_execution job) e \<and> exec_element e = el"
  using assms by (auto simp: GetJobWithExecutionTx_def bind_eq_Some_conv find_Some_iff)

lemma complete_job_tx_returns:
  assumes "complete_job_tx E job node vs w = (Inr z, w')"
    and "(job_instance job, job_execution job) \<in> keys (tables w)"
  shows "z = (job_instance job, job_execution job)" and "Type node \<in> {ServiceTaskType, BoundaryTimerEventType}"
    and "jobs (tables w') = jobs (complete_job_row (job_instance job) (job_id job) (tables w))"
    and "\<exists>to. ResolveNext (condition E) node [] = Inr to \<and> token_at (job_instance job) (job_execution job) to (tables w')"
proof -
  let ?inst = "job_instance job" and ?eid = "job_execution job"
  from assms(1) obtain w1 to w2 w3 where
    w1: "ApplyActivityOutputTx E ?inst ?eid node vs w = (Inr (), w1)" and type: "Type node \<in> {ServiceTaskType, BoundaryTimerEventType}"
    and w2: "w2 = w1\<lparr>tables := DisarmBoundaryTriggersTx ?inst [?eid] (complete_job_row ?inst (job_id job) (tables w1))\<rparr>"
    and to: "ResolveNext (condition E) node [] = Inr to" and w3: "record_compensable E ?inst ?eid node w2 = (Inr (), w3)"
    and w': "w' = w3\<lparr>tables := UpdateExecutionStatusAndNodeTx ?inst ?eid ExecActive to (tables w3)\<rparr>" and z: "z = (?inst, ?eid)"
    unfolding complete_job_tx_def Let_def by (auto simp: returns split: if_splits)
  show "z = (?inst, ?eid)" "Type node \<in> {ServiceTaskType, BoundaryTimerEventType}" by (fact z, fact type)
  note same = rows_eq [OF rows_kept_dest [OF rows_kept_outputs w1]] record_compensable_rows [OF w3]
  show "jobs (tables w') = jobs (complete_job_row ?inst (job_id job) (tables w))"
    using same by (simp add: w' w2 complete_job_row_def update_jobs_def UpdateExecutionStatusAndNodeTx_def update_executions_def)
  have "keys (tables w3) = keys (tables w2)" "keys (tables w1) = keys (tables w)" using same by (simp_all add: keys_def)
  then have "(?inst, ?eid) \<in> keys (tables w3)"
    using assms(2) by (simp add: w2) (simp add: keys_def complete_job_row_def update_jobs_def)
  then show "\<exists>to. ResolveNext (condition E) node [] = Inr to \<and> token_at ?inst ?eid to (tables w')"
    using to by (auto simp: w' intro: token_at_update)
qed

lemma CompleteJob_returns:
  assumes "CompleteJob E jid vs w = (Inr z, w')"
  obtains job el def g node to where "GetJobWithExecutionTx jid (tables w) = Some (job, el)" "job_status job = JobLocked"
    "z = (job_instance job, job_execution job)" "load_graph E (tables w) (job_instance job) = Some (def, g)" "map_of g el = Some node"
    "Type node \<in> {ServiceTaskType, BoundaryTimerEventType}" "ResolveNext (condition E) node [] = Inr to"
    "jobs (tables w') = jobs (complete_job_row (job_instance job) jid (tables w))"
    "token_at (job_instance job) (job_execution job) to (tables w')" "complete_job_tx E job node vs w = (Inr z, w')"
proof -
  from assms obtain job el def g node where job: "GetJobWithExecutionTx jid (tables w) = Some (job, el)" "job_status job = JobLocked"
    and g: "load_graph E (tables w) (job_instance job) = Some (def, g)" "map_of g el = Some node"
    and tx: "complete_job_tx E job node vs w = (Inr z, w')"
    unfolding CompleteJob_def by (auto simp: returns split: option.splits if_splits prod.splits)
  note row = GetJobWithExecutionTx_Some [OF job(1)]
  have there: "(job_instance job, job_execution job) \<in> keys (tables w)" using row(4) by (force simp: keys_def exec_key_def)
  note after = complete_job_tx_returns [OF tx there]
  from after(4) obtain to where "ResolveNext (condition E) node [] = Inr to"
    "token_at (job_instance job) (job_execution job) to (tables w')" by blast
  then show thesis using that [of job el def g node to] job g tx after(1-3) row(2) by blast
qed

subsection \<open>Commands make changes\<close>

text \<open>One run from one world; \<open>safe\<close> is this for every world where some executions are known.\<close>

definition allowed :: "'a eng \<Rightarrow> world \<Rightarrow> bool" where
  "allowed m w \<longleftrightarrow> changes (tables w) (tables (snd (m w)))"

lemma allowed_safe: "safe {} m \<Longrightarrow> allowed m w"
  by (simp add: safe_def allowed_def)

lemma allowed_basic: "allowed (ret a) w" "allowed (halt s) w" "allowed (fail x) w"
  by (rule allowed_safe, rule safe_basic)+

lemma allowed_bindE:
  assumes "allowed m w" and "\<And>a w1. m w = (Inr a, w1) \<Longrightarrow> allowed (f a) w1"
  shows "allowed (bindE m f) w"
proof (cases "m w")
  case (Pair r w1)
  show ?thesis
  proof (cases r)
    case (Inr a)
    have "changes (tables w) (tables w1)" using assms(1) Pair by (simp add: allowed_def)
    also have "changes (tables w1) (tables (snd (f a w1)))" using assms(2) Pair Inr by (simp add: allowed_def)
    finally show ?thesis by (simp add: allowed_def bindE_def Pair Inr)
  qed (use assms(1) Pair in \<open>simp add: allowed_def bindE_def\<close>)
qed

lemma allowed_thenE: "allowed m w \<Longrightarrow> (\<And>a w1. m w = (Inr a, w1) \<Longrightarrow> allowed k w1) \<Longrightarrow> allowed (thenE m k) w"
  unfolding thenE_def by (rule allowed_bindE)

lemma allowed_read: "allowed (f (g (tables w))) w \<Longrightarrow> allowed (bindE (read g) f) w"
  by (simp add: allowed_def bindE_def read_def)

lemma allowed_upd: "changes (tables w) (u (tables w)) \<Longrightarrow> allowed (upd u) w"
  by (simp add: allowed_def upd_def)

lemma allowed_transaction: "allowed m w \<Longrightarrow> allowed (transaction m) w"
  unfolding allowed_def transaction_def by (auto split: prod.split sum.split)

lemma allowed_attempt: "allowed m w \<Longrightarrow> allowed (attempt m) w"
  unfolding allowed_def attempt_def by (auto split: prod.split sum.split stop.split)

text \<open>Work on one open job.\<close>

lemma changes_job:
  assumes "distinct (map job_id (jobs d))" and "find (\<lambda>j. job_id j = jid) (jobs d) = Some job" and "job_open job" and "same_job f"
  shows "changes d (update_jobs (job_key inst jid) f d)"
  unfolding update_jobs_def job_key_def
proof (intro r_into_rtranclp change.work_job)
  fix j
  assume "j \<in> set (jobs d)" and "job_instance j = inst \<and> job_id j = jid"
  then have "j = job" using distinct_find [OF assms(1,2)] by blast
  then show "job_open j" using assms(3) by simp
qed (fact assms(4))

lemma complete_job_tx_allowed:
  assumes "distinct (map job_id (jobs (tables w)))" and "find (\<lambda>j. job_id j = job_id job) (jobs (tables w)) = Some job" and "job_open job"
  shows "allowed (complete_job_tx E job node vs) w"
  unfolding complete_job_tx_def Let_def
proof (rule allowed_thenE)
  fix a w1
  assume "ApplyActivityOutputTx E (job_instance job) (job_execution job) node vs w = (Inr a, w1)"
  then have same: "jobs (tables w1) = jobs (tables w)" using rows_eq rows_kept_dest [OF rows_kept_outputs] by blast
  have "allowed (upd (complete_job_row (job_instance job) (job_id job))) w1"
    unfolding complete_job_row_def by (rule allowed_upd, rule changes_job) (use assms same in \<open>simp_all add: same_job_def\<close>)
  then show "allowed (thenE (upd (complete_job_row (job_instance job) (job_id job)))
     (bindE (if Type node = ServiceTaskType \<or> Type node = BoundaryTimerEventType then resolve E node []
             else fail ''not a service task or boundary event'') (\<lambda>to.
      thenE (upd (DisarmBoundaryTriggersTx (job_instance job) [job_execution job]))
     (thenE (record_compensable E (job_instance job) (job_execution job) node)
     (thenE (upd (UpdateExecutionStatusAndNodeTx (job_instance job) (job_execution job) ExecActive to))
       (ret (job_instance job, job_execution job))))))) w1"
    by (rule allowed_thenE) (rule allowed_safe, intro safe_intros changes_intros)
qed (rule allowed_safe, rule safe_outputs)

lemma CompleteJob_allowed:
  assumes "distinct (map job_id (jobs (tables w)))"
  shows "allowed (CompleteJob E jid vs) w"
proof (cases "GetJobWithExecutionTx jid (tables w)")
  case (Some r)
  obtain job el where r: "r = (job, el)" by fastforce
  note row = GetJobWithExecutionTx_Some [OF Some [unfolded r]]
  have "allowed (complete_job_tx E job node vs) w" if "job_status job = JobLocked" for node
    by (rule complete_job_tx_allowed) (use assms row(1,2) that in \<open>simp_all add: job_open_def\<close>)
  then show ?thesis
    unfolding CompleteJob_def using Some
    by (intro allowed_transaction allowed_read) (auto simp: r intro!: allowed_read allowed_basic split: option.splits)
qed (auto simp: CompleteJob_def intro!: allowed_transaction allowed_read allowed_basic)

lemma changes_complete_task [changes_intros]:
  "changes d (d\<lparr>tasks := update_where (\<lambda>x. task_instance x = inst \<and> task_id x = tid \<and> task_status x \<notin> {TaskCompleted, TaskCancelled})
     (\<lambda>x. x\<lparr>task_status := TaskCompleted\<rparr>) (tasks d)\<rparr>)"
proof (intro r_into_rtranclp change.work_task)
  fix t :: Store.UserTask
  assume "task_instance t = inst \<and> task_id t = tid \<and> task_status t \<notin> {TaskCompleted, TaskCancelled}"
  then show "task_open t" by (cases "task_status t") (simp_all add: task_open_def)
qed (simp add: same_task_def)

lemma safe_complete_task_tx [safe_intros]: "safe K (complete_task_tx E t node vs)"
  unfolding complete_task_tx_def Let_def by (intro safe_intros changes_intros)

lemma safe_terminate: "safe K (terminate E redelivered inst reason)"
  unfolding terminate_def by (intro safe_intros)

text \<open>What catches a failure is safe; the failure itself needs the job to be open.\<close>

lemma safe_fail_caught [safe_intros]: "safe K (fail_caught E job el code)"
proof -
  have "safe K (fail_to_trigger E job node scope)" for node scope
    by (auto simp: safe_def fail_to_trigger_def bindE_def draw_def read_def returned_def thenE_def upd_def halt_def ret_def fail_def
        split: option.split sum.split engine_error.split intro: changes_CreateErrorTriggerTx)
  moreover have "safe K (fail_to_boundary job node scope)" for node scope
    unfolding fail_to_boundary_def Let_def by (intro safe_intros changes_intros)
  ultimately show ?thesis unfolding fail_caught_def by (intro safe_intros)
qed

lemma FailJobWithBackoff_allowed:
  assumes "distinct (map job_id (jobs (tables w)))" and "\<And>j. find (\<lambda>x. job_id x = jid) (jobs (tables w)) = Some j \<Longrightarrow> job_open j"
  shows "allowed (FailJobWithBackoff E jid retries code backoff) w"
proof (cases "GetJobWithExecutionTx jid (tables w)")
  case (Some r)
  obtain job el where r: "r = (job, el)" by fastforce
  note row = GetJobWithExecutionTx_Some [OF Some [unfolded r]]
  have upd: "allowed (thenE (upd (update_jobs (job_key inst jid) f)) k) w" if "same_job f" and "safe {} k" for f inst and k :: "FailJobResult eng"
    by (intro allowed_thenE allowed_upd changes_job allowed_safe) (use assms row(1) that in blast)+
  have failed [intro!]: "allowed (thenE (upd (FailJobPermanentlyTx (job_instance job) jid)) k) w" if "safe {} k" for k :: "FailJobResult eng"
    unfolding FailJobPermanentlyTx_def by (rule upd) (simp_all add: same_job_def that)
  have again [intro!]: "allowed (thenE (upd (ResetJobForRetryTx now (job_instance job) jid retries backoff)) k) w"
    if "safe {} k" for now and k :: "FailJobResult eng"
    unfolding ResetJobForRetryTx_def by (rule upd) (simp_all add: same_job_def that)
  show ?thesis
    unfolding FailJobWithBackoff_def Let_def
    by (intro allowed_transaction allowed_read) (auto simp: Some r CallerCatchesError_def intro!: safe_intros)
qed (auto simp: FailJobWithBackoff_def intro!: allowed_transaction allowed_read allowed_basic)

lemma rows_kept_failure_variables: "rows_kept (failure_variables a)"
proof -
  have "rows_kept (mergeVariables inst scope is_local vs)" for inst scope is_local vs
    unfolding mergeVariables_def transaction_def rows_kept_def upd_def by simp
  then show ?thesis
    unfolding failure_variables_def by (intro rows_kept_rules rows_kept_bindE) (simp_all add: rows_kept_def halt_def)
qed

context interpreter
begin

lemma safe_continue [safe_intros]: "safe K (continue go x)"
  unfolding continue_def by (intro safe_intros)

lemma safe_resumes [safe_intros]: "safe K (resumeStranded E go inst)" "safe K (resumeJobInstance E go jid)"
  unfolding resumeJobInstance_def resumeStranded_def by (intro safe_intros)+

lemma completeJob_allowed: "distinct (map job_id (jobs (tables w))) \<Longrightarrow> allowed (completeJob E go redelivered jid vs) w"
  unfolding completeJob_def
  by (intro allowed_bindE allowed_attempt CompleteJob_allowed) (auto intro!: allowed_safe safe_intros)

lemma safe_completeUserTask: "safe K (completeUserTask E go redelivered tid vs)"
  unfolding completeUserTask_def CompleteTask_def by (intro safe_intros changes_intros)

lemma safe_mergeVariables [safe_intros]: "safe K (mergeVariables inst scope is_local vs)"
  unfolding mergeVariables_def by (intro safe_intros) (auto intro: changes_intros)

lemma safe_after_failure [safe_intros]: "safe K (after_failure E go a res)"
  unfolding after_failure_def applyCatchEventVariables_def by (intro safe_intros)

lemma safe_failure_variables: "safe K (failure_variables a)"
  unfolding failure_variables_def by (intro safe_intros)

lemma failJob_allowed:
  assumes "distinct (map job_id (jobs (tables w)))"
    and "\<And>j. find (\<lambda>x. job_id x = fa_JobID a) (jobs (tables w)) = Some j \<Longrightarrow> job_open j"
  shows "allowed (failJob E go redelivered a) w"
proof -
  have "allowed (bindE (FailJobWithBackoff E (fa_JobID a) (RetriesRemaining a) (fa_ErrorCode a) (RetryBackoffMs a)) (after_failure E go a)) w1"
    if "failure_variables a w = (Inr u, w1)" for u w1
  proof -
    have "jobs (tables w1) = jobs (tables w)" using rows_eq [OF rows_kept_dest [OF rows_kept_failure_variables that]] by simp
    then show ?thesis
      using assms by (intro allowed_bindE FailJobWithBackoff_allowed) (auto intro: allowed_safe safe_after_failure)
  qed
  then have "allowed (thenE (failure_variables a) (bindE (FailJobWithBackoff E (fa_JobID a) (RetriesRemaining a) (fa_ErrorCode a)
      (RetryBackoffMs a)) (after_failure E go a))) w"
    by (rule allowed_thenE [OF allowed_safe [OF safe_failure_variables]])
  moreover have "allowed (resumeJobInstance E go (fa_JobID a)) w" by (rule allowed_safe, rule safe_resumes)
  ultimately show ?thesis unfolding failJob_def by (intro allowed_read) simp
qed

end

end
