(* ===== verification/Service_Claims.thy ===== *)
theory Service_Claims
  imports Service_Props
begin

text \<open>
  The properties of the commands on jobs and user tasks: they are in the specification of the engine, jobs are handed out to one worker at a
  time, a job or task is completed once and its token goes on, and where a settled row is opened again.
\<close>

subsection \<open>Handing out\<close>

definition fetched :: "(string \<times> LockedJob list) list \<Rightarrow> uuid list" where
  "fetched r = concat (map (map lj_ID \<circ> snd) r)"

text \<open>No row of this identifier is pending.\<close>

definition taken :: "uuid \<Rightarrow> db \<Rightarrow> bool" where
  "taken jid d \<longleftrightarrow> (\<forall>j \<in> set (jobs d). job_id j = jid \<longrightarrow> job_status j \<noteq> JobPending)"

lemma fetch_topic_ids:
  "map lj_ID (fst (fetch_topic now worker most topic d)) = map job_id (take most (filter (claimable now (fst topic)) (jobs d)))"
  by (simp add: fetch_topic_def Let_def locked_job_def)

lemma fetch_topic_rows:
  "jobs (snd (fetch_topic now worker most topic d)) =
     update_where (\<lambda>j. job_id j \<in> set (map lj_ID (fst (fetch_topic now worker most topic d)))) (lock_row worker (now + snd topic)) (jobs d)"
  unfolding fetch_topic_ids by (simp add: fetch_topic_def Let_def update_jobs_def)

lemma fetch_topic_free:
  assumes "jid \<in> set (map lj_ID (fst (fetch_topic now worker most topic d)))"
  shows "\<exists>j \<in> set (jobs d). job_id j = jid \<and> claimable now (fst topic) j"
  using assms unfolding fetch_topic_ids by (fastforce dest: in_set_takeD)

lemma Fetch_Cons:
  "fetched (fst (FetchAndLockJobsTx now worker most (t # ts) d)) =
     map lj_ID (fst (fetch_topic now worker most t d)) @ fetched (fst (FetchAndLockJobsTx now worker most ts (snd (fetch_topic now worker most t d))))"
  "snd (FetchAndLockJobsTx now worker most (t # ts) d) = snd (FetchAndLockJobsTx now worker most ts (snd (fetch_topic now worker most t d)))"
  by (simp_all add: fetched_def case_prod_beta Let_def)

lemma fetch_topic_taken:
  assumes "taken jid d"
  shows "jid \<notin> set (map lj_ID (fst (fetch_topic now worker most topic d)))"
    and "{j \<in> set (jobs (snd (fetch_topic now worker most topic d))). job_id j = jid} = {j \<in> set (jobs d). job_id j = jid}"
proof -
  show no: "jid \<notin> set (map lj_ID (fst (fetch_topic now worker most topic d)))"
    using assms fetch_topic_free unfolding taken_def claimable_def by blast
  then show "{j \<in> set (jobs (snd (fetch_topic now worker most topic d))). job_id j = jid} = {j \<in> set (jobs d). job_id j = jid}"
    unfolding fetch_topic_rows by (force simp: update_where_def lock_row_def)
qed

text \<open>A job that is taken is not fetched, and its rows stay as they are.\<close>

lemma Fetch_taken:
  assumes "taken jid d"
  shows "jid \<notin> set (fetched (fst (FetchAndLockJobsTx now worker most ts d)))"
    and "{j \<in> set (jobs (snd (FetchAndLockJobsTx now worker most ts d))). job_id j = jid} = {j \<in> set (jobs d). job_id j = jid}"
  using assms
proof (induction ts arbitrary: d)
  case (Cons t ts)
  { case 1
    have "taken jid (snd (fetch_topic now worker most t d))" using 1 fetch_topic_taken(2) [OF 1] unfolding taken_def by blast
    then show ?case using Cons.IH(1) fetch_topic_taken(1) [OF 1] unfolding Fetch_Cons by simp
  next
    case 2
    have "taken jid (snd (fetch_topic now worker most t d))" using 2 fetch_topic_taken(2) [OF 2] unfolding taken_def by blast
    then show ?case using Cons.IH(2) fetch_topic_taken(2) [OF 2] unfolding Fetch_Cons by blast }
qed (simp_all add: fetched_def)

lemma fetch_topic_locks:
  assumes "jid \<in> set (map lj_ID (fst (fetch_topic now worker most topic d)))" and "j \<in> set (jobs (snd (fetch_topic now worker most topic d)))"
    and "job_id j = jid"
  shows "job_status j = JobLocked \<and> LockedBy j = Some worker"
  using assms unfolding fetch_topic_rows by (auto simp: update_where_def lock_row_def split: if_splits)

lemma fetch_topic_earlier:
  assumes "j \<in> set (jobs (snd (fetch_topic now worker most topic d)))" and "claimable now x j"
  shows "j \<in> set (jobs d)"
  using assms unfolding fetch_topic_rows by (auto simp: update_where_def lock_row_def claimable_def split: if_splits)

lemma Fetch_free:
  assumes "jid \<in> set (fetched (fst (FetchAndLockJobsTx now worker most ts d)))"
  shows "\<exists>j \<in> set (jobs d). job_id j = jid \<and> (\<exists>t \<in> set ts. claimable now (fst t) j)"
  using assms
proof (induction ts arbitrary: d)
  case (Cons t ts)
  let ?d1 = "snd (fetch_topic now worker most t d)"
  from Cons.prems consider "jid \<in> set (map lj_ID (fst (fetch_topic now worker most t d)))"
    | "jid \<in> set (fetched (fst (FetchAndLockJobsTx now worker most ts ?d1)))" unfolding Fetch_Cons by fastforce
  then show ?case
  proof cases
    case 1
    from fetch_topic_free [OF 1] show ?thesis by auto
  next
    case 2
    from Cons.IH [OF 2] show ?thesis using fetch_topic_earlier by (meson list.set_intros(2))
  qed
qed (simp add: fetched_def)

lemma Fetch_locks:
  assumes "jid \<in> set (fetched (fst (FetchAndLockJobsTx now worker most ts d)))"
    and "j \<in> set (jobs (snd (FetchAndLockJobsTx now worker most ts d)))" and "job_id j = jid"
  shows "job_status j = JobLocked \<and> LockedBy j = Some worker"
  using assms
proof (induction ts arbitrary: d)
  case (Cons t ts)
  let ?d1 = "snd (fetch_topic now worker most t d)"
  from Cons.prems(1) consider "jid \<in> set (map lj_ID (fst (fetch_topic now worker most t d)))"
    | "jid \<in> set (fetched (fst (FetchAndLockJobsTx now worker most ts ?d1)))" unfolding Fetch_Cons by fastforce
  then show ?case
  proof cases
    case 1
    have "taken jid ?d1" using fetch_topic_locks [OF 1] unfolding taken_def by auto
    then have "j \<in> set (jobs ?d1)" using Fetch_taken(2) Cons.prems(2,3) unfolding Fetch_Cons by blast
    then show ?thesis using fetch_topic_locks [OF 1] Cons.prems(3) by blast
  next
    case 2
    then show ?thesis using Cons.IH Cons.prems(2,3) unfolding Fetch_Cons by blast
  qed
qed (simp add: fetched_def)

lemma Fetch_distinct:
  assumes "distinct (map job_id (jobs d))"
  shows "distinct (fetched (fst (FetchAndLockJobsTx now worker most ts d)))"
  using assms
proof (induction ts arbitrary: d)
  case (Cons t ts)
  let ?d1 = "snd (fetch_topic now worker most t d)" and ?now = "map lj_ID (fst (fetch_topic now worker most t d))"
  have "distinct ?now" unfolding fetch_topic_ids using Cons.prems by (simp add: distinct_map_filter flip: take_map)
  moreover have "taken jid ?d1" if "jid \<in> set ?now" for jid
    using that unfolding taken_def fetch_topic_rows ball_update_where by (simp add: lock_row_def) blast
  then have "set ?now \<inter> set (fetched (fst (FetchAndLockJobsTx now worker most ts ?d1))) = {}" using Fetch_taken(1) by blast
  moreover have "map job_id (jobs ?d1) = map job_id (jobs d)"
    unfolding fetch_topic_rows by (rule map_update_where) (simp add: lock_row_def)
  ultimately show ?case using Cons.IH [of ?d1] Cons.prems unfolding Fetch_Cons by simp
qed (simp add: fetched_def)


subsection \<open>Claims on a cluster\<close>

text \<open>A row of this identifier is not pending.\<close>

definition held :: "uuid \<Rightarrow> db \<Rightarrow> bool" where
  "held jid d \<longleftrightarrow> (\<exists>j \<in> set (jobs d). job_id j = jid \<and> job_status j \<noteq> JobPending)"

text \<open>What other workers do meanwhile: identifiers stay unique, and no job that is held is given back.\<close>

definition keeps_held :: "(db \<Rightarrow> db) \<Rightarrow> bool" where
  "keeps_held f \<longleftrightarrow> (\<forall>d. distinct (map job_id (jobs d)) \<longrightarrow> distinct (map job_id (jobs (f d))) \<and> (\<forall>jid. held jid d \<longrightarrow> held jid (f d)))"

lemma held_unique: "held jid d \<Longrightarrow> distinct (map job_id (jobs d)) \<Longrightarrow> j \<in> set (jobs d) \<Longrightarrow> job_id j = jid \<Longrightarrow> job_status j \<noteq> JobPending"
  unfolding held_def by (auto dest: inj_onD [OF distinct_map [THEN iffD1, THEN conjunct2]])

definition claim_hit :: "int \<Rightarrow> Job \<Rightarrow> Job \<Rightarrow> bool" where
  "claim_hit now c j \<longleftrightarrow> job_key (job_instance c) (job_id c) j \<and> claimable now (job_type j) j"

lemma claim_job_step:
  assumes "distinct (map job_id (jobs d))"
  shows "distinct (map job_id (jobs (update_jobs (claim_hit now c) (lock_row worker until) d)))"
    and "held jid d \<Longrightarrow> held jid (update_jobs (claim_hit now c) (lock_row worker until) d)"
    and "filter (claim_hit now c) (jobs d) = [] \<or>
      (\<exists>j. filter (claim_hit now c) (jobs d) = [j] \<and> job_id j = job_id c \<and> \<not> held (job_id c) d \<and>
        held (job_id c) (update_jobs (claim_hit now c) (lock_row worker until) d))"
proof -
  let ?d = "update_jobs (claim_hit now c) (lock_row worker until) d"
  have "map job_id (jobs ?d) = map job_id (jobs d)" unfolding update_jobs_def by (simp add: map_update_where lock_row_def)
  then show "distinct (map job_id (jobs ?d))" using assms by simp
  show "held jid d \<Longrightarrow> held jid ?d"
    by (force simp: held_def update_jobs_def update_where_def lock_row_def claim_hit_def claimable_def)
  show "filter (claim_hit now c) (jobs d) = [] \<or>
      (\<exists>j. filter (claim_hit now c) (jobs d) = [j] \<and> job_id j = job_id c \<and> \<not> held (job_id c) d \<and> held (job_id c) ?d)"
  proof (cases "filter (claim_hit now c) (jobs d)")
    case (Cons j js)
    have hits: "set (j # js) \<subseteq> {x \<in> set (jobs d). job_id x = job_id c \<and> job_status x = JobPending}"
      unfolding Cons [symmetric] by (auto simp: claim_hit_def job_key_def claimable_def)
    have "distinct (map job_id (j # js))" unfolding Cons [symmetric] using assms by (rule distinct_map_filter)
    with hits have js: "js = []" by (cases js) auto
    have "\<not> held (job_id c) d" using held_unique [OF _ assms, of "job_id c" j] hits by auto
    moreover have "lock_row worker until j \<in> set (jobs ?d)"
      using Cons by (auto simp: update_jobs_def update_where_def filter_eq_Cons_iff)
    then have "held (job_id c) ?d" unfolding held_def by (rule bexI [rotated]) (use hits in \<open>simp add: lock_row_def\<close>)
    ultimately show ?thesis using Cons hits js by simp
  qed simp
qed

lemma claim_jobs_loop_once:
  assumes "claim_jobs_loop others now topic worker until most got cs d = (got', d')" and "\<forall>f \<in> set others. keeps_held f"
    and "distinct (map job_id (jobs d))" and "distinct (map job_id got)" and "length got \<le> most" and "\<forall>j \<in> set got. held (job_id j) d"
    and "\<And>jid. held jid d0 \<Longrightarrow> held jid d" and "\<forall>j \<in> set got. \<not> held (job_id j) d0"
  shows "distinct (map job_id got') \<and> length got' \<le> most \<and> (\<forall>j \<in> set got'. held (job_id j) d' \<and> \<not> held (job_id j) d0)"
  using assms
proof (induction cs arbitrary: others got d)
  case (Cons c cs)
  let ?d1 = "case others of [] \<Rightarrow> d | f # _ \<Rightarrow> f d"
  let ?got = "got @ map (lock_row worker until) (filter (claim_hit now c) (jobs ?d1))"
  let ?d2 = "update_jobs (claim_hit now c) (lock_row worker until) ?d1"
  show ?case
  proof (cases "length got = most")
    case False
    have loop: "claim_jobs_loop (tl others) now topic worker until most ?got cs ?d2 = (got', d')"
      using Cons.prems(1) False by (simp add: Let_def claim_hit_def [abs_def])
    have distinct: "distinct (map job_id (jobs ?d1))" and held: "held jid d \<Longrightarrow> held jid ?d1" for jid
      using Cons.prems(2,3) by (auto simp: keeps_held_def split: list.split)
    note step = claim_job_step [OF distinct, where now = now and c = c and worker = worker and until = until]
    show ?thesis
    proof (rule Cons.IH [OF loop])
      show "\<forall>f \<in> set (tl others). keeps_held f" using Cons.prems(2) by (cases others) simp_all
      show "distinct (map job_id (jobs ?d2))" by (rule step(1))
      show "distinct (map job_id ?got)" "length ?got \<le> most" "\<forall>j \<in> set ?got. held (job_id j) ?d2" "\<forall>j \<in> set ?got. \<not> held (job_id j) d0"
        using step(3) by (elim disjE exE conjE; simp only: list.map append_Nil2, use step(2) Cons.prems(4-8) held False in \<open>fastforce simp: lock_row_def\<close>)+
      show "held jid d0 \<Longrightarrow> held jid ?d2" for jid using Cons.prems(7) held step(2) by blast
    qed
  qed (use Cons.prems in simp)
qed simp


subsection \<open>The commands and the specification of the engine\<close>

text \<open>Completing a job or a user task and terminating an instance, as the bus runs them the first time or again, do nothing but the
  changes of the abstract specification, however they go; so does failing a job that is pending or locked.\<close>

theorem commands_refine_changes:
  assumes "distinct (map job_id (jobs (tables w)))"
  shows "changes (tables w) (tables (snd (completeJob E (ExecuteExecution fuel E) redelivered jid vs w))) \<and>
    changes (tables w) (tables (snd (completeUserTask E (ExecuteExecution fuel E) redelivered tid vs w))) \<and>
    changes (tables w) (tables (snd (terminate E redelivered inst reason w))) \<and>
    ((\<forall>j. find (\<lambda>x. job_id x = fa_JobID a) (jobs (tables w)) = Some j \<longrightarrow> job_open j) \<longrightarrow>
      changes (tables w) (tables (snd (failJob E (ExecuteExecution fuel E) redelivered a w))))"
proof (intro conjI impI)
  show "changes (tables w) (tables (snd (completeJob E (ExecuteExecution fuel E) redelivered jid vs w)))"
    using exec.completeJob_allowed [OF assms] unfolding allowed_def .
  show "changes (tables w) (tables (snd (completeUserTask E (ExecuteExecution fuel E) redelivered tid vs w)))"
    using exec.safe_completeUserTask [of "{}"] by (simp add: safe_def)
  show "changes (tables w) (tables (snd (terminate E redelivered inst reason w)))"
    using safe_terminate [of "{}"] by (simp add: safe_def)
  assume "\<forall>j. find (\<lambda>x. job_id x = fa_JobID a) (jobs (tables w)) = Some j \<longrightarrow> job_open j"
  then show "changes (tables w) (tables (snd (failJob E (ExecuteExecution fuel E) redelivered a w)))"
    using exec.failJob_allowed [OF assms] unfolding allowed_def by blast
qed

subsection \<open>Once\<close>

lemma CompleteJob_finished:
  assumes "find (\<lambda>x. job_id x = jid) (jobs (tables w)) = Some j" and "job_status j = JobCompleted"
    and "find (exec_key (job_instance j) (job_execution j)) (executions (tables w)) \<noteq> None"
  shows "CompleteJob E jid vs w = (Inl (Error ErrJobFinished), w)"
  using assms by (auto simp: CompleteJob_def transaction_def bindE_def read_def GetJobWithExecutionTx_def halt_def)


text \<open>What the transaction of a completed task leaves.\<close>

lemma complete_task_tx_returns:
  assumes "complete_task_tx E t node vs w = (Inr u, w')" and "(task_instance t, task_execution t) \<in> keys (tables w)"
  shows "\<exists>to. ResolveNext (condition E) node [] = Inr to \<and> token_at (task_instance t) (task_execution t) to (tables w')"
    and "tasks (tables w') = update_where (\<lambda>x. task_instance x = task_instance t \<and> task_id x = task_id t \<and>
      task_status x \<notin> {TaskCompleted, TaskCancelled}) (\<lambda>x. x\<lparr>task_status := TaskCompleted\<rparr>) (tasks (tables w))"
proof -
  let ?inst = "task_instance t" and ?eid = "task_execution t"
  let ?hit = "\<lambda>x. task_instance x = ?inst \<and> task_id x = task_id t \<and> task_status x \<notin> {TaskCompleted, TaskCancelled}"
  let ?w0 = "w\<lparr>tables := (tables w)\<lparr>tasks := update_where ?hit (\<lambda>x. x\<lparr>task_status := TaskCompleted\<rparr>) (tasks (tables w))\<rparr>\<rparr>"
  from assms(1) obtain w1 to where w1: "ApplyActivityOutputTx E ?inst ?eid node vs ?w0 = (Inr (), w1)"
    and to: "ResolveNext (condition E) node [] = Inr to"
    and w': "record_compensable E ?inst ?eid node (w1\<lparr>tables := UpdateExecutionStatusAndNodeTx ?inst ?eid ExecActive to (tables w1)\<rparr>) = (Inr u, w')"
    unfolding complete_task_tx_def Let_def by (auto simp: returns split: if_splits)
  note same = rows_eq [OF rows_kept_dest [OF rows_kept_outputs w1]] record_compensable_rows [OF w']
  have "(?inst, ?eid) \<in> keys (tables w1)" using assms(2) same by (simp add: keys_def)
  then show "\<exists>to. ResolveNext (condition E) node [] = Inr to \<and> token_at ?inst ?eid to (tables w')"
    using to token_at_update token_at_executions [OF conjunct1 [OF same(2)]] by auto
  show "tasks (tables w') = update_where ?hit (\<lambda>x. x\<lparr>task_status := TaskCompleted\<rparr>) (tasks (tables w))"
    using same by (simp add: UpdateExecutionStatusAndNodeTx_def update_executions_def)
qed

lemma CompleteTask_finished:
  assumes "find (\<lambda>x. task_id x = tid) (tasks (tables w)) = Some t" and "task_status t = TaskCompleted"
  shows "CompleteTask E go tid vs w = (Inl (Error (GoError ''task already completed'')), w)"
  using assms by (simp add: CompleteTask_def bindE_def read_def FindTaskByID_def fail_def halt_def)

lemma CompleteTask_returns:
  assumes "CompleteTask E go tid vs w = (Inr (), w')"
  obtains t def g node w1 where "FindTaskByID tid (tables w) = Some t" "task_open t" "load_graph E (tables w) (task_instance t) = Some (def, g)"
    "map_of g (TaskDefinitionKey t) = Some node" "Type node = UserTaskType" "complete_task_tx E t node vs w = (Inr (), w1)"
    "go (task_execution t) (w1\<lparr>tables := DisarmBoundaryTriggersTx (task_instance t) [task_execution t] (tables w1)\<rparr>) = (Inr (), w')"
proof -
  have open_iff: "task_open t \<longleftrightarrow> task_status t \<noteq> TaskCompleted \<and> task_status t \<noteq> TaskCancelled" for t
    by (cases "task_status t") (simp_all add: task_open_def)
  show thesis
    using assms that unfolding CompleteTask_def open_iff by (auto simp: returns split: option.splits if_splits prod.splits)
qed


subsection \<open>Rows that are opened again\<close>

text \<open>C20: Failing a job with retries left makes it pending again whatever its state was, and once its back-off is over a worker gets it: also
  a job that was completed, cancelled or failed.\<close>

theorem fail_reopens_job:
  assumes "GetJobWithExecutionTx jid (tables w) = Some (job, el)" and "retries > 0" and "millis (e_now E) + max 0 backoff < later"
  shows "\<exists>w' j. FailJobWithBackoff E jid retries code backoff w =
      (Inr \<lparr>PermanentlyFailed = False, BoundaryTriggered = None, PropagateError = None\<rparr>, w') \<and>
    find (\<lambda>x. job_id x = jid) (jobs (tables w')) = Some j \<and> job_status j = JobPending \<and> Retries j = retries \<and>
    jid \<in> set (fetched (fst (FetchAndLockJobsTx later worker (length (jobs (tables w))) [(job_type job, ms)] (tables w'))))"
proof -
  note row = GetJobWithExecutionTx_Some [OF assms(1)]
  let ?d = "ResetJobForRetryTx (millis (e_now E)) (job_instance job) jid retries backoff (tables w)"
  let ?j = "job\<lparr>Retries := retries, job_status := JobPending, LockedBy := None,
    LockedUntil := (if backoff > 0 then Some (millis (e_now E) + backoff) else None)\<rparr>"
  have run: "FailJobWithBackoff E jid retries code backoff w =
      (Inr \<lparr>PermanentlyFailed = False, BoundaryTriggered = None, PropagateError = None\<rparr>, w\<lparr>tables := ?d\<rparr>)"
    using assms(1,2) by (simp add: FailJobWithBackoff_def transaction_def bindE_def read_def thenE_def upd_def ret_def Let_def)
  have found: "find (\<lambda>x. job_id x = jid) (jobs ?d) = Some ?j"
    unfolding ResetJobForRetryTx_def update_jobs_def using row(1,2) by (simp add: find_update_where_same job_key_def)
  have j: "?j \<in> set (jobs ?d)" using found by (metis find_Some_iff nth_mem)
  have free: "claimable later (job_type job) ?j" using assms(3) by (auto simp: claimable_def max_def split: if_splits)
  have "jid \<in> job_id ` set (filter (claimable later (job_type job)) (jobs ?d))"
    by (rule image_eqI [of _ _ ?j]) (use j free row(2) in simp_all)
  moreover have "length (filter P (jobs ?d)) \<le> length (jobs (tables w))" for P
    by (rule order_trans [OF length_filter_le]) (simp add: ResetJobForRetryTx_def update_jobs_def update_where_def)
  ultimately have "jid \<in> set (fetched (fst (FetchAndLockJobsTx later worker (length (jobs (tables w))) [(job_type job, ms)] ?d)))"
    unfolding Fetch_Cons by (simp add: fetch_topic_ids)
  with run found show ?thesis by fastforce
qed

text \<open>C21: Claiming a task makes it claimed whatever its state was, so a task that was completed or cancelled can be completed again: its token
  is moved back to the element the task leads to and made active, wherever it is by then, and the process goes on from there once more.\<close>

theorem claim_reopens_task:
  assumes "FindTaskByID tid (tables w) = Some t" and "(task_instance t, task_execution t) \<in> keys (tables w)"
    and "load_graph E (tables w) (task_instance t) = Some (def, g)" and "map_of g (TaskDefinitionKey t) = Some node"
    and "Type node = UserTaskType" and "OutputMappings node = []" and "ResolveNext (condition E) node [] = Inr to"
  shows "\<exists>w1 w2. ClaimTask tid user w = (Inr (), w1) \<and>
    FindTaskByID tid (tables w1) = Some (t\<lparr>Assignee := Some user, task_status := TaskClaimed\<rparr>) \<and>
    CompleteTask E go tid vs w1 = go (task_execution t)
      (w2\<lparr>tables := DisarmBoundaryTriggersTx (task_instance t) [task_execution t] (tables w2)\<rparr>) \<and>
    token_at (task_instance t) (task_execution t) to (tables w2)"
proof -
  let ?t = "t\<lparr>Assignee := Some user, task_status := TaskClaimed\<rparr>"
  let ?w1 = "w\<lparr>tables := update_task (task_instance t) tid (\<lambda>x. x\<lparr>Assignee := Some user, task_status := TaskClaimed\<rparr>) (tables w)\<rparr>"
  have tid: "task_id t = tid" using assms(1) by (auto simp: FindTaskByID_def find_Some_iff)
  have claim: "ClaimTask tid user w = (Inr (), ?w1)" using assms(1) by (simp add: ClaimTask_def bindE_def read_def upd_def)
  have found: "FindTaskByID tid (tables ?w1) = Some ?t"
    using assms(1) tid by (simp add: FindTaskByID_def update_task_def find_update_where_same)
  then have "?t \<in> set (tasks (tables ?w1))" unfolding FindTaskByID_def by (metis find_Some_iff nth_mem)
  then have "\<exists>x \<in> set (tasks (tables ?w1)). task_instance x = task_instance t \<and> task_id x = tid \<and> task_status x \<notin> {TaskCompleted, TaskCancelled}"
    by (rule bexI [rotated]) (simp add: tid)
  then have tx: "\<exists>w2. complete_task_tx E ?t node vs ?w1 = (Inr (), w2)"
    using assms(6,7) by (auto simp: complete_task_tx_def Let_def bindE_def thenE_def read_def upd_def ret_def fail_def ApplyActivityOutputTx_def
        resolve_def lift_def record_compensable_def draw_def tid)
  then obtain w2 where w2: "complete_task_tx E ?t node vs ?w1 = (Inr (), w2)" by blast
  have "(task_instance ?t, task_execution ?t) \<in> keys (tables ?w1)" using assms(2) by (simp add: keys_def update_task_def)
  from complete_task_tx_returns(1) [OF w2 this] have "token_at (task_instance t) (task_execution t) to (tables w2)" using assms(7) by simp
  moreover have "CompleteTask E go tid vs ?w1 = go (task_execution t)
      (w2\<lparr>tables := DisarmBoundaryTriggersTx (task_instance t) [task_execution t] (tables w2)\<rparr>)"
  proof -
    have "load_graph E (tables ?w1) (task_instance ?t) = Some (def, g)" using assms(3) by (simp add: load_graph_def update_task_def)
    then show ?thesis
      using found assms(4,5) w2 by (simp add: CompleteTask_def bindE_def thenE_def read_def upd_def transaction_def)
  qed
  ultimately show ?thesis using claim found by blast
qed

subsection \<open>Concrete runs\<close>

text \<open>A user task and a service task, one after the other, and the rows of an instance that waits in one of them.\<close>

definition work_graph :: graph where
  "work_graph = [plain_node ''ask'' UserTaskType [''work''], plain_node ''work'' ServiceTaskType [''end''], plain_node ''end'' EndEventType []]"

definition one_job :: "job_status \<Rightarrow> string \<Rightarrow> Job" where
  "one_job s i = \<lparr>job_id = i, job_instance = ''I'', job_execution = ''e'', job_type = ''t'', job_status = s, job_payload = [], Retries = 3,
     LockedBy = None, LockedUntil = None\<rparr>"

definition one_task :: "task_status \<Rightarrow> Store.UserTask" where
  "one_task s = \<lparr>task_id = ''k'', task_instance = ''I'', task_execution = ''e'', TaskDefinitionKey = ''ask'', TaskName = None, Assignee = None,
     CandidateGroup = None, Priority = 0, task_status = s\<rparr>"

definition work_world :: "string \<Rightarrow> Job list \<Rightarrow> Store.UserTask list \<Rightarrow> world" where
  "work_world el js ts = plain_world ((plain_db [example_exec ''e'' None el ExecWaiting])\<lparr>jobs := js, tasks := ts\<rparr>)"

definition job_world :: "job_status \<Rightarrow> world" where
  "job_world s = work_world ''work'' [one_job s ''j'', one_job JobPending ''i''] []"



theorem fail_reopens_job_witness:
  "\<exists>w' j. FailJobWithBackoff (plain_env work_graph) ''j'' 1 [] 0 (job_world JobCompleted) =
      (Inr \<lparr>PermanentlyFailed = False, BoundaryTriggered = None, PropagateError = None\<rparr>, w') \<and>
    find (\<lambda>x. job_id x = ''j'') (jobs (tables w')) = Some j \<and> job_status j = JobPending"
proof -
  have "GetJobWithExecutionTx ''j'' (tables (job_world JobCompleted)) = Some (one_job JobCompleted ''j'', ''work'')"
    "millis (e_now (plain_env work_graph)) + max 0 0 < 1" by code_simp+
  from fail_reopens_job [OF this(1) zero_less_one this(2)] show ?thesis by blast
qed

theorem commands_refine_changes_witness:
  "changes (tables (job_world JobLocked))
     (tables (snd (completeJob (plain_env work_graph) (ExecuteExecution 3 (plain_env work_graph)) False ''j'' [] (job_world JobLocked)))) \<and>
   changes (tables (job_world JobLocked))
     (tables (snd (failJob (plain_env work_graph) (ExecuteExecution 3 (plain_env work_graph)) False
       \<lparr>fa_JobID = ''j'', RetriesRemaining = 0, fa_ErrorCode = [], RetryBackoffMs = 0, fa_Variables = [], VariableScope = FromActivity\<rparr>
       (job_world JobLocked))))"
proof -
  let ?a = "\<lparr>fa_JobID = ''j'', RetriesRemaining = 0, fa_ErrorCode = [], RetryBackoffMs = 0, fa_Variables = [], VariableScope = FromActivity\<rparr>"
  have "distinct (map job_id (jobs (tables (job_world JobLocked))))" by code_simp
  moreover have "find (\<lambda>x. job_id x = fa_JobID ?a) (jobs (tables (job_world JobLocked))) = Some (one_job JobLocked ''j'')" by code_simp
  then have "\<forall>j. find (\<lambda>x. job_id x = fa_JobID ?a) (jobs (tables (job_world JobLocked))) = Some j \<longrightarrow> job_open j"
    by (simp add: one_job_def job_open_def)
  ultimately show ?thesis
    using commands_refine_changes [of "job_world JobLocked" "plain_env work_graph" 3 False "''j''" "[]" "[]" "[]" "[]" ?a] by blast
qed

lemma job_completes:
  "fst (CompleteJob (plain_env work_graph) ''j'' [] (job_world JobLocked)) = Inr (''I'', ''e'')"
  by code_simp


lemma task_completes:
  "fst (CompleteTask (plain_env work_graph) (ExecuteExecution 4 (plain_env work_graph)) ''k'' [] (work_world ''ask'' [] [one_task TaskClaimed])) = Inr ()"
  by code_simp


theorem claim_reopens_task_witness:
  "\<exists>w1 w2. ClaimTask ''k'' ''me'' (work_world ''end'' [] [one_task TaskCompleted]) = (Inr (), w1) \<and>
     CompleteTask (plain_env work_graph) (\<lambda>_. ret ()) ''k'' [] w1 = (Inr (), w2\<lparr>tables := DisarmBoundaryTriggersTx ''I'' [''e''] (tables w2)\<rparr>) \<and>
     token_at ''I'' ''e'' ''work'' (tables w2)"
proof -
  let ?w = "work_world ''end'' [] [one_task TaskCompleted]"
  let ?n = "snd (plain_node ''ask'' UserTaskType [''work''])"
  have "FindTaskByID ''k'' (tables ?w) = Some (one_task TaskCompleted)" "(''I'', ''e'') \<in> keys (tables ?w)"
    "load_graph (plain_env work_graph) (tables ?w) ''I'' = Some (''D'', work_graph)"
    "map_of work_graph ''ask'' = Some ?n" "Type ?n = UserTaskType" "OutputMappings ?n = []"
    "ResolveNext (condition (plain_env work_graph)) ?n [] = Inr ''work''"
    by code_simp+
  with claim_reopens_task [of "''k''" ?w "one_task TaskCompleted" "plain_env work_graph" "''D''" work_graph ?n "''work''" "''me''" "\<lambda>_. ret ()" "[]"]
  show ?thesis by (auto simp: one_task_def ret_def)
qed

end
