(* ===== verification/Service_Timers.thy ===== *)
theory Service_Timers
  imports Message_Correlation
begin

text \<open>
  The timer scheduler (\<open>service/timer_scheduler.go\<close>) and timer start events (\<open>service/start_events.go\<close>, \<open>runtime/start_events.go\<close>).

  \<open>J\<close> is \<open>json.Unmarshal\<close> into a map. Rows that were armed before the package \<open>timer\<close> carry an interval instead of a definition;
  \<open>pd\<close> is \<open>time.ParseDuration\<close> for them, in nanoseconds. Occurrences that were missed are skipped with fuel.
  \<open>go\<close> continues an execution (\<open>ResumeExecution\<close>).
\<close>

subsection \<open>Payloads\<close>

type_synonym unmarshal = "string \<Rightarrow> vars option"

definition payload_of :: "unmarshal \<Rightarrow> TimerJob \<Rightarrow> vars" where
  "payload_of J job = (if timer_payload job = [] then [] else case J (timer_payload job) of Some p \<Rightarrow> p | None \<Rightarrow> [])"

definition text_at :: "vars \<Rightarrow> string \<Rightarrow> string" where
  "text_at p k = (case map_of p k of Some (JStr s) \<Rightarrow> s | _ \<Rightarrow> [])"

definition bool_at :: "vars \<Rightarrow> string \<Rightarrow> bool" where
  "bool_at p k = (map_of p k = Some (JBool True))"

text \<open>A number of the payload, converted to \<open>int\<close>: the fraction is cut off.\<close>

definition int_at :: "vars \<Rightarrow> string \<Rightarrow> int" where
  "int_at p k = (case map_of p k of Some (JNum r) \<Rightarrow> if r < 0 then \<lceil>r\<rceil> else \<lfloor>r\<rfloor> | _ \<Rightarrow> 0)"

definition ParseTimerTargetNode :: "unmarshal \<Rightarrow> string \<Rightarrow> string option" where
  "ParseTimerTargetNode J payload =
     (case (if payload = [] then Some [] else J payload) of
        None \<Rightarrow> None
      | Some p \<Rightarrow> (case map_of p ''target_node_id'' of Some (JStr s) \<Rightarrow> Some s | _ \<Rightarrow> None))"

subsection \<open>A timer that fires\<close>

definition ErrStaleTimer :: go_error where
  "ErrStaleTimer = GoError ''timer is stale: its execution no longer waits''"

text \<open>Tasks that nobody has claimed are cancelled, whatever else the execution has.\<close>

definition cancel_created :: "uuid \<Rightarrow> db \<Rightarrow> db" where
  "cancel_created eid d = d\<lparr>tasks := update_where (\<lambda>t. task_execution t = eid \<and> task_status t = TaskCreated)
     (\<lambda>t. t\<lparr>task_status := TaskCancelled\<rparr>) (tasks d)\<rparr>"

definition competing :: "uuid \<Rightarrow> uuid \<Rightarrow> EventSubscription \<Rightarrow> bool" where
  "competing inst eid s \<longleftrightarrow> sub_instance s = inst \<and> sub_execution s = Some eid \<and> \<not> sub_consumed s \<and> sub_type s \<in> {''message'', ''signal''}"

definition resume_timer_tx :: "uuid \<Rightarrow> uuid \<Rightarrow> string \<Rightarrow> unit eng" where
  "resume_timer_tx inst eid target =
     bindE (read (\<lambda>d. find (exec_key inst eid) (executions d))) (\<lambda>r. case r of
       None \<Rightarrow> fail ''failed to load current node''
     | Some e \<Rightarrow>
         if exec_status e \<noteq> ExecWaiting then halt (Error ErrStaleTimer)
         else
           thenE (upd (cancel_created eid))
          (thenE (cancel_scope inst eid uuid_Nil)
          (thenE (upd (consume_where (competing inst eid)))
            (upd (UpdateExecutionStatusAndNodeTx inst eid ExecActive target)))))"

definition ResumeTimerExecution :: "uuid \<Rightarrow> uuid \<Rightarrow> string \<Rightarrow> unit eng" where
  "ResumeTimerExecution inst eid target = transaction (resume_timer_tx inst eid target)"

subsection \<open>The next occurrence of a cycle\<close>

text \<open>A time of the tables as a local time.\<close>

definition local_time :: "env \<Rightarrow> int \<Rightarrow> gotime" where
  "local_time E ms = \<lparr>instant = ms * 1000000, zone_offset = zone_offset (e_now E)\<rparr>"

definition minute_ago :: "env \<Rightarrow> int" where
  "minute_ago E = instant (e_now E) - 60 * 1000000000"

text \<open>The occurrence and its number, without those that were due more than a minute before now; \<open>None\<close> is out of fuel.\<close>

fun skip_missed :: "nat \<Rightarrow> Timer \<Rightarrow> int \<Rightarrow> gotime option \<Rightarrow> int \<Rightarrow> (gotime option \<times> int) option" where
  "skip_missed 0 t limit due n = None"
| "skip_missed (Suc k) t limit due n =
     (case due of
        None \<Rightarrow> Some (None, n)
      | Some d \<Rightarrow> if instant d < limit then skip_missed k t limit (Timer_Next t d (n + 1)) (n + 1) else Some (Some d, n))"

definition logged :: "unit eng \<Rightarrow> unit eng" where
  "logged m = bindE (attempt m) (\<lambda>_. ret ())"

text \<open>The interval of an old row: \<open>PT10S\<close> is \<open>10s\<close>; ten seconds where it cannot be read.\<close>

definition old_interval :: "env \<Rightarrow> (string \<Rightarrow> int option) \<Rightarrow> string \<Rightarrow> int" where
  "old_interval E pd s =
     (case pd (if has_prefix s ''PT'' then ToLower (e_go E) (trim_prefix s ''PT'') else s) of Some ns \<Rightarrow> ns | None \<Rightarrow> 10 * 1000000000)"

definition set_cycle :: "int \<Rightarrow> vars \<Rightarrow> vars" where
  "set_cycle n p = AList.update ''current_cycle'' (JNum (of_int n)) p"

definition next_by_definition :: "nat \<Rightarrow> env \<Rightarrow> TimerJob \<Rightarrow> vars \<Rightarrow> unit eng" where
  "next_by_definition fuel E job p =
     (let n = int_at p ''current_cycle'' + 1 in
      case Parse (e_go E) (e_time E) (text_at p ''timer_kind'') (text_at p ''timer_value'') of
        None \<Rightarrow> ret ()
      | Some t \<Rightarrow> (case skip_missed fuel t (minute_ago E) (Timer_Next t (local_time E (DueAt job)) n) n of
          None \<Rightarrow> halt OutOfFuel
        | Some (None, _) \<Rightarrow> ret ()
        | Some (Some due, n') \<Rightarrow> logged (transaction (bindE (draw E) (\<lambda>tid.
            try_upd (CreateTimerWithCycleTx tid (timer_instance job) (timer_execution job) (millis due) (timer_event job)
              (e_marshal E (set_cycle n' p)) n' (Repetitions t) []))))))"

definition next_by_interval :: "env \<Rightarrow> (string \<Rightarrow> int option) \<Rightarrow> TimerJob \<Rightarrow> vars \<Rightarrow> unit eng" where
  "next_by_interval E pd job p =
     (let n = int_at p ''current_cycle'' + 1; most = int_at p ''total_cycles''; text = text_at p ''repeat_interval'';
          secs = tdiv (old_interval E pd text) 1000000000 in
      if most \<noteq> - 1 \<and> n \<ge> most then ret ()
      else logged (transaction (bindE (draw E) (\<lambda>tid.
        try_upd (CreateTimerWithDurationSeconds (millis (e_now E)) tid (timer_instance job) (timer_execution job) secs (timer_event job)
          (e_marshal E (set_cycle n p)) n most text)))))"

definition scheduleNextCycleIfNeeded :: "nat \<Rightarrow> env \<Rightarrow> unmarshal \<Rightarrow> (string \<Rightarrow> int option) \<Rightarrow> TimerJob \<Rightarrow> unit eng" where
  "scheduleNextCycleIfNeeded fuel E J pd job =
     (let p = payload_of J job in
      if \<not> bool_at p ''is_cycle'' then ret ()
      else if text_at p ''timer_kind'' \<noteq> [] then next_by_definition fuel E job p
      else next_by_interval E pd job p)"

text \<open>A timer that cannot resume its execution, stale or not, arms no next occurrence.\<close>

definition fireTimer :: "nat \<Rightarrow> env \<Rightarrow> unmarshal \<Rightarrow> (string \<Rightarrow> int option) \<Rightarrow> (uuid \<Rightarrow> unit eng) \<Rightarrow> TimerJob \<Rightarrow> unit eng" where
  "fireTimer fuel E J pd go job =
     (let eid = (case timer_execution job of Some e \<Rightarrow> e | None \<Rightarrow> uuid_Nil) in
      if eid = uuid_Nil then scheduleNextCycleIfNeeded fuel E J pd job
      else case ParseTimerTargetNode J (timer_payload job) of
        None \<Rightarrow> ret ()
      | Some target \<Rightarrow> bindE (attempt (ResumeTimerExecution (timer_instance job) eid target)) (\<lambda>r. case r of
          Inl _ \<Rightarrow> ret ()
        | Inr _ \<Rightarrow> thenE (scheduleNextCycleIfNeeded fuel E J pd job) (logged (go eid))))"

subsection \<open>The scheduler\<close>

text \<open>\<open>post\<close> hands the timer to the owner of its instance, which is \<open>fireTimer\<close> itself where the engine is not partitioned; \<open>start\<close> fires
  timer start events. The result is whether the timer is due again.\<close>

definition TimerStartEventType :: string where
  "TimerStartEventType = ''timerStart''"

definition rearm :: "uuid \<Rightarrow> db \<Rightarrow> db" where
  "rearm tid d = d\<lparr>timer_jobs := update_where (\<lambda>t. timer_id t = tid) (\<lambda>t. t\<lparr>IsTriggered := False\<rparr>) (timer_jobs d)\<rparr>"

definition triggerTimer :: "bool \<Rightarrow> (TimerJob \<Rightarrow> unit eng) \<Rightarrow> (TimerJob \<Rightarrow> unit eng) \<Rightarrow> TimerJob \<Rightarrow> bool eng" where
  "triggerTimer partitioned post start job =
     (if timer_event job = TimerStartEventType then thenE (logged (start job)) (ret False)
      else bindE (attempt (post job)) (\<lambda>r. case r of
        Inr _ \<Rightarrow> ret False
      | Inl _ \<Rightarrow> if partitioned then thenE (upd (rearm (timer_id job))) (ret True) else ret False))"

fun trigger_all :: "(TimerJob \<Rightarrow> bool eng) \<Rightarrow> TimerJob list \<Rightarrow> bool eng" where
  "trigger_all f [] = ret False"
| "trigger_all f (t # ts) = bindE (f t) (\<lambda>a. bindE (trigger_all f ts) (\<lambda>b. ret (a \<or> b)))"

definition claim_timers :: "env \<Rightarrow> nat \<Rightarrow> TimerJob list eng" where
  "claim_timers E batch = bindE (read (ClaimDueTimers (millis (e_now E)) batch)) (\<lambda>(ts, d). thenE (upd (\<lambda>_. d)) (ret ts))"

text \<open>Batches of twenty, for as long as they are full; how many were claimed and whether one is due again.\<close>

fun processDueTimers :: "nat \<Rightarrow> env \<Rightarrow> (TimerJob \<Rightarrow> bool eng) \<Rightarrow> nat \<Rightarrow> bool \<Rightarrow> (nat \<times> bool) eng" where
  "processDueTimers 0 E f claimed rearmed = halt OutOfFuel"
| "processDueTimers (Suc k) E f claimed rearmed =
     bindE (claim_timers E 20) (\<lambda>ts. bindE (trigger_all f ts) (\<lambda>r.
       if length ts < 20 \<or> rearmed \<or> r then ret (claimed + length ts, rearmed \<or> r)
       else processDueTimers k E f (claimed + length ts) (rearmed \<or> r)))"

subsection \<open>Timer start events\<close>

record TimerStartPayload =
  tsp_ProcessKey :: string
  ProcessDefinitionID :: uuid
  StartEventID :: string
  Fired :: int

definition start_payload :: "TimerStartPayload \<Rightarrow> vars" where
  "start_payload p = [(''processKey'', JStr (tsp_ProcessKey p)), (''processDefinitionId'', JStr (ProcessDefinitionID p)),
     (''startEventId'', JStr (StartEventID p)), (''fired'', JNum (of_int (Fired p)))]"

text \<open>\<open>json.Unmarshal\<close> into the record: a name that is missing leaves the zero value.\<close>

definition read_start_payload :: "env \<Rightarrow> unmarshal \<Rightarrow> string \<Rightarrow> TimerStartPayload option" where
  "read_start_payload E J s = Option.bind (J s) (\<lambda>p.
     let d = text_at p ''processDefinitionId'' in
     Option.bind (if d = [] then Some uuid_Nil else e_parse E d) (\<lambda>i.
       Some \<lparr>tsp_ProcessKey = text_at p ''processKey'', ProcessDefinitionID = i, StartEventID = text_at p ''startEventId'',
         Fired = int_at p ''fired''\<rparr>))"

definition ParseStartTimer :: "env \<Rightarrow> Node \<Rightarrow> Timer option" where
  "ParseStartTimer E n = ParseXML (e_go E) (e_time E) (TimerDefinition n)
     (Some (\<lambda>x. case feel_Evaluate E x [] of Inr (JStr s) \<Rightarrow> Some s | _ \<Rightarrow> None))"

definition is_start_of :: "unmarshal \<Rightarrow> string \<Rightarrow> TimerJob \<Rightarrow> bool" where
  "is_start_of J pk t \<longleftrightarrow> timer_event t = TimerStartEventType \<and> \<not> IsTriggered t \<and>
     (case J (timer_payload t) of Some p \<Rightarrow> map_of p ''processKey'' = Some (JStr pk) | None \<Rightarrow> False)"

definition disarmStartTimersTx :: "unmarshal \<Rightarrow> string \<Rightarrow> db \<Rightarrow> db" where
  "disarmStartTimersTx J pk d = d\<lparr>timer_jobs := delete_where (is_start_of J pk) (timer_jobs d)\<rparr>"

definition start_row :: "env \<Rightarrow> uuid \<Rightarrow> gotime \<Rightarrow> TimerStartPayload \<Rightarrow> TimerJob" where
  "start_row E tid due p = \<lparr>timer_id = tid, timer_instance = uuid_Nil, timer_execution = None, timer_event = TimerStartEventType,
     DueAt = millis due, timer_payload = e_marshal E (start_payload p), IsTriggered = False, CycleCount = 0, TotalCycles = 1, RepeatInterval = []\<rparr>"

definition InsertStartTimerTx :: "env \<Rightarrow> gotime \<Rightarrow> TimerStartPayload \<Rightarrow> unit eng" where
  "InsertStartTimerTx E due p = bindE (draw E) (\<lambda>tid. try_upd (CreateTimerJobTx (start_row E tid due p)))"

definition is_timer_start :: "Node \<Rightarrow> bool" where
  "is_timer_start n \<longleftrightarrow> Type n = StartTimerEventType \<and> ParentScope n = []"

definition arm_start :: "env \<Rightarrow> string \<Rightarrow> uuid \<Rightarrow> Node \<Rightarrow> unit eng" where
  "arm_start E pk def n =
     (if \<not> is_timer_start n then ret ()
      else case ParseStartTimer E n of
        None \<Rightarrow> fail ''timer start event''
      | Some t \<Rightarrow> (case Timer_First t (e_now E) of
          None \<Rightarrow> ret ()
        | Some due \<Rightarrow> InsertStartTimerTx E due \<lparr>tsp_ProcessKey = pk, ProcessDefinitionID = def, StartEventID = ID n, Fired = 0\<rparr>))"

definition ArmStartTimers :: "env \<Rightarrow> unmarshal \<Rightarrow> string \<Rightarrow> uuid \<Rightarrow> graph \<Rightarrow> unit eng" where
  "ArmStartTimers E J pk def g = transaction (
     thenE (upd (disarmStartTimersTx J pk)) (each (arm_start E pk def) (map snd g)))"

text \<open>After a version was deleted. An error is logged.\<close>

definition RearmStartEvents :: "env \<Rightarrow> unmarshal \<Rightarrow> deployments \<Rightarrow> string \<Rightarrow> unit eng" where
  "RearmStartEvents E J D pk =
     (case find (\<lambda>x. def_key x = pk \<and> latest (process_definitions D) x) (process_definitions D) of
        None \<Rightarrow> transaction (upd (disarmStartTimersTx J pk))
      | Some x \<Rightarrow> logged (ArmStartTimers E J pk (def_id x) (def_graph x)))"

definition armNextStartTimer :: "nat \<Rightarrow> env \<Rightarrow> Node \<Rightarrow> int \<Rightarrow> TimerStartPayload \<Rightarrow> unit eng" where
  "armNextStartTimer fuel E n dueAt p =
     (case ParseStartTimer E n of
        None \<Rightarrow> fail ''timer''
      | Some t \<Rightarrow>
          (let k = Fired p + 1 in
           case skip_missed fuel t (minute_ago E) (Timer_Next t (local_time E dueAt) k) k of
             None \<Rightarrow> halt OutOfFuel
           | Some (None, _) \<Rightarrow> ret ()
           | Some (Some due, k') \<Rightarrow> transaction (InsertStartTimerTx E due (p\<lparr>Fired := k'\<rparr>))))"

text \<open>\<open>tenant\<close> is the tenant of a definition.\<close>

definition FireStartTimer :: "nat \<Rightarrow> env \<Rightarrow> unmarshal \<Rightarrow> deployments \<Rightarrow> (uuid \<Rightarrow> string option) \<Rightarrow> (uuid \<Rightarrow> unit eng) \<Rightarrow> TimerJob \<Rightarrow> unit eng" where
  "FireStartTimer fuel E J D tenant go job =
     (case read_start_payload E J (timer_payload job) of
        None \<Rightarrow> fail ''timer start payload''
      | Some p \<Rightarrow> (case find (\<lambda>x. def_id x = ProcessDefinitionID p) (process_definitions D) of
          None \<Rightarrow> fail ''process definition''
        | Some x \<Rightarrow> (case map_of (def_graph x) (StartEventID p) of
            None \<Rightarrow> fail ''start event not found''
          | Some n \<Rightarrow>
              thenE (logged (armNextStartTimer fuel E n (DueAt job) p))
             (bindE (StartProcessInstanceAt E (def_id x) (Option.bind (tenant (def_id x)) text_or_null) [] (ID n)) (\<lambda>(inst, eid). go eid)))))"

end
