(* ===== verification/Service_Timer_Claims.thy ===== *)
theory Service_Timer_Claims
  imports Service_Timers Service_Props
begin

text \<open>
  The properties of the timer scheduler: what a timer that fires does, and to whom; the occurrences of a cycle that are skipped; the start
  timers of a process; and two timers of one event-based gateway.
\<close>

subsection \<open>Occurrences that were missed\<close>

lemma Cron_Next_later: "Cron_Next c t = Some r \<Longrightarrow> instant t < instant r"
proof -
  assume r: "Cron_Next c t = Some r"
  let ?i = "start_after (instant t)"
  have mod: "?i mod 1000000000 = 0" "instant t < ?i"
    using pos_mod_bound [of 1000000000 "instant t"] by (simp_all add: start_after_def mod_eq_0_iff_dvd dvd_minus_mod)
  show "instant t < instant r"
    using next_loop_first [OF mod(1), of c "cron_limit c (instant t)"] mod(2) r by (auto simp: Cron_Next_def time_at_def split: option.splits)
qed

text \<open>A timer whose occurrences go forward: by a cron expression, or by an interval that does.\<close>

definition advances :: "Timer \<Rightarrow> bool" where
  "advances t \<longleftrightarrow> cron t \<noteq> None \<or> forward (duration t)"

lemma Timer_Next_later: "advances t \<Longrightarrow> Timer_Next t d n = Some d' \<Longrightarrow> instant d < instant d'"
  unfolding advances_def Timer_Next_def
  by (auto simp: Let_def split: if_splits option.splits dest: Cron_Next_later intro: AddTo_later)

lemma skip_missed_enough:
  assumes "advances t" and "(case due of None \<Rightarrow> 0 | Some d \<Rightarrow> nat (limit - instant d)) < k"
  shows "\<exists>r n'. skip_missed k t limit due n = Some (r, n')"
  using assms(2)
proof (induction k arbitrary: due n)
  case (Suc k)
  show ?case
  proof (cases "\<exists>d. due = Some d \<and> instant d < limit")
    case True
    then obtain d where d: "due = Some d" "instant d < limit" by blast
    have "(case Timer_Next t d (n + 1) of None \<Rightarrow> 0 | Some d' \<Rightarrow> nat (limit - instant d')) < k"
      using Suc.prems d Timer_Next_later [OF assms(1), of d "n + 1"] by (cases "Timer_Next t d (n + 1)") force+
    from Suc.IH [OF this] d show ?thesis by simp
  qed (auto split: option.split)
qed simp

lemma skip_missed_find:
  "skip_missed k t limit (Some d) n = Some (r, n') \<Longrightarrow> r = find (\<lambda>x. limit \<le> instant x) (fire_from k t d (n + 1))"
proof (induction k arbitrary: d n)
  case (Suc k)
  show ?case
  proof (cases "instant d < limit")
    case True
    then show ?thesis
    proof (cases "Timer_Next t d (n + 1)")
      case None
      with Suc.prems True show ?thesis by (cases k) auto
    next
      case (Some d')
      with Suc.prems True Suc.IH [of d' "n + 1"] show ?thesis by simp
    qed
  qed (use Suc.prems in auto)
qed simp

lemma skip_missed_more: "skip_missed k t limit due n = Some x \<Longrightarrow> k \<le> K \<Longrightarrow> skip_missed K t limit due n = Some x"
proof (induction k arbitrary: due n K)
  case (Suc k)
  then obtain K' where "K = Suc K'" "k \<le> K'" by (cases K) auto
  with Suc show ?case by (auto split: option.splits if_splits)
qed simp

text \<open>C22: However many occurrences of a cycle were missed, the search for the one to arm next ends, and what it finds is the first occurrence
  that was due at most a minute ago, or nothing where the cycle ends before that.\<close>

theorem missed_cycles_skipped:
  assumes "advances t" and "Timer_Next t due n = Some d"
  shows "\<exists>k r n'. \<forall>fuel \<ge> k. skip_missed fuel t limit (Timer_Next t due n) n = Some (r, n') \<and>
    r = find (\<lambda>x. limit \<le> instant x) (fire_from fuel t d (n + 1))"
proof -
  let ?k = "Suc (nat (limit - instant d))"
  from skip_missed_enough [OF assms(1), of limit "Some d" ?k n] obtain r n' where r: "skip_missed ?k t limit (Some d) n = Some (r, n')" by auto
  have "skip_missed fuel t limit (Some d) n = Some (r, n') \<and> r = find (\<lambda>x. limit \<le> instant x) (fire_from fuel t d (n + 1))"
    if "fuel \<ge> ?k" for fuel
    using skip_missed_more [OF r that] skip_missed_find by blast
  then show ?thesis unfolding assms(2) by blast
qed

subsection \<open>The scheduler and the specification of the engine\<close>

lemma safe_logged [safe_intros]: "safe K m \<Longrightarrow> safe K (logged m)"
  unfolding logged_def by (intro safe_intros)

lemma changes_cancel_created [changes_intros]: "changes d (cancel_created eid d)"
  unfolding cancel_created_def
  by (intro r_into_rtranclp change.work_task) (simp_all add: task_open_def same_task_def)

lemma safe_ResumeTimerExecution [safe_intros]: "safe K (ResumeTimerExecution inst eid target)"
  unfolding ResumeTimerExecution_def resume_timer_tx_def by (intro safe_intros changes_intros)

lemma safe_insert_timer: "(\<And>d. f d = insert_timer t d) \<Longrightarrow> safe K (try_upd f)"
  by (rule safe_try_upd) (auto simp: insert_timer_def image_iff split: if_splits intro!: r_into_rtranclp change.arm)

lemma safe_timer_inserts [safe_intros]:
  "safe K (try_upd (CreateTimerWithDurationSeconds now tid inst eid secs ev pl cyc tot rep))" "safe K (try_upd (CreateTimerJobTx t))"
  by (rule safe_insert_timer, simp add: CreateTimerWithDurationSeconds_def CreateTimerJobTx_def)+

lemma safe_scheduleNextCycle [safe_intros]: "safe K (scheduleNextCycleIfNeeded fuel E J pd job)"
  unfolding scheduleNextCycleIfNeeded_def next_by_definition_def next_by_interval_def Let_def by (intro safe_intros)

lemma safe_armNextStartTimer [safe_intros]: "safe K (armNextStartTimer fuel E n due p)"
  unfolding armNextStartTimer_def InsertStartTimerTx_def Let_def by (intro safe_intros)

lemma changes_disarmStartTimersTx [changes_intros]: "changes d (disarmStartTimersTx J pk d)"
  unfolding disarmStartTimersTx_def by (rule changes_drops(2)) (simp add: is_start_of_def)

lemma safe_ArmStartTimers [safe_intros]: "safe K (ArmStartTimers E J pk def g)"
  unfolding ArmStartTimers_def arm_start_def InsertStartTimerTx_def by (intro safe_intros changes_intros)

lemma safe_RearmStartEvents: "safe K (RearmStartEvents E J D pk)"
  unfolding RearmStartEvents_def by (intro safe_intros changes_intros)

lemma safe_claim_timers [safe_intros]: "safe K (claim_timers E batch)"
  unfolding claim_timers_def
  by (rule safe_read_upd) (auto simp: ClaimDueTimers_def Let_def intro!: r_into_rtranclp change.fire safe_basic)

lemma safe_trigger_all: "(\<And>t. safe K (f t)) \<Longrightarrow> safe K (trigger_all f ts)"
  by (induction ts) (auto intro!: safe_intros)

lemma safe_processDueTimers: "(\<And>t. safe K (f t)) \<Longrightarrow> safe K (processDueTimers fuel E f claimed rearmed)"
  by (induction fuel arbitrary: claimed rearmed) (auto intro!: safe_intros safe_trigger_all)

context interpreter
begin

lemma safe_fireTimer [safe_intros]: "safe K (fireTimer fuel E J pd go job)"
  unfolding fireTimer_def Let_def by (intro safe_intros)

lemma safe_FireStartTimer [safe_intros]: "safe K (FireStartTimer fuel E J D tenant go job)"
  unfolding FireStartTimer_def by (intro safe_intros)

lemma safe_scheduler: "safe K (processDueTimers n E (triggerTimer False (fireTimer fuel E J pd go) (FireStartTimer fuel E J D tenant go)) claimed rearmed)"
  by (rule safe_processDueTimers) (simp add: triggerTimer_def, intro conjI impI safe_intros)

end

text \<open>Firing the timers that are due, arming the next occurrences and the start timers of a process, and starting the instances of start
  timers, do nothing to the tables but the changes of the abstract specification.\<close>

theorem timers_refine_changes:
  "changes (tables w) (tables (snd (processDueTimers n E (triggerTimer False (fireTimer fuel E J pd (ExecuteExecution k E))
     (FireStartTimer fuel E J D tenant (ExecuteExecution k E))) claimed rearmed w))) \<and>
   changes (tables w) (tables (snd (ArmStartTimers E J pk def g w))) \<and> changes (tables w) (tables (snd (RearmStartEvents E J D pk w)))"
  by (intro conjI allowed_safe [unfolded allowed_def] exec.safe_scheduler safe_ArmStartTimers safe_RearmStartEvents)

subsection \<open>A timer that fires\<close>

lemma resume_timer_runs:
  assumes "find (exec_key inst eid) (executions (tables w)) = Some e" and "exec_status e = ExecWaiting"
    and "CancelScopeTx inst eid uuid_Nil (cancel_created eid (tables w)) = Some (ts, js, d)"
  shows "ResumeTimerExecution inst eid target w =
    (Inr (), w\<lparr>tables := UpdateExecutionStatusAndNodeTx inst eid ExecActive target (consume_where (competing inst eid) d)\<rparr>)"
  using assms by (simp add: ResumeTimerExecution_def resume_timer_tx_def transaction_def bindE_def thenE_def read_def upd_def cancel_scope_def
      tree_read_def returned_def ret_def)

lemma cancel_created_tree: "loadExecutionTreeTx inst (cancel_created eid d) = loadExecutionTreeTx inst d"
  by (simp add: loadExecutionTreeTx_def cancel_created_def)

lemma CancelScopeTx_created:
  assumes "CancelScopeTx inst rt keep d = Some (ts, js, d')" and "\<forall>t \<in> set (tasks d). task_execution t = eid \<longrightarrow> task_status t \<noteq> TaskCreated"
  shows "\<forall>t \<in> set (tasks d'). task_execution t = eid \<longrightarrow> task_status t \<noteq> TaskCreated"
  using assms(1)
proof (rule CancelScopeTx_cases)
  fix all ids d1
  assume d1: "d1 = finish_open inst ids ExecTerminated (DisarmBoundaryTriggersTx inst ids d)"
    and d': "d' = (if ids = [] then d else deleteWaitStateTx inst ids (snd (cancel_jobs (\<lambda>j. job_instance j = inst \<and> job_execution j \<in> set ids)
      (snd (cancel_tasks (\<lambda>t. task_instance t = inst \<and> task_execution t \<in> set ids) d1)))))"
  have "tasks d1 = tasks d" by (simp add: d1 finish_open_def update_executions_def)
  then have "tasks d' = (if ids = [] then tasks d else tasks (snd (cancel_tasks (\<lambda>t. task_instance t = inst \<and> task_execution t \<in> set ids) d)))"
    by (simp add: d' deleteWaitStateTx_def cancel_jobs_def cancel_tasks_def Let_def)
  then show ?thesis using assms(2) by (simp add: cancel_tasks_def Let_def ball_update_where split: if_splits)
qed

lemma CancelScopeTx_empty: "execs_wf d \<Longrightarrow> below inst rt d = {} \<Longrightarrow> CancelScopeTx inst rt keep d = Some ([], [], d)"
  using descendants_below [of inst d rt] unfolding execs_wf_def CancelScopeTx_def by fastforce

text \<open>What is below an execution has ended, with all it waited for.\<close>

definition nothing_below :: "uuid \<Rightarrow> uuid set \<Rightarrow> db \<Rightarrow> bool" where
  "nothing_below inst gone d \<longleftrightarrow>
     (\<forall>e \<in> set (executions d). exec_instance e = inst \<and> exec_id e \<in> gone \<longrightarrow> \<not> exec_open e) \<and>
     (\<forall>t \<in> set (tasks d). task_instance t = inst \<and> task_execution t \<in> gone \<longrightarrow> \<not> task_open t) \<and>
     (\<forall>j \<in> set (jobs d). job_instance j = inst \<and> job_execution j \<in> gone \<longrightarrow> \<not> job_open j) \<and>
     (\<forall>t \<in> set (timer_jobs d). timer_instance t = inst \<and> timer_execution t \<in> Some ` gone \<longrightarrow> IsTriggered t)"


subsection \<open>The start timers of a process\<close>

text \<open>The top-level timer start events of a graph that fire at all, with the time of their first firing.\<close>

definition first_firings :: "env \<Rightarrow> Node list \<Rightarrow> (string \<times> int) list" where
  "first_firings E ns = concat (map (\<lambda>n. if \<not> is_timer_start n then []
     else case ParseStartTimer E n of None \<Rightarrow> [] | Some t \<Rightarrow> (case Timer_First t (e_now E) of None \<Rightarrow> [] | Some due \<Rightarrow> [(ID n, millis due)])) ns)"

definition firing :: "unmarshal \<Rightarrow> TimerJob \<Rightarrow> string \<times> int" where
  "firing J t = (case J (timer_payload t) of Some p \<Rightarrow> text_at p ''startEventId'' | None \<Rightarrow> [], DueAt t)"

lemma start_row_firing:
  assumes "\<And>p. J (e_marshal E (start_payload p)) = Some (start_payload p)"
  shows "is_start_of J (tsp_ProcessKey p) (start_row E tid due p)" and "firing J (start_row E tid due p) = (StartEventID p, millis due)"
  by (simp_all add: is_start_of_def firing_def start_row_def assms) (simp_all add: start_payload_def text_at_def)

lemma arm_starts_rows:
  assumes J: "\<And>p. J (e_marshal E (start_payload p)) = Some (start_payload p)" and "each (arm_start E pk def) ns w = (Inr (), w')"
  shows "\<exists>new. timer_jobs (tables w') = timer_jobs (tables w) @ new \<and> map (firing J) new = first_firings E ns \<and> (\<forall>t \<in> set new. is_start_of J pk t)"
  using assms(2)
proof (induction ns arbitrary: w)
  case (Cons n ns)
  then obtain w1 where w1: "arm_start E pk def n w = (Inr (), w1)" and rest: "each (arm_start E pk def) ns w1 = (Inr (), w')"
    by (auto simp: returns)
  from Cons.IH [OF rest] obtain new where new: "timer_jobs (tables w') = timer_jobs (tables w1) @ new" "map (firing J) new = first_firings E ns"
    "\<forall>t \<in> set new. is_start_of J pk t" by blast
  let ?p = "\<lparr>tsp_ProcessKey = pk, ProcessDefinitionID = def, StartEventID = ID n, Fired = 0\<rparr>"
  have "\<exists>one. timer_jobs (tables w1) = timer_jobs (tables w) @ one \<and> map (firing J) one = first_firings E [n] \<and> (\<forall>t \<in> set one. is_start_of J pk t)"
  proof (cases "is_timer_start n \<and> (\<exists>t due. ParseStartTimer E n = Some t \<and> Timer_First t (e_now E) = Some due)")
    case True
    then obtain t due where t: "is_timer_start n" "ParseStartTimer E n = Some t" "Timer_First t (e_now E) = Some due" by blast
    with w1 obtain tid where "timer_jobs (tables w1) = timer_jobs (tables w) @ [start_row E tid due ?p]"
      by (auto simp: arm_start_def InsertStartTimerTx_def CreateTimerJobTx_def insert_timer_def returns start_row_def split: if_splits)
    then show ?thesis using t start_row_firing [OF J, where p = ?p] by (simp add: first_firings_def)
  next
    case False
    with w1 have "w1 = w" "first_firings E [n] = []"
      by (auto simp: arm_start_def first_firings_def returns split: if_splits option.splits)
    then show ?thesis by simp
  qed
  then obtain one where "timer_jobs (tables w1) = timer_jobs (tables w) @ one" "map (firing J) one = first_firings E [n]"
    "\<forall>t \<in> set one. is_start_of J pk t" by blast
  with new show ?case by (intro exI [of _ "one @ new"]) (auto simp: first_firings_def)
qed (auto simp: returns first_firings_def)

text \<open>C23: Deploying a version of a process replaces its armed start timers: afterwards they are those of the top-level timer start events of
  the new version that fire at all, each at its first firing, and every other timer is as before.\<close>

theorem start_timers_replaced:
  assumes "\<And>p. J (e_marshal E (start_payload p)) = Some (start_payload p)" and "ArmStartTimers E J pk def g w = (Inr (), w')"
  shows "map (firing J) (filter (is_start_of J pk) (timer_jobs (tables w'))) = first_firings E (map snd g) \<and>
    filter (\<lambda>t. \<not> is_start_of J pk t) (timer_jobs (tables w')) = filter (\<lambda>t. \<not> is_start_of J pk t) (timer_jobs (tables w))"
proof -
  from assms(2) have "each (arm_start E pk def) (map snd g) (w\<lparr>tables := disarmStartTimersTx J pk (tables w)\<rparr>) = (Inr (), w')"
    by (auto simp: ArmStartTimers_def returns)
  from arm_starts_rows [OF assms(1) this] obtain new where
    new: "timer_jobs (tables w') = filter (\<lambda>t. \<not> is_start_of J pk t) (timer_jobs (tables w)) @ new"
      "map (firing J) new = first_firings E (map snd g)" "\<forall>t \<in> set new. is_start_of J pk t"
    by (auto simp: disarmStartTimersTx_def delete_where_def)
  then have "filter (is_start_of J pk) new = new" "filter (\<lambda>t. \<not> is_start_of J pk t) new = []" by (auto simp: filter_id_conv filter_empty_conv)
  with new(1,2) show ?thesis by simp
qed

subsection \<open>Two timers of one gateway\<close>

definition gateway_graph :: graph where
  "gateway_graph = [plain_node ''gateway'' EventBasedGatewayType [''soon'', ''late''], plain_node ''soon'' IntermediateTimerEventType [''ask''],
     plain_node ''late'' IntermediateTimerEventType [''warn''], plain_node ''ask'' UserTaskType [''end''], plain_node ''warn'' UserTaskType [''end''],
     plain_node ''end'' EndEventType []]"

definition gateway_timer :: "string \<Rightarrow> int \<Rightarrow> TimerJob" where
  "gateway_timer to due = \<lparr>timer_id = to, timer_instance = ''I'', timer_execution = Some ''e'', timer_event = ''eventBasedGateway'', DueAt = due,
     timer_payload = to, IsTriggered = True, CycleCount = 0, TotalCycles = 1, RepeatInterval = []\<rparr>"

definition target_payload :: unmarshal where
  "target_payload s = Some [(''target_node_id'', JStr s)]"

definition at_gateway :: world where
  "at_gateway = plain_world ((plain_db [example_exec ''e'' None ''gateway'' ExecWaiting])\<lparr>timer_jobs := [gateway_timer ''ask'' 0, gateway_timer ''warn'' 0]\<rparr>)"

definition fire_at_gateway :: "string \<Rightarrow> world \<Rightarrow> world" where
  "fire_at_gateway to w = snd (fireTimer 1 (plain_env gateway_graph) target_payload (\<lambda>_. None) (ExecuteExecution 4 (plain_env gateway_graph))
     (gateway_timer to 0) w)"

definition seen :: "world \<Rightarrow> (exec_status \<times> string) list \<times> (string \<times> task_status) list" where
  "seen w = (map (\<lambda>e. (exec_status e, exec_element e)) (executions (tables w)), map (\<lambda>t. (TaskDefinitionKey t, task_status t)) (tasks (tables w)))"


subsection \<open>Concrete runs\<close>

lemma daily_next: "Timer_Next daily (unix_epoch 0) 1 = Some (AddTo (duration daily) (unix_epoch 0))"
  by code_simp

theorem missed_cycles_skipped_witness:
  "\<exists>k r n'. \<forall>fuel \<ge> k. skip_missed fuel daily (instant (unix_epoch 0) + 2 * ns_per_day) (Timer_Next daily (unix_epoch 0) 1) 1 = Some (r, n') \<and>
     r = find (\<lambda>x. instant (unix_epoch 0) + 2 * ns_per_day \<le> instant x) (fire_from fuel daily (AddTo (duration daily) (unix_epoch 0)) (1 + 1))"
proof (rule missed_cycles_skipped)
  show "advances daily" unfolding advances_def by code_simp
qed (rule daily_next)


text \<open>A writer and a reader of payloads: every text with its length before it.\<close>

definition counted :: "string \<Rightarrow> string" where
  "counted s = replicate (length s) CHR ''1'' @ CHR ''0'' # s"

fun count_of :: "string \<Rightarrow> nat \<times> string" where
  "count_of [] = (0, [])"
| "count_of (c # cs) = (if c = CHR ''1'' then (case count_of cs of (n, r) \<Rightarrow> (Suc n, r)) else (0, cs))"

definition uncounted :: "string \<Rightarrow> string \<times> string" where
  "uncounted cs = (case count_of cs of (n, r) \<Rightarrow> (take n r, drop n r))"

definition number_text :: "int \<Rightarrow> string" where
  "number_text i = (if i < 0 then CHR ''-'' # replicate (nat (- i)) CHR ''x'' else replicate (nat i) CHR ''x'')"

definition text_number :: "string \<Rightarrow> int" where
  "text_number s = (case s of CHR ''-'' # r \<Rightarrow> - int (length r) | _ \<Rightarrow> int (length s))"

definition payload_text :: "vars \<Rightarrow> string" where
  "payload_text p = counted (text_at p ''processKey'') @ counted (text_at p ''processDefinitionId'') @ counted (text_at p ''startEventId'') @
     counted (number_text (int_at p ''fired''))"

definition text_payload :: unmarshal where
  "text_payload s = (let (pk, r1) = uncounted s; (i, r2) = uncounted r1; (ev, r3) = uncounted r2; (n, r4) = uncounted r3 in
     Some (start_payload \<lparr>tsp_ProcessKey = pk, ProcessDefinitionID = i, StartEventID = ev, Fired = text_number n\<rparr>))"

lemma uncounted_counted: "uncounted (counted s @ r) = (s, r)"
proof -
  have "count_of (replicate n CHR ''1'' @ CHR ''0'' # q) = (n, q)" for n q by (induction n) simp_all
  then show ?thesis by (simp add: uncounted_def counted_def)
qed

lemma text_number_text: "text_number (number_text i) = i"
  by (cases "nat i") (auto simp: text_number_def number_text_def)

lemma text_payload_text: "text_payload (payload_text (start_payload p)) = Some (start_payload p)"
proof -
  have "text_at (start_payload p) ''processKey'' = tsp_ProcessKey p" "text_at (start_payload p) ''processDefinitionId'' = ProcessDefinitionID p"
    "text_at (start_payload p) ''startEventId'' = StartEventID p" "int_at (start_payload p) ''fired'' = Fired p"
    by (simp_all add: text_at_def int_at_def start_payload_def)
  then show ?thesis
    unfolding text_payload_def payload_text_def Let_def
    using uncounted_counted [where r = "[]"] by (cases p) (simp add: uncounted_counted text_number_text)
qed

definition start_env :: env where
  "start_env = (plain_env [])\<lparr>e_marshal := payload_text,
     e_time := plain_time\<lparr>xml_element := (\<lambda>tag raw. if tag = ''timeCycle'' then Some ''R3/P1D'' else None)\<rparr>\<rparr>"

definition start_graph :: graph where
  "start_graph = [plain_node ''each day'' StartTimerEventType [''end''], plain_node ''end'' EndEventType []]"

lemma start_timers_arm: "fst (ArmStartTimers start_env text_payload ''p'' ''D'' start_graph at_gateway) = Inr ()"
  by code_simp

theorem start_timers_replaced_witness:
  "\<exists>w'. ArmStartTimers start_env text_payload ''p'' ''D'' start_graph at_gateway = (Inr (), w') \<and>
     map (firing text_payload) (filter (is_start_of text_payload ''p'') (timer_jobs (tables w'))) = [(''each day'', 86400000)]"
proof -
  obtain w' where run: "ArmStartTimers start_env text_payload ''p'' ''D'' start_graph at_gateway = (Inr (), w')"
    using start_timers_arm by (metis prod.collapse)
  have "text_payload (e_marshal start_env (start_payload p)) = Some (start_payload p)" for p
    by (simp add: start_env_def text_payload_text)
  note start_timers_replaced [OF this run]
  moreover have "first_firings start_env (map snd start_graph) = [(''each day'', 86400000)]" by code_simp
  ultimately show ?thesis using run by auto
qed

end
