(* ===== verification/Service_Moves.thy ===== *)
theory Service_Moves
  imports Service_Jobs
begin

text \<open>
  Tokens moved by hand: back to an earlier element (\<open>runtime/step_back.go\<close>, \<open>service/step_back_path.go\<close>) and to another one
  (\<open>runtime/modification.go\<close>).

  \<open>history\<close> holds the entries of the audit log that record moves of executions, oldest first; a step back adds its own.
\<close>

subsection \<open>The path of a token\<close>

record Move =
  mv_ExecutionID :: uuid
  FromNode :: string
  ToNode :: string
  mv_StepBack :: bool
  mv_RequestID :: uuid

definition IsStepBackTarget :: "Node \<Rightarrow> bool" where
  "IsStepBackTarget n \<longleftrightarrow> MultiInstance n = None \<and> Type n \<in> {UserTaskType, ServiceTaskType, IntermediateCatchEventType,
     IntermediateTimerEventType, IntermediateMessageCatchEventType, IntermediateSignalCatchEventType,
     IntermediateConditionalCatchEventType, EventBasedGatewayType, SubProcessType, CallActivityType}"

definition isBarrier :: "graph \<Rightarrow> string \<Rightarrow> bool" where
  "isBarrier g el \<longleftrightarrow> (case map_of g el of Some n \<Rightarrow> Type n \<in> {ParallelGatewayType, InclusiveGatewayType} | None \<Rightarrow> False)"

definition keep_step :: "graph \<Rightarrow> string \<Rightarrow> string \<Rightarrow> string list \<Rightarrow> string list" where
  "keep_step g scope el trail =
     (case map_of g el of
        None \<Rightarrow> trail
      | Some n \<Rightarrow> if \<not> IsStepBackTarget n \<or> ParentScope n \<noteq> scope then trail
          else if trail \<noteq> [] \<and> last trail = el then trail else trail @ [el])"

text \<open>The loop that pops a path, from an index downwards: the path up to the first match.\<close>

fun pop_from :: "nat \<Rightarrow> string \<Rightarrow> string list \<Rightarrow> string list" where
  "pop_from 0 to trail = trail"
| "pop_from (Suc i) to trail = (if trail ! i = to then take (Suc i) trail else pop_from i to trail)"

definition pop_path :: "string \<Rightarrow> string list \<Rightarrow> string list" where
  "pop_path to trail = pop_from (length trail - 1) to trail"

definition path_step :: "graph \<Rightarrow> string \<Rightarrow> uuid \<Rightarrow> Move \<Rightarrow> string list \<times> bool \<Rightarrow> string list \<times> bool" where
  "path_step g scope eid l s =
     (if mv_ExecutionID l \<noteq> eid then s
      else
        let trail = (if snd s then keep_step g scope (FromNode l) (fst s) else fst s) in
        if mv_StepBack l then (pop_path (ToNode l) trail, False)
        else
          let trail' = (if isBarrier g (FromNode l) then [] else trail) in
          (if isBarrier g (ToNode l) then [] else keep_step g scope (ToNode l) trail', False))"

definition StepBackPath :: "Move list \<Rightarrow> graph \<Rightarrow> uuid \<Rightarrow> string \<Rightarrow> string list" where
  "StepBackPath logs g eid scope = fst (fold (path_step g scope eid) logs ([], True))"

subsection \<open>Stepping back\<close>

record StepBackArgs =
  sb_InstanceID :: uuid
  sb_ExecutionID :: uuid
  sb_ElementID :: string
  Steps :: int
  DryRun :: bool
  sb_RequestID :: uuid

record StepBackResult =
  sr_ExecutionID :: uuid
  FromElementID :: string
  ToElementID :: string
  Applied :: bool

definition refuse :: "string \<Rightarrow> 'a eng" where
  "refuse why = halt (Error (Wrapped why (GoError ''step back refused'')))"

definition GetActiveExecutions :: "uuid \<Rightarrow> db \<Rightarrow> Execution list" where
  "GetActiveExecutions inst d = filter (\<lambda>e. exec_instance e = inst \<and> exec_is_active e) (executions d)"

text \<open>Triggers and compensation handlers have a colon in their path.\<close>

definition stepBackSource :: "StepBackArgs \<Rightarrow> Execution eng" where
  "stepBackSource a =
     bindE (read (\<lambda>d. filter (\<lambda>e. exec_status e = ExecWaiting \<and> (case exec_path e of Some p \<Rightarrow> CHR '':'' \<notin> set p | None \<Rightarrow> True) \<and>
         (if sb_ExecutionID a \<noteq> uuid_Nil then exec_id e = sb_ExecutionID a else sb_ElementID a \<noteq> [] \<and> exec_element e = sb_ElementID a))
         (GetActiveExecutions (sb_InstanceID a) d))) (\<lambda>found.
       if sb_ExecutionID a = uuid_Nil \<and> sb_ElementID a = [] then refuse ''executionId or elementId is required''
       else case found of
         [] \<Rightarrow> refuse ''no waiting token found''
       | [e] \<Rightarrow> ret e
       | _ \<Rightarrow> refuse ''tokens wait there, give the executionId'')"

text \<open>The element to go back to.\<close>

definition step_target :: "Move list \<Rightarrow> graph \<Rightarrow> Execution \<Rightarrow> Node \<Rightarrow> nat \<Rightarrow> Node eng" where
  "step_target history g e node steps =
     (let trail = StepBackPath history g (exec_id e) (ParentScope node) in
      if trail \<noteq> [] \<and> last trail \<noteq> ID node \<and> IsStepBackTarget node then refuse ''the history of the token is incomplete''
      else
        let earlier = (if trail \<noteq> [] \<and> last trail = ID node then butlast trail else trail) in
        if length earlier < steps then refuse ''no earlier step to go back to''
        else case map_of g (earlier ! (length earlier - steps)) of None \<Rightarrow> halt Panic | Some n \<Rightarrow> ret n)"

text \<open>Whether the token at an element can go back at all.\<close>

definition may_step_back :: "uuid \<Rightarrow> Execution \<Rightarrow> Node \<Rightarrow> unit eng" where
  "may_step_back inst e node =
     (if MultiInstance node \<noteq> None then refuse ''a multi-instance activity''
      else if Type node \<in> {SubProcessType, CallActivityType, EventSubProcessType} then refuse ''step back the token inside instead''
      else bindE (read (lookupInnerInstance inst (exec_id e))) (\<lambda>inner. case inner of
        Some _ \<Rightarrow> refuse ''the token is an instance of a multi-instance activity''
      | None \<Rightarrow> bindE (read (HasOpenIncidentOnExecution inst (exec_id e))) (\<lambda>inc.
          if \<not> IsStepBackTarget node \<and> \<not> inc then refuse ''the token is not waiting there'' else ret ())))"

definition step_back_tx :: "uuid \<Rightarrow> uuid \<Rightarrow> string \<Rightarrow> string \<Rightarrow> unit eng" where
  "step_back_tx inst eid from_el to_el = transaction (
     bindE (read (\<lambda>d. find (exec_key inst eid) (executions d))) (\<lambda>r. case r of
       None \<Rightarrow> fail ''failed to lock the token''
     | Some e \<Rightarrow>
         if exec_status e \<noteq> ExecWaiting \<or> exec_element e \<noteq> from_el then refuse ''the token left meanwhile''
         else thenE (upd (\<lambda>d. snd (snd (CancelExecutionWorkTx inst eid d))))
           (upd (UpdateExecutionStatusAndNodeTx inst eid ExecActive to_el))))"

definition maxStepBackSteps :: int where
  "maxStepBackSteps = 50"

text \<open>The token and where it goes from and to, if all conditions hold.\<close>

definition plan_step_back :: "graph \<Rightarrow> Move list \<Rightarrow> StepBackArgs \<Rightarrow> StepBackResult eng" where
  "plan_step_back g history a =
     (let steps = (if Steps a \<le> 0 then 1 else Steps a); inst = sb_InstanceID a in
      if steps > maxStepBackSteps then refuse ''too many steps at once''
      else bindE (read (\<lambda>d. find (\<lambda>p. pi_id p = inst) (process_instances d))) (\<lambda>p. case p of
        None \<Rightarrow> fail ''process instance not found''
      | Some p \<Rightarrow>
          if pi_status p \<noteq> InstanceRunning then refuse ''the process instance is not running''
          else bindE (stepBackSource a) (\<lambda>e. case map_of g (exec_element e) of
            None \<Rightarrow> refuse ''element is not in the process''
          | Some node \<Rightarrow>
              thenE (may_step_back inst e node)
             (bindE (step_target history g e node (nat steps)) (\<lambda>target.
                ret \<lparr>sr_ExecutionID = exec_id e, FromElementID = ID node, ToElementID = ID target, Applied = False\<rparr>)))))"

definition moved_back :: "StepBackArgs \<Rightarrow> StepBackResult \<Rightarrow> Move" where
  "moved_back a res = \<lparr>mv_ExecutionID = sr_ExecutionID res, FromNode = FromElementID res, ToNode = ToElementID res, mv_StepBack = True,
     mv_RequestID = sb_RequestID a\<rparr>"

definition StepBack :: "graph \<Rightarrow> (uuid \<Rightarrow> unit eng) \<Rightarrow> Move list \<Rightarrow> StepBackArgs \<Rightarrow> (StepBackResult \<times> Move list) eng" where
  "StepBack g go history a =
     bindE (plan_step_back g history a) (\<lambda>res.
       if DryRun a then ret (res, history)
       else thenE (step_back_tx (sb_InstanceID a) (sr_ExecutionID res) (FromElementID res) (ToElementID res))
         (thenE (go (sr_ExecutionID res)) (ret (res\<lparr>Applied := True\<rparr>, history @ [moved_back a res]))))"

text \<open>The command; delivered again, it is done if its move is in the history.\<close>

definition stepBack :: "env \<Rightarrow> (uuid \<Rightarrow> unit eng) \<Rightarrow> bool \<Rightarrow> Move list \<Rightarrow> StepBackArgs \<Rightarrow> (StepBackResult \<times> Move list) eng" where
  "stepBack E go redelivered history a =
     (if redelivered \<and> \<not> DryRun a \<and> (\<exists>l \<in> set history. mv_RequestID l = sb_RequestID a)
      then thenE (resumeStranded E go (sb_InstanceID a))
        (ret (\<lparr>sr_ExecutionID = sb_ExecutionID a, FromElementID = [], ToElementID = [], Applied = True\<rparr>, history))
      else bindE (graph_of E (sb_InstanceID a)) (\<lambda>g. StepBack g go history a))"

subsection \<open>Modification\<close>

record MoveInstruction =
  SourceElementID :: string
  TargetElementID :: string

definition move_one :: "env \<Rightarrow> uuid \<Rightarrow> string \<Rightarrow> Execution \<Rightarrow> uuid eng" where
  "move_one E inst target e = transaction (
     thenE (upd (CompleteExecutionTx (exec_instance e) (exec_id e)))
    (thenE (upd (\<lambda>d. snd (snd (CancelExecutionWorkTx inst (exec_id e) d))))
    (bindE (draw E) (\<lambda>i. thenE (try_upd (CreateExecutionTx2 i inst target)) (ret i)))))"

primrec move_matched :: "env \<Rightarrow> uuid \<Rightarrow> string \<Rightarrow> Execution list \<Rightarrow> uuid list eng" where
  "move_matched E inst target [] = ret []"
| "move_matched E inst target (e # es) = bindE (move_one E inst target e) (\<lambda>i. bindE (move_matched E inst target es) (\<lambda>is. ret (i # is)))"

primrec apply_moves :: "env \<Rightarrow> graph \<Rightarrow> uuid \<Rightarrow> MoveInstruction list \<Rightarrow> uuid list eng" where
  "apply_moves E g inst [] = ret []"
| "apply_moves E g inst (m # ms) =
     (if map_of g (TargetElementID m) = None then fail ''target element not found in process graph''
      else bindE (read (\<lambda>d. filter (\<lambda>e. exec_element e = SourceElementID m) (GetActiveExecutions inst d))) (\<lambda>found.
        if found = [] then fail ''no active token found at element''
        else bindE (move_matched E inst (TargetElementID m) found) (\<lambda>is. bindE (apply_moves E g inst ms) (\<lambda>js. ret (is @ js)))))"

definition ModifyInstance :: "env \<Rightarrow> graph \<Rightarrow> (uuid \<Rightarrow> unit eng) \<Rightarrow> uuid \<Rightarrow> MoveInstruction list \<Rightarrow> uuid list eng" where
  "ModifyInstance E g go inst moves = bindE (apply_moves E g inst moves) (\<lambda>ids. thenE (each go ids) (ret ids))"

definition modify :: "env \<Rightarrow> (uuid \<Rightarrow> unit eng) \<Rightarrow> uuid \<Rightarrow> MoveInstruction list \<Rightarrow> uuid list eng" where
  "modify E go inst moves = bindE (graph_of E inst) (\<lambda>g. ModifyInstance E g go inst moves)"

end
