(* ===== verification/Service_Move_Claims.thy ===== *)
theory Service_Move_Claims
  imports Service_Moves Service_Props
begin

text \<open>
  The properties of the path of a token that is stepped back by hand: what the path holds, and what a step back takes off it.
\<close>

subsection \<open>The path of a token\<close>

text \<open>An element of the path: a wait state of the scope.\<close>

definition wait_state :: "graph \<Rightarrow> string \<Rightarrow> string \<Rightarrow> bool" where
  "wait_state g scope el \<longleftrightarrow> (\<exists>n. map_of g el = Some n \<and> IsStepBackTarget n \<and> ParentScope n = scope)"

definition path_ok :: "graph \<Rightarrow> string \<Rightarrow> string list \<Rightarrow> bool" where
  "path_ok g scope p \<longleftrightarrow> (\<forall>el \<in> set p. wait_state g scope el) \<and> distinct_adj p"

lemma keep_step_ok: "path_ok g scope p \<Longrightarrow> path_ok g scope (keep_step g scope el p)"
  unfolding path_ok_def keep_step_def wait_state_def by (auto simp: distinct_adj_append_iff split: option.split)

lemma pop_from_take: "\<exists>k. pop_from i to p = take k p"
  by (induction i) (auto intro: exI [of _ "length p"])

lemma path_ok_take: "path_ok g scope p \<Longrightarrow> path_ok g scope (take k p)"
proof -
  assume ok: "path_ok g scope p"
  have "distinct_adj (take k p)" using ok distinct_adj_appendD1 [of "take k p" "drop k p"] unfolding path_ok_def by simp
  then show ?thesis using ok unfolding path_ok_def by (auto dest: in_set_takeD)
qed

lemma path_step_ok: "path_ok g scope (fst s) \<Longrightarrow> path_ok g scope (fst (path_step g scope eid l s))"
proof -
  assume ok: "path_ok g scope (fst s)"
  have nil: "path_ok g scope []" by (simp add: path_ok_def)
  have pop: "path_ok g scope p \<Longrightarrow> path_ok g scope (pop_path to p)" for to p
    unfolding pop_path_def using pop_from_take path_ok_take by metis
  show ?thesis unfolding path_step_def Let_def using ok nil pop by (simp add: keep_step_ok)
qed

text \<open>The path of a token holds wait states of its own scope only, and none twice in a row.\<close>

theorem StepBackPath_ok: "path_ok g scope (StepBackPath logs g eid scope)"
proof -
  have "path_ok g scope (fst (fold (path_step g scope eid) logs s))" if "path_ok g scope (fst s)" for s
    using that by (induction logs arbitrary: s) (simp_all add: path_step_ok)
  moreover have "path_ok g scope (fst ([] :: string list, True))" by (simp add: path_ok_def)
  ultimately show ?thesis unfolding StepBackPath_def by blast
qed

subsection \<open>What a step back takes off the path\<close>

lemma pop_from_last:
  assumes "k < i" and "i \<le> length p" and "p ! k = to"
  shows "\<exists>j. k \<le> j \<and> j < i \<and> p ! j = to \<and> (\<forall>x. j < x \<and> x < i \<longrightarrow> p ! x \<noteq> to) \<and> pop_from i to p = take (Suc j) p"
  using assms
proof (induction i)
  case (Suc i)
  show ?case
  proof (cases "p ! i = to")
    case False
    with Suc.prems have "k < i" by (metis less_SucE)
    with Suc obtain j where "k \<le> j" "j < i" "p ! j = to" "\<forall>x. j < x \<and> x < i \<longrightarrow> p ! x \<noteq> to" "pop_from i to p = take (Suc j) p" by auto
    with False show ?thesis by (intro exI [of _ j]) (auto simp: less_Suc_eq)
  qed (use Suc.prems in \<open>auto intro!: exI [of _ i]\<close>)
qed simp

lemma path_step_first: "snd (path_step g scope eid l s) \<longleftrightarrow> mv_ExecutionID l \<noteq> eid \<and> snd s"
  by (simp add: path_step_def Let_def)

lemma fold_path_first: "snd (fold (path_step g scope eid) logs s) \<longleftrightarrow> (\<forall>l \<in> set logs. mv_ExecutionID l \<noteq> eid) \<and> snd s"
  by (induction logs arbitrary: s) (auto simp: path_step_first)


text \<open>A loop between two tasks: one step back is exact, three steps are not.\<close>

definition loop_graph :: graph where
  "loop_graph = [plain_node ''a'' UserTaskType [''b''], plain_node ''b'' UserTaskType [''a''], plain_node ''c'' UserTaskType [''end'']]"

definition move_to :: "bool \<Rightarrow> string \<Rightarrow> string \<Rightarrow> Move" where
  "move_to back x y = \<lparr>mv_ExecutionID = ''e'', FromNode = x, ToNode = y, mv_StepBack = back, mv_RequestID = uuid_Nil\<rparr>"

definition loop_history :: "Move list" where
  "loop_history = [move_to False ''a'' ''b'', move_to False ''b'' ''a'', move_to False ''a'' ''c'']"

lemma loop_path: "StepBackPath loop_history loop_graph ''e'' [] = [''a'', ''b'', ''a'', ''c'']"
  by code_simp


end
