(* ===== verification/Spec2Isabelle.thy ===== *)
theory Spec2Isabelle
  imports Gateways Feel_Semantics Feel_Api Decision_Table Timer Builder_Scopes Runtime_Props Runtime_Effects Message_Claims Service_Claims Service_Timer_Claims Service_Move_Claims
begin

text \<open>
  A verification library for goflow, a BPMN 2.0 process engine in Go over a PostgreSQL database.

  \<^bold>\<open>The program.\<close> A deployed process is a graph of elements (\<open>internal/engine\<close>). An instance of it is a set of
  rows: executions (tokens, in a tree through their parents), gateway states, tasks, jobs, timers, event subscriptions, variables,
  incidents (\<open>internal/repository\<close>). The runtime (\<open>internal/runtime\<close>) takes an execution and moves it from element to element
  until it waits for something outside (a person, a worker, a timer, a message, a signal, another instance) or ends; gateways
  and sub-processes create child executions and join them. Conditions, mappings and scripts are FEEL
  (\<open>internal/feel\<close>) or CEL expressions (\<open>internal/common\<close>), business rule tasks evaluate DMN tables (\<open>internal/dmn\<close>), timers are ISO
  8601 texts or cron expressions (\<open>internal/timer\<close>). Services (\<open>internal/service\<close>) and controllers (\<open>internal/api\<close>, \<open>internal/zeebegrpc\<close>)
  start, resume and end instances through the runtime.

  \<^bold>\<open>The theories.\<close>
  \<^item> \<open>Prelude\<close>: strings as Go's \<open>strings\<close> package treats them, association lists for Go maps, statements on tables
    (\<open>update_where\<close>, \<open>delete_where\<close>), results as sums.
  \<^item> \<open>Graph\<close>: \<open>engine/node.go\<close>, \<open>multi_instance.go\<close>, \<open>errors.go\<close>: nodes, flows, the search for the
    catcher of an error or escalation. The search ends, finds a catcher and misses none.
  \<^item> \<open>Bpmn_Parser\<close>, \<open>Graph_Builder\<close>: \<open>parser/parser.go\<close> and \<open>engine/build.go\<close>, \<open>subprocess.go\<close>, \<open>multi_instance.go\<close>: the
    elements of a BPMN file, and the graph made of them: sub-processes flattened, nodes, edges, scopes, links, compensation handlers.
    \<open>Builder_Props\<close>: every stage keeps the graph well-formed (the locale \<open>build_invariant\<close>, interpreted for well-formedness, for the
    flows and for the scopes). \<open>Builder_Scopes\<close>: no flow is lost, scopes nest (so the searches of \<open>Graph\<close> end), sub-processes have their start.
  \<^item> \<open>Flow_Resolution\<close>: \<open>common/condition.go\<close>, \<open>io_mapping.go\<close>: the normalisation of conditions, the choice of CEL or FEEL,
    which flows gateways take.
  \<^item> \<open>Store\<close>, \<open>Exec_Tree\<close>, \<open>Scope_Variables\<close>: the statements of \<open>engine_repository.go\<close>, \<open>subprocess_repository.go\<close>,
    \<open>boundary_repository.go\<close>, \<open>compensation_repository.go\<close> and \<open>scope_variables.go\<close>. \<open>execs_wf\<close>, the forest of executions,
    is the invariant; scopes are closed, interrupted and searched on it.
  \<^item> \<open>Gateways\<close>: \<open>parallel_gateway_executor.go\<close>, \<open>executor_inclusive_gateway.go\<close>: a fork and its join, in any order of arrivals.
  \<^item> \<open>Go_Time\<close>, \<open>Feel_Value\<close>, \<open>Feel_Builtins\<close>, \<open>Feel_Eval\<close>, \<open>Feel_Types\<close>, \<open>Feel_Semantics\<close>: the values, operators, built-in functions
    and evaluator of \<open>internal/feel\<close>, with a type invariant that evaluation keeps.
  \<^item> \<open>Feel_Lexer\<close>, \<open>Feel_Parser\<close>, \<open>Feel_Syntax\<close>, \<open>Feel_Api\<close>: its lexer, parser, entry points and the cache shared by concurrent
    callers.
  \<^item> \<open>Decision_Table\<close>: \<open>internal/dmn\<close>, decision tables by every hit policy.
  \<^item> \<open>Cron\<close>, \<open>Timer\<close>: \<open>internal/timer\<close>, when timers fire.
  \<^item> \<open>Runtime_Base\<close>, \<open>Runtime_Ops\<close>, \<open>Runtime_Tasks\<close>, \<open>Runtime_Scopes\<close>, \<open>Runtime_Loop\<close>, \<open>Runtime_Run\<close>: the element
    executors of \<open>internal/runtime\<close> and its main loop \<open>ExecuteExecution\<close>, in a state and error monad \<open>eng\<close> on the tables, the graph caches
    and the count of drawn UUIDs.
  \<^item> \<open>Runtime_Changes\<close>: the abstract specification: what one statement of the engine may do to the tables
    (\<open>change\<close>), and a logic (\<open>safe\<close>) for programs of the monad. \<open>Runtime_Safe\<close>: every executor is safe.
    \<open>Runtime_Invariants\<close>: the interpreter is, and what all changes keep every run keeps (the locale \<open>stable\<close>, interpreted for the forest,
    for settled rows and for finished instances). \<open>Runtime_Fuel\<close>: more fuel does not change a run that returned.
    \<open>Runtime_Props\<close>, \<open>Runtime_Effects\<close>: the properties of the runtime. \<open>Runtime_Examples\<close>: small processes for the witnesses.

  \<^item> \<open>Message_Correlation\<close>, \<open>Message_Props\<close>, \<open>Message_Claims\<close>: \<open>runtime/messages.go\<close> and \<open>conditional.go\<close>: publication, correlation, kept
    messages and the watcher of conditions. The locale \<open>interpreter\<close> states what they and the commands rely on of what continues an
    execution, and is interpreted on \<open>ExecuteExecution\<close>. A message goes at most once to each process, now or kept.
  \<^item> \<open>Service_Jobs\<close>, \<open>Service_Props\<close>, \<open>Service_Claims\<close>: jobs, user tasks, incidents and their commands (\<open>job_service.go\<close>,
    \<open>external_task_repository.go\<close>, \<open>distributed_claims.go\<close>, \<open>task_service.go\<close>, \<open>task_repository.go\<close>, \<open>incident_service.go\<close>,
    \<open>runtime/commands.go\<close>): handed out to one worker, completed once, and where a settled row is opened again.
  \<^item> \<open>Service_Timers\<close>, \<open>Service_Timer_Claims\<close>: \<open>timer_scheduler.go\<close> and the timer start events (\<open>start_events.go\<close> of the services and of the
    runtime): what a timer that fires does, cycles, missed occurrences, the start timers of a deployed version.
  \<^item> \<open>Service_Moves\<close>, \<open>Service_Move_Claims\<close>: \<open>step_back.go\<close>, \<open>step_back_path.go\<close>, \<open>modification.go\<close>: tokens moved by hand;
    the path of a token holds wait states of its scope only, and what a step back takes off it.

  \<^bold>\<open>Parameters.\<close> Code outside the repository is an argument: \<open>golib\<close> (classes of runes, case folding, regular expressions, float64
  conversions, formatting), \<open>timelib\<close> (time layouts and zones), the CEL interpreter, \<open>uuid.New\<close> and \<open>uuid.Parse\<close>, JSON text, the clock, the
  deployed processes and decisions (\<open>env\<close>). Where a property depends on what such code promises, that is a hypothesis, and the
  witness instantiates it.

  \<^bold>\<open>Integers and numbers.\<close> Go's \<open>int\<close> is a 64-bit integer with its wrap-around written out where it can overflow (ranges, durations,
  cron steps); cron fields are \<open>64 word\<close>; FEEL decimals are a rational with a scale; float64 operations are parameters.

  \<^bold>\<open>Fuel.\<close> Loops that end have bounds that are enough, and it is proved: \<open>Suc\<close> of the length of the tree for walks in it,
  the number of nodes plus 2 for the search for catchers and for the ends of nested scopes, the number of tokens for the parser, 130 steps for
  the bits of a cron field, 100002 for iterating over a range. The chain of calling instances is
  bounded by 66 for errors that propagate to callers and by the number of instances for their termination; beyond it the model
  answers \<open>OutOfFuel\<close>. Missed occurrences of a cycle and batches of due timers are taken with fuel; for the former enough of it is proved to
  exist. A process can go round in circles for ever, so \<open>run\<close> takes fuel, and more of it never changes a result.

  \<^bold>\<open>Not modelled.\<close> Concurrency of runs on one database (row locks serialise them; the claims of timers and of jobs on a cluster, which are
  not serialised, are modelled with interference), lost connections, the audit and event logs, metrics, notifications, background archiving, summer
  time, the XML decoding of BPMN and DMN, the command bus and its partitions, the read models of the repositories, the HTTP and gRPC layers.
\<close>

subsection \<open>The specification of the engine\<close>



end
